(* ===== verification/Prelude.thy ===== *)
theory Prelude
  imports Main "HOL-Library.Monad_Syntax"
begin

text \<open>
  Shared material of the development: the type names the components use for Go's basic types,
  the wrap-around of 64-bit integers, Go's truncating division, and generic lemmas on lists and
  maps. Go strings are byte strings (\<open>char list\<close>); an instant is the number of nanoseconds since
  the Unix epoch (UTC), a duration a number of nanoseconds.
\<close>

named_theorems step_simps \<open>unfolding rules of the state-changing operations\<close>
named_theorems frame_simps \<open>fields an operation leaves alone\<close>

type_synonym gostr = string
type_synonym time = int
type_synonym duration = int

abbreviation (input) second :: duration where "second \<equiv> 1000000000"
abbreviation (input) minute :: duration where "minute \<equiv> 60000000000"
abbreviation (input) hour :: duration where "hour \<equiv> 3600000000000"

text \<open>Go's zero \<open>time.Time\<close> is 1 January of year 1, UTC; \<open>IsZero\<close> tests for it.\<close>

definition zero_time :: time where
  "zero_time = -62135596800000000000"

definition IsZero :: "time \<Rightarrow> bool" where
  "IsZero t \<longleftrightarrow> t = zero_time"

subsection \<open>64-bit integers\<close>

definition i64 :: "int \<Rightarrow> int" where
  "i64 x = (x + 2 ^ 63) mod 2 ^ 64 - 2 ^ 63"

definition is_i64 :: "int \<Rightarrow> bool" where
  "is_i64 x \<longleftrightarrow> - (2 ^ 63) \<le> x \<and> x < 2 ^ 63"

lemma i64_id [simp]: "is_i64 x \<Longrightarrow> i64 x = x"
  by (simp add: i64_def is_i64_def)

lemma is_i64_i64 [simp]: "is_i64 (i64 x)"
proof -
  have "0 \<le> (x + 2 ^ 63) mod 2 ^ 64" and "(x + 2 ^ 63) mod 2 ^ 64 < 2 ^ 64"
    by simp_all
  then show ?thesis by (simp add: i64_def is_i64_def)
qed

lemma i64_idem [simp]: "i64 (i64 x) = i64 x"
  by (rule i64_id) simp

lemma i64_mod: "i64 x mod 2 ^ 64 = x mod 2 ^ 64"
  by (simp add: i64_def mod_diff_left_eq)

lemma i64_cong: "x mod 2 ^ 64 = y mod 2 ^ 64 \<Longrightarrow> i64 x = i64 y"
  unfolding i64_def by (metis mod_add_left_eq)

lemma i64_add_left [simp]: "i64 (i64 x + y) = i64 (x + y)"
  by (rule i64_cong) (metis i64_mod mod_add_left_eq)

lemma i64_add_right [simp]: "i64 (x + i64 y) = i64 (x + y)"
  using i64_add_left [of y x] by (simp add: add.commute)

lemma i64_0 [simp]: "i64 0 = 0"
  by (simp add: is_i64_def)

lemma is_i64_0 [simp]: "is_i64 0"
  by (simp add: is_i64_def)

text \<open>Go's \<open>/\<close> and \<open>%\<close> on signed integers truncate towards zero.\<close>

definition quot :: "int \<Rightarrow> int \<Rightarrow> int" where
  "quot a b = sgn a * sgn b * (\<bar>a\<bar> div \<bar>b\<bar>)"

definition grem :: "int \<Rightarrow> int \<Rightarrow> int" where
  "grem a b = a - quot a b * b"

lemma quot_nonneg [simp]: "0 \<le> a \<Longrightarrow> 0 < b \<Longrightarrow> quot a b = a div b"
  by (cases "a = 0") (simp_all add: quot_def)

lemma grem_nonneg [simp]: "0 \<le> a \<Longrightarrow> 0 < b \<Longrightarrow> grem a b = a mod b"
  by (simp add: grem_def minus_div_mult_eq_mod)

text \<open>\<open>t.Sub(u)\<close> saturates at the bounds of a 64-bit duration.\<close>

definition time_sub :: "time \<Rightarrow> time \<Rightarrow> duration" where
  "time_sub t u = max (- (2 ^ 63)) (min (2 ^ 63 - 1) (t - u))"

lemma time_sub_eq [simp]: "is_i64 (t - u) \<Longrightarrow> time_sub t u = t - u"
  by (simp add: time_sub_def is_i64_def)

lemma time_sub_nonneg: "u \<le> t \<Longrightarrow> 0 \<le> time_sub t u"
  by (simp add: time_sub_def)

lemma time_sub_le: "u \<le> t \<Longrightarrow> time_sub t u \<le> t - u"
  by (simp add: time_sub_def)

subsection \<open>Lists and maps\<close>

text \<open>The last \<open>n\<close> elements of a list: \<open>xs[len(xs)-n:]\<close>.\<close>

definition take_last :: "nat \<Rightarrow> 'a list \<Rightarrow> 'a list" where
  "take_last n xs = drop (length xs - n) xs"

lemma length_take_last [simp]: "length (take_last n xs) = min n (length xs)"
  by (auto simp: take_last_def)

lemma take_last_all [simp]: "length xs \<le> n \<Longrightarrow> take_last n xs = xs"
  by (simp add: take_last_def)

lemma set_take_last: "set (take_last n xs) \<subseteq> set xs"
  by (simp add: take_last_def set_drop_subset)

lemma take_last_take_last_snoc:
  "take_last n (take_last n xs @ [x]) = take_last n (xs @ [x])"
proof (cases "n \<le> length xs")
  case True
  then have "length (take_last n xs) = n" by simp
  then show ?thesis using True by (auto simp: take_last_def Suc_diff_le)
next
  case False
  then show ?thesis by simp
qed

lemma filter_le_length: "length (filter P xs) \<le> length xs"
  by simp

lemma map_of_map_upd:
  "(map_of xs)(k \<mapsto> v) = map_of ((k, v) # xs)"
  by simp

text \<open>Ranging over a Go map visits each key once, in an unspecified order: the order is an
  argument of the model, and \<open>iter_order\<close> says that it lists the keys of the map.\<close>

definition iter_order :: "'k list \<Rightarrow> ('k \<rightharpoonup> 'v) \<Rightarrow> bool" where
  "iter_order ks m \<longleftrightarrow> distinct ks \<and> set ks = dom m"

lemma iter_orderD: "iter_order ks m \<Longrightarrow> k \<in> set ks \<longleftrightarrow> (\<exists>v. m k = Some v)"
  by (auto simp: iter_order_def dom_def)

lemma iter_order_empty [simp]: "iter_order ks Map.empty \<longleftrightarrow> ks = []"
  by (auto simp: iter_order_def)

lemma iter_order_length: "iter_order ks m \<Longrightarrow> length ks = card (dom m)"
  by (auto simp: iter_order_def distinct_card [symmetric])

end
