(* ===== verification/GoStrings.thy ===== *)
theory GoStrings
  imports Prelude
begin

text \<open>
  The operations of Go's \<open>strings\<close>, \<open>strconv\<close> and \<open>fmt\<close> packages that the source uses, on byte
  strings. White space and letter case are those of ASCII. \<open>Index\<close> and \<open>LastIndex\<close> return
  \<open>None\<close> where Go returns -1.
\<close>

subsection \<open>Prefixes, suffixes, search\<close>

definition HasPrefix :: "gostr \<Rightarrow> gostr \<Rightarrow> bool" where
  "HasPrefix s p \<longleftrightarrow> take (length p) s = p"

definition HasSuffix :: "gostr \<Rightarrow> gostr \<Rightarrow> bool" where
  "HasSuffix s p \<longleftrightarrow> length p \<le> length s \<and> drop (length s - length p) s = p"

definition TrimPrefix :: "gostr \<Rightarrow> gostr \<Rightarrow> gostr" where
  "TrimPrefix s p = (if HasPrefix s p then drop (length p) s else s)"

definition TrimSuffix :: "gostr \<Rightarrow> gostr \<Rightarrow> gostr" where
  "TrimSuffix s p = (if HasSuffix s p then take (length s - length p) s else s)"

lemma HasPrefix_Nil [simp]: "HasPrefix s []"
  by (simp add: HasPrefix_def)

lemma HasPrefix_append [simp]: "HasPrefix (p @ s) p"
  by (simp add: HasPrefix_def)

lemma HasPrefixE: "HasPrefix s p \<Longrightarrow> (\<And>r. s = p @ r \<Longrightarrow> thesis) \<Longrightarrow> thesis"
  unfolding HasPrefix_def by (metis append_take_drop_id)

lemma HasPrefix_iff: "HasPrefix s p \<longleftrightarrow> (\<exists>r. s = p @ r)"
  by (auto elim: HasPrefixE)

lemma HasPrefix_Cons [simp]: "HasPrefix (x # s) (y # p) \<longleftrightarrow> x = y \<and> HasPrefix s p"
  by (auto simp: HasPrefix_iff)

lemma HasPrefix_Nil_left [simp]: "HasPrefix [] p \<longleftrightarrow> p = []"
  by (auto simp: HasPrefix_iff)

lemma TrimPrefix_append [simp]: "TrimPrefix (p @ s) p = s"
  by (simp add: TrimPrefix_def)

lemma HasSuffix_append [simp]: "HasSuffix (s @ p) p"
  by (simp add: HasSuffix_def)

lemma HasSuffix_iff: "HasSuffix s p \<longleftrightarrow> (\<exists>r. s = r @ p)"
proof
  assume "HasSuffix s p"
  then have "s = take (length s - length p) s @ p"
    unfolding HasSuffix_def by (metis append_take_drop_id)
  then show "\<exists>r. s = r @ p" by blast
qed auto

fun Index :: "gostr \<Rightarrow> gostr \<Rightarrow> nat option" where
  "Index [] sub = (if sub = [] then Some 0 else None)"
| "Index (x # xs) sub =
     (if HasPrefix (x # xs) sub then Some 0 else map_option Suc (Index xs sub))"

definition Contains :: "gostr \<Rightarrow> gostr \<Rightarrow> bool" where
  "Contains s sub \<longleftrightarrow> Index s sub \<noteq> None"

lemma Index_SomeD: "Index s sub = Some i \<Longrightarrow> s = take i s @ sub @ drop (i + length sub) s"
proof (induction s sub arbitrary: i rule: Index.induct)
  case (1 sub)
  then show ?case by (auto split: if_splits)
next
  case (2 x xs sub)
  show ?case
  proof (cases "HasPrefix (x # xs) sub")
    case True
    then obtain r where r: "x # xs = sub @ r" by (rule HasPrefixE)
    from "2.prems" True have "i = 0" by simp
    with r show ?thesis by simp
  next
    case False
    with "2.prems" obtain j where "i = Suc j" "Index xs sub = Some j" by auto
    with "2.IH" [OF False] show ?thesis by simp
  qed
qed

lemma HasPrefix_length: "HasPrefix s p \<Longrightarrow> length p \<le> length s"
  by (auto simp: HasPrefix_iff)

lemma Index_le: "Index s sub = Some i \<Longrightarrow> i + length sub \<le> length s"
  by (induction s sub arbitrary: i rule: Index.induct)
    (auto split: if_splits dest: HasPrefix_length)

lemma Index_least: "Index s sub = Some i \<Longrightarrow> j < i \<Longrightarrow> \<not> HasPrefix (drop j s) sub"
proof (induction s sub arbitrary: i j rule: Index.induct)
  case (1 sub)
  then show ?case by (auto split: if_splits)
next
  case (2 x xs sub)
  then show ?case by (cases j) (auto split: if_splits)
qed

lemma Index_None: "Index s sub = None \<Longrightarrow> s \<noteq> a @ sub @ b"
proof (induction s sub arbitrary: a rule: Index.induct)
  case (1 sub)
  then show ?case by (auto split: if_splits)
next
  case (2 x xs sub)
  from "2.prems" have np: "\<not> HasPrefix (x # xs) sub" and no: "Index xs sub = None"
    by (auto split: if_splits)
  show ?case
  proof (cases a)
    case Nil
    with np show ?thesis by (auto simp: HasPrefix_iff)
  next
    case (Cons y ys)
    with "2.IH" [OF np no, of ys] show ?thesis by auto
  qed
qed

lemma Contains_iff: "Contains s sub \<longleftrightarrow> (\<exists>a b. s = a @ sub @ b)"
  unfolding Contains_def by (metis Index_None Index_SomeD not_Some_eq)

text \<open>\<open>IndexAny\<close>: the first position holding one of the given characters.\<close>

fun IndexAny :: "gostr \<Rightarrow> gostr \<Rightarrow> nat option" where
  "IndexAny [] cs = None"
| "IndexAny (x # xs) cs = (if x \<in> set cs then Some 0 else map_option Suc (IndexAny xs cs))"

lemma IndexAny_append: "set a \<inter> set cs = {} \<Longrightarrow> x \<in> set cs \<Longrightarrow>
  IndexAny (a @ x # b) cs = Some (length a)"
  by (induction a) auto

lemma IndexAny_None: "set a \<inter> set cs = {} \<Longrightarrow> IndexAny a cs = None"
  by (induction a) auto

text \<open>\<open>LastIndex\<close> of a one-byte separator.\<close>

fun LastIndexByte :: "gostr \<Rightarrow> char \<Rightarrow> nat option" where
  "LastIndexByte [] c = None"
| "LastIndexByte (x # xs) c =
     (case LastIndexByte xs c of Some i \<Rightarrow> Some (Suc i) | None \<Rightarrow> if x = c then Some 0 else None)"

lemma LastIndexByte_None [simp]: "c \<notin> set s \<Longrightarrow> LastIndexByte s c = None"
  by (induction s) auto

lemma LastIndexByte_append: "c \<notin> set b \<Longrightarrow> LastIndexByte (a @ c # b) c = Some (length a)"
  by (induction a) auto

lemma LastIndexByte_SomeD:
  "LastIndexByte s c = Some i \<Longrightarrow> s = take i s @ c # drop (Suc i) s \<and> c \<notin> set (drop (Suc i) s)"
proof (induction s arbitrary: i)
  case Nil
  then show ?case by simp
next
  case (Cons x xs)
  show ?case
  proof (cases "LastIndexByte xs c")
    case None
    have "c \<notin> set xs"
      using None
    proof (induction xs)
      case (Cons y ys)
      then show ?case by (auto split: option.splits if_splits)
    qed simp
    with None Cons.prems show ?thesis by (auto split: if_splits)
  next
    case (Some j)
    with Cons.IH [OF Some] Cons.prems show ?thesis by auto
  qed
qed

subsection \<open>Split and Join at a one-byte separator\<close>

fun Split :: "char \<Rightarrow> gostr \<Rightarrow> gostr list" where
  "Split c [] = [[]]"
| "Split c (x # xs) =
     (if x = c then [] # Split c xs
      else (case Split c xs of w # ws \<Rightarrow> (x # w) # ws | [] \<Rightarrow> [[x]]))"

fun Join :: "gostr \<Rightarrow> gostr list \<Rightarrow> gostr" where
  "Join sep [] = []"
| "Join sep [w] = w"
| "Join sep (w # v # ws) = w @ sep @ Join sep (v # ws)"

lemma Split_not_Nil [simp]: "Split c s \<noteq> []"
  by (induction s) (auto split: list.splits)

lemma Split_no_sep [simp]: "c \<notin> set s \<Longrightarrow> Split c s = [s]"
  by (induction s) auto

lemma Split_append: "c \<notin> set a \<Longrightarrow> Split c (a @ c # b) = a # Split c b"
  by (induction a) auto

lemma Split_elem: "w \<in> set (Split c s) \<Longrightarrow> c \<notin> set w"
  by (induction s arbitrary: w) (auto split: if_splits list.splits)

lemma Join_Cons: "ws \<noteq> [] \<Longrightarrow> Join sep (w # ws) = w @ sep @ Join sep ws"
  by (cases ws) auto

lemma Join_Split [simp]: "Join [c] (Split c s) = s"
proof (induction s)
  case Nil
  then show ?case by simp
next
  case (Cons x xs)
  obtain w ws where w: "Split c xs = w # ws"
    by (meson Split_not_Nil neq_Nil_conv)
  show ?case
  proof (cases "x = c")
    case True
    with Cons w show ?thesis by (simp add: Join_Cons)
  next
    case False
    have "Join [c] ((x # w) # ws) = x # Join [c] (w # ws)"
      by (cases ws) auto
    with False Cons w show ?thesis by simp
  qed
qed

lemma Split_Join: "ws \<noteq> [] \<Longrightarrow> \<forall>w \<in> set ws. c \<notin> set w \<Longrightarrow> Split c (Join [c] ws) = ws"
proof (induction ws)
  case Nil
  then show ?case by simp
next
  case (Cons w ws)
  show ?case
  proof (cases ws)
    case Nil
    with Cons.prems show ?thesis by simp
  next
    case (Cons v vs)
    with Cons.IH Cons.prems show ?thesis by (simp add: Split_append)
  qed
qed

text \<open>\<open>Split\<close> at a longer separator, by repeated search; the separator is not empty.\<close>

function SplitS :: "gostr \<Rightarrow> gostr \<Rightarrow> gostr list" where
  "SplitS sep s =
     (if sep = [] then map (\<lambda>c. [c]) s
      else case Index s sep of
             None \<Rightarrow> [s]
           | Some i \<Rightarrow> take i s # SplitS sep (drop (i + length sep) s))"
  by pat_completeness auto
termination
proof (relation "measure (\<lambda>(sep, s). length s)")
  fix sep s :: gostr and i
  assume "sep \<noteq> []" and "Index s sep = Some i"
  then show "((sep, drop (i + length sep) s), sep, s) \<in> measure (\<lambda>(sep, s). length s)"
    using Index_le [of s sep i] by (cases sep) auto
qed simp

declare SplitS.simps [simp del]

subsection \<open>White space and case\<close>

definition is_space :: "char \<Rightarrow> bool" where
  "is_space c \<longleftrightarrow> c \<in> {CHR '' '', CHR 0x09, CHR 0x0A, CHR 0x0B, CHR 0x0C, CHR 0x0D}"

definition TrimLeft :: "gostr \<Rightarrow> gostr" where
  "TrimLeft s = dropWhile is_space s"

definition TrimSpace :: "gostr \<Rightarrow> gostr" where
  "TrimSpace s = rev (dropWhile is_space (rev (dropWhile is_space s)))"

lemma dropWhile_hd_not: "xs = [] \<or> \<not> P (hd xs) \<Longrightarrow> dropWhile P xs = xs"
  by (cases xs) auto

lemma TrimSpace_id:
  "s \<noteq> [] \<Longrightarrow> \<not> is_space (hd s) \<Longrightarrow> \<not> is_space (last s) \<Longrightarrow> TrimSpace s = s"
  by (simp add: TrimSpace_def dropWhile_hd_not hd_rev)

lemma TrimSpace_no_space: "\<forall>c \<in> set s. \<not> is_space c \<Longrightarrow> TrimSpace s = s"
  by (cases "s = []") (simp_all add: TrimSpace_def [of "[]"] TrimSpace_id)

lemma set_TrimSpace: "set (TrimSpace s) \<subseteq> set s"
proof
  fix x assume "x \<in> set (TrimSpace s)"
  then have "x \<in> set (dropWhile is_space (rev (dropWhile is_space s)))"
    by (simp add: TrimSpace_def)
  then have "x \<in> set (rev (dropWhile is_space s))" by (rule set_dropWhileD)
  then have "x \<in> set (dropWhile is_space s)" by simp
  then show "x \<in> set s" by (rule set_dropWhileD)
qed

definition to_lower :: "char \<Rightarrow> char" where
  "to_lower c = (if (65::nat) \<le> of_char c \<and> of_char c \<le> (90::nat)
                 then char_of (of_char c + 32 :: nat) else c)"

definition ToLower :: "gostr \<Rightarrow> gostr" where
  "ToLower s = map to_lower s"

definition ReplaceChar :: "char \<Rightarrow> char \<Rightarrow> gostr \<Rightarrow> gostr" where
  "ReplaceChar a b s = map (\<lambda>c. if c = a then b else c) s"

subsection \<open>Decimal integers\<close>

definition digit_char :: "int \<Rightarrow> char" where
  "digit_char d = char_of (48 + d)"

definition is_digit :: "char \<Rightarrow> bool" where
  "is_digit c \<longleftrightarrow> (48::int) \<le> of_char c \<and> of_char c \<le> (57::int)"

definition digit_val :: "char \<Rightarrow> int" where
  "digit_val c = of_char c - 48"

function udec :: "int \<Rightarrow> gostr" where
  "udec n = (if n < 10 then [digit_char n] else udec (n div 10) @ [digit_char (n mod 10)])"
  by pat_completeness auto
termination by (relation "measure nat") auto

declare udec.simps [simp del]

text \<open>\<open>strconv.Itoa\<close> and \<open>%d\<close>.\<close>

definition Itoa :: "int \<Rightarrow> gostr" where
  "Itoa n = (if n < 0 then CHR ''-'' # udec (- n) else udec n)"

text \<open>The value of a string of digits.\<close>

definition dec_val :: "gostr \<Rightarrow> int" where
  "dec_val ds = fold (\<lambda>c n. 10 * n + digit_val c) ds 0"

lemma of_char_digit: "0 \<le> d \<Longrightarrow> d < 10 \<Longrightarrow> of_char (digit_char d) = 48 + d"
  by (simp add: digit_char_def)

lemma is_digit_digit_char [simp]: "0 \<le> d \<Longrightarrow> d < 10 \<Longrightarrow> is_digit (digit_char d)"
  by (simp add: is_digit_def of_char_digit)

lemma digit_val_digit_char [simp]: "0 \<le> d \<Longrightarrow> d < 10 \<Longrightarrow> digit_val (digit_char d) = d"
  by (simp add: digit_val_def of_char_digit)

lemma udec_nonempty [simp]: "udec n \<noteq> []"
  by (subst udec.simps) simp

lemma udec_digits: "0 \<le> n \<Longrightarrow> c \<in> set (udec n) \<Longrightarrow> is_digit c"
proof (induction n rule: udec.induct)
  case (1 n)
  then show ?case
    by (cases "n < 10") (auto simp: udec.simps [of n])
qed

lemma dec_val_snoc [simp]: "dec_val (ds @ [c]) = 10 * dec_val ds + digit_val c"
  by (simp add: dec_val_def)

lemma dec_val_udec [simp]: "0 \<le> n \<Longrightarrow> dec_val (udec n) = n"
proof (induction n rule: udec.induct)
  case (1 n)
  show ?case
  proof (cases "n < 10")
    case True
    with "1.prems" show ?thesis by (simp add: udec.simps [of n] dec_val_def)
  next
    case False
    with 1 show ?thesis by (simp add: udec.simps [of n])
  qed
qed

lemma udec_inj: "0 \<le> m \<Longrightarrow> 0 \<le> n \<Longrightarrow> udec m = udec n \<Longrightarrow> m = n"
  using dec_val_udec by metis

text \<open>\<open>fmt.Sscanf(s, "%d", &n)\<close> and the \<open>%d\<close> of longer formats: leading blanks are skipped, an
  optional sign and the longest run of digits are read; the rest of the input is returned. Failure
  (no digits, or a value that does not fit the bound) is \<open>None\<close>.\<close>

definition scan_int :: "int \<Rightarrow> int \<Rightarrow> gostr \<Rightarrow> (int \<times> gostr) option" where
  "scan_int lo hi s =
     (let s1 = dropWhile (\<lambda>c. c = CHR '' '' \<or> c = CHR 0x09) s;
          neg = (s1 \<noteq> [] \<and> hd s1 = CHR ''-'');
          s2 = (if s1 \<noteq> [] \<and> (hd s1 = CHR ''-'' \<or> hd s1 = CHR ''+'') then tl s1 else s1);
          ds = takeWhile is_digit s2;
          v = (if neg then - dec_val ds else dec_val ds)
      in if ds = [] \<or> v < lo \<or> hi < v then None else Some (v, dropWhile is_digit s2))"

text \<open>The same for an unsigned target: no sign is accepted. Blanks are skipped, a line feed is not.\<close>

definition scan_uint :: "int \<Rightarrow> gostr \<Rightarrow> (int \<times> gostr) option" where
  "scan_uint hi s =
     (let s1 = dropWhile (\<lambda>c. is_space c \<and> c \<noteq> CHR 0x0A) s;
          ds = takeWhile is_digit s1
      in if ds = [] \<or> hi < dec_val ds then None else Some (dec_val ds, dropWhile is_digit s1))"

text \<open>A literal of the format must be the next input.\<close>

definition scan_lit :: "gostr \<Rightarrow> gostr \<Rightarrow> gostr option" where
  "scan_lit lit s = (if HasPrefix s lit then Some (drop (length lit) s) else None)"

text \<open>\<open>strconv.ParseInt(s, 10, 64)\<close>: an optional sign and digits, nothing else.\<close>

definition ParseInt :: "gostr \<Rightarrow> int option" where
  "ParseInt s =
     (let neg = (s \<noteq> [] \<and> hd s = CHR ''-'');
          ds = (if s \<noteq> [] \<and> (hd s = CHR ''-'' \<or> hd s = CHR ''+'') then tl s else s);
          v = (if neg then - dec_val ds else dec_val ds)
      in if ds = [] \<or> \<not> list_all is_digit ds \<or> \<not> is_i64 v then None else Some v)"

lemma digit_not_sign: "is_digit c \<Longrightarrow> c \<noteq> CHR ''-'' \<and> c \<noteq> CHR ''+'' \<and> c \<noteq> CHR '' '' \<and> c \<noteq> CHR 0x09"
  by (auto simp: is_digit_def)

lemma scan_int_udec:
  assumes "0 \<le> n" "lo \<le> n" "n \<le> hi" "rest = [] \<or> \<not> is_digit (hd rest)"
  shows "scan_int lo hi (udec n @ rest) = Some (n, rest)"
proof -
  obtain c cs where u: "udec n = c # cs" by (meson udec_nonempty neq_Nil_conv)
  have all: "\<forall>x \<in> set (udec n). is_digit x" using assms(1) udec_digits by blast
  then have c: "c \<noteq> CHR ''-''" "c \<noteq> CHR ''+''" "c \<noteq> CHR '' ''" "c \<noteq> CHR 0x09"
    using digit_not_sign [of c] u by auto
  have tw: "takeWhile is_digit (udec n @ rest) = udec n"
    using all assms(4) by (auto simp: takeWhile_append2 takeWhile_eq_Nil_iff)
  have dw: "dropWhile is_digit (udec n @ rest) = rest"
    using all assms(4) by (auto simp: dropWhile_append2 dropWhile_hd_not)
  have skip: "dropWhile (\<lambda>c. c = CHR '' '' \<or> c = CHR 0x09) (udec n @ rest) = udec n @ rest"
    using u c by simp
  have hd: "hd (udec n @ rest) \<noteq> CHR ''-''" "hd (udec n @ rest) \<noteq> CHR ''+''"
    using u c by simp_all
  show ?thesis
    unfolding scan_int_def skip Let_def using hd assms(1-3) by (simp add: tw dw)
qed

lemma ParseInt_Itoa: "is_i64 n \<Longrightarrow> ParseInt (Itoa n) = Some n"
proof -
  assume n: "is_i64 n"
  show ?thesis
  proof (cases "n < 0")
    case True
    have "list_all is_digit (udec (- n))"
      using True udec_digits [of "- n"] by (auto simp: list_all_iff)
    with True n show ?thesis by (simp add: ParseInt_def Itoa_def Let_def)
  next
    case False
    obtain c cs where u: "udec n = c # cs" by (meson udec_nonempty neq_Nil_conv)
    have d: "list_all is_digit (udec n)"
      using False udec_digits [of n] by (auto simp: list_all_iff)
    with u digit_not_sign [of c] have "c \<noteq> CHR ''-''" "c \<noteq> CHR ''+''" by auto
    with u d False n dec_val_udec [of n] show ?thesis
      by (simp add: ParseInt_def Itoa_def Let_def)
  qed
qed

text \<open>Zero padding to a width, as \<open>%02d\<close> and the layouts of \<open>time.Format\<close>.\<close>

definition pad0 :: "nat \<Rightarrow> int \<Rightarrow> gostr" where
  "pad0 w n = replicate (w - length (udec n)) (CHR ''0'') @ udec n"

lemma dec_val_replicate0: "dec_val (replicate k (CHR ''0'') @ ds) = dec_val ds"
proof -
  have "fold (\<lambda>c n. 10 * n + digit_val c) (replicate k (CHR ''0'')) 0 = 0"
    by (induction k) (auto simp: digit_val_def)
  then show ?thesis by (simp add: dec_val_def)
qed

lemma dec_val_pad0 [simp]: "0 \<le> n \<Longrightarrow> dec_val (pad0 w n) = n"
  by (simp add: pad0_def dec_val_replicate0)

lemma pad0_digits: "0 \<le> n \<Longrightarrow> c \<in> set (pad0 w n) \<Longrightarrow> is_digit c"
  by (auto simp: pad0_def is_digit_def dest: udec_digits [unfolded is_digit_def])

definition hex_char :: "nat \<Rightarrow> char" where
  "hex_char n = (if n < 10 then char_of (48 + n) else char_of (87 + n))"

subsection \<open>Lines and fields\<close>

text \<open>\<open>bufio.Scanner\<close> with \<open>ScanLines\<close> and a buffer of at most \<open>max\<close> bytes: lines without their
  newline and one trailing carriage return; a line that does not fit ends the scan.\<close>

definition drop_cr :: "gostr \<Rightarrow> gostr" where
  "drop_cr l = TrimSuffix l [CHR 0x0D]"

definition raw_lines :: "gostr \<Rightarrow> gostr list" where
  "raw_lines s = (let ls = Split (CHR 0x0A) s in if last ls = [] then butlast ls else ls)"

definition scan_lines :: "int \<Rightarrow> gostr \<Rightarrow> gostr list" where
  "scan_lines mx s = map drop_cr (takeWhile (\<lambda>l. int (length l) < mx) (raw_lines s))"

text \<open>\<open>strings.Fields\<close>.\<close>

definition Fields :: "gostr \<Rightarrow> gostr list" where
  "Fields s = filter (\<lambda>w. w \<noteq> []) (Split (CHR '' '') (map (\<lambda>c. if is_space c then CHR '' '' else c) s))"

text \<open>The value \<open>strconv.ParseInt(s, 10, 64)\<close> returns beside its error: zero for malformed input, the
  nearest bound out of range.\<close>

definition ParseInt_value :: "gostr \<Rightarrow> int" where
  "ParseInt_value s =
     (case ParseInt s of
        Some n \<Rightarrow> n
      | None \<Rightarrow>
          let neg = (s \<noteq> [] \<and> hd s = CHR ''-'');
              ds = (if s \<noteq> [] \<and> (hd s = CHR ''-'' \<or> hd s = CHR ''+'') then tl s else s)
          in if ds = [] \<or> \<not> list_all is_digit ds then 0 else if neg then - (2 ^ 63) else 2 ^ 63 - 1)"

end
