(* ===== verification/GoHttp.thy ===== *)
theory GoHttp
  imports GoStrings
begin

text \<open>
  The part of \<open>net/http\<close> and \<open>net/url\<close> the program works on: header maps with canonical keys,
  parsed URLs, requests, and the HTTP status texts. Bodies are byte strings; \<open>None\<close> is a nil body.
\<close>

subsection \<open>Headers\<close>

type_synonym header = "gostr \<rightharpoonup> gostr list"

definition to_upper :: "char \<Rightarrow> char" where
  "to_upper c = (if (97::nat) \<le> of_char c \<and> of_char c \<le> (122::nat)
                 then char_of (of_char c - 32 :: nat) else c)"

definition is_token_char :: "char \<Rightarrow> bool" where
  "is_token_char c \<longleftrightarrow>
     ((97::nat) \<le> of_char c \<and> of_char c \<le> (122::nat)) \<or>
     ((65::nat) \<le> of_char c \<and> of_char c \<le> (90::nat)) \<or>
     is_digit c \<or> c \<in> set ''!#$%&*+-.^_|~'' \<or> c = CHR 0x27 \<or> c = CHR 0x60"

fun canon_from :: "bool \<Rightarrow> gostr \<Rightarrow> gostr" where
  "canon_from up [] = []"
| "canon_from up (c # cs) =
     (if up then to_upper c else to_lower c) # canon_from (c = CHR ''-'') cs"

definition CanonicalHeaderKey :: "gostr \<Rightarrow> gostr" where
  "CanonicalHeaderKey k = (if list_all is_token_char k then canon_from True k else k)"

definition HGet :: "header \<Rightarrow> gostr \<Rightarrow> gostr" where
  "HGet h k = (case h (CanonicalHeaderKey k) of Some (v # _) \<Rightarrow> v | _ \<Rightarrow> [])"

definition HSet :: "header \<Rightarrow> gostr \<Rightarrow> gostr \<Rightarrow> header" where
  "HSet h k v = h(CanonicalHeaderKey k \<mapsto> [v])"

definition HDel :: "header \<Rightarrow> gostr \<Rightarrow> header" where
  "HDel h k = h(CanonicalHeaderKey k := None)"

lemma HGet_HSet: "HGet (HSet h k v) k' =
    (if CanonicalHeaderKey k' = CanonicalHeaderKey k then v else HGet h k')"
  by (simp add: HGet_def HSet_def)

lemma HGet_HDel: "HGet (HDel h k) k' =
    (if CanonicalHeaderKey k' = CanonicalHeaderKey k then [] else HGet h k')"
  by (simp add: HGet_def HDel_def)

lemma HGet_empty [simp]: "HGet Map.empty k = []"
  by (simp add: HGet_def)

subsection \<open>URLs and requests\<close>

record url =
  u_Scheme :: gostr
  u_Host :: gostr
  u_Path :: gostr
  u_RawPath :: gostr
  u_RawQuery :: gostr

record request =
  r_Method :: gostr
  r_URL :: url
  r_Host :: gostr
  r_RequestURI :: gostr
  r_RemoteAddr :: gostr
  r_Header :: header
  r_Body :: "gostr option"

text \<open>A response as the client sees it: status code, headers and body. \<open>http.Error\<close> sets the
  content type, writes the status and the message with a newline.\<close>

record response =
  w_Header :: header
  w_Status :: int
  w_Body :: gostr

definition http_Error :: "header \<Rightarrow> gostr \<Rightarrow> int \<Rightarrow> response" where
  "http_Error h msg code =
     \<lparr> w_Header = HSet (HSet h ''Content-Type'' ''text/plain; charset=utf-8'')
                    ''X-Content-Type-Options'' ''nosniff'',
       w_Status = code, w_Body = msg @ [CHR 0x0A] \<rparr>"

lemma http_Error_status [simp]: "w_Status (http_Error h m c) = c"
  and http_Error_body [simp]: "w_Body (http_Error h m c) = m @ [CHR 0x0A]"
  by (simp_all add: http_Error_def)

definition StatusText :: "int \<Rightarrow> gostr" where
  "StatusText c = (case map_of
     [(100, ''Continue''), (101, ''Switching Protocols''), (102, ''Processing''), (103, ''Early Hints''),
      (200, ''OK''), (201, ''Created''), (202, ''Accepted''), (203, ''Non-Authoritative Information''),
      (204, ''No Content''), (205, ''Reset Content''), (206, ''Partial Content''), (207, ''Multi-Status''),
      (208, ''Already Reported''), (226, ''IM Used''), (300, ''Multiple Choices''),
      (301, ''Moved Permanently''), (302, ''Found''), (303, ''See Other''), (304, ''Not Modified''),
      (305, ''Use Proxy''), (307, ''Temporary Redirect''), (308, ''Permanent Redirect''),
      (400, ''Bad Request''), (401, ''Unauthorized''), (402, ''Payment Required''), (403, ''Forbidden''),
      (404, ''Not Found''), (405, ''Method Not Allowed''), (406, ''Not Acceptable''),
      (407, ''Proxy Authentication Required''), (408, ''Request Timeout''), (409, ''Conflict''),
      (410, ''Gone''), (411, ''Length Required''), (412, ''Precondition Failed''),
      (413, ''Request Entity Too Large''), (414, ''Request URI Too Long''),
      (415, ''Unsupported Media Type''), (416, ''Requested Range Not Satisfiable''),
      (417, ''Expectation Failed''), (418, ''I'' @ [CHR 0x27] @ ''m a teapot''),
      (421, ''Misdirected Request''), (422, ''Unprocessable Entity''), (423, ''Locked''),
      (424, ''Failed Dependency''), (425, ''Too Early''), (426, ''Upgrade Required''),
      (428, ''Precondition Required''), (429, ''Too Many Requests''),
      (431, ''Request Header Fields Too Large''), (451, ''Unavailable For Legal Reasons''),
      (500, ''Internal Server Error''), (501, ''Not Implemented''), (502, ''Bad Gateway''),
      (503, ''Service Unavailable''), (504, ''Gateway Timeout''), (505, ''HTTP Version Not Supported''),
      (506, ''Variant Also Negotiates''), (507, ''Insufficient Storage''), (508, ''Loop Detected''),
      (510, ''Not Extended''), (511, ''Network Authentication Required'')] c of
     Some t \<Rightarrow> t | None \<Rightarrow> [])"

end
