(* ===== verification/Router.thy ===== *)
theory Router
  imports GoHttp
begin

text \<open>
  Model routing of the gateway (\<open>core/gateway/router.go\<close> and the path helpers of
  \<open>core/gateway/proxy.go\<close>): which model a request path names, the path the backend sees, and the
  registry of running backends that a background loop rebuilds from the management service.
  The HTTP exchanges and the JSON decoding are arguments: the answer of the management service
  and of each backend's \<open>/v1/models\<close> as the decoder hands it over.
\<close>

subsection \<open>Paths\<close>

fun extract_parts :: "gostr list \<Rightarrow> gostr" where
  "extract_parts (p # n # r # rest) =
     (if p = ''models'' \<and> n \<noteq> [] then n else extract_parts (n # r # rest))"
| "extract_parts ps = []"

definition extractModelNameFromPath :: "gostr \<Rightarrow> gostr" where
  "extractModelNameFromPath path = extract_parts (Split (CHR ''/'') (TrimPrefix path ''/''))"

definition stripModelPrefixFromPath :: "gostr \<Rightarrow> gostr \<Rightarrow> gostr" where
  "stripModelPrefixFromPath path modelName =
     (let segment = ''/models/'' @ modelName in
      case Index path segment of
        None \<Rightarrow> path
      | Some idx \<Rightarrow>
          let stop = idx + length segment in
          if stop < length path \<and> path ! stop \<noteq> CHR ''/'' then path
          else let result = take idx path @ drop stop path in
            if result = [] then ''/''
            else if \<not> HasPrefix result ''/'' then ''/'' @ result else result)"

definition singleJoiningSlash :: "gostr \<Rightarrow> gostr \<Rightarrow> gostr" where
  "singleJoiningSlash a b =
     (let aslash = HasSuffix a ''/''; bslash = HasPrefix b ''/'' in
      if aslash \<and> bslash then a @ drop 1 b
      else if \<not> aslash \<and> \<not> bslash then a @ ''/'' @ b
      else a @ b)"

definition getClientIP :: "request \<Rightarrow> gostr" where
  "getClientIP r =
     (if HGet (r_Header r) ''X-Forwarded-For'' \<noteq> [] then
        TrimSpace (hd (Split (CHR '','') (HGet (r_Header r) ''X-Forwarded-For'')))
      else if HGet (r_Header r) ''X-Real-IP'' \<noteq> [] then HGet (r_Header r) ''X-Real-IP''
      else hd (Split (CHR '':'') (r_RemoteAddr r)))"

text \<open>\<open>jsonStringArray\<close>: escape backslash first, then the quote, as two passes.\<close>

definition ReplaceAllChar :: "gostr \<Rightarrow> char \<Rightarrow> gostr \<Rightarrow> gostr" where
  "ReplaceAllChar s c t = concat (map (\<lambda>x. if x = c then t else [x]) s)"

definition json_escape :: "gostr \<Rightarrow> gostr" where
  "json_escape s = ReplaceAllChar (ReplaceAllChar s (CHR 0x5C) [CHR 0x5C, CHR 0x5C])
                     (CHR 0x22) [CHR 0x5C, CHR 0x22]"

definition jsonStringArray :: "gostr list \<Rightarrow> gostr" where
  "jsonStringArray items =
     (if items = [] then ''[]''
      else ''['' @ Join '','' (map (\<lambda>s. [CHR 0x22] @ json_escape s @ [CHR 0x22]) items) @ '']'')"

subsection \<open>Paths as lists of segments\<close>

definition path_of :: "gostr list \<Rightarrow> gostr" where
  "path_of ws = concat (map (\<lambda>w. CHR ''/'' # w) ws)"

lemma path_of_simps [simp]:
  "path_of [] = []" "path_of (w # ws) = CHR ''/'' # w @ path_of ws"
  "path_of (us @ ws) = path_of us @ path_of ws"
  by (simp_all add: path_of_def)

lemma path_of_Join: "ws \<noteq> [] \<Longrightarrow> path_of ws = CHR ''/'' # Join ''/'' ws"
proof (induction ws)
  case (Cons w ws)
  then show ?case by (cases ws) simp_all
qed simp

lemma path_of_Split: "path_of (Split (CHR ''/'') s) = CHR ''/'' # s"
  using path_of_Join [OF Split_not_Nil, of "CHR ''/''" s] by simp

lemma Split_path_of: "ws \<noteq> [] \<Longrightarrow> \<forall>w \<in> set ws. CHR ''/'' \<notin> set w \<Longrightarrow>
    Split (CHR ''/'') (tl (path_of ws)) = ws"
  by (simp add: path_of_Join Split_Join)

text \<open>The number of slashes of a path is its number of segments.\<close>

lemma count_path_of: "\<forall>w \<in> set ws. CHR ''/'' \<notin> set w \<Longrightarrow>
    count_list (path_of ws) (CHR ''/'') = length ws"
  by (induction ws) simp_all

lemma extract_parts_SomeD:
  assumes "extract_parts ps = n" "n \<noteq> []"
  shows "\<exists>pre r rest. ps = pre @ ''models'' # n # r # rest \<and>
     (\<forall>pre' m r' rest'. ps = pre' @ ''models'' # m # r' # rest' \<and> m \<noteq> [] \<longrightarrow>
        length pre \<le> length pre')"
  using assms
proof (induction ps rule: extract_parts.induct)
  case (1 p m r rest)
  show ?case
  proof (cases "p = ''models'' \<and> m \<noteq> []")
    case True
    then show ?thesis using "1.prems"
      by (intro exI [of _ "[]"] exI [of _ r] exI [of _ rest]) auto
  next
    case False
    with 1 obtain pre r' rest' where
      eq: "m # r # rest = pre @ ''models'' # n # r' # rest'" and
      least: "\<forall>pre' k s t. m # r # rest = pre' @ ''models'' # k # s # t \<and> k \<noteq> [] \<longrightarrow>
        length pre \<le> length pre'"
      by (auto split: if_splits)
    show ?thesis
    proof (intro exI conjI allI impI)
      show "p # m # r # rest = (p # pre) @ ''models'' # n # r' # rest'" using eq by simp
    next
      fix pre' k s t
      assume *: "p # m # r # rest = pre' @ ''models'' # k # s # t \<and> k \<noteq> []"
      with False obtain pre'' where "pre' = p # pre''" by (cases pre') auto
      with * least show "length (p # pre) \<le> length pre'" by auto
    qed
  qed
qed simp_all

lemma extract_parts_first:
  assumes "ps = pre @ ''models'' # n # r # rest" "n \<noteq> []"
    and "\<forall>pre' m r' rest'. ps = pre' @ ''models'' # m # r' # rest' \<and> m \<noteq> [] \<longrightarrow>
        length pre \<le> length pre'"
  shows "extract_parts ps = n"
  using assms
proof (induction pre arbitrary: ps)
  case (Cons p pre)
  let ?tl = "pre @ ''models'' # n # r # rest"
  have "extract_parts ?tl = n"
  proof (rule Cons.IH [OF refl \<open>n \<noteq> []\<close>], intro allI impI)
    fix pre' m r' rest'
    assume "?tl = pre' @ ''models'' # m # r' # rest' \<and> m \<noteq> []"
    then have "ps = (p # pre') @ ''models'' # m # r' # rest' \<and> m \<noteq> []"
      using Cons.prems(1) by simp
    with Cons.prems(3) show "length pre \<le> length pre'" by fastforce
  qed
  moreover have "\<not> (p = ''models'' \<and> m \<noteq> [])" if "ps = p # m # r' # t" for m r' t
    using Cons.prems(3) that by (metis append_Nil length_Cons list.size(3) not_less_eq_eq zero_le)
  ultimately show ?case
    using Cons.prems(1) by (cases pre; cases "tl pre") auto
qed simp

text \<open>The decomposition of the path that both helpers work on.\<close>

lemma Split_cut:
  assumes "a = [] \<or> HasPrefix a ''/''"
  shows "\<exists>pre. a = path_of pre \<and> (\<forall>w \<in> set pre. CHR ''/'' \<notin> set w)"
proof (cases "a = []")
  case True
  then show ?thesis by (intro exI [of _ "[]"]) simp
next
  case False
  with assms obtain a' where "a = CHR ''/'' # a'" by (auto simp: HasPrefix_iff)
  then have "a = path_of (Split (CHR ''/'') a')" by (simp add: path_of_Split)
  then show ?thesis using Split_elem by blast
qed

lemma path_of_inj:
  assumes "path_of us = path_of vs"
    and "\<forall>w \<in> set us. CHR ''/'' \<notin> set w" "\<forall>w \<in> set vs. CHR ''/'' \<notin> set w"
  shows "us = vs"
proof -
  have len: "length us = length vs"
    using assms count_path_of by metis
  show ?thesis
  proof (cases "us = []")
    case False
    with len have "vs \<noteq> []" by auto
    with False show ?thesis using assms Split_path_of by metis
  qed (use len in auto)
qed

lemma HasPrefix_path:
  assumes "path_of ps = a @ ''/models/'' @ n @ c" "\<forall>w \<in> set ps. CHR ''/'' \<notin> set w"
    and "CHR ''/'' \<notin> set n"
  shows "\<exists>pre m rest. ps = pre @ ''models'' # (n @ m) # rest \<and> a = path_of pre"
proof -
  have a: "a = [] \<or> HasPrefix a ''/''"
    using assms(1) by (cases a; cases ps) (auto simp: HasPrefix_iff)
  then obtain pre where pre: "a = path_of pre" "\<forall>w \<in> set pre. CHR ''/'' \<notin> set w"
    using Split_cut by blast
  obtain m rest where mr: "Split (CHR ''/'') c = m # rest"
    by (cases "Split (CHR ''/'') c") auto
  have c: "c = m @ path_of rest"
    using path_of_Split [of c] mr by simp
  have elems: "\<forall>w \<in> set (m # rest). CHR ''/'' \<notin> set w"
    using Split_elem mr by metis
  let ?qs = "pre @ ''models'' # (n @ m) # rest"
  have "path_of ps = path_of ?qs" using assms(1) pre c by simp
  then have "ps = ?qs"
    by (rule path_of_inj) (use assms pre elems in auto)
  then show ?thesis using pre by blast
qed


lemma Index_first:
  assumes "s = a @ sub @ b" "\<And>i. i < length a \<Longrightarrow> \<not> HasPrefix (drop i s) sub"
  shows "Index s sub = Some (length a)"
proof -
  obtain i where i: "Index s sub = Some i"
    using Index_None assms(1) by (cases "Index s sub") blast+
  have "HasPrefix (drop (length a) s) sub" using assms(1) by simp
  then have "\<not> length a < i" using Index_least [OF i] by blast
  moreover have "\<not> i < length a"
    using assms(2) Index_SomeD [OF i] Index_le [OF i]
    by (metis HasPrefix_append append_eq_conv_conj append_take_drop_id)
  ultimately show ?thesis using i by simp
qed

lemma extract_strip_core:
  assumes p: "HasPrefix p ''/''" and n: "extractModelNameFromPath p = n" "n \<noteq> []"
  shows "\<exists>a b. p = a @ ''/models/'' @ n @ ''/'' @ b \<and> (a = [] \<or> HasPrefix a ''/'') \<and>
     CHR ''/'' \<notin> set n \<and> Index p (''/models/'' @ n) = Some (length a)"
proof -
  obtain p' where p': "p = CHR ''/'' # p'" using p by (auto simp: HasPrefix_iff)
  let ?ps = "Split (CHR ''/'') p'"
  have pp: "p = path_of ?ps" using p' by (simp add: path_of_Split)
  have el: "\<forall>w \<in> set ?ps. CHR ''/'' \<notin> set w" using Split_elem by blast
  have "extract_parts ?ps = n"
    using n p' TrimPrefix_append [of "''/''" p'] by (simp add: extractModelNameFromPath_def)
  from extract_parts_SomeD [OF this n(2)] obtain pre r rest where
    eq: "?ps = pre @ ''models'' # n # r # rest" and
    all: "\<forall>pre' m r' rest'. ?ps = pre' @ ''models'' # m # r' # rest' \<and> m \<noteq> [] \<longrightarrow>
        length pre \<le> length pre'"
    by (elim exE conjE) (rule that; assumption)
  have least: "length pre \<le> length pre'"
    if "?ps = pre' @ ''models'' # m # r' # rest'" "m \<noteq> []" for pre' m r' rest'
    using all [rule_format, OF conjI, OF that] .
  have nn: "CHR ''/'' \<notin> set n" and prenn: "\<forall>w \<in> set pre. CHR ''/'' \<notin> set w"
    using el eq by auto
  let ?a = "path_of pre" and ?b = "r @ path_of rest"
  have dec: "p = ?a @ ''/models/'' @ n @ ''/'' @ ?b"
    unfolding pp eq by simp
  have "Index p (''/models/'' @ n) = Some (length ?a)"
  proof (rule Index_first [where b = "''/'' @ ?b"])
    show "p = ?a @ (''/models/'' @ n) @ ''/'' @ ?b" using dec by simp
  next
    fix i assume i: "i < length ?a"
    show "\<not> HasPrefix (drop i p) (''/models/'' @ n)"
    proof
      assume "HasPrefix (drop i p) (''/models/'' @ n)"
      then obtain c where c: "drop i p = ''/models/'' @ n @ c" by (auto simp: HasPrefix_iff)
      have cut: "path_of ?ps = take i p @ ''/models/'' @ n @ c"
        unfolding pp [symmetric] using c append_take_drop_id [of i p] by simp
      obtain pre' m rest' where q: "?ps = pre' @ ''models'' # (n @ m) # rest'"
        and a': "take i p = path_of pre'"
        using HasPrefix_path [OF cut el nn] by blast
      have "take i p = take i ?a" using dec i by simp
      then have "?a = path_of pre' @ drop i ?a"
        using a' by (metis append_take_drop_id)
      moreover have "hd (drop i ?a) = CHR ''/''"
      proof -
        have "drop i p = drop i ?a @ ''/models/'' @ n @ ''/'' @ ?b"
          unfolding dec using i by simp
        moreover have "drop i ?a \<noteq> []" using i by simp
        ultimately have "hd (drop i p) = hd (drop i ?a)" by simp
        with c show ?thesis by simp
      qed
      moreover have "drop i ?a \<noteq> []" using i by simp
      ultimately have "count_list (path_of pre') (CHR ''/'') < count_list ?a (CHR ''/'')"
        by (metis add_less_cancel_left count_list_append count_list_0_iff gr0I hd_in_set add.right_neutral)
      moreover have "\<forall>w \<in> set pre'. CHR ''/'' \<notin> set w" using el q by auto
      ultimately have lt: "length pre' < length pre" using count_path_of prenn by metis
      show False
      proof (cases rest')
        case Nil
        then have "length ?ps = length pre' + 2" using q by simp
        with eq lt show False by simp
      next
        case (Cons x xs)
        with least [of pre' "n @ m" x xs] q n(2) lt show False by simp
      qed
    qed
  qed
  moreover have "?a = [] \<or> HasPrefix ?a ''/''" by (cases pre) simp_all
  ultimately show ?thesis using dec nn by blast
qed

lemma strip_at:
  assumes i: "Index p (''/models/'' @ n) = Some (length a)"
    and p: "p = a @ (''/models/'' @ n) @ CHR ''/'' # b" and a: "a = [] \<or> HasPrefix a ''/''"
  shows "stripModelPrefixFromPath p n = a @ ''/'' @ b"
proof -
  define seg where "seg = ''/models/'' @ n"
  note p' = p [folded seg_def]
  have "p ! (length a + length seg) = CHR ''/''" unfolding p' by (simp add: nth_append)
  moreover have "take (length a) p @ drop (length a + length seg) p = a @ CHR ''/'' # b"
    unfolding p' by simp
  moreover have "HasPrefix (a @ CHR ''/'' # b) ''/''" using a by (auto simp: HasPrefix_iff)
  ultimately show ?thesis
    using i [folded seg_def] unfolding stripModelPrefixFromPath_def Let_def seg_def [symmetric]
    by simp
qed

text \<open>C19: For a path that starts with a slash and names a model, the two helpers agree: the
  model name is a complete segment after a \<open>models\<close> segment with something behind it, stripping
  removes exactly that \<open>/models/name\<close> pair, its first occurrence, and what is left starts with a
  slash. A name that is only a prefix of a segment is never cut out of it.\<close>

theorem strip_extracted:
  assumes "HasPrefix p ''/''" "extractModelNameFromPath p = n" "n \<noteq> []"
  shows "\<exists>a b. p = a @ ''/models/'' @ n @ ''/'' @ b \<and> CHR ''/'' \<notin> set n \<and>
     Index p (''/models/'' @ n) = Some (length a) \<and>
     stripModelPrefixFromPath p n = a @ ''/'' @ b \<and> HasPrefix (stripModelPrefixFromPath p n) ''/''"
proof -
  obtain a b where d: "p = a @ ''/models/'' @ n @ ''/'' @ b" "a = [] \<or> HasPrefix a ''/''"
      "CHR ''/'' \<notin> set n" and i: "Index p (''/models/'' @ n) = Some (length a)"
    using extract_strip_core [OF assms] by blast
  have "stripModelPrefixFromPath p n = a @ ''/'' @ b"
    by (rule strip_at [OF i]) (use d in simp_all)
  moreover have "HasPrefix (a @ ''/'' @ b) ''/''" using d(2) by (auto simp: HasPrefix_iff)
  ultimately show ?thesis using d i by auto
qed

lemma strip_extracted_witness:
  "\<exists>a b. ''/v1/models/llama/chat'' = a @ ''/models/'' @ ''llama'' @ ''/'' @ b \<and>
     CHR ''/'' \<notin> set ''llama'' \<and> Index ''/v1/models/llama/chat'' (''/models/'' @ ''llama'') = Some (length a) \<and>
     stripModelPrefixFromPath ''/v1/models/llama/chat'' ''llama'' = a @ ''/'' @ b \<and>
     HasPrefix (stripModelPrefixFromPath ''/v1/models/llama/chat'' ''llama'') ''/''"
  by (rule strip_extracted) code_simp+

subsection \<open>The registry\<close>

record ModelBackend =
  mb_Name :: gostr
  mb_URL :: gostr
  mb_Port :: int
  mb_Type :: gostr
  mb_Status :: gostr
  mb_Capability :: gostr
  mb_Endpoints :: "gostr list"

record running_entry =
  re_ModelName :: gostr
  re_ContainerID :: gostr
  re_Type :: gostr
  re_Status :: gostr
  re_Port :: int

record ModelRouter =
  rt_registry :: "gostr \<rightharpoonup> ModelBackend"
  rt_managementURL :: gostr
  rt_done :: bool
  rt_loop :: bool

text \<open>An HTTP exchange: a transport error, or a status with the decoded body (\<open>None\<close> when the
  JSON decoder rejects it).\<close>

datatype 'a http_result = HttpErr | HttpResp int "'a option"

datatype router_error = FetchFailed | BadStatus int | DecodeFailed

definition NewModelRouter :: "gostr \<Rightarrow> ModelRouter" where
  "NewModelRouter managementURL =
     \<lparr> rt_registry = Map.empty, rt_managementURL = managementURL, rt_done = False, rt_loop = False \<rparr>"

type_synonym caps_get = "gostr \<Rightarrow> (gostr \<times> gostr list) list http_result"

definition fetchCapability :: "caps_get \<Rightarrow> ModelBackend \<Rightarrow> ModelBackend" where
  "fetchCapability get backend =
     (case get (mb_URL backend @ ''/v1/models'') of
        HttpErr \<Rightarrow> backend
      | HttpResp st body \<Rightarrow>
          if st \<noteq> 200 then backend
          else (case body of
              None \<Rightarrow> backend
            | Some [] \<Rightarrow> backend
            | Some ((c, es) # _) \<Rightarrow> backend\<lparr> mb_Capability := c, mb_Endpoints := es \<rparr>))"

definition local_url :: "int \<Rightarrow> gostr" where
  "local_url port = ''http://localhost:'' @ Itoa port"

definition entry_backend :: "caps_get \<Rightarrow> running_entry \<Rightarrow> ModelBackend" where
  "entry_backend get m = fetchCapability get
     \<lparr> mb_Name = re_ModelName m, mb_URL = local_url (re_Port m),
       mb_Port = re_Port m, mb_Type = re_Type m, mb_Status = re_Status m,
       mb_Capability = [], mb_Endpoints = [] \<rparr>"

primrec build_registry ::
    "caps_get \<Rightarrow> running_entry list \<Rightarrow> (gostr \<rightharpoonup> ModelBackend) \<Rightarrow> gostr \<rightharpoonup> ModelBackend" where
  "build_registry get [] reg = reg"
| "build_registry get (m # ms) reg =
     (if re_Status m \<noteq> ''running'' then build_registry get ms reg
      else build_registry get ms (reg(re_ModelName m \<mapsto> entry_backend get m)))"

definition refresh :: "(gostr \<Rightarrow> running_entry list http_result) \<Rightarrow> caps_get \<Rightarrow> ModelRouter \<Rightarrow>
    ModelRouter \<times> router_error option" where
  "refresh getModels getCaps r =
     (case getModels (TrimSuffix (rt_managementURL r) ''/'' @ ''/api/v1/models/running'') of
        HttpErr \<Rightarrow> (r, Some FetchFailed)
      | HttpResp st body \<Rightarrow>
          if st \<noteq> 200 then (r, Some (BadStatus st))
          else (case body of
              None \<Rightarrow> (r, Some DecodeFailed)
            | Some ms \<Rightarrow>
                (r\<lparr> rt_registry := build_registry getCaps ms Map.empty \<rparr>, None)))"

definition IsPathSupported :: "ModelBackend \<Rightarrow> gostr \<Rightarrow> bool" where
  "IsPathSupported b strippedPath =
     (if strippedPath = ''/v1/models'' then True
      else if mb_Endpoints b = [] then True
      else strippedPath \<in> set (mb_Endpoints b))"

definition GetBackend :: "ModelRouter \<Rightarrow> gostr \<Rightarrow> ModelBackend option" where
  "GetBackend r modelName = rt_registry r modelName"

definition ListModels :: "gostr list \<Rightarrow> ModelRouter \<Rightarrow> ModelBackend list" where
  "ListModels order r = map (\<lambda>k. the (rt_registry r k)) order"

definition GetModelCount :: "ModelRouter \<Rightarrow> nat" where
  "GetModelCount r = card (dom (rt_registry r))"

text \<open>The discovery loop as steps: \<open>StartDiscovery\<close> refreshes once and starts the goroutine; while
  it lives a tick refreshes; \<open>Stop\<close> closes \<open>done\<close> (once); the goroutine ends after that. The select
  may still serve a tick that became ready together with \<open>done\<close>.\<close>

definition StartDiscovery ::
    "(gostr \<Rightarrow> running_entry list http_result) \<Rightarrow> caps_get \<Rightarrow> ModelRouter \<Rightarrow> ModelRouter" where
  "StartDiscovery getModels getCaps r = (fst (refresh getModels getCaps r))\<lparr> rt_loop := True \<rparr>"

definition Router_Stop :: "ModelRouter \<Rightarrow> ModelRouter" where
  "Router_Stop r = r\<lparr> rt_done := True \<rparr>"

inductive disc_step :: "ModelRouter \<Rightarrow> ModelRouter \<Rightarrow> bool" where
  start: "\<not> rt_loop r \<Longrightarrow> disc_step r (StartDiscovery getModels getCaps r)"
| tick: "rt_loop r \<Longrightarrow> disc_step r (fst (refresh getModels getCaps r))"
| stop: "disc_step r (Router_Stop r)"
| exit: "rt_loop r \<Longrightarrow> rt_done r \<Longrightarrow> disc_step r (r\<lparr> rt_loop := False \<rparr>)"

text \<open>What every registry satisfies: a backend is filed under its own name, it was running when
  listed, and its URL is the local port.\<close>

definition registry_ok :: "(gostr \<rightharpoonup> ModelBackend) \<Rightarrow> bool" where
  "registry_ok reg \<longleftrightarrow> (\<forall>n b. reg n = Some b \<longrightarrow>
     mb_Name b = n \<and> mb_Status b = ''running'' \<and> mb_URL b = local_url (mb_Port b))"

lemma fetchCapability_frame [simp]:
  "mb_Name (fetchCapability get b) = mb_Name b"
  "mb_URL (fetchCapability get b) = mb_URL b"
  "mb_Port (fetchCapability get b) = mb_Port b"
  "mb_Type (fetchCapability get b) = mb_Type b"
  "mb_Status (fetchCapability get b) = mb_Status b"
  by (auto simp: fetchCapability_def split: http_result.split option.split list.split prod.split)

lemma entry_backend_simps [simp]:
  "mb_Name (entry_backend get m) = re_ModelName m"
  "mb_URL (entry_backend get m) = local_url (re_Port m)"
  "mb_Port (entry_backend get m) = re_Port m"
  "mb_Type (entry_backend get m) = re_Type m"
  "mb_Status (entry_backend get m) = re_Status m"
  by (simp_all add: entry_backend_def)

definition running :: "running_entry list \<Rightarrow> running_entry list" where
  "running ms = filter (\<lambda>m. re_Status m = ''running'') ms"

lemma build_registry_eq:
  "build_registry get ms reg =
     reg ++ map_of (rev (map (\<lambda>m. (re_ModelName m, entry_backend get m)) (running ms)))"
  by (induction ms arbitrary: reg) (simp_all add: running_def)

lemma registry_ok_upd:
  "registry_ok reg \<Longrightarrow> re_Status m = ''running'' \<Longrightarrow>
     registry_ok (reg(re_ModelName m \<mapsto> entry_backend get m))"
  by (simp add: registry_ok_def)

lemma registry_ok_build: "registry_ok reg \<Longrightarrow> registry_ok (build_registry get ms reg)"
  by (induction ms arbitrary: reg) (simp_all add: registry_ok_upd)

lemma refresh_cases:
  obtains e where "refresh gm gc r = (r, Some e)"
  | ms where "gm (TrimSuffix (rt_managementURL r) ''/'' @ ''/api/v1/models/running'') =
        HttpResp 200 (Some ms)"
      "refresh gm gc r = (r\<lparr> rt_registry := build_registry gc ms Map.empty \<rparr>, None)"
proof (cases "gm (TrimSuffix (rt_managementURL r) ''/'' @ ''/api/v1/models/running'')")
  case HttpErr
  then show thesis by (intro that(1) [of FetchFailed]) (simp add: refresh_def)
next
  case (HttpResp st body)
  show thesis
  proof (cases "st = 200")
    case False
    with HttpResp show thesis by (intro that(1) [of "BadStatus st"]) (simp add: refresh_def)
  next
    case True
    with HttpResp show thesis
      by (cases body) (auto simp: refresh_def intro: that(1) [of DecodeFailed] that(2))
  qed
qed

lemma refresh_frame [frame_simps]:
  "rt_managementURL (fst (refresh gm gc r)) = rt_managementURL r"
  "rt_done (fst (refresh gm gc r)) = rt_done r"
  "rt_loop (fst (refresh gm gc r)) = rt_loop r"
  by (cases rule: refresh_cases [of gm gc r]; simp)+

lemma registry_ok_refresh:
  "registry_ok (rt_registry r) \<Longrightarrow> registry_ok (rt_registry (fst (refresh gm gc r)))"
  by (cases rule: refresh_cases [of gm gc r])
    (auto intro: registry_ok_build simp: registry_ok_def [of Map.empty])

text \<open>After a successful refresh the registry holds exactly the names the management service
  lists as running, each with the entry listed last under that name; a failed refresh (transport,
  status, decoding) leaves the whole router as it was.\<close>

theorem refresh_registry:
  "case refresh gm gc r of
     (r', Some e) \<Rightarrow> r' = r
   | (r', None) \<Rightarrow> \<exists>ms. gm (TrimSuffix (rt_managementURL r) ''/'' @ ''/api/v1/models/running'') =
          HttpResp 200 (Some ms) \<and>
        dom (rt_registry r') = re_ModelName ` set (running ms) \<and>
        (\<forall>pre m post. running ms = pre @ m # post \<and> re_ModelName m \<notin> re_ModelName ` set post \<longrightarrow>
           GetBackend r' (re_ModelName m) = Some (entry_backend gc m)) \<and>
        rt_managementURL r' = rt_managementURL r"
proof (cases rule: refresh_cases [of gm gc r])
  case (2 ms)
  let ?l = "\<lambda>ms. map (\<lambda>m. (re_ModelName m, entry_backend gc m)) ms"
  have "map_of (rev (?l (pre @ m # post))) (re_ModelName m) = Some (entry_backend gc m)"
    if "re_ModelName m \<notin> re_ModelName ` set post" for pre m post
  proof -
    have "map_of (rev (?l post)) (re_ModelName m) = None"
      using that by (auto simp: map_of_eq_None_iff image_image)
    then show ?thesis by (simp add: map_add_def)
  qed
  then show ?thesis
    using 2 by (auto simp: build_registry_eq GetBackend_def dom_map_of_conv_image_fst image_image)
qed simp

lemma refresh_registry_witness:
  "let e = \<lambda>n st p. \<lparr> re_ModelName = n, re_ContainerID = [], re_Type = ''gpu'', re_Status = st, re_Port = p \<rparr>;
       gm = \<lambda>_. HttpResp 200 (Some [e ''a'' ''running'' 1, e ''b'' ''exited'' 2, e ''a'' ''running'' 3]) in
   GetBackend (fst (refresh gm (\<lambda>_. HttpErr) (NewModelRouter ''u''))) ''a'' =
     Some (entry_backend (\<lambda>_. HttpErr) (e ''a'' ''running'' 3)) \<and>
   dom (rt_registry (fst (refresh gm (\<lambda>_. HttpErr) (NewModelRouter ''u'')))) = {''a''}"
proof -
  define e where "e n st p =
    \<lparr> re_ModelName = n, re_ContainerID = [], re_Type = ''gpu'', re_Status = st, re_Port = p \<rparr>"
    for n st p
  define ms where "ms = [e ''a'' ''running'' 1, e ''b'' ''exited'' 2, e ''a'' ''running'' 3]"
  have run: "running ms = [e ''a'' ''running'' 1] @ e ''a'' ''running'' 3 # []"
    by (simp add: ms_def running_def e_def)
  let ?R = "refresh (\<lambda>_. HttpResp 200 (Some ms)) (\<lambda>_. HttpErr) (NewModelRouter ''u'')"
  let ?e = "e ''a'' ''running'' 3"
  have n: "re_ModelName (e n st p) = n" for n st p by (simp add: e_def)
  have "snd ?R = None" by (simp add: refresh_def)
  then obtain rr where R: "?R = (rr, None)" by (cases ?R) simp
  obtain ms' where ms': "HttpResp 200 (Some ms) = HttpResp 200 (Some ms')"
    and "dom (rt_registry rr) = re_ModelName ` set (running ms')"
    and all: "\<forall>pre m post. running ms' = pre @ m # post \<and> re_ModelName m \<notin> re_ModelName ` set post \<longrightarrow>
           GetBackend rr (re_ModelName m) = Some (entry_backend (\<lambda>_. HttpErr) m)"
    using refresh_registry [where gm = "\<lambda>_. HttpResp 200 (Some ms)" and gc = "\<lambda>_. HttpErr"
        and r = "NewModelRouter ''u''"]
    unfolding R prod.case option.case by (elim exE conjE) (rule that; assumption)
  then have dom: "dom (rt_registry rr) = {''a''}" using run ms' by (simp add: n)
  have "GetBackend rr (re_ModelName ?e) = Some (entry_backend (\<lambda>_. HttpErr) ?e)"
    using all ms' run by (intro all [rule_format, of "[e ''a'' ''running'' 1]" _ "[]"]) simp
  with dom show ?thesis
    unfolding Let_def e_def [symmetric] ms_def [symmetric] R by (simp add: n)
qed

text \<open>In every state the discovery loop can reach, each backend is registered under its own
  name, was running when it was listed, and has the URL of its local port.\<close>

theorem discovery_registry_ok:
  assumes "disc_step\<^sup>*\<^sup>* (NewModelRouter url) r"
  shows "registry_ok (rt_registry r) \<and> rt_managementURL r = url"
  using assms
proof (induction rule: rtranclp_induct)
  case base
  then show ?case by (simp add: NewModelRouter_def registry_ok_def)
next
  case (step r r')
  from step(2,3) show ?case
    by (cases rule: disc_step.cases)
      (auto simp: StartDiscovery_def Router_Stop_def frame_simps intro: registry_ok_refresh)
qed

lemma discovery_registry_ok_witness:
  "registry_ok (rt_registry (Router_Stop (NewModelRouter ''http://m''))) \<and>
   rt_managementURL (Router_Stop (NewModelRouter ''http://m'')) = ''http://m''"
  by (rule discovery_registry_ok) (rule r_into_rtranclp, rule disc_step.stop)

text \<open>Once stopped and drained, no tick is left: the loop has ended for good.\<close>

lemma disc_step_done: "disc_step r r' \<Longrightarrow> rt_done r \<Longrightarrow> rt_done r'"
  by (erule disc_step.cases) (auto simp: StartDiscovery_def Router_Stop_def frame_simps)

lemma ListModels_set:
  "iter_order ks (rt_registry r) \<Longrightarrow> set (ListModels ks r) = ran (rt_registry r)"
  by (force simp: ListModels_def iter_order_def ran_def image_iff)

lemma ListModels_length:
  "iter_order ks (rt_registry r) \<Longrightarrow> length (ListModels ks r) = GetModelCount r"
  by (simp add: ListModels_def GetModelCount_def iter_order_length)

end
