(* ===== verification/Float64.thy ===== *)
theory Float64
  imports Complex_Main GoStrings
begin

text \<open>
  Go's \<open>float64\<close>. A value is a finite rational, an infinity or NaN; every arithmetic operation rounds
  its exact result to the nearest number with a 53-bit significand (ties to even) and least exponent
  -1074, and overflows to an infinity at \<open>2^1024\<close>. The two zeros are identified. Values, operations
  and comparisons are executable.
\<close>

subsection \<open>Powers of two and the binary exponent\<close>

definition pow2 :: "int \<Rightarrow> rat" where
  "pow2 e = (if 0 \<le> e then 2 ^ nat e else 1 / 2 ^ nat (- e))"

lemma pow2_pos [simp]: "0 < pow2 e"
  by (simp add: pow2_def)

lemma pow2_nonneg [simp]: "0 \<le> pow2 e"
  using pow2_pos [of e] by linarith

lemma pow2_nz [simp]: "pow2 e \<noteq> 0"
  using pow2_pos [of e] by linarith

lemma pow2_0 [simp]: "pow2 0 = 1"
  by (simp add: pow2_def)

lemma pow2_Suc: "pow2 (e + 1) = 2 * pow2 e"
proof (cases "0 \<le> e")
  case True
  then show ?thesis by (simp add: pow2_def nat_add_distrib)
next
  case False
  then have "nat (- e) = Suc (nat (- (e + 1)))" by simp
  with False show ?thesis
    by (cases "e = - 1") (simp_all add: pow2_def)
qed

lemma pow2_add_nat: "pow2 (e + int k) = 2 ^ k * pow2 e"
proof (induction k)
  case (Suc k)
  have "pow2 (e + int (Suc k)) = 2 * pow2 (e + int k)"
    using pow2_Suc [of "e + int k"] by (simp add: algebra_simps)
  with Suc show ?case by simp
qed simp

lemma pow2_add: "pow2 (a + b) = pow2 a * pow2 b"
proof (cases "0 \<le> b")
  case True
  then show ?thesis using pow2_add_nat [of a "nat b"] by (simp add: pow2_def)
next
  case False
  then have "pow2 a = 2 ^ nat (- b) * pow2 (a + b)"
    using pow2_add_nat [of "a + b" "nat (- b)"] by simp
  with False show ?thesis by (simp add: pow2_def)
qed

lemma pow2_diff: "pow2 (a - b) = pow2 a / pow2 b"
  using pow2_add [of "a - b" b] by simp

lemma pow2_mono: "a \<le> b \<Longrightarrow> pow2 a \<le> pow2 b"
  using pow2_add_nat [of a "nat (b - a)"] by simp

lemma pow2_less: "a < b \<Longrightarrow> pow2 a < pow2 b"
  using pow2_add_nat [of a "nat (b - a)"] by simp

lemma pow2_nat: "0 \<le> e \<Longrightarrow> pow2 e = 2 ^ nat e"
  by (simp add: pow2_def)

function ilog2 :: "int \<Rightarrow> int" where
  "ilog2 n = (if n < 2 then 0 else 1 + ilog2 (n div 2))"
  by pat_completeness auto
termination by (relation "measure nat") auto

declare ilog2.simps [simp del]

lemma ilog2_bounds: "0 < n \<Longrightarrow> 0 \<le> ilog2 n \<and> 2 ^ nat (ilog2 n) \<le> n \<and> n < 2 * 2 ^ nat (ilog2 n)"
proof (induction n rule: ilog2.induct)
  case (1 n)
  show ?case
  proof (cases "n < 2")
    case True
    with "1.prems" show ?thesis by (simp add: ilog2.simps [of n])
  next
    case False
    with 1 have IH: "0 \<le> ilog2 (n div 2)" "2 ^ nat (ilog2 (n div 2)) \<le> n div 2"
      "n div 2 < 2 * 2 ^ nat (ilog2 (n div 2))" by auto
    then have "nat (1 + ilog2 (n div 2)) = Suc (nat (ilog2 (n div 2)))"
      by (simp add: nat_add_distrib)
    moreover have "2 * z \<le> n \<and> n < 4 * z" if "z \<le> n div 2" "n div 2 < 2 * z" for z :: int
      using that by presburger
    ultimately show ?thesis using False IH by (simp add: ilog2.simps [of n])
  qed
qed

lemma ilog2_bounds_rat:
  assumes "0 < n"
  shows "pow2 (ilog2 n) \<le> of_int n" and "of_int n < 2 * pow2 (ilog2 n)"
proof -
  note b = ilog2_bounds [OF assms]
  have "of_int (2 ^ nat (ilog2 n)) \<le> (of_int n :: rat)" using b by (simp only: of_int_le_iff)
  with b show "pow2 (ilog2 n) \<le> of_int n" by (simp add: pow2_nat)
  have "of_int n < (of_int (2 * 2 ^ nat (ilog2 n)) :: rat)" using b by (simp only: of_int_less_iff)
  with b show "of_int n < 2 * pow2 (ilog2 n)" by (simp add: pow2_nat)
qed

text \<open>The largest \<open>e\<close> with \<open>2^e \<le> x\<close>, for positive \<open>x\<close>.\<close>

definition flog2 :: "rat \<Rightarrow> int" where
  "flog2 x = (let (p, q) = quotient_of x; k = ilog2 p - ilog2 q
              in if pow2 k \<le> x then k else k - 1)"

lemma flog2_bounds:
  assumes "0 < x"
  shows "pow2 (flog2 x) \<le> x" and "x < pow2 (flog2 x + 1)"
proof -
  obtain p q where pq: "quotient_of x = (p, q)" by (cases "quotient_of x")
  have q: "0 < q" using quotient_of_denom_pos [OF pq] .
  have x: "x = of_int p / of_int q" using quotient_of_div [OF pq] .
  with assms q have p: "0 < p" by (simp add: zero_less_divide_iff)
  define a b where "a = ilog2 p" and "b = ilog2 q"
  have ab: "0 \<le> a" "0 \<le> b" using ilog2_bounds p q by (auto simp: a_def b_def)
  note pa = ilog2_bounds_rat [OF p, folded a_def] and qb = ilog2_bounds_rat [OF q, folded b_def]
  have hi: "x < pow2 (a - b + 1)"
  proof -
    have "x \<le> of_int p / pow2 b" using qb(1) q p by (simp add: x frac_le)
    also have "\<dots> < 2 * pow2 a / pow2 b" using pa(2) by (simp add: divide_strict_right_mono)
    finally show ?thesis by (simp add: pow2_Suc pow2_diff)
  qed
  have lo: "pow2 (a - b - 1) \<le> x"
  proof -
    have "pow2 (a - b - 1) = pow2 a / (2 * pow2 b)"
      using pow2_Suc [of "a - b - 1"] by (simp add: pow2_diff field_simps)
    also have "\<dots> \<le> of_int p / (2 * pow2 b)" using pa(1) by (simp add: divide_right_mono)
    also have "\<dots> \<le> x" using qb(2) q p by (simp add: x frac_le)
    finally show ?thesis .
  qed
  show "pow2 (flog2 x) \<le> x" and "x < pow2 (flog2 x + 1)"
    using hi lo by (auto simp: flog2_def pq a_def [symmetric] b_def [symmetric] Let_def)
qed

lemma flog2_unique: "pow2 e \<le> x \<Longrightarrow> x < pow2 (e + 1) \<Longrightarrow> flog2 x = e"
proof -
  assume e: "pow2 e \<le> x" "x < pow2 (e + 1)"
  then have "0 < x" using pow2_pos [of e] by linarith
  note f = flog2_bounds [OF this]
  have "\<not> flog2 x < e" using f(2) e(1) pow2_mono [of "flog2 x + 1" e] by fastforce
  moreover have "\<not> e < flog2 x" using f(1) e(2) pow2_mono [of "e + 1" "flog2 x"] by fastforce
  ultimately show ?thesis by simp
qed

lemma flog2_mono: "0 < x \<Longrightarrow> x \<le> y \<Longrightarrow> flog2 x \<le> flog2 y"
proof (rule ccontr)
  assume x: "0 < x" and xy: "x \<le> y" and "\<not> flog2 x \<le> flog2 y"
  then have "pow2 (flog2 y + 1) \<le> pow2 (flog2 x)" by (intro pow2_mono) simp
  with flog2_bounds(1) [OF x] flog2_bounds(2) [of y] x xy show False by linarith
qed

subsection \<open>Rounding to nearest, ties to even\<close>

definition rne :: "rat \<Rightarrow> int" where
  "rne x = (let f = \<lfloor>x\<rfloor>; d = x - of_int f
            in if d < 1/2 then f else if 1/2 < d then f + 1 else if even f then f else f + 1)"

lemma rne_of_int [simp]: "rne (of_int n) = n"
  by (simp add: rne_def)

lemma rne_err: "\<bar>of_int (rne x) - x\<bar> \<le> 1/2"
proof -
  have "of_int \<lfloor>x\<rfloor> \<le> x" "x < of_int \<lfloor>x\<rfloor> + 1" by linarith+
  then show ?thesis by (auto simp: rne_def Let_def abs_le_iff)
qed

lemma rne_mono: "x \<le> y \<Longrightarrow> rne x \<le> rne y"
proof -
  assume xy: "x \<le> y"
  then have f: "\<lfloor>x\<rfloor> \<le> \<lfloor>y\<rfloor>" by (rule floor_mono)
  have le: "\<lfloor>z\<rfloor> \<le> rne z" "rne z \<le> \<lfloor>z\<rfloor> + 1" for z by (auto simp: rne_def Let_def)
  show ?thesis
  proof (cases "\<lfloor>x\<rfloor> = \<lfloor>y\<rfloor>")
    case True
    with xy show ?thesis by (auto simp: rne_def Let_def)
  next
    case False
    with f le [of x] le [of y] show ?thesis by linarith
  qed
qed

lemma rne_minus: "rne (- x) = - rne x"
proof (cases "x = of_int \<lfloor>x\<rfloor>")
  case True
  then obtain n where "x = of_int n" by blast
  then show ?thesis using rne_of_int [of "- n"] by simp
next
  case False
  then have lt: "of_int \<lfloor>x\<rfloor> < x" "x < of_int \<lfloor>x\<rfloor> + 1" by linarith+
  have "\<lfloor>- x\<rfloor> = - \<lfloor>x\<rfloor> - 1"
    using lt by (simp add: floor_eq_iff)
  then show ?thesis using lt by (auto simp: rne_def Let_def)
qed

definition ulp_exp :: "rat \<Rightarrow> int" where
  "ulp_exp x = max (flog2 \<bar>x\<bar>) (- 1022) - 52"

definition rnd :: "rat \<Rightarrow> rat" where
  "rnd x = (if x = 0 then 0 else of_int (rne (x / pow2 (ulp_exp x))) * pow2 (ulp_exp x))"

lemma rnd_0 [simp]: "rnd 0 = 0"
  by (simp add: rnd_def)

lemma rnd_minus: "rnd (- x) = - rnd x"
  by (simp add: rnd_def ulp_exp_def rne_minus)

text \<open>Rounding lies on the right side of every number of the grid of its argument.\<close>

lemma rnd_ge_grid:
  assumes "x \<noteq> 0" "of_int n * pow2 (ulp_exp x) \<le> x"
  shows "of_int n * pow2 (ulp_exp x) \<le> rnd x"
proof -
  have "of_int n \<le> x / pow2 (ulp_exp x)" using assms(2) by (simp add: pos_le_divide_eq)
  then have "n \<le> rne (x / pow2 (ulp_exp x))" using rne_mono rne_of_int by metis
  then show ?thesis using assms(1) by (simp add: rnd_def)
qed

lemma rnd_le_grid:
  assumes "x \<noteq> 0" "x \<le> of_int n * pow2 (ulp_exp x)"
  shows "rnd x \<le> of_int n * pow2 (ulp_exp x)"
proof -
  have "x / pow2 (ulp_exp x) \<le> of_int n" using assms(2) by (simp add: pos_divide_le_eq)
  then have "rne (x / pow2 (ulp_exp x)) \<le> n" using rne_mono rne_of_int by metis
  then show ?thesis using assms(1) by (simp add: rnd_def)
qed

lemma rnd_nonneg: "0 \<le> x \<Longrightarrow> 0 \<le> rnd x"
  using rnd_ge_grid [of x 0] by (cases "x = 0") auto

lemma pow2_on_grid: "e \<le> e' \<Longrightarrow> of_int (2 ^ nat (e' - e)) * pow2 e = pow2 e'"
  using pow2_add_nat [of e "nat (e' - e)"] by simp

lemma rnd_mono_pos:
  assumes "0 < x" "x \<le> y"
  shows "rnd x \<le> rnd y"
proof (cases "ulp_exp x = ulp_exp y")
  case True
  have "x / pow2 (ulp_exp y) \<le> y / pow2 (ulp_exp y)" using assms by (simp add: divide_right_mono)
  then have "rne (x / pow2 (ulp_exp y)) \<le> rne (y / pow2 (ulp_exp y))" by (rule rne_mono)
  then show ?thesis using True assms by (simp add: rnd_def)
next
  case False
  have "flog2 x \<le> flog2 y" using assms by (rule flog2_mono)
  with False assms have e: "flog2 x < flog2 y" "- 1022 < flog2 y" and uy: "ulp_exp y = flog2 y - 52"
    by (auto simp: ulp_exp_def)
  have xl: "x \<le> pow2 (flog2 y)"
    using flog2_bounds(2) [of x] pow2_mono [of "flog2 x + 1" "flog2 y"] e(1) assms by force
  have "rnd x \<le> pow2 (flog2 y)"
    using rnd_le_grid [of x "2 ^ nat (flog2 y - ulp_exp x)"] pow2_on_grid [of "ulp_exp x" "flog2 y"]
      xl e assms by (auto simp: ulp_exp_def)
  also have "\<dots> \<le> rnd y"
    using rnd_ge_grid [of y "2 ^ nat (flog2 y - ulp_exp y)"] pow2_on_grid [of "ulp_exp y" "flog2 y"]
      flog2_bounds(1) [of y] assms by (auto simp: uy)
  finally show ?thesis .
qed

lemma rnd_mono: "x \<le> y \<Longrightarrow> rnd x \<le> rnd y"
proof -
  assume xy: "x \<le> y"
  consider "0 < x" | "x = 0" | "x < 0" "0 \<le> y" | "y < 0" by linarith
  then show ?thesis
  proof cases
    case 1
    then show ?thesis using xy by (rule rnd_mono_pos)
  next
    case 2
    with xy show ?thesis by (simp add: rnd_nonneg)
  next
    case 3
    then have "rnd x \<le> 0" using rnd_nonneg [of "- x"] by (simp add: rnd_minus)
    with 3 show ?thesis using rnd_nonneg [of y] by linarith
  next
    case 4
    with xy have "rnd (- y) \<le> rnd (- x)" by (intro rnd_mono_pos) auto
    then show ?thesis by (simp add: rnd_minus)
  qed
qed

text \<open>The error of rounding: half a unit in the last place.\<close>

lemma rnd_err: "\<bar>rnd x - x\<bar> \<le> pow2 (- 53) * \<bar>x\<bar> + pow2 (- 1075)"
proof (cases "x = 0")
  case False
  let ?u = "pow2 (ulp_exp x)"
  have "rnd x - x = (of_int (rne (x / ?u)) - x / ?u) * ?u"
    using False by (simp add: rnd_def algebra_simps)
  then have "\<bar>rnd x - x\<bar> \<le> 1/2 * ?u"
    using rne_err [of "x / ?u"] by (simp add: abs_mult mult_right_mono del: times_divide_eq_left)
  also have "1/2 * ?u = pow2 (ulp_exp x - 1)" using pow2_Suc [of "ulp_exp x - 1"] by simp
  also have "\<dots> \<le> pow2 (- 53) * \<bar>x\<bar> + pow2 (- 1075)"
  proof (cases "- 1022 \<le> flog2 \<bar>x\<bar>")
    case True
    then have "pow2 (ulp_exp x - 1) = pow2 (- 53) * pow2 (flog2 \<bar>x\<bar>)"
      by (simp add: ulp_exp_def pow2_add [symmetric])
    also have "\<dots> \<le> pow2 (- 53) * \<bar>x\<bar>" using flog2_bounds(1) [of "\<bar>x\<bar>"] False by simp
    finally show ?thesis using pow2_pos [of "- 1075"] by linarith
  next
    case f: False
    then have "pow2 (ulp_exp x - 1) = pow2 (- 1075)" by (simp add: ulp_exp_def)
    moreover have "0 \<le> pow2 (- 53) * \<bar>x\<bar>" by simp
    ultimately show ?thesis by linarith
  qed
  finally show ?thesis .
qed simp

lemma rnd_upper: "0 \<le> x \<Longrightarrow> rnd x \<le> x + pow2 (- 53) * x + pow2 (- 1075)"
  using rnd_err [of x] by simp

text \<open>Numbers with a significand of at most 53 bits are rounded to themselves.\<close>

lemma rnd_rep:
  assumes "\<bar>m\<bar> \<le> 2 ^ 53" "- 1074 \<le> k"
  shows "rnd (of_int m * pow2 k) = of_int m * pow2 k"
proof (cases "m = 0")
  case False
  let ?x = "of_int m * pow2 k"
  have grid: "\<exists>n. ?x = of_int n * pow2 (ulp_exp ?x)"
  proof (cases "\<bar>m\<bar> = 2 ^ 53")
    case True
    then have ax: "\<bar>?x\<bar> = pow2 (k + 53)"
      by (simp add: abs_mult pow2_add pow2_nat flip: of_int_abs)
    then have "flog2 \<bar>?x\<bar> = k + 53" by (auto intro!: flog2_unique pow2_less)
    with assms have u: "ulp_exp ?x = k + 1" by (simp add: ulp_exp_def)
    from True have "m = 2 ^ 53 \<or> m = - (2 ^ 53)" by linarith
    then have "m = 2 * (m div 2)" by auto
    then have "(of_int m :: rat) = of_int (2 * (m div 2))" by (rule arg_cong)
    then have "?x = of_int (m div 2) * pow2 (k + 1)" by (simp add: pow2_Suc)
    with u have "?x = of_int (m div 2) * pow2 (ulp_exp ?x)" by simp
    then show ?thesis ..
  next
    case False
    with assms have "\<bar>m\<bar> < 2 ^ 53" by simp
    then have "of_int \<bar>m\<bar> < (of_int (2 ^ 53) :: rat)" by (simp only: of_int_less_iff)
    then have "\<bar>?x\<bar> < pow2 (k + 53)"
      by (simp add: abs_mult pow2_add pow2_nat mult.commute)
    moreover have "0 < \<bar>?x\<bar>" using \<open>m \<noteq> 0\<close> by simp
    ultimately have "flog2 \<bar>?x\<bar> < k + 53"
      using flog2_bounds(1) [of "\<bar>?x\<bar>"] pow2_mono [of "k + 53" "flog2 \<bar>?x\<bar>"] by force
    with assms have "ulp_exp ?x \<le> k" by (simp add: ulp_exp_def)
    then have "?x = of_int (m * 2 ^ nat (k - ulp_exp ?x)) * pow2 (ulp_exp ?x)"
      using pow2_on_grid [of "ulp_exp ?x" k] by (simp add: mult.assoc)
    then show ?thesis by blast
  qed
  then obtain n where n: "?x = of_int n * pow2 (ulp_exp ?x)" by blast
  have "rne (?x / pow2 (ulp_exp ?x)) = n"
    using n by (metis nonzero_mult_div_cancel_right pow2_nz rne_of_int)
  with n False show ?thesis by (metis mult_eq_0_iff of_int_eq_0_iff pow2_nz rnd_def)
qed simp

lemma rnd_of_int: "\<bar>m\<bar> \<le> 2 ^ 53 \<Longrightarrow> rnd (of_int m) = of_int m"
  using rnd_rep [of m 0] by simp

lemma rnd_rep_form:
  obtains m k where "rnd x = of_int m * pow2 k" "\<bar>m\<bar> \<le> 2 ^ 53" "- 1074 \<le> k"
proof (cases "x = 0")
  case True
  then show ?thesis using that [of 0 0] by simp
next
  case False
  let ?u = "pow2 (ulp_exp x)"
  have "\<bar>x\<bar> < pow2 (ulp_exp x + 53)"
    using flog2_bounds(2) [of "\<bar>x\<bar>"] pow2_mono [of "flog2 \<bar>x\<bar> + 1" "ulp_exp x + 53"] False
    by (force simp: ulp_exp_def)
  then have "\<bar>x\<bar> < 2 ^ 53 * ?u" by (simp add: pow2_add pow2_nat mult.commute)
  then have "x / ?u \<le> of_int (2 ^ 53)" "of_int (- (2 ^ 53)) \<le> x / ?u"
    by (simp_all add: pos_divide_le_eq pos_le_divide_eq abs_less_iff)
  then have "rne (x / ?u) \<le> 2 ^ 53" "- (2 ^ 53) \<le> rne (x / ?u)"
    using rne_mono rne_of_int by metis+
  moreover have "- 1074 \<le> ulp_exp x" by (simp add: ulp_exp_def)
  ultimately show ?thesis using that [of "rne (x / ?u)" "ulp_exp x"] False by (simp add: rnd_def)
qed

lemma rnd_idem [simp]: "rnd (rnd x) = rnd x"
  by (metis rnd_rep rnd_rep_form)

text \<open>Subtracting one from a number between 1 and \<open>2^53\<close> is exact.\<close>

lemma rnd_minus_one:
  assumes "rnd t = t" "1 \<le> t" "t \<le> 2 ^ 53"
  shows "rnd (t - 1) = t - 1"
proof -
  obtain m k where t: "t = of_int m * pow2 k" and m: "\<bar>m\<bar> \<le> 2 ^ 53" and k: "- 1074 \<le> k"
    using rnd_rep_form [of t] assms(1) by metis
  show ?thesis
  proof (cases "k \<le> 0")
    case True
    then have one: "(1::rat) = of_int (2 ^ nat (- k)) * pow2 k" using pow2_on_grid [of k 0] by simp
    have t1: "t - 1 = of_int (m - 2 ^ nat (- k)) * pow2 k"
      using t one by (simp add: algebra_simps)
    have "0 \<le> of_int (m - 2 ^ nat (- k)) * pow2 k" using assms(2) t1 by linarith
    then have "(0::rat) \<le> of_int (m - 2 ^ nat (- k))"
      using pow2_pos [of k] by (metis mult_neg_pos not_less)
    then have "0 \<le> m - 2 ^ nat (- k)" by (simp only: of_int_0_le_iff)
    then have "\<bar>m - 2 ^ nat (- k)\<bar> \<le> 2 ^ 53" using m zero_le_power [of "2::int" "nat (- k)"] by linarith
    with k show ?thesis unfolding t1 by (intro rnd_rep)
  next
    case False
    then have tk: "t = of_int (m * 2 ^ nat k)" by (simp add: t pow2_nat)
    then have "t - 1 = of_int (m * 2 ^ nat k - 1)" by simp
    moreover have "\<bar>m * 2 ^ nat k - 1\<bar> \<le> 2 ^ 53"
    proof -
      have "of_int (m * 2 ^ nat k) \<le> (of_int (2 ^ 53) :: rat)" "of_int 1 \<le> (of_int (m * 2 ^ nat k) :: rat)"
        using tk assms by (simp_all only: of_int_1 of_int_power of_int_numeral)
      then have "m * 2 ^ nat k \<le> 2 ^ 53" "1 \<le> m * 2 ^ nat k" by (simp_all only: of_int_le_iff)
      then show ?thesis by simp
    qed
    ultimately show ?thesis using rnd_of_int by metis
  qed
qed

subsection \<open>Values and arithmetic\<close>

text \<open>\<open>Infty True\<close> is minus infinity.\<close>

datatype flt = Fin rat | Infty bool | NaN

definition fl :: "rat \<Rightarrow> flt" where
  "fl x = (let y = rnd x in if y \<noteq> 0 \<and> 1024 \<le> flog2 \<bar>y\<bar> then Infty (y < 0) else Fin y)"

fun fneg :: "flt \<Rightarrow> flt" where
  "fneg (Fin x) = Fin (- x)"
| "fneg (Infty s) = Infty (\<not> s)"
| "fneg NaN = NaN"

instantiation flt :: "{zero, one, plus, minus, times, inverse, ord}"
begin

definition "0 = Fin 0"

definition "1 = Fin 1"

fun plus_flt :: "flt \<Rightarrow> flt \<Rightarrow> flt" where
  "plus_flt (Fin a) (Fin b) = fl (a + b)"
| "plus_flt (Infty s) (Infty t) = (if s = t then Infty s else NaN)"
| "plus_flt (Infty s) (Fin b) = Infty s"
| "plus_flt (Fin a) (Infty t) = Infty t"
| "plus_flt NaN b = NaN"
| "plus_flt a NaN = NaN"

definition minus_flt :: "flt \<Rightarrow> flt \<Rightarrow> flt" where
  "minus_flt a b = a + fneg b"

fun times_flt :: "flt \<Rightarrow> flt \<Rightarrow> flt" where
  "times_flt (Fin a) (Fin b) = fl (a * b)"
| "times_flt (Infty s) (Infty t) = Infty (s \<noteq> t)"
| "times_flt (Infty s) (Fin b) = (if b = 0 then NaN else Infty (s \<noteq> (b < 0)))"
| "times_flt (Fin a) (Infty t) = (if a = 0 then NaN else Infty (t \<noteq> (a < 0)))"
| "times_flt NaN b = NaN"
| "times_flt a NaN = NaN"

fun divide_flt :: "flt \<Rightarrow> flt \<Rightarrow> flt" where
  "divide_flt (Fin a) (Fin b) =
     (if b = 0 then if a = 0 then NaN else Infty (a < 0) else fl (a / b))"
| "divide_flt (Infty s) (Infty t) = NaN"
| "divide_flt (Infty s) (Fin b) = Infty (s \<noteq> (b < 0))"
| "divide_flt (Fin a) (Infty t) = Fin 0"
| "divide_flt NaN b = NaN"
| "divide_flt a NaN = NaN"

definition inverse_flt :: "flt \<Rightarrow> flt" where
  "inverse_flt a = divide (Fin 1) a"

fun less_eq_flt :: "flt \<Rightarrow> flt \<Rightarrow> bool" where
  "less_eq_flt (Fin a) (Fin b) \<longleftrightarrow> a \<le> b"
| "less_eq_flt (Infty s) (Infty t) \<longleftrightarrow> s \<or> \<not> t"
| "less_eq_flt (Infty s) (Fin b) \<longleftrightarrow> s"
| "less_eq_flt (Fin a) (Infty t) \<longleftrightarrow> \<not> t"
| "less_eq_flt NaN b \<longleftrightarrow> False"
| "less_eq_flt a NaN \<longleftrightarrow> False"

fun less_flt :: "flt \<Rightarrow> flt \<Rightarrow> bool" where
  "less_flt (Fin a) (Fin b) \<longleftrightarrow> a < b"
| "less_flt (Infty s) (Infty t) \<longleftrightarrow> s \<and> \<not> t"
| "less_flt (Infty s) (Fin b) \<longleftrightarrow> s"
| "less_flt (Fin a) (Infty t) \<longleftrightarrow> \<not> t"
| "less_flt NaN b \<longleftrightarrow> False"
| "less_flt a NaN \<longleftrightarrow> False"

instance ..

end

text \<open>Go's \<open>==\<close> on floats: NaN differs from itself.\<close>

definition feq :: "flt \<Rightarrow> flt \<Rightarrow> bool" where
  "feq a b \<longleftrightarrow> a \<noteq> NaN \<and> a = b"

lemma feq_simps [simp]:
  "feq (Fin a) (Fin b) \<longleftrightarrow> a = b" "\<not> feq NaN x" "\<not> feq x NaN" "\<not> feq (Infty s) (Fin b)" "\<not> feq (Fin b) (Infty s)"
  "feq (Infty s) (Infty t) \<longleftrightarrow> s = t"
  by (auto simp: feq_def)

lemma plus_flt_NaN [simp]: "a + NaN = (NaN :: flt)"
  by (cases a) simp_all

lemma times_flt_NaN [simp]: "a * NaN = (NaN :: flt)"
  by (cases a) simp_all

lemma flt_NaN_compare [simp]:
  "\<not> a < (NaN :: flt)" "\<not> a \<le> (NaN :: flt)" "\<not> (NaN :: flt) < a" "\<not> (NaN :: flt) \<le> a"
  by (cases a; simp)+

lemma zero_one_flt: "(0 :: flt) = Fin 0" "(1 :: flt) = Fin 1"
  by (simp_all add: zero_flt_def one_flt_def)

text \<open>\<open>float64(n)\<close> of an integer, and the truncating conversion back: out of range (and for NaN) the
  amd64 conversion yields \<open>-2^63\<close>.\<close>

definition of_i64 :: "int \<Rightarrow> flt" where
  "of_i64 n = fl (of_int n)"

fun to_i64 :: "flt \<Rightarrow> int" where
  "to_i64 (Fin x) =
     (let n = (if 0 \<le> x then \<lfloor>x\<rfloor> else - \<lfloor>- x\<rfloor>) in if is_i64 n then n else - (2 ^ 63))"
| "to_i64 _ = - (2 ^ 63)"

text \<open>A decimal literal of the source denotes the nearest number.\<close>

definition flit :: "rat \<Rightarrow> flt" where
  "flit x = fl x"

lemma fl_Fin: "\<bar>x\<bar> \<le> pow2 1023 \<Longrightarrow> fl x = Fin (rnd x)"
proof -
  assume x: "\<bar>x\<bar> \<le> pow2 1023"
  have r: "rnd (pow2 1023) = pow2 1023" using rnd_rep [of 1 1023] by simp
  have "\<bar>rnd x\<bar> \<le> pow2 1023"
    using rnd_mono [of x "pow2 1023"] rnd_mono [of "- pow2 1023" x] x r by (auto simp: rnd_minus abs_le_iff)
  moreover have "pow2 1023 < pow2 1024" by (rule pow2_less) simp
  ultimately have "\<bar>rnd x\<bar> < pow2 1024" by linarith
  then have "flog2 \<bar>rnd x\<bar> < 1024" if "rnd x \<noteq> 0"
    using that flog2_bounds(1) [of "\<bar>rnd x\<bar>"] pow2_mono [of 1024 "flog2 \<bar>rnd x\<bar>"] by force
  then show ?thesis by (auto simp: fl_def Let_def)
qed

lemma fl_cases:
  obtains "fl x = Fin (rnd x)"
  | "0 < rnd x" "pow2 1024 \<le> rnd x" "fl x = Infty False"
  | "rnd x < 0" "rnd x \<le> - pow2 1024" "fl x = Infty True"
proof (cases "rnd x \<noteq> 0 \<and> 1024 \<le> flog2 \<bar>rnd x\<bar>")
  case True
  then have "pow2 1024 \<le> \<bar>rnd x\<bar>"
    using flog2_bounds(1) [of "\<bar>rnd x\<bar>"] pow2_mono [of 1024 "flog2 \<bar>rnd x\<bar>"] by force
  with True that(2,3) show ?thesis by (cases "rnd x < 0") (auto simp: fl_def Let_def)
next
  case False
  with that(1) show ?thesis by (auto simp: fl_def Let_def)
qed

lemma fl_of_int: "\<bar>n\<bar> \<le> 2 ^ 53 \<Longrightarrow> fl (of_int n) = Fin (of_int n)"
proof -
  assume n: "\<bar>n\<bar> \<le> 2 ^ 53"
  have "of_int \<bar>n\<bar> \<le> (of_int (2 ^ 53) :: rat)" using n by (simp only: of_int_le_iff)
  then have "\<bar>of_int n\<bar> \<le> pow2 53" by (simp add: pow2_nat)
  also have "\<dots> \<le> pow2 1023" by (rule pow2_mono) simp
  finally show ?thesis using n by (simp add: fl_Fin rnd_of_int)
qed

lemma of_i64_small: "\<bar>n\<bar> \<le> 2 ^ 53 \<Longrightarrow> of_i64 n = Fin (of_int n)"
  by (simp add: of_i64_def fl_of_int)

lemma fl_0 [simp]: "fl 0 = Fin 0"
  using fl_of_int [of 0] by simp

lemma to_i64_of_int [simp]: "is_i64 n \<Longrightarrow> to_i64 (Fin (of_int n)) = n"
  by simp

end
