(* ===== verification/RateLimiter.thy ===== *)
theory RateLimiter
  imports Float64
begin

text \<open>
  The per-user token bucket of the gateway (\<open>RateLimiter.Allow\<close> of \<open>core/gateway/proxy.go\<close>), with
  its float64 arithmetic. A call takes up to two readings of the clock: one when it creates the
  bucket, one for the refill; both are arguments. The mutexes make a call one step.
\<close>

record UserRateLimit =
  ul_tokens :: flt
  ul_lastRefillAt :: time

type_synonym RateLimiter = "gostr \<rightharpoonup> UserRateLimit"

text \<open>\<open>Duration.Minutes\<close>: whole minutes and the rest are converted separately.\<close>

definition Minutes :: "duration \<Rightarrow> flt" where
  "Minutes d = of_i64 (quot d minute) + of_i64 (grem d minute) / Fin 60000000000"

definition refill :: "flt \<Rightarrow> time \<Rightarrow> UserRateLimit \<Rightarrow> UserRateLimit" where
  "refill rpm now limit =
     (let timePassed = Minutes (time_sub now (ul_lastRefillAt limit));
          tokensToAdd = timePassed * rpm;
          newTokens = ul_tokens limit + tokensToAdd
      in \<lparr> ul_tokens = (if rpm < newTokens then rpm else newTokens), ul_lastRefillAt = now \<rparr>)"

definition take_token :: "UserRateLimit \<Rightarrow> bool \<times> UserRateLimit" where
  "take_token limit =
     (if Fin 1 \<le> ul_tokens limit then (True, limit\<lparr> ul_tokens := ul_tokens limit - Fin 1 \<rparr>)
      else (False, limit))"

definition RateLimiter_Allow ::
    "gostr \<Rightarrow> flt \<Rightarrow> time \<Rightarrow> time \<Rightarrow> RateLimiter \<Rightarrow> bool \<times> RateLimiter" where
  "RateLimiter_Allow userID rpm t0 now rl =
     (if feq rpm 0 then (True, rl)
      else
        let limit = (case rl userID of
                       None \<Rightarrow> \<lparr> ul_tokens = rpm, ul_lastRefillAt = t0 \<rparr> | Some l \<Rightarrow> l);
            (ok, limit') = take_token (refill rpm now limit)
        in (ok, rl(userID \<mapsto> limit')))"

text \<open>A sequence of calls: user, reading at creation, reading at refill.\<close>

type_synonym rl_event = "gostr \<times> time \<times> time"

fun rl_run :: "flt \<Rightarrow> rl_event list \<Rightarrow> RateLimiter \<Rightarrow> bool list \<times> RateLimiter" where
  "rl_run rpm [] rl = ([], rl)"
| "rl_run rpm ((u, t0, t1) # evs) rl =
     (let (ok, rl') = RateLimiter_Allow u rpm t0 t1 rl; (oks, rl'') = rl_run rpm evs rl'
      in (ok # oks, rl''))"

text \<open>How many of the calls of a user were admitted.\<close>

definition admitted :: "gostr \<Rightarrow> rl_event list \<Rightarrow> bool list \<Rightarrow> nat" where
  "admitted u evs oks = length (filter (\<lambda>((v, _), ok). v = u \<and> ok) (zip evs oks))"

text \<open>Clock readings never go back (Go compares monotonic readings) and start at \<open>a\<close>.\<close>

fun clock_ok :: "time \<Rightarrow> rl_event list \<Rightarrow> bool" where
  "clock_ok a [] = True"
| "clock_ok a ((_, t0, t1) # evs) = (a \<le> t0 \<and> t0 \<le> t1 \<and> clock_ok t1 evs)"

fun last_reading :: "time \<Rightarrow> rl_event list \<Rightarrow> time" where
  "last_reading a [] = a"
| "last_reading a ((_, _, t1) # evs) = last_reading t1 evs"

subsection \<open>Bounds of one refill\<close>

text \<open>Values that are not negative: closed under the operations of a refill.\<close>

definition nneg :: "flt \<Rightarrow> bool" where
  "nneg x \<longleftrightarrow> x = Infty False \<or> (\<exists>q \<ge> 0. x = Fin q)"

lemma nneg_fl: "0 \<le> q \<Longrightarrow> nneg (fl q)"
  using rnd_nonneg [of q] by (cases rule: fl_cases [of q]) (auto simp: nneg_def)

lemma nneg_add: "nneg x \<Longrightarrow> nneg y \<Longrightarrow> nneg (x + y)"
  by (auto simp: nneg_def) (metis add_nonneg_nonneg nneg_def nneg_fl)

lemma nneg_div: "nneg x \<Longrightarrow> 0 < q \<Longrightarrow> nneg (x / Fin q)"
  by (auto simp: nneg_def) (metis divide_nonneg_pos nneg_def nneg_fl)

lemma nneg_mult: "nneg x \<Longrightarrow> 0 < q \<Longrightarrow> nneg (x * Fin q)"
  by (auto simp: nneg_def) (metis mult_nonneg_nonneg nneg_def nneg_fl less_imp_le)

lemma nneg_of_i64: "0 \<le> n \<Longrightarrow> nneg (of_i64 n)"
  by (simp add: of_i64_def nneg_fl)

lemma nneg_Minutes: "0 \<le> d \<Longrightarrow> nneg (Minutes d)"
  by (simp add: Minutes_def nneg_add nneg_div nneg_of_i64)

lemma fl_FinD: "fl q = Fin x \<Longrightarrow> x = rnd q"
  by (cases rule: fl_cases [of q]) auto

lemma Minutes_short:
  assumes "0 \<le> d" "d < minute"
  shows "Minutes d = Fin (rnd (of_int d / 60000000000))"
proof -
  have "quot d minute = 0" "grem d minute = d" using assms by simp_all
  moreover have d: "\<bar>d\<bar> \<le> 2 ^ 53" using assms by simp
  moreover have q: "\<bar>of_int d / 60000000000\<bar> \<le> (1 :: rat)"
    using assms by (simp add: divide_le_eq)
  moreover have "(1 :: rat) \<le> pow2 1023" using pow2_mono [of 0 1023] by simp
  ultimately have "Minutes d = Fin 0 + Fin (rnd (of_int d / 60000000000))"
    by (simp add: Minutes_def of_i64_small fl_Fin of_i64_small [of 0, simplified])
  moreover have "\<bar>rnd (of_int d / 60000000000)\<bar> \<le> pow2 1023"
  proof -
    have "rnd (of_int d / 60000000000) \<le> rnd (of_int 1)"
      by (rule rnd_mono) (use q in simp)
    moreover have "0 \<le> rnd (of_int d / 60000000000)" using assms by (intro rnd_nonneg) simp
    ultimately show ?thesis using \<open>1 \<le> pow2 1023\<close> rnd_of_int [of 1] by simp
  qed
  ultimately show ?thesis by (simp add: fl_Fin)
qed

lemma Minutes_long:
  assumes "minute \<le> d" "is_i64 d" "Minutes d = Fin m"
  shows "1 \<le> m"
proof -
  have d: "0 \<le> d" "1 \<le> d div minute" using assms(1) by (simp_all add: zdiv_mono1 pos_imp_zdiv_nonneg_iff)
  have "\<bar>d div minute\<bar> \<le> 2 ^ 53" using assms(2) d by (simp add: is_i64_def)
  then have q: "of_i64 (quot d minute) = Fin (of_int (d div minute))"
    using d by (simp add: of_i64_small)
  have "nneg (of_i64 (grem d minute) / Fin 60000000000)"
    using d by (simp add: nneg_div nneg_of_i64)
  then consider "Minutes d = Infty False" | e where "0 \<le> e" "Minutes d = fl (of_int (d div minute) + e)"
    unfolding Minutes_def q nneg_def by auto
  then show ?thesis
  proof cases
    case (2 e)
    then have m: "m = rnd (of_int (d div minute) + e)" using assms(3) by (metis fl_FinD)
    have "(1 :: rat) \<le> of_int (d div minute)" using d(2) by (metis of_int_1 of_int_le_iff)
    then have "rnd (of_int 1) \<le> m" unfolding m using 2(1) by (intro rnd_mono) simp
    then show ?thesis using rnd_of_int [of 1] by simp
  qed (use assms(3) in simp)
qed

text \<open>The state of a bucket: a float between nothing and the capacity, refilled in the past.\<close>

definition tokens_ok :: "rat \<Rightarrow> flt \<Rightarrow> bool" where
  "tokens_ok r f \<longleftrightarrow> (\<exists>x. f = Fin x \<and> 0 \<le> x \<and> x \<le> r \<and> rnd x = x)"

lemma refill_ok:
  assumes l: "tokens_ok r (ul_tokens l)" and r: "0 < r" "rnd r = r"
    and t: "ul_lastRefillAt l \<le> now"
  shows "tokens_ok r (ul_tokens (refill (Fin r) now l))"
proof -
  obtain x where x: "ul_tokens l = Fin x" "0 \<le> x" using l by (auto simp: tokens_ok_def)
  let ?a = "Minutes (time_sub now (ul_lastRefillAt l)) * Fin r"
  have a: "nneg ?a" using r t by (simp add: nneg_mult nneg_Minutes time_sub_nonneg)
  have n: "nneg (Fin x + ?a)" using a x by (intro nneg_add) (auto simp: nneg_def)
  show ?thesis
  proof (cases "Fin r < Fin x + ?a")
    case True
    then show ?thesis using r x by (simp add: refill_def Let_def tokens_ok_def)
  next
    case False
    with n obtain q where q: "Fin x + ?a = Fin q" "0 \<le> q" "q \<le> r" by (auto simp: nneg_def)
    then have "rnd q = q"
      by (cases ?a) (auto dest: fl_FinD)
    with q x False show ?thesis by (auto simp: refill_def Let_def tokens_ok_def)
  qed
qed

lemma rnd_le_one: "0 \<le> d \<Longrightarrow> d \<le> 1 \<Longrightarrow> 0 \<le> rnd d \<and> rnd d \<le> 1"
  using rnd_mono [of d "of_int 1"] rnd_of_int [of 1] by (simp add: rnd_nonneg)

lemma refill_error:
  assumes f: "0 \<le> f" "f \<le> 1" and x: "0 \<le> x" "x \<le> r" and r: "1 \<le> r" "rnd r = r"
  shows "rnd (x + rnd (rnd f * r)) \<le> x + f * r + r * pow2 (- 50)"
proof -
  let ?u = "pow2 (- 53)" and ?h = "pow2 (- 1075)" and ?m = "rnd f" and ?z = "rnd (rnd f * r)"
  have hu: "?h \<le> ?u" by (rule pow2_mono) simp
  have m: "0 \<le> ?m" "?m \<le> 1" using rnd_le_one f by auto
  have z: "0 \<le> ?z" using m r by (intro rnd_nonneg) simp
  have mr: "?m * r \<le> r" using m r mult_right_mono [of ?m 1 r] by simp
  have zr: "?z \<le> r" using rnd_mono [OF mr] r by simp
  have "?u * 1 \<le> ?u * r" using r by (intro mult_left_mono) auto
  then have u0: "0 \<le> ?u" "?h \<le> ?u * r" using hu by (simp, linarith)
  have fu: "?u * f \<le> ?u" using f mult_left_mono [of f 1 ?u] by simp
  have "?m \<le> f + ?u + ?u" using rnd_upper [OF f(1)] fu hu by linarith
  then have "?m * r \<le> (f + 2 * ?u) * r" using r by (intro mult_right_mono) auto
  then have e1: "?m * r \<le> f * r + 2 * (?u * r)" by (simp add: algebra_simps)
  have "?z \<le> ?m * r + ?u * (?m * r) + ?h" using m r by (intro rnd_upper) simp
  moreover have "?u * (?m * r) \<le> ?u * r" using mr u0 by (intro mult_left_mono) auto
  ultimately have e2: "?z \<le> f * r + 4 * (?u * r)" using e1 u0 by linarith
  have "rnd (x + ?z) \<le> (x + ?z) + ?u * (x + ?z) + ?h" using x z by (intro rnd_upper) simp
  moreover have "?u * (x + ?z) \<le> ?u * (r + r)" using x zr u0 by (intro mult_left_mono) auto
  then have "?u * (x + ?z) \<le> 2 * (?u * r)" by (simp add: algebra_simps)
  moreover have "8 * (?u * r) = r * pow2 (- 50)" by (simp add: pow2_def)
  moreover have "0 \<le> ?u * r" using u0 r by simp
  ultimately show ?thesis using e2 u0 by linarith
qed

lemma refill_upper:
  assumes l: "tokens_ok r (Fin x)" "ul_tokens l = Fin x" and r: "1 \<le> r" "r \<le> 2 ^ 53" "rnd r = r"
    and t: "ul_lastRefillAt l \<le> now" and y: "ul_tokens (refill (Fin r) now l) = Fin y"
  shows "y \<le> x + r * of_int (now - ul_lastRefillAt l) / 60000000000 + r * pow2 (- 50)"
proof -
  let ?d = "time_sub now (ul_lastRefillAt l)" and ?D = "now - ul_lastRefillAt l"
  have x: "0 \<le> x" "x \<le> r" using l by (auto simp: tokens_ok_def)
  have d: "0 \<le> ?d" "?d \<le> ?D" using t by (simp_all add: time_sub_nonneg time_sub_le)
  have pos: "0 \<le> r * pow2 (- 50)" using r by simp
  have "tokens_ok r (Fin y)" using refill_ok [of r l now] l r t y by simp
  then have yr: "y \<le> r" by (auto simp: tokens_ok_def)
  show ?thesis
  proof (cases "minute \<le> ?d")
    case True
    then have "(60000000000 :: rat) \<le> of_int ?D" using d by linarith
    then have "r * 1 \<le> r * (of_int ?D / 60000000000)" using r by (intro mult_left_mono) auto
    then have "r \<le> r * of_int ?D / 60000000000"
      by (simp only: mult_1_right times_divide_eq_right)
    then show ?thesis using yr x pos by linarith
  next
    case False
    let ?f = "of_int ?d / 60000000000 :: rat"
    have f: "0 \<le> ?f" "?f \<le> 1" using d False by (simp_all add: divide_le_eq)
    have big: "(2 :: rat) ^ 53 + 2 ^ 53 \<le> pow2 1023" using pow2_mono [of 54 1023] by (simp add: pow2_def)
    let ?m = "rnd ?f"
    have m: "0 \<le> ?m" "?m \<le> 1" using rnd_le_one f by auto
    have mr: "0 \<le> ?m * r" "?m * r \<le> r" using m r mult_right_mono [of ?m 1 r] by auto
    have z: "0 \<le> rnd (?m * r)" "rnd (?m * r) \<le> r" using mr rnd_nonneg rnd_mono r by fastforce+
    have "fl (?m * r) = Fin (rnd (?m * r))"
      by (rule fl_Fin) (use mr r big in linarith)
    then have "Minutes ?d * Fin r = Fin (rnd (?m * r))"
      using Minutes_short [of ?d] d False by simp
    moreover have "fl (x + rnd (?m * r)) = Fin (rnd (x + rnd (?m * r)))"
      by (rule fl_Fin) (use x z r big in linarith)
    ultimately have "ul_tokens l + Minutes ?d * Fin r = Fin (rnd (x + rnd (?m * r)))"
      using l by simp
    then have "y \<le> rnd (x + rnd (?m * r))"
      using y by (auto simp: refill_def Let_def split: if_splits)
    also have "\<dots> \<le> x + ?f * r + r * pow2 (- 50)" by (rule refill_error [OF f x r(1) r(3)])
    also have "?f * r \<le> of_int ?D / 60000000000 * r" using d r by (intro mult_right_mono divide_right_mono) auto
    finally show ?thesis by (simp add: mult.commute)
  qed
qed

subsection \<open>One call\<close>

definition bucket_ok :: "rat \<Rightarrow> time \<Rightarrow> RateLimiter \<Rightarrow> bool" where
  "bucket_ok r a rl \<longleftrightarrow> (\<forall>u l. rl u = Some l \<longrightarrow> tokens_ok r (ul_tokens l) \<and> ul_lastRefillAt l \<le> a)"

definition bucket :: "rat \<Rightarrow> time \<Rightarrow> gostr \<Rightarrow> RateLimiter \<Rightarrow> UserRateLimit" where
  "bucket r t0 u rl = (case rl u of None \<Rightarrow> \<lparr> ul_tokens = Fin r, ul_lastRefillAt = t0 \<rparr> | Some l \<Rightarrow> l)"

lemma Allow_eq:
  "r \<noteq> 0 \<Longrightarrow> RateLimiter_Allow u (Fin r) t0 t rl =
     (let (ok, l) = take_token (refill (Fin r) t (bucket r t0 u rl)) in (ok, rl(u \<mapsto> l)))"
  by (simp add: RateLimiter_Allow_def bucket_def zero_flt_def Let_def)

lemma take_token_Fin:
  assumes "tokens_ok r (ul_tokens l)" "r \<le> 2 ^ 53" "ul_tokens l = Fin y"
  shows "take_token l = (1 \<le> y, l\<lparr> ul_tokens := Fin (if 1 \<le> y then y - 1 else y) \<rparr>)"
proof (cases "1 \<le> y")
  case True
  have y: "y \<le> 2 ^ 53" "rnd y = y" using assms by (auto simp: tokens_ok_def)
  have "(2 :: rat) ^ 53 \<le> pow2 1023" using pow2_mono [of 53 1023] by (simp add: pow2_def)
  then have "fl (y - 1) = Fin (y - 1)"
    using True y by (simp add: fl_Fin rnd_minus_one)
  then show ?thesis using True assms(3) by (simp add: take_token_def minus_flt_def)
next
  case False
  then show ?thesis using assms(3) by (simp add: take_token_def)
qed

lemma take_token_ok:
  assumes "tokens_ok r (ul_tokens l)" "r \<le> 2 ^ 53"
  shows "tokens_ok r (ul_tokens (snd (take_token l)))"
proof -
  obtain y where y: "ul_tokens l = Fin y" "0 \<le> y" "y \<le> r" "rnd y = y"
    using assms(1) by (auto simp: tokens_ok_def)
  then show ?thesis
    using take_token_Fin [OF assms y(1)] assms(2) rnd_minus_one [of y] by (auto simp: tokens_ok_def)
qed

lemma take_token_last [simp]: "ul_lastRefillAt (snd (take_token l)) = ul_lastRefillAt l"
  by (simp add: take_token_def)

lemma refill_last [simp]: "ul_lastRefillAt (refill rpm now l) = now"
  by (simp add: refill_def Let_def)

lemma bucket_tokens_ok:
  "bucket_ok r a rl \<Longrightarrow> 0 < r \<Longrightarrow> rnd r = r \<Longrightarrow> a \<le> t0 \<Longrightarrow>
     tokens_ok r (ul_tokens (bucket r t0 u rl)) \<and> ul_lastRefillAt (bucket r t0 u rl) \<le> t0"
  by (force simp: bucket_ok_def bucket_def tokens_ok_def split: option.splits)

lemma Allow_bucket_ok:
  assumes "bucket_ok r a rl" "0 < r" "r \<le> 2 ^ 53" "rnd r = r" "a \<le> t0" "t0 \<le> t"
  shows "bucket_ok r t (snd (RateLimiter_Allow u (Fin r) t0 t rl))"
proof -
  let ?l = "refill (Fin r) t (bucket r t0 u rl)"
  have b: "tokens_ok r (ul_tokens (bucket r t0 u rl))" "ul_lastRefillAt (bucket r t0 u rl) \<le> t"
    using bucket_tokens_ok [OF assms(1,2,4,5), of u] assms(6) by auto
  have "tokens_ok r (ul_tokens (snd (take_token ?l)))"
    using refill_ok [OF b(1) assms(2,4) b(2)] assms(3) by (rule take_token_ok)
  then show ?thesis
    using assms by (auto simp: Allow_eq bucket_ok_def split_beta Let_def) force
qed

lemma Allow_frame: "v \<noteq> u \<Longrightarrow> snd (RateLimiter_Allow u rpm t0 t rl) v = rl v"
  by (simp add: RateLimiter_Allow_def Let_def split_beta)

text \<open>Under a monotone clock every bucket always holds a float between 0 and the configured
  requests per minute, whatever the interleaving of users, and was refilled in the past.\<close>

theorem limiter_invariant:
  assumes "0 < r" "r \<le> 2 ^ 53" "rnd r = r" "clock_ok a evs"
  shows "bucket_ok r (last_reading a evs) (snd (rl_run (Fin r) evs Map.empty))"
proof -
  have "bucket_ok r (last_reading a evs) (snd (rl_run (Fin r) evs rl))" if "bucket_ok r a rl" for rl
    using that assms(4)
  proof (induction evs arbitrary: a rl)
    case (Cons e evs)
    obtain u t0 t where e: "e = (u, t0, t)" by (cases e)
    with Cons.prems assms have "bucket_ok r t (snd (RateLimiter_Allow u (Fin r) t0 t rl))"
      by (intro Allow_bucket_ok) auto
    with Cons e show ?case by (simp add: split_beta Let_def)
  qed simp
  moreover have "bucket_ok r a Map.empty" by (simp add: bucket_ok_def)
  ultimately show ?thesis by blast
qed

subsection \<open>Conformance to the configured rate\<close>

text \<open>What a user can still spend at time \<open>a\<close>, not counting what later refills add.\<close>

definition accrued :: "rat \<Rightarrow> time \<Rightarrow> time \<Rightarrow> rat" where
  "accrued r a b = r * of_int (b - a) / 60000000000"

definition budget :: "rat \<Rightarrow> time \<Rightarrow> gostr \<Rightarrow> RateLimiter \<Rightarrow> rat" where
  "budget r a u rl = (case rl u of None \<Rightarrow> r
     | Some l \<Rightarrow> (case ul_tokens l of Fin x \<Rightarrow> x + accrued r (ul_lastRefillAt l) a | _ \<Rightarrow> 0))"

lemma accrued_add: "accrued r a b + accrued r b c = accrued r a c"
  by (simp add: accrued_def algebra_simps add_divide_distrib [symmetric] diff_divide_distrib [symmetric])

lemma accrued_nonneg: "0 \<le> r \<Longrightarrow> a \<le> b \<Longrightarrow> 0 \<le> accrued r a b"
  by (simp add: accrued_def)

definition spent :: "bool \<Rightarrow> rat" where
  "spent b = (if b then 1 else 0)"

lemma Allow_spends:
  assumes rl: "bucket_ok r a rl" and r: "1 \<le> r" "r \<le> 2 ^ 53" "rnd r = r" and t: "a \<le> t0" "t0 \<le> t"
  shows "case RateLimiter_Allow u (Fin r) t0 t rl of (ok, rl') \<Rightarrow>
     spent ok + budget r t u rl' \<le> budget r a u rl + accrued r a t + r * pow2 (- 50)"
proof -
  let ?b = "bucket r t0 u rl" and ?l = "refill (Fin r) t (bucket r t0 u rl)"
  have ok: "tokens_ok r (ul_tokens ?b)" and le: "ul_lastRefillAt ?b \<le> t"
    using bucket_tokens_ok [OF rl _ r(3) t(1), of u] r(1) t(2) by auto
  then obtain x where x: "ul_tokens ?b = Fin x" by (auto simp: tokens_ok_def)
  have ok': "tokens_ok r (ul_tokens ?l)" using refill_ok ok le r by simp
  then obtain y where y: "ul_tokens ?l = Fin y" by (auto simp: tokens_ok_def)
  have up: "y \<le> x + accrued r (ul_lastRefillAt ?b) t + r * pow2 (- 50)"
    using refill_upper [OF _ x r le y] ok x by (simp add: accrued_def)
  have b: "x + accrued r (ul_lastRefillAt ?b) t \<le> budget r a u rl + accrued r a t"
  proof (cases "rl u")
    case None
    with x have "x = r" "ul_lastRefillAt ?b = t0" by (simp_all add: bucket_def)
    then show ?thesis
      using None accrued_add [of r a t0 t] accrued_nonneg [of r a t0] r t by (simp add: budget_def)
  next
    case (Some l)
    with x show ?thesis using accrued_add [of r "ul_lastRefillAt l" a t] by (simp add: budget_def bucket_def)
  qed
  have "spent (1 \<le> y) + budget r t u (rl(u \<mapsto> snd (take_token ?l))) = y"
    using take_token_Fin [OF ok' r(2) y] by (simp add: budget_def spent_def accrued_def)
  then have "spent (1 \<le> y) + budget r t u (rl(u \<mapsto> snd (take_token ?l)))
      \<le> budget r a u rl + accrued r a t + r * pow2 (- 50)"
    using up b by linarith
  then show ?thesis
    using take_token_Fin [OF ok' r(2) y] r(1) by (simp add: Allow_eq)
qed

lemma Allow_other_budget:
  assumes "bucket_ok r a rl" "0 < r" "a \<le> t" "v \<noteq> u"
  shows "budget r t u (snd (RateLimiter_Allow v (Fin r) t0 t rl)) \<le> budget r a u rl + accrued r a t"
proof (cases "rl u")
  case None
  then show ?thesis using assms by (simp add: budget_def Allow_frame accrued_nonneg)
next
  case (Some l)
  then obtain x where "ul_tokens l = Fin x" using assms(1) by (auto simp: bucket_ok_def tokens_ok_def)
  then show ?thesis
    using Some assms accrued_add [of r "ul_lastRefillAt l" a t] by (simp add: budget_def Allow_frame)
qed

lemma run_budget:
  assumes r: "1 \<le> r" "r \<le> 2 ^ 53" "rnd r = r"
  shows "bucket_ok r a rl \<Longrightarrow> clock_ok a evs \<Longrightarrow>
     of_nat (admitted u evs (fst (rl_run (Fin r) evs rl))) \<le>
       budget r a u rl + accrued r a (last_reading a evs) + of_nat (length evs) * (r * pow2 (- 50))"
proof (induction evs arbitrary: a rl)
  case Nil
  have "0 \<le> budget r a u rl" if "\<forall>l. rl u = Some l \<longrightarrow> tokens_ok r (ul_tokens l) \<and> ul_lastRefillAt l \<le> a"
    using that r by (auto simp: budget_def tokens_ok_def accrued_nonneg split: option.split)
  then show ?case using Nil by (simp add: admitted_def bucket_ok_def accrued_def)
next
  case (Cons e evs)
  obtain v t0 t where e: "e = (v, t0, t)" by (cases e)
  with Cons.prems have c: "a \<le> t0" "t0 \<le> t" "clock_ok t evs" by auto
  obtain ok rl' where A: "RateLimiter_Allow v (Fin r) t0 t rl = (ok, rl')" by fastforce
  have rl': "bucket_ok r t rl'"
    using Allow_bucket_ok [OF Cons.prems(1) _ r(2,3) c(1,2), of v] A r by simp
  let ?e = "r * pow2 (- 50)" and ?s = "spent (v = u \<and> ok)"
  have step: "?s + budget r t u rl' \<le> budget r a u rl + accrued r a t + ?e"
  proof (cases "v = u")
    case True
    then show ?thesis using Allow_spends [OF Cons.prems(1) r c(1,2), of u] A by simp
  next
    case False
    have e0: "0 \<le> ?e" using r by simp
    have "budget r t u rl' \<le> budget r a u rl + accrued r a t"
      using Allow_other_budget [OF Cons.prems(1) _ _ False, of t t0] A r c by simp
    then have "budget r t u rl' \<le> budget r a u rl + accrued r a t + ?e" using e0 by linarith
    then show ?thesis using False by (simp add: spent_def)
  qed
  have "of_nat (admitted u (e # evs) (fst (rl_run (Fin r) (e # evs) rl))) =
      ?s + of_nat (admitted u evs (fst (rl_run (Fin r) evs rl')))"
    using e A by (simp add: admitted_def split_beta Let_def spent_def)
  also have "\<dots> \<le> ?s + (budget r t u rl' + accrued r t (last_reading t evs) + of_nat (length evs) * ?e)"
    using Cons.IH [OF rl' c(3)] by simp
  also have "\<dots> \<le> budget r a u rl + accrued r a (last_reading a (e # evs)) + of_nat (length (e # evs)) * ?e"
    using step accrued_add [of r a t "last_reading t evs"] e by (simp add: algebra_simps)
  finally show ?case .
qed

text \<open>Rate conformance. With \<open>r\<close> requests per minute configured, the calls admitted for one user
  between readings \<open>a\<close> and \<open>b\<close> of a monotone clock number at most \<open>r + r * (b - a) / 60 s\<close>, one
  full bucket and what the elapsed time refills, plus the rounding of the float64 arithmetic, which
  is below \<open>r / 2^50\<close> per call, whatever other users do in between.\<close>

theorem limiter_conformance:
  assumes "1 \<le> r" "r \<le> 2 ^ 53" "rnd r = r" "clock_ok a evs"
  shows "of_nat (admitted u evs (fst (rl_run (Fin r) evs Map.empty))) \<le>
     r + r * of_int (last_reading a evs - a) / 60000000000 + of_nat (length evs) * (r / 2 ^ 50)"
proof -
  have "bucket_ok r a Map.empty" by (simp add: bucket_ok_def)
  from run_budget [OF assms(1-3) this assms(4), of u]
  show ?thesis by (simp add: budget_def accrued_def pow2_def)
qed

text \<open>No starvation: a user who has waited a full minute since the last refill is admitted, and a
  user the limiter has not seen is admitted at once.\<close>

theorem limiter_no_starvation:
  assumes "bucket_ok r a rl" "1 \<le> r" "r \<le> 2 ^ 53" "rnd r = r"
    and "a \<le> t0" "t0 \<le> now" "is_i64 (now - a)"
    and "\<And>l. rl u = Some l \<Longrightarrow> minute \<le> now - ul_lastRefillAt l \<and> is_i64 (now - ul_lastRefillAt l)"
  shows "fst (RateLimiter_Allow u (Fin r) t0 now rl)"
proof -
  let ?b = "bucket r t0 u rl" and ?l = "refill (Fin r) now (bucket r t0 u rl)"
  have ok: "tokens_ok r (ul_tokens ?b)" "ul_lastRefillAt ?b \<le> now"
    using bucket_tokens_ok [OF assms(1) _ assms(4,5), of u] assms(2,6) by auto
  have ok': "tokens_ok r (ul_tokens ?l)" using refill_ok ok assms by simp
  then obtain y where y: "ul_tokens ?l = Fin y" "y \<le> r" by (auto simp: tokens_ok_def)
  obtain x where x: "ul_tokens ?b = Fin x" "0 \<le> x" using ok by (auto simp: tokens_ok_def)
  let ?M = "Minutes (time_sub now (ul_lastRefillAt ?b))"
  have full: "x = r \<or> (\<exists>m \<ge> 1. ?M = Fin m) \<or> ?M = Infty False"
  proof (cases "rl u")
    case None
    then show ?thesis using x by (simp add: bucket_def)
  next
    case (Some l)
    then have d: "minute \<le> now - ul_lastRefillAt l" "is_i64 (now - ul_lastRefillAt l)"
      using assms(8) by auto
    have "nneg ?M" using Some d by (simp add: bucket_def nneg_Minutes)
    then show ?thesis
      using Some d Minutes_long [OF d] by (auto simp: nneg_def bucket_def)
  qed
  have z: "nneg (?M * Fin r)" using ok assms(2) by (simp add: nneg_mult nneg_Minutes time_sub_nonneg)
  have "r \<le> y"
  proof (cases "Fin r < Fin x + ?M * Fin r")
    case True
    then show ?thesis using x y by (simp add: refill_def Let_def)
  next
    case False
    with z x obtain w where w: "?M * Fin r = Fin w" "0 \<le> w"
      by (cases "?M * Fin r") (auto simp: nneg_def)
    have xw: "Fin y = fl (x + w)" using False w x y by (simp add: refill_def Let_def)
    then have yy: "y = rnd (x + w)" by (metis fl_FinD)
    have "r \<le> x + w"
    proof (cases "x = r")
      case False
      with full w assms(2) obtain m where m: "1 \<le> m" "?M = Fin m" by auto
      with w have "w = rnd (m * r)" using fl_FinD by simp
      moreover have "r \<le> m * r" using m assms(2) mult_right_mono [of 1 m r] by simp
      ultimately have "rnd r \<le> w" using rnd_mono by simp
      then show ?thesis using x assms by simp
    qed (use w in simp)
    then show ?thesis using yy rnd_mono [of r "x + w"] assms by simp
  qed
  then have "y = r" using y by simp
  then show ?thesis
    using take_token_Fin [OF ok' assms(3) y(1)] assms(2) by (simp add: Allow_eq)
qed

text \<open>With a rate between 0 and 1 request per minute a bucket never reaches one token.\<close>

lemma limiter_fractional_rate:
  assumes "bucket_ok r a rl" "0 < r" "r < 1" "rnd r = r" "a \<le> t0" "t0 \<le> now"
  shows "\<not> fst (RateLimiter_Allow u (Fin r) t0 now rl)"
proof -
  let ?b = "bucket r t0 u rl"
  have ok: "tokens_ok r (ul_tokens ?b)" "ul_lastRefillAt ?b \<le> now"
    using bucket_tokens_ok [OF assms(1,2,4,5), of u] assms(6) by auto
  have "tokens_ok r (ul_tokens (refill (Fin r) now ?b))" using refill_ok ok assms by simp
  then show ?thesis using assms(2,3) by (auto simp: Allow_eq take_token_def Let_def tokens_ok_def)
qed

lemma limiter_conformance_witness:
  "of_nat (admitted ''u'' (replicate 3 (''u'', 0, 0))
       (fst (rl_run (Fin 2) (replicate 3 (''u'', 0, 0)) Map.empty))) \<le>
     (2 :: rat) + 2 * of_int (last_reading 0 (replicate 3 (''u'', 0, 0)) - 0) / 60000000000
       + of_nat (length (replicate 3 (''u'' :: gostr, 0 :: time, 0 :: time))) * (2 / 2 ^ 50) \<and>
   fst (rl_run (Fin 2) (replicate 3 (''u'', 0, 0)) Map.empty) = [True, True, False]"
proof
  show "of_nat (admitted ''u'' (replicate 3 (''u'', 0, 0))
       (fst (rl_run (Fin 2) (replicate 3 (''u'', 0, 0)) Map.empty))) \<le>
     (2 :: rat) + 2 * of_int (last_reading 0 (replicate 3 (''u'', 0, 0)) - 0) / 60000000000
       + of_nat (length (replicate 3 (''u'' :: gostr, 0 :: time, 0 :: time))) * (2 / 2 ^ 50)"
    by (rule limiter_conformance) (use rnd_of_int [of 2] in \<open>simp_all add: numeral_3_eq_3\<close>)
  show "fst (rl_run (Fin 2) (replicate 3 (''u'', 0, 0)) Map.empty) = [True, True, False]"
    by code_simp
qed

lemma limiter_invariant_witness:
  "bucket_ok 60 90 (snd (rl_run (Fin 60) [(''u'', 1, 1), (''v'', 5, 7), (''u'', 90, 90)] Map.empty))"
proof -
  have "last_reading 0 [(''u'', 1, 1), (''v'', 5, 7), (''u'', 90, 90)] = 90" by simp
  moreover have "rnd 60 = 60" using rnd_of_int [of 60] by simp
  ultimately show ?thesis
    using limiter_invariant [of 60 0 "[(''u'', 1, 1), (''v'', 5, 7), (''u'', 90, 90)]"]
    by (simp del: rl_run.simps)
qed

lemma limiter_no_starvation_witness:
  "fst (RateLimiter_Allow ''u'' (Fin 60) 70000000000 70000000000
     [''u'' \<mapsto> \<lparr> ul_tokens = Fin 0, ul_lastRefillAt = 5 \<rparr>])"
  by (rule limiter_no_starvation [where r = 60 and a = 5])
    (use rnd_of_int [of 60] in \<open>auto simp: bucket_ok_def tokens_ok_def is_i64_def\<close>)

end
