(* ===== verification/Base64.thy ===== *)
theory Base64
  imports GoStrings
begin

text \<open>
  \<open>encoding/base64\<close> as the program uses it: the standard and the URL alphabet, with or without
  padding. The decoder drops carriage returns and line feeds and, like Go's non-strict decoder,
  ignores the unused low bits of the last character.
\<close>

datatype b64 = B64 (b64_url: bool) (b64_pad: bool)

abbreviation StdEncoding :: b64 where "StdEncoding \<equiv> B64 False True"
abbreviation RawStdEncoding :: b64 where "RawStdEncoding \<equiv> B64 False False"
abbreviation RawURLEncoding :: b64 where "RawURLEncoding \<equiv> B64 True False"

definition enc6 :: "b64 \<Rightarrow> nat \<Rightarrow> char" where
  "enc6 e n = (if n < 26 then char_of (65 + n) else if n < 52 then char_of (71 + n)
     else if n < 62 then char_of (n - 4)
     else if n = 62 then (if b64_url e then CHR ''-'' else CHR ''+'')
     else (if b64_url e then CHR ''_'' else CHR ''/''))"

definition dec6 :: "b64 \<Rightarrow> char \<Rightarrow> nat option" where
  "dec6 e c = (let n = of_char c :: nat in
     if 65 \<le> n \<and> n \<le> 90 then Some (n - 65)
     else if 97 \<le> n \<and> n \<le> 122 then Some (n - 71)
     else if 48 \<le> n \<and> n \<le> 57 then Some (n + 4)
     else if c = (if b64_url e then CHR ''-'' else CHR ''+'') then Some 62
     else if c = (if b64_url e then CHR ''_'' else CHR ''/'') then Some 63
     else None)"

definition byte :: "char \<Rightarrow> nat" where
  "byte c = of_char c"

definition pad :: "b64 \<Rightarrow> nat \<Rightarrow> gostr" where
  "pad e k = (if b64_pad e then replicate k (CHR ''='') else [])"

fun b64_encode :: "b64 \<Rightarrow> gostr \<Rightarrow> gostr" where
  "b64_encode e [] = []"
| "b64_encode e [a] =
     [enc6 e (byte a div 4), enc6 e (byte a mod 4 * 16)] @ pad e 2"
| "b64_encode e [a, b] =
     [enc6 e (byte a div 4), enc6 e (byte a mod 4 * 16 + byte b div 16),
      enc6 e (byte b mod 16 * 4)] @ pad e 1"
| "b64_encode e (a # b # c # xs) =
     [enc6 e (byte a div 4), enc6 e (byte a mod 4 * 16 + byte b div 16),
      enc6 e (byte b mod 16 * 4 + byte c div 64), enc6 e (byte c mod 64)] @ b64_encode e xs"

definition dec1 :: "nat \<Rightarrow> nat \<Rightarrow> char" where "dec1 p q = char_of (p * 4 + q div 16)"
definition dec2 :: "nat \<Rightarrow> nat \<Rightarrow> char" where "dec2 q r = char_of (q mod 16 * 16 + r div 4)"
definition dec3 :: "nat \<Rightarrow> nat \<Rightarrow> char" where "dec3 r s = char_of (r mod 4 * 64 + s)"

fun b64_dec :: "b64 \<Rightarrow> gostr \<Rightarrow> gostr option" where
  "b64_dec e [] = Some []"
| "b64_dec e [a] = None"
| "b64_dec e [a, b] = (if b64_pad e then None
     else case (dec6 e a, dec6 e b) of (Some p, Some q) \<Rightarrow> Some [dec1 p q] | _ \<Rightarrow> None)"
| "b64_dec e [a, b, c] = (if b64_pad e then None
     else case (dec6 e a, dec6 e b, dec6 e c) of
        (Some p, Some q, Some r) \<Rightarrow> Some [dec1 p q, dec2 q r] | _ \<Rightarrow> None)"
| "b64_dec e (a # b # c # d # xs) =
     (if b64_pad e \<and> d = CHR ''='' then
        (if xs \<noteq> [] then None
         else if c = CHR ''='' then
           (case (dec6 e a, dec6 e b) of (Some p, Some q) \<Rightarrow> Some [dec1 p q] | _ \<Rightarrow> None)
         else (case (dec6 e a, dec6 e b, dec6 e c) of
             (Some p, Some q, Some r) \<Rightarrow> Some [dec1 p q, dec2 q r] | _ \<Rightarrow> None))
      else (case (dec6 e a, dec6 e b, dec6 e c, dec6 e d) of
          (Some p, Some q, Some r, Some s) \<Rightarrow>
            map_option (\<lambda>ys. dec1 p q # dec2 q r # dec3 r s # ys) (b64_dec e xs)
        | _ \<Rightarrow> None))"

definition b64_decode :: "b64 \<Rightarrow> gostr \<Rightarrow> gostr option" where
  "b64_decode e s = b64_dec e (filter (\<lambda>c. c \<noteq> CHR 0x0D \<and> c \<noteq> CHR 0x0A) s)"

subsection \<open>Round trip\<close>

lemma byte_less: "byte c < 256"
  by (simp add: byte_def)

lemma char_of_byte [simp]: "char_of (byte c) = c"
  by (simp add: byte_def)

lemma of_char_char_of_small [simp]: "n < 256 \<Longrightarrow> of_char (char_of (n :: nat)) = n"
  by simp

lemma enc6_range:
  "n < 64 \<Longrightarrow> of_char (enc6 e n) \<in> {43, 45, 47, 95} \<union> {48..57} \<union> {65..90} \<union> {97..(122 :: nat)}"
  by (auto simp: enc6_def)

lemma enc6_not_special: "n < 64 \<Longrightarrow> enc6 e n \<noteq> CHR ''='' \<and> enc6 e n \<noteq> CHR 0x0D \<and> enc6 e n \<noteq> CHR 0x0A \<and> enc6 e n \<noteq> CHR ''$'' \<and> enc6 e n \<noteq> CHR ''.''"
  using enc6_range [of n e] by auto

lemma dec6_enc6 [simp]: "n < 64 \<Longrightarrow> dec6 e (enc6 e n) = Some n"
  by (auto simp: enc6_def dec6_def Let_def)

lemma quanta [simp]:
  "byte a div 4 < 64" "byte a mod 4 * 16 < 64" "byte a mod 4 * 16 + byte b div 16 < 64"
  "byte b mod 16 * 4 < 64" "byte b mod 16 * 4 + byte c div 64 < 64" "byte c mod 64 < 64"
  using byte_less [of a] byte_less [of b] byte_less [of c] by linarith+

lemma dec1_quanta [simp]:
  "dec1 (byte a div 4) (byte a mod 4 * 16 + byte b div 16) = a"
  "dec1 (byte a div 4) (byte a mod 4 * 16) = a"
proof -
  have "byte a div 4 * 4 + (byte a mod 4 * 16 + byte b div 16) div 16 = byte a"
    "byte a div 4 * 4 + (byte a mod 4 * 16) div 16 = byte a"
    using byte_less [of b] by simp_all
  then show "dec1 (byte a div 4) (byte a mod 4 * 16 + byte b div 16) = a"
    "dec1 (byte a div 4) (byte a mod 4 * 16) = a"
    by (simp_all add: dec1_def)
qed

lemma dec2_quanta [simp]:
  "dec2 (byte a mod 4 * 16 + byte b div 16) (byte b mod 16 * 4 + byte c div 64) = b"
  "dec2 (byte a mod 4 * 16 + byte b div 16) (byte b mod 16 * 4) = b"
proof -
  have q: "(byte a mod 4 * 16 + byte b div 16) mod 16 = byte b div 16"
    using byte_less [of b] by simp
  have "byte b div 16 * 16 + (byte b mod 16 * 4 + byte c div 64) div 4 = byte b"
    using byte_less [of c] by simp
  moreover have "byte b div 16 * 16 + (byte b mod 16 * 4) div 4 = byte b" by simp
  ultimately show "dec2 (byte a mod 4 * 16 + byte b div 16) (byte b mod 16 * 4 + byte c div 64) = b"
    "dec2 (byte a mod 4 * 16 + byte b div 16) (byte b mod 16 * 4) = b"
    unfolding dec2_def q by simp_all
qed

lemma dec3_quanta [simp]:
  "dec3 (byte b mod 16 * 4 + byte c div 64) (byte c mod 64) = c"
proof -
  have "(byte b mod 16 * 4 + byte c div 64) mod 4 = byte c div 64"
    using byte_less [of c] by simp
  then have "(byte b mod 16 * 4 + byte c div 64) mod 4 * 64 + byte c mod 64 = byte c" by simp
  then show ?thesis by (simp only: dec3_def char_of_byte)
qed

lemma b64_dec_encode: "b64_dec e (b64_encode e s) = Some s"
proof (induction e s rule: b64_encode.induct)
  case (2 e a)
  then show ?case by (cases "b64_pad e") (simp_all add: pad_def numeral_2_eq_2)
next
  case (3 e a b)
  have "enc6 e (byte b mod 16 * 4) \<noteq> CHR ''=''" using enc6_not_special [OF quanta(4)] by blast
  then show ?case by (cases "b64_pad e") (simp_all add: pad_def)
next
  case (4 e a b c xs)
  have "enc6 e (byte c mod 64) \<noteq> CHR ''=''" using enc6_not_special [OF quanta(6)] by blast
  then show ?case using 4 by simp
qed simp

lemma b64_encode_chars:
  "c \<in> set (b64_encode e s) \<Longrightarrow> c \<noteq> CHR 0x0D \<and> c \<noteq> CHR 0x0A \<and> c \<noteq> CHR ''$'' \<and> c \<noteq> CHR ''.''"
proof (induction e s rule: b64_encode.induct)
  case (2 e a)
  then show ?case using enc6_not_special [of "byte a div 4" e] enc6_not_special [of "byte a mod 4 * 16" e]
    by (auto simp: pad_def split: if_splits)
next
  case (3 e a b)
  then show ?case using enc6_not_special [of "byte a div 4" e]
      enc6_not_special [of "byte a mod 4 * 16 + byte b div 16" e]
      enc6_not_special [of "byte b mod 16 * 4" e]
    by (auto simp: pad_def split: if_splits)
next
  case (4 e a b c xs)
  then show ?case using enc6_not_special [of "byte a div 4" e]
      enc6_not_special [of "byte a mod 4 * 16 + byte b div 16" e]
      enc6_not_special [of "byte b mod 16 * 4 + byte c div 64" e]
      enc6_not_special [of "byte c mod 64" e]
    by auto
qed simp

theorem b64_decode_encode [simp]: "b64_decode e (b64_encode e s) = Some s"
proof -
  have "filter (\<lambda>c. c \<noteq> CHR 0x0D \<and> c \<noteq> CHR 0x0A) (b64_encode e s) = b64_encode e s"
    using b64_encode_chars [of _ e s] by (auto simp: filter_id_conv)
  then show ?thesis by (simp add: b64_decode_def b64_dec_encode)
qed

lemma b64_encode_no_dollar: "CHR ''$'' \<notin> set (b64_encode e s)"
  using b64_encode_chars by blast

lemma b64_encode_no_dot: "CHR ''.'' \<notin> set (b64_encode e s)"
  using b64_encode_chars by blast

end
