(* ===== verification/KeyHash.thy ===== *)
theory KeyHash
  imports Base64 "HOL-Library.Monad_Syntax"
begin

text \<open>
  API key hashing (\<open>core/keys/hash.go\<close>): the self-describing argon2id string, its verification and
  the lookup fingerprint. \<open>argon2.IDKey\<close> and HMAC-SHA256 are arguments of the definitions; the salt
  is the result of \<open>rand.Read\<close>, \<open>None\<close> when that fails. \<open>argon2.IDKey\<close> panics on fewer than one
  iteration or thread, which a stored string can ask for.
\<close>

text \<open>\<open>IDKey(password, salt, time, memory, threads, keyLen)\<close>.\<close>

type_synonym idkey = "gostr \<Rightarrow> gostr \<Rightarrow> int \<Rightarrow> int \<Rightarrow> int \<Rightarrow> nat \<Rightarrow> gostr"

definition argonTime :: int where "argonTime = 2"
definition argonMemory :: int where "argonMemory = 65536"
definition argonThreads :: int where "argonThreads = 2"
definition argonKeyLen :: nat where "argonKeyLen = 32"
definition saltLen :: nat where "saltLen = 16"
definition argonVersion :: int where "argonVersion = 19"

datatype verify_error = NotArgon | BadVersion | BadParams | BadSalt | BadHash

datatype verify_result = VErr verify_error | VPanic | VOk bool

definition IsHashedKey :: "gostr \<Rightarrow> bool" where
  "IsHashedKey s = HasPrefix s ''$argon2id$''"

definition hashAPIKey :: "idkey \<Rightarrow> gostr option \<Rightarrow> gostr \<Rightarrow> gostr option" where
  "hashAPIKey idkey rand plaintext =
     do { salt \<leftarrow> rand;
          let hash = idkey plaintext salt argonTime argonMemory argonThreads argonKeyLen;
          Some (''$argon2id$v='' @ udec argonVersion @ ''$m='' @ udec argonMemory @
            '',t='' @ udec argonTime @ '',p='' @ udec argonThreads @ ''$'' @
            b64_encode RawStdEncoding salt @ ''$'' @ b64_encode RawStdEncoding hash) }"

text \<open>\<open>Sscanf\<close> with \<open>v=%d\<close> and \<open>m=%d,t=%d,p=%d\<close>; input behind the format is ignored.\<close>

definition scan_version :: "gostr \<Rightarrow> int option" where
  "scan_version s = do { s1 \<leftarrow> scan_lit ''v='' s; (v, _) \<leftarrow> scan_int (- (2 ^ 63)) (2 ^ 63 - 1) s1; Some v }"

definition scan_params :: "gostr \<Rightarrow> (int \<times> int \<times> int) option" where
  "scan_params s =
     do { s1 \<leftarrow> scan_lit ''m='' s; (m, s2) \<leftarrow> scan_uint (2 ^ 32 - 1) s1;
          s3 \<leftarrow> scan_lit '',t='' s2; (t, s4) \<leftarrow> scan_uint (2 ^ 32 - 1) s3;
          s5 \<leftarrow> scan_lit '',p='' s4; (p, _) \<leftarrow> scan_uint (2 ^ 8 - 1) s5;
          Some (m, t, p) }"

definition verifyAPIKey :: "idkey \<Rightarrow> gostr \<Rightarrow> gostr \<Rightarrow> verify_result" where
  "verifyAPIKey idkey plaintext stored =
     (let parts = Split (CHR ''$'') stored in
      if length parts \<noteq> 6 \<or> parts ! 1 \<noteq> ''argon2id'' then VErr NotArgon
      else if scan_version (parts ! 2) \<noteq> Some argonVersion then VErr BadVersion
      else case scan_params (parts ! 3) of
        None \<Rightarrow> VErr BadParams
      | Some (memory, time, threads) \<Rightarrow>
          (case b64_decode RawStdEncoding (parts ! 4) of
             None \<Rightarrow> VErr BadSalt
           | Some salt \<Rightarrow>
               (case b64_decode RawStdEncoding (parts ! 5) of
                  None \<Rightarrow> VErr BadHash
                | Some want \<Rightarrow>
                    if time < 1 \<or> threads < 1 then VPanic
                    else VOk (idkey plaintext salt time memory threads (length want) = want))))"

definition indexSecret :: gostr where
  "indexSecret = ''sovstack-keystore-lookup-index-v1''"

definition keyIndex :: "(gostr \<Rightarrow> gostr \<Rightarrow> gostr) \<Rightarrow> gostr \<Rightarrow> gostr" where
  "keyIndex hmac plaintext = b64_encode RawStdEncoding (take 8 (hmac indexSecret plaintext))"

subsection \<open>Hashing and verifying fit together\<close>

lemma udec_params:
  "udec argonVersion = ''19''" "udec argonMemory = ''65536''" "udec argonTime = ''2''"
  "udec argonThreads = ''2''"
  by code_simp+

lemma hashAPIKey_form:
  assumes "hashAPIKey idkey rand k = Some h"
  obtains salt where "rand = Some salt"
    "h = Join ''$'' [[], ''argon2id'', ''v=19'', ''m=65536,t=2,p=2'', b64_encode RawStdEncoding salt,
       b64_encode RawStdEncoding (idkey k salt argonTime argonMemory argonThreads argonKeyLen)]"
  using assms by (auto simp: hashAPIKey_def udec_params split: Option.bind_splits)

lemma hashAPIKey_IsHashedKey: "hashAPIKey idkey rand k = Some h \<Longrightarrow> IsHashedKey h"
  by (auto simp: hashAPIKey_def IsHashedKey_def split: Option.bind_splits)

lemma hash_parts:
  "Split (CHR ''$'') (Join ''$'' [[], ''argon2id'', ''v=19'', ''m=65536,t=2,p=2'', b64_encode e x, b64_encode e y])
     = [[], ''argon2id'', ''v=19'', ''m=65536,t=2,p=2'', b64_encode e x, b64_encode e y]"
  by (rule Split_Join) (use b64_encode_no_dollar in auto)

lemma scan_hash: "scan_version ''v=19'' = Some argonVersion" "scan_params ''m=65536,t=2,p=2'' = Some (65536, 2, 2)"
  by code_simp+

lemma verify_hash_gen:
  assumes "hashAPIKey idkey (Some salt) k = Some h"
    and "\<And>p s t m th n. length (idkey p s t m th n) = n"
  shows "verifyAPIKey idkey c h =
      VOk (idkey c salt argonTime argonMemory argonThreads argonKeyLen =
           idkey k salt argonTime argonMemory argonThreads argonKeyLen)
    \<and> verifyAPIKey idkey k h = VOk True"
proof -
  have h: "h = Join ''$'' [[], ''argon2id'', ''v=19'', ''m=65536,t=2,p=2'', b64_encode RawStdEncoding salt,
       b64_encode RawStdEncoding (idkey k salt argonTime argonMemory argonThreads argonKeyLen)]"
    by (rule hashAPIKey_form [OF assms(1)]) simp
  have "verifyAPIKey idkey c h =
      VOk (idkey c salt argonTime argonMemory argonThreads argonKeyLen =
           idkey k salt argonTime argonMemory argonThreads argonKeyLen)" for c
    unfolding verifyAPIKey_def h hash_parts
    by (simp add: Let_def scan_hash assms(2) argonTime_def argonMemory_def argonThreads_def)
  then show ?thesis by simp
qed

lemma verify_hash_self:
  "hashAPIKey idkey (Some salt) k = Some h \<Longrightarrow> (\<And>p s t m th n. length (idkey p s t m th n) = n) \<Longrightarrow>
     verifyAPIKey idkey k h = VOk True"
  using verify_hash_gen [of idkey salt k h k] by blast

text \<open>Hashing and verification agree: a string made by \<open>hashAPIKey\<close> for one key is accepted for a
  candidate exactly when argon2id maps the candidate to the same digest under the stored salt and
  parameters; in particular the key itself is accepted, and no error or panic arises.\<close>

theorem verify_hash:
  assumes "hashAPIKey idkey (Some salt) k = Some h"
    and "\<And>p s t m th n. length (idkey p s t m th n) = n"
  shows "verifyAPIKey idkey c h =
      VOk (idkey c salt argonTime argonMemory argonThreads argonKeyLen =
           idkey k salt argonTime argonMemory argonThreads argonKeyLen)
    \<and> verifyAPIKey idkey k h = VOk True"
  using verify_hash_gen [OF assms] by blast

lemma verify_hash_witness:
  "let toy = (\<lambda>p s t m th n. take n (p @ s @ replicate n (CHR ''x'')));
       salt = ''0123456789abcdef''; h = the (hashAPIKey toy (Some salt) ''key1'') in
   verifyAPIKey toy ''key2'' h = VOk False \<and> verifyAPIKey toy ''key1'' h = VOk True"
proof -
  define toy :: idkey where "toy = (\<lambda>p s t m th n. take n (p @ s @ replicate n (CHR ''x'')))"
  define salt where "salt = ''0123456789abcdef''"
  obtain h where h: "hashAPIKey toy (Some salt) ''key1'' = Some h"
    by (simp add: hashAPIKey_def)
  have "length (toy p s t m th n) = n" for p s t m th n by (simp add: toy_def)
  note v = verify_hash [OF h this, of "''key2''"]
  have "toy ''key2'' salt argonTime argonMemory argonThreads argonKeyLen \<noteq>
      toy ''key1'' salt argonTime argonMemory argonThreads argonKeyLen"
    by (simp add: toy_def salt_def argonKeyLen_def)
  with v h show ?thesis
    unfolding toy_def [symmetric] salt_def [symmetric] Let_def by simp
qed

end
