(* ===== verification/FieldCrypto.thy ===== *)
theory FieldCrypto
  imports Base64 "HOL-Library.Monad_Syntax"
begin

text \<open>
  Field encryption at rest (\<open>core/crypto/crypto.go\<close>): the \<open>$enc1$\<close> storage format and the master key
  file. AES-256-GCM is an argument: \<open>seal key nonce plaintext\<close> and \<open>open key nonce ciphertext\<close>
  (\<open>None\<close> when authentication fails). A random read is its bytes, or \<open>None\<close> when it fails.
\<close>

type_synonym aead_seal = "gostr \<Rightarrow> gostr \<Rightarrow> gostr \<Rightarrow> gostr"
type_synonym aead_open = "gostr \<Rightarrow> gostr \<Rightarrow> gostr \<Rightarrow> gostr option"

definition encPrefix :: gostr where "encPrefix = ''$enc1$''"
definition masterKeyLen :: nat where "masterKeyLen = 32"
definition nonceSize :: nat where "nonceSize = 12"

datatype crypto_error = WrongKeyLen nat | RandFailed | BadCiphertext | TooShort | AuthFailed

definition IsEncrypted :: "gostr \<Rightarrow> bool" where
  "IsEncrypted stored = HasPrefix stored encPrefix"

definition Encrypt :: "aead_seal \<Rightarrow> gostr option \<Rightarrow> gostr \<Rightarrow> gostr \<Rightarrow> crypto_error + gostr" where
  "Encrypt seal rand masterKey plaintext =
     (if plaintext = [] then Inr []
      else if length masterKey \<noteq> masterKeyLen then Inl (WrongKeyLen (length masterKey))
      else case rand of
        None \<Rightarrow> Inl RandFailed
      | Some nonce \<Rightarrow>
          Inr (encPrefix @ b64_encode StdEncoding (nonce @ seal masterKey nonce plaintext)))"

definition Decrypt :: "aead_open \<Rightarrow> gostr \<Rightarrow> gostr \<Rightarrow> crypto_error + gostr" where
  "Decrypt opn masterKey stored =
     (if \<not> HasPrefix stored encPrefix then Inr stored
      else if length masterKey \<noteq> masterKeyLen then Inl (WrongKeyLen (length masterKey))
      else case b64_decode StdEncoding (TrimPrefix stored encPrefix) of
        None \<Rightarrow> Inl BadCiphertext
      | Some raw \<Rightarrow>
          if length raw < nonceSize then Inl TooShort
          else case opn masterKey (take nonceSize raw) (drop nonceSize raw) of
            None \<Rightarrow> Inl AuthFailed
          | Some pt \<Rightarrow> Inr pt)"

lemma encPrefix_nonempty [simp]: "encPrefix \<noteq> []"
  by (simp add: encPrefix_def)

lemma decrypt_encrypt_gen:
  assumes "\<And>k n p. opn k n (seal k n p) = Some p"
    and "Encrypt seal (Some nonce) mk pt = Inr ct" "length nonce = nonceSize"
  shows "Decrypt opn mk ct = Inr pt \<and> (pt \<noteq> [] \<longrightarrow> IsEncrypted ct) \<and>
     (\<not> IsEncrypted s \<longrightarrow> Decrypt opn mk' s = Inr s)"
  using assms
  by (auto simp: Encrypt_def Decrypt_def IsEncrypted_def split: if_splits)

text \<open>Decrypting what was encrypted under the same 32-byte key returns the field, for every
  authenticated cipher that opens its own seals; an encrypted non-empty field is marked as encrypted,
  and the plaintext of a field without the marker passes through \<open>Decrypt\<close> unchanged.\<close>

theorem decrypt_encrypt:
  assumes "\<And>k n p. opn k n (seal k n p) = Some p"
    and "Encrypt seal (Some nonce) mk pt = Inr ct" "length nonce = nonceSize"
  shows "Decrypt opn mk ct = Inr pt \<and> (pt \<noteq> [] \<longrightarrow> IsEncrypted ct) \<and>
     (\<not> IsEncrypted s \<longrightarrow> Decrypt opn mk' s = Inr s)"
  by (rule decrypt_encrypt_gen [OF assms])

lemma decrypt_encrypt_witness:
  "let mk = replicate 32 (CHR ''k''); nonce = replicate 12 (CHR ''n'');
       ct = projr (Encrypt (\<lambda>k n p. rev p @ ''tag'') (Some nonce) mk ''platform'') in
   Decrypt (\<lambda>k n c. Some (rev (take (length c - 3) c))) mk ct = Inr ''platform'' \<and> IsEncrypted ct"
proof -
  define mk nonce where "mk = replicate 32 (CHR ''k'')" and "nonce = replicate 12 (CHR ''n'')"
  obtain ct where ct: "Encrypt (\<lambda>k n p. rev p @ ''tag'') (Some nonce) mk ''platform'' = Inr ct"
    by (simp add: Encrypt_def mk_def masterKeyLen_def)
  from decrypt_encrypt [of "\<lambda>k n c. Some (rev (take (length c - 3) c))", OF _ ct]
  show ?thesis
    unfolding mk_def [symmetric] nonce_def [symmetric] Let_def ct
    by (simp add: nonce_def nonceSize_def)
qed

subsection \<open>The master key file\<close>

text \<open>A disk maps paths to contents; \<open>io\<close> says which operations fail. \<open>mf_home\<close> is the result of
  \<open>os.UserHomeDir\<close>, \<open>mf_rand\<close> of the random read of 32 bytes.\<close>

type_synonym disk = "gostr \<rightharpoonup> gostr"

record master_env =
  mf_home :: "gostr option"
  mf_read_fails :: bool
  mf_mkdir_fails :: bool
  mf_write_fails :: bool
  mf_rand :: "gostr option"

datatype master_error = NoHome | MkNotBase64 | MkWrongLen nat | MkRead | MkMkdir | MkRand | MkWrite

definition LoadOrCreateMasterKey ::
    "master_env \<Rightarrow> gostr \<Rightarrow> disk \<Rightarrow> disk \<times> (master_error + gostr)" where
  "LoadOrCreateMasterKey env path0 d =
     (case (if HasPrefix path0 ''~/'' then map_option (\<lambda>h. h @ ''/'' @ drop 2 path0) (mf_home env)
            else Some path0) of
        None \<Rightarrow> (d, Inl NoHome)
      | Some path \<Rightarrow>
          if mf_read_fails env then (d, Inl MkRead)
          else case d path of
            Some data \<Rightarrow>
              (case b64_decode StdEncoding (TrimSpace data) of
                 None \<Rightarrow> (d, Inl MkNotBase64)
               | Some decoded \<Rightarrow>
                   if length decoded \<noteq> masterKeyLen then (d, Inl (MkWrongLen (length decoded)))
                   else (d, Inr decoded))
          | None \<Rightarrow>
              if mf_mkdir_fails env then (d, Inl MkMkdir)
              else case mf_rand env of
                None \<Rightarrow> (d, Inl MkRand)
              | Some key \<Rightarrow>
                  if mf_write_fails env then (d, Inl MkWrite)
                  else (d(path \<mapsto> b64_encode StdEncoding key @ [CHR 0x0A]), Inr key))"

lemma enc6_not_space: "n < 64 \<Longrightarrow> \<not> is_space (enc6 e n)"
  using enc6_range [of n e] by (auto simp: is_space_def)

lemma b64_no_space: "c \<in> set (b64_encode e s) \<Longrightarrow> \<not> is_space c"
proof (induction e s rule: b64_encode.induct)
  case (4 e a b c' xs)
  then show ?case
    using enc6_not_space [of "byte a div 4" e] enc6_not_space [of "byte a mod 4 * 16 + byte b div 16" e]
      enc6_not_space [of "byte b mod 16 * 4 + byte c' div 64" e] enc6_not_space [of "byte c' mod 64" e]
    by auto
next
  case (3 e a b)
  then show ?case
    using enc6_not_space [of "byte a div 4" e] enc6_not_space [of "byte a mod 4 * 16 + byte b div 16" e]
      enc6_not_space [of "byte b mod 16 * 4" e]
    by (auto simp: pad_def is_space_def split: if_splits)
next
  case (2 e a)
  then show ?case
    using enc6_not_space [of "byte a div 4" e] enc6_not_space [of "byte a mod 4 * 16" e]
    by (auto simp: pad_def is_space_def split: if_splits)
qed simp

lemma TrimSpace_newline: "\<forall>c \<in> set s. \<not> is_space c \<Longrightarrow> TrimSpace (s @ [CHR 0x0A]) = s"
proof (cases "s = []")
  case True
  then show ?thesis by (simp add: TrimSpace_def is_space_def)
next
  case False
  assume *: "\<forall>c \<in> set s. \<not> is_space c"
  then have "dropWhile is_space (s @ [CHR 0x0A]) = s @ [CHR 0x0A]"
    using False by (cases s) auto
  moreover have "dropWhile is_space (rev s) = rev s"
    using * False by (intro dropWhile_hd_not) (auto simp: hd_rev)
  ultimately show ?thesis by (simp add: TrimSpace_def is_space_def [of "CHR 0x0A"])
qed

text \<open>The master key survives a restart: once \<open>LoadOrCreateMasterKey\<close> has returned a key it
  returns the same key from the disk it left, whatever the random source yields then; an existing
  file is never rewritten; and every key returned, given a random source of the right length, is 32
  bytes long.\<close>

theorem master_key_stable:
  assumes "LoadOrCreateMasterKey env path d = (d', Inr key)"
    and "\<And>k. mf_rand env = Some k \<Longrightarrow> length k = masterKeyLen"
    and "\<not> mf_read_fails env'" "mf_home env' = mf_home env"
  shows "LoadOrCreateMasterKey env' path d' = (d', Inr key) \<and> length key = masterKeyLen \<and> d \<subseteq>\<^sub>m d'"
proof -
  have t: "b64_decode StdEncoding (TrimSpace (b64_encode StdEncoding k @ [CHR 0x0A])) = Some k" for k
    using TrimSpace_newline [of "b64_encode StdEncoding k"] b64_no_space by simp
  show ?thesis
    using assms
    by (auto simp: LoadOrCreateMasterKey_def t map_le_def
        split: if_splits option.splits)
qed

lemma master_key_stable_witness:
  "let k = replicate 32 (CHR 0x07);
       e = \<lparr> mf_home = None, mf_read_fails = False, mf_mkdir_fails = False, mf_write_fails = False,
             mf_rand = Some k \<rparr>;
       e' = e\<lparr> mf_rand := None \<rparr>; d' = fst (LoadOrCreateMasterKey e ''mk'' Map.empty) in
   LoadOrCreateMasterKey e' ''mk'' d' = (d', Inr k)"
proof -
  define k where "k = replicate 32 (CHR 0x07)"
  define e where "e = \<lparr> mf_home = None, mf_read_fails = False, mf_mkdir_fails = False,
      mf_write_fails = False, mf_rand = Some k \<rparr>"
  obtain d' where d': "LoadOrCreateMasterKey e ''mk'' Map.empty = (d', Inr k)"
    by (simp add: LoadOrCreateMasterKey_def e_def HasPrefix_def)
  have "LoadOrCreateMasterKey (e\<lparr> mf_rand := None \<rparr>) ''mk'' d' = (d', Inr k) \<and>
      length k = masterKeyLen \<and> Map.empty \<subseteq>\<^sub>m d'"
    by (rule master_key_stable [OF d']) (auto simp: e_def k_def masterKeyLen_def)
  then show ?thesis
    unfolding Let_def k_def [symmetric] e_def [symmetric] using d' by simp
qed

end
