(* ===== verification/KeyStore.thy ===== *)
theory KeyStore
  imports Prelude Float64 KeyHash FieldCrypto
begin

text \<open>
  The key store (\<open>core/keys/store.go\<close>, \<open>core/keys/encryption.go\<close>): user profiles in memory, their
  image on disk, the operations of the management service and the CLI, and the atomic save. Every
  operation takes the store and the disk and returns both with its error. Library primitives
  (argon2id, HMAC, AES-GCM, the JSON codec of the users map) are the fields of \<open>prims\<close>; what the
  outside decides during a save (the iteration order of the map, nonces, which system call fails, how
  much of a failing write got through, the random suffix of the temporary file) is in \<open>save_env\<close>.
\<close>

record UserProfile =
  up_ID :: gostr
  up_Key :: gostr
  up_KeyIndex :: gostr
  up_Department :: gostr
  up_Team :: gostr
  up_Role :: gostr
  up_IPAllowlist :: "gostr list"
  up_AllowedModels :: "gostr list"
  up_RateLimitPerMin :: flt
  up_MaxTokensPerDay :: int
  up_MaxTokensPerMonth :: int
  up_CreatedAt :: time
  up_LastUsedAt :: time

type_synonym users = "gostr \<rightharpoonup> UserProfile"

text \<open>\<open>ks_nil\<close>: the map of the store is nil (a key file without a \<open>users\<close> object); reading a nil map
  finds nothing, writing to it panics.\<close>

record KeyStore =
  ks_Users :: users
  ks_nil :: bool
  ks_path :: gostr
  ks_masterKey :: gostr

record prims =
  p_idkey :: idkey
  p_hmac :: "gostr \<Rightarrow> gostr \<Rightarrow> gostr"
  p_seal :: aead_seal
  p_open :: aead_open
  p_marshal :: "users \<Rightarrow> gostr option"
  p_unmarshal :: "gostr \<Rightarrow> users option option"

datatype save_step = OpenLock | Flock | CreateTemp | WriteTemp | ChmodTemp | SyncTemp | CloseTemp | RenameTemp

record save_env =
  se_order :: "gostr list"
  se_nonce :: "gostr \<Rightarrow> nat \<Rightarrow> gostr option"
  se_fault :: "save_step \<Rightarrow> bool"
  se_partial :: nat
  se_remove_fails :: bool
  se_suffix :: gostr

datatype save_error = SaveEncrypt gostr crypto_error | SaveMarshal | SaveStep save_step

datatype key_error =
  EmptyID | EmptyKey | HashFailed gostr | NotFound gostr | SaveErr save_error | PanicNilMap
| ReadFailed | InvalidJSON | NoMasterKey | DecryptErr gostr crypto_error

datatype lookup_error = LookupVerify gostr verify_error | LookupPanic

subsection \<open>Loading\<close>

definition LoadKeyStore :: "prims \<Rightarrow> bool \<Rightarrow> gostr \<Rightarrow> disk \<Rightarrow> key_error + KeyStore" where
  "LoadKeyStore P read_fails path d =
     (if read_fails then Inl ReadFailed
      else case d path of
        None \<Rightarrow> Inr \<lparr> ks_Users = Map.empty, ks_nil = False, ks_path = path, ks_masterKey = [] \<rparr>
      | Some data \<Rightarrow>
          (case p_unmarshal P data of
             None \<Rightarrow> Inl InvalidJSON
           | Some None \<Rightarrow> Inr \<lparr> ks_Users = Map.empty, ks_nil = True, ks_path = path, ks_masterKey = [] \<rparr>
           | Some (Some us) \<Rightarrow>
               Inr \<lparr> ks_Users = us, ks_nil = False, ks_path = path, ks_masterKey = [] \<rparr>))"

definition SetMasterKey :: "gostr \<Rightarrow> KeyStore \<Rightarrow> KeyStore" where
  "SetMasterKey mk ks = ks\<lparr> ks_masterKey := mk \<rparr>"

subsection \<open>Saving\<close>

definition encrypt_field :: "prims \<Rightarrow> gostr option \<Rightarrow> gostr \<Rightarrow> gostr \<Rightarrow> crypto_error + gostr" where
  "encrypt_field P nonce mk v =
     (if \<not> IsEncrypted v \<and> v \<noteq> [] then Encrypt (p_seal P) nonce mk v else Inr v)"

definition encryptFieldsLocked ::
    "prims \<Rightarrow> (nat \<Rightarrow> gostr option) \<Rightarrow> gostr \<Rightarrow> UserProfile \<Rightarrow> crypto_error + UserProfile" where
  "encryptFieldsLocked P nonce mk p =
     (case encrypt_field P (nonce 0) mk (up_Department p) of
        Inl e \<Rightarrow> Inl e
      | Inr dept \<Rightarrow>
          (case encrypt_field P (nonce 1) mk (up_Team p) of
             Inl e \<Rightarrow> Inl e
           | Inr team \<Rightarrow>
               (case encrypt_field P (nonce 2) mk (up_Role p) of
                  Inl e \<Rightarrow> Inl e
                | Inr role \<Rightarrow> Inr (p\<lparr> up_Department := dept, up_Team := team, up_Role := role \<rparr>))))"

primrec encrypt_users ::
    "prims \<Rightarrow> save_env \<Rightarrow> gostr \<Rightarrow> users \<Rightarrow> gostr list \<Rightarrow> users \<Rightarrow> save_error + users" where
  "encrypt_users P env mk us [] clone = Inr clone"
| "encrypt_users P env mk us (k # ks) clone =
     (case us k of
        None \<Rightarrow> encrypt_users P env mk us ks clone
      | Some p \<Rightarrow>
          (case encryptFieldsLocked P (se_nonce env k) mk p of
             Inl e \<Rightarrow> Inl (SaveEncrypt k e)
           | Inr cp \<Rightarrow> encrypt_users P env mk us ks (clone(k \<mapsto> cp))))"

definition lock_path :: "gostr \<Rightarrow> gostr" where "lock_path path = path @ ''.lock''"

definition tmp_path :: "save_env \<Rightarrow> gostr \<Rightarrow> gostr" where
  "tmp_path env path = path @ ''.tmp-'' @ se_suffix env"

text \<open>The write: the states of the disk it passes through, in order, and the system call that
  failed. A crash leaves one of these states (or the initial one).\<close>

definition write_atomic ::
    "save_env \<Rightarrow> gostr \<Rightarrow> gostr \<Rightarrow> disk \<Rightarrow> disk list \<times> save_step option" where
  "write_atomic env path bytes d =
     (let tmp = tmp_path env path;
          d1 = (if d (lock_path path) = None then d(lock_path path \<mapsto> []) else d);
          d2 = d1(tmp \<mapsto> []);
          dp = d1(tmp \<mapsto> take (se_partial env) bytes);
          d3 = d1(tmp \<mapsto> bytes);
          cleaned = (\<lambda>x. if se_remove_fails env then x else x(tmp := None))
      in if se_fault env OpenLock then ([], Some OpenLock)
         else if se_fault env Flock then ([d1], Some Flock)
         else if se_fault env CreateTemp then ([d1], Some CreateTemp)
         else if se_fault env WriteTemp then ([d1, d2, dp, cleaned dp], Some WriteTemp)
         else if se_fault env ChmodTemp then ([d1, d2, dp, d3, cleaned d3], Some ChmodTemp)
         else if se_fault env SyncTemp then ([d1, d2, dp, d3, cleaned d3], Some SyncTemp)
         else if se_fault env CloseTemp then ([d1, d2, dp, d3, cleaned d3], Some CloseTemp)
         else if se_fault env RenameTemp then ([d1, d2, dp, d3, cleaned d3], Some RenameTemp)
         else ([d1, d2, dp, d3, d3(tmp := None, path \<mapsto> bytes)], None))"

definition snapshot :: "prims \<Rightarrow> save_env \<Rightarrow> KeyStore \<Rightarrow> save_error + users" where
  "snapshot P env ks =
     (if ks_masterKey ks \<noteq> [] then
        encrypt_users P env (ks_masterKey ks) (ks_Users ks) (se_order env) Map.empty
      else Inr (ks_Users ks))"

definition saveLocked :: "prims \<Rightarrow> save_env \<Rightarrow> KeyStore \<Rightarrow> disk \<Rightarrow> disk list \<times> save_error option" where
  "saveLocked P env ks d =
     (case snapshot P env ks of
        Inl e \<Rightarrow> ([], Some e)
      | Inr us \<Rightarrow>
          (case p_marshal P us of
             None \<Rightarrow> ([], Some SaveMarshal)
           | Some bytes \<Rightarrow>
               (let (hist, err) = write_atomic env (ks_path ks) bytes d
                in (hist, map_option SaveStep err))))"

text \<open>The disk when a save returns.\<close>

definition after :: "disk \<Rightarrow> disk list \<Rightarrow> disk" where
  "after d hist = last (d # hist)"

definition save :: "prims \<Rightarrow> save_env \<Rightarrow> KeyStore \<Rightarrow> disk \<Rightarrow> KeyStore \<times> disk \<times> key_error option" where
  "save P env ks d =
     (let (hist, err) = saveLocked P env ks d in (ks, after d hist, map_option SaveErr err))"

text \<open>The exported \<open>Save\<close> writes the in-memory profiles with \<open>os.WriteFile\<close>, which truncates the
  file first, and never encrypts.\<close>

definition Save :: "prims \<Rightarrow> bool \<Rightarrow> nat \<Rightarrow> KeyStore \<Rightarrow> disk \<Rightarrow> disk list \<times> save_error option" where
  "Save P write_fails partial ks d =
     (case p_marshal P (ks_Users ks) of
        None \<Rightarrow> ([], Some SaveMarshal)
      | Some bytes \<Rightarrow>
          if write_fails then ([d(ks_path ks \<mapsto> []), d(ks_path ks \<mapsto> take partial bytes)], Some (SaveStep WriteTemp))
          else ([d(ks_path ks \<mapsto> []), d(ks_path ks \<mapsto> take partial bytes), d(ks_path ks \<mapsto> bytes)], None))"

subsection \<open>Operations\<close>

type_synonym op_result = "KeyStore \<times> disk \<times> key_error option"

definition AddUser ::
    "prims \<Rightarrow> save_env \<Rightarrow> gostr option \<Rightarrow> time \<Rightarrow> UserProfile \<Rightarrow> KeyStore \<Rightarrow> disk \<Rightarrow> op_result" where
  "AddUser P env rand now profile ks d =
     (if up_ID profile = [] then (ks, d, Some EmptyID)
      else if up_Key profile = [] then (ks, d, Some EmptyKey)
      else case (if IsHashedKey (up_Key profile) then Some profile
                 else map_option
                   (\<lambda>h. profile\<lparr> up_KeyIndex := keyIndex (p_hmac P) (up_Key profile), up_Key := h \<rparr>)
                   (hashAPIKey (p_idkey P) rand (up_Key profile))) of
        None \<Rightarrow> (ks, d, Some (HashFailed (up_ID profile)))
      | Some p \<Rightarrow>
          if ks_nil ks then (ks, d, Some PanicNilMap)
          else save P env
            (ks\<lparr> ks_Users := (ks_Users ks)(up_ID p \<mapsto> p\<lparr> up_LastUsedAt := now \<rparr>) \<rparr>) d)"

definition RemoveUser :: "prims \<Rightarrow> save_env \<Rightarrow> gostr \<Rightarrow> KeyStore \<Rightarrow> disk \<Rightarrow> op_result" where
  "RemoveUser P env uid ks d =
     (if ks_Users ks uid = None then (ks, d, Some (NotFound uid))
      else save P env (ks\<lparr> ks_Users := (ks_Users ks)(uid := None) \<rparr>) d)"

text \<open>One profile against a candidate key: plaintext keys by equality, hashed keys by the
  fingerprint first.\<close>

definition key_check :: "prims \<Rightarrow> gostr \<Rightarrow> UserProfile \<Rightarrow> verify_result" where
  "key_check P apiKey u =
     (if \<not> IsHashedKey (up_Key u) then VOk (up_Key u = apiKey)
      else if up_KeyIndex u \<noteq> [] \<and> up_KeyIndex u \<noteq> keyIndex (p_hmac P) apiKey then VOk False
      else verifyAPIKey (p_idkey P) apiKey (up_Key u))"

primrec get_by_key :: "prims \<Rightarrow> users \<Rightarrow> gostr \<Rightarrow> gostr list \<Rightarrow> lookup_error + UserProfile option" where
  "get_by_key P us apiKey [] = Inr None"
| "get_by_key P us apiKey (k # ks) =
     (case us k of
        None \<Rightarrow> get_by_key P us apiKey ks
      | Some u \<Rightarrow>
          (case key_check P apiKey u of
             VErr e \<Rightarrow> Inl (LookupVerify (up_ID u) e)
           | VPanic \<Rightarrow> Inl LookupPanic
           | VOk True \<Rightarrow> Inr (Some u)
           | VOk False \<Rightarrow> get_by_key P us apiKey ks))"

definition GetByKey :: "prims \<Rightarrow> gostr list \<Rightarrow> gostr \<Rightarrow> KeyStore \<Rightarrow> lookup_error + UserProfile option" where
  "GetByKey P order apiKey ks = get_by_key P (ks_Users ks) apiKey order"

definition GetByID :: "gostr \<Rightarrow> KeyStore \<Rightarrow> UserProfile option" where
  "GetByID uid ks = ks_Users ks uid"

definition ListUsers :: "gostr list \<Rightarrow> KeyStore \<Rightarrow> UserProfile list" where
  "ListUsers order ks = map (\<lambda>k. the (ks_Users ks k)) order"

definition set_user :: "gostr \<Rightarrow> UserProfile \<Rightarrow> KeyStore \<Rightarrow> KeyStore" where
  "set_user uid u ks = ks\<lparr> ks_Users := (ks_Users ks)(uid \<mapsto> u) \<rparr>"

definition UpdateLastUsed :: "time \<Rightarrow> gostr \<Rightarrow> KeyStore \<Rightarrow> KeyStore \<times> key_error option" where
  "UpdateLastUsed now uid ks =
     (case ks_Users ks uid of
        None \<Rightarrow> (ks, Some (NotFound uid))
      | Some u \<Rightarrow> (set_user uid (u\<lparr> up_LastUsedAt := now \<rparr>) ks, None))"

definition GrantModelAccess :: "prims \<Rightarrow> save_env \<Rightarrow> gostr \<Rightarrow> gostr \<Rightarrow> KeyStore \<Rightarrow> disk \<Rightarrow> op_result" where
  "GrantModelAccess P env uid model ks d =
     (case ks_Users ks uid of
        None \<Rightarrow> (ks, d, Some (NotFound uid))
      | Some u \<Rightarrow>
          if list_ex (\<lambda>m. m = model \<or> m = ''*'') (up_AllowedModels u) then (ks, d, None)
          else save P env (set_user uid (u\<lparr> up_AllowedModels := up_AllowedModels u @ [model] \<rparr>) ks) d)"

definition RevokeModelAccess :: "prims \<Rightarrow> save_env \<Rightarrow> gostr \<Rightarrow> gostr \<Rightarrow> KeyStore \<Rightarrow> disk \<Rightarrow> op_result" where
  "RevokeModelAccess P env uid model ks d =
     (case ks_Users ks uid of
        None \<Rightarrow> (ks, d, Some (NotFound uid))
      | Some u \<Rightarrow>
          save P env (set_user uid
            (u\<lparr> up_AllowedModels := filter (\<lambda>m. m \<noteq> model) (up_AllowedModels u) \<rparr>) ks) d)"

definition SetQuota :: "prims \<Rightarrow> save_env \<Rightarrow> gostr \<Rightarrow> int \<Rightarrow> int \<Rightarrow> KeyStore \<Rightarrow> disk \<Rightarrow> op_result" where
  "SetQuota P env uid dailyLimit monthlyLimit ks d =
     (case ks_Users ks uid of
        None \<Rightarrow> (ks, d, Some (NotFound uid))
      | Some u \<Rightarrow>
          save P env (set_user uid
            (u\<lparr> up_MaxTokensPerDay := dailyLimit, up_MaxTokensPerMonth := monthlyLimit \<rparr>) ks) d)"

definition KS_CanAccess :: "gostr \<Rightarrow> gostr \<Rightarrow> KeyStore \<Rightarrow> bool" where
  "KS_CanAccess uid model ks =
     (case ks_Users ks uid of
        None \<Rightarrow> False
      | Some u \<Rightarrow> list_ex (\<lambda>m. m = ''*'' \<or> m = model) (up_AllowedModels u))"

text \<open>The two migrations. A hashing failure stops the first one with the users before it already
  converted in memory, and with the fingerprint of the failing user already set.\<close>

primrec migrate_hashes ::
    "prims \<Rightarrow> (gostr \<Rightarrow> gostr option) \<Rightarrow> gostr list \<Rightarrow> users \<Rightarrow> nat \<Rightarrow> users \<times> nat \<times> key_error option" where
  "migrate_hashes P rand [] us n = (us, n, None)"
| "migrate_hashes P rand (k # ks) us n =
     (case us k of
        None \<Rightarrow> migrate_hashes P rand ks us n
      | Some u \<Rightarrow>
          if IsHashedKey (up_Key u) then migrate_hashes P rand ks us n
          else let u1 = u\<lparr> up_KeyIndex := keyIndex (p_hmac P) (up_Key u) \<rparr> in
            (case hashAPIKey (p_idkey P) (rand k) (up_Key u) of
               None \<Rightarrow> (us(k \<mapsto> u1), n, Some (HashFailed (up_ID u)))
             | Some h \<Rightarrow> migrate_hashes P rand ks (us(k \<mapsto> u1\<lparr> up_Key := h \<rparr>)) (Suc n)))"

definition MigrateHashes ::
    "prims \<Rightarrow> (gostr \<Rightarrow> gostr option) \<Rightarrow> gostr list \<Rightarrow> save_env \<Rightarrow> KeyStore \<Rightarrow> disk \<Rightarrow> nat \<times> op_result" where
  "MigrateHashes P rand order env ks d =
     (case migrate_hashes P rand order (ks_Users ks) 0 of
        (us, n, Some e) \<Rightarrow> (n, ks\<lparr> ks_Users := us \<rparr>, d, Some e)
      | (us, n, None) \<Rightarrow>
          if 0 < n then (n, save P env (ks\<lparr> ks_Users := us \<rparr>) d)
          else (n, ks\<lparr> ks_Users := us \<rparr>, d, None))"

definition HasPlaintextKeys :: "gostr list \<Rightarrow> KeyStore \<Rightarrow> bool" where
  "HasPlaintextKeys order ks = list_ex (\<lambda>u. \<not> IsHashedKey (up_Key u)) (ListUsers order ks)"

definition plain_field :: "gostr \<Rightarrow> bool" where
  "plain_field v \<longleftrightarrow> v \<noteq> [] \<and> \<not> IsEncrypted v"

definition needs_encryption :: "UserProfile \<Rightarrow> bool" where
  "needs_encryption p \<longleftrightarrow> plain_field (up_Department p) \<or> plain_field (up_Team p) \<or> plain_field (up_Role p)"

definition MigrateEncryptFields ::
    "prims \<Rightarrow> gostr list \<Rightarrow> bool \<Rightarrow> save_env \<Rightarrow> KeyStore \<Rightarrow> disk \<Rightarrow> nat \<times> op_result" where
  "MigrateEncryptFields P order read_fails env ks d =
     (if ks_masterKey ks = [] then (0, ks, d, Some NoMasterKey)
      else
        let onDisk = (if read_fails then Map.empty
                      else case d (ks_path ks) of None \<Rightarrow> Map.empty
                        | Some data \<Rightarrow> if data = [] then Map.empty
                            else (case p_unmarshal P data of Some (Some us) \<Rightarrow> us | _ \<Rightarrow> Map.empty));
            migrated = length (filter (\<lambda>k. case onDisk k of None \<Rightarrow> True | Some p \<Rightarrow> needs_encryption p) order)
        in (migrated, save P env ks d))"

definition decrypt_profile :: "prims \<Rightarrow> gostr \<Rightarrow> UserProfile \<Rightarrow> crypto_error + UserProfile" where
  "decrypt_profile P mk p =
     (case Decrypt (p_open P) mk (up_Department p) of
        Inl e \<Rightarrow> Inl e
      | Inr dept \<Rightarrow>
          (case Decrypt (p_open P) mk (up_Team p) of
             Inl e \<Rightarrow> Inl e
           | Inr team \<Rightarrow>
               (case Decrypt (p_open P) mk (up_Role p) of
                  Inl e \<Rightarrow> Inl e
                | Inr role \<Rightarrow> Inr (p\<lparr> up_Department := dept, up_Team := team, up_Role := role \<rparr>))))"

primrec decrypt_profiles :: "prims \<Rightarrow> gostr \<Rightarrow> gostr list \<Rightarrow> users \<Rightarrow> users \<times> key_error option" where
  "decrypt_profiles P mk [] us = (us, None)"
| "decrypt_profiles P mk (k # ks) us =
     (case us k of
        None \<Rightarrow> decrypt_profiles P mk ks us
      | Some p \<Rightarrow>
          (case decrypt_profile P mk p of
             Inl e \<Rightarrow> (us, Some (DecryptErr (up_ID p) e))
           | Inr p' \<Rightarrow> decrypt_profiles P mk ks (us(k \<mapsto> p'))))"

definition DecryptProfilesInPlace :: "prims \<Rightarrow> gostr \<Rightarrow> gostr list \<Rightarrow> KeyStore \<Rightarrow> KeyStore \<times> key_error option" where
  "DecryptProfilesInPlace P mk order ks =
     (let (us, e) = decrypt_profiles P mk order (ks_Users ks) in (ks\<lparr> ks_Users := us \<rparr>, e))"

definition HasEncryptedFields :: "gostr list \<Rightarrow> KeyStore \<Rightarrow> bool" where
  "HasEncryptedFields order ks = list_ex
     (\<lambda>p. IsEncrypted (up_Department p) \<or> IsEncrypted (up_Team p) \<or> IsEncrypted (up_Role p))
     (ListUsers order ks)"

subsection \<open>The save is atomic\<close>

lemma path_distinct [simp]:
  "lock_path p \<noteq> p" "p \<noteq> lock_path p" "tmp_path env p \<noteq> p" "p \<noteq> tmp_path env p"
  "lock_path p \<noteq> tmp_path env p" "tmp_path env p \<noteq> lock_path p"
  by (simp_all add: lock_path_def tmp_path_def)

lemma write_atomic_path:
  assumes "s \<in> set (fst (write_atomic env path bytes d))"
  shows "s path = d path \<or> s path = Some bytes"
  using assms by (auto simp: write_atomic_def Let_def split: if_splits)

lemma write_atomic_others:
  assumes "s \<in> set (fst (write_atomic env path bytes d))"
    and "q \<noteq> path" "q \<noteq> lock_path path" "q \<noteq> tmp_path env path"
  shows "s q = d q"
  using assms by (auto simp: write_atomic_def Let_def split: if_splits)

lemma write_atomic_error:
  "snd (write_atomic env path bytes d) \<noteq> None \<Longrightarrow> after d (fst (write_atomic env path bytes d)) path = d path"
  by (auto simp: write_atomic_def Let_def after_def split: if_splits)

lemma write_atomic_ok:
  "snd (write_atomic env path bytes d) = None \<Longrightarrow>
     after d (fst (write_atomic env path bytes d)) path = Some bytes"
  by (auto simp: write_atomic_def Let_def after_def split: if_splits)

lemma after_in: "hist \<noteq> [] \<Longrightarrow> after d hist \<in> set hist"
  by (simp add: after_def)

lemma saveLocked_cases:
  obtains e where "saveLocked P env ks d = ([], Some e)"
  | us bytes hist err where "snapshot P env ks = Inr us" "p_marshal P us = Some bytes"
      "write_atomic env (ks_path ks) bytes d = (hist, err)"
      "saveLocked P env ks d = (hist, map_option SaveStep err)"
proof (cases "snapshot P env ks")
  case (Inl e)
  then show thesis by (intro that(1) [of e]) (simp add: saveLocked_def)
next
  case (Inr us)
  show thesis
  proof (cases "p_marshal P us")
    case None
    then show thesis using Inr by (intro that(1) [of SaveMarshal]) (simp add: saveLocked_def)
  next
    case (Some bytes)
    then show thesis using Inr
      by (intro that(2) [OF Inr Some surjective_pairing]) (simp add: saveLocked_def split_beta Let_def)
  qed
qed

lemma save_crash_safe_gen:
  assumes "saveLocked P env ks d = (hist, err)"
  shows "(\<forall>s \<in> set hist. (s (ks_path ks) = d (ks_path ks) \<or>
            (\<exists>us bytes. snapshot P env ks = Inr us \<and> p_marshal P us = Some bytes \<and>
               s (ks_path ks) = Some bytes)) \<and>
          (\<forall>q. q \<notin> {ks_path ks, lock_path (ks_path ks), tmp_path env (ks_path ks)} \<longrightarrow> s q = d q)) \<and>
     (err \<noteq> None \<longrightarrow> after d hist (ks_path ks) = d (ks_path ks)) \<and>
     (err = None \<longrightarrow> (\<exists>us bytes. snapshot P env ks = Inr us \<and> p_marshal P us = Some bytes \<and>
               after d hist (ks_path ks) = Some bytes))"
proof (cases rule: saveLocked_cases [of P env ks d])
  case (1 e)
  then show ?thesis using assms by (simp add: after_def)
next
  case (2 us bytes h e)
  with assms have h: "hist = h" "err = map_option SaveStep e" by auto
  note w = 2(3)
  have "s (ks_path ks) = d (ks_path ks) \<or> s (ks_path ks) = Some bytes" if "s \<in> set hist" for s
    using write_atomic_path [of s env "ks_path ks" bytes d] that w h by simp
  moreover have "s q = d q"
    if "s \<in> set hist" "q \<notin> {ks_path ks, lock_path (ks_path ks), tmp_path env (ks_path ks)}" for s q
    using write_atomic_others [of s env "ks_path ks" bytes d q] that w h by simp
  moreover have "err \<noteq> None \<longrightarrow> after d hist (ks_path ks) = d (ks_path ks)"
    using write_atomic_error [of env "ks_path ks" bytes d] w h by simp
  moreover have "err = None \<longrightarrow> after d hist (ks_path ks) = Some bytes"
    using write_atomic_ok [of env "ks_path ks" bytes d] w h by simp
  ultimately show ?thesis using 2(1,2) by blast
qed

text \<open>C21: Crash safety of the key file: whatever fails or wherever the process stops during a save,
  every state the disk passes through has at the key file's path either the previous contents or the
  complete new image, and no other file than the key file, its lock and its temporary file changes.
  A save that reports an error leaves the key file as it was; one that reports success leaves the
  complete image.\<close>

theorem save_crash_safe:
  assumes "saveLocked P env ks d = (hist, err)"
  shows "(\<forall>s \<in> set hist. (s (ks_path ks) = d (ks_path ks) \<or>
            (\<exists>us bytes. snapshot P env ks = Inr us \<and> p_marshal P us = Some bytes \<and>
               s (ks_path ks) = Some bytes)) \<and>
          (\<forall>q. q \<notin> {ks_path ks, lock_path (ks_path ks), tmp_path env (ks_path ks)} \<longrightarrow> s q = d q)) \<and>
     (err \<noteq> None \<longrightarrow> after d hist (ks_path ks) = d (ks_path ks)) \<and>
     (err = None \<longrightarrow> (\<exists>us bytes. snapshot P env ks = Inr us \<and> p_marshal P us = Some bytes \<and>
               after d hist (ks_path ks) = Some bytes))"
  by (rule save_crash_safe_gen [OF assms])

definition toy_env :: "(save_step \<Rightarrow> bool) \<Rightarrow> save_env" where
  "toy_env f = \<lparr> se_order = [], se_nonce = \<lambda>_ _. None, se_fault = f, se_partial = 1,
     se_remove_fails = False, se_suffix = ''1'' \<rparr>"

definition toy_prims :: prims where
  "toy_prims = \<lparr> p_idkey = (\<lambda>p s t m th n. take n (p @ s @ replicate n (CHR ''x''))),
     p_hmac = (\<lambda>s p. take 8 (p @ s)), p_seal = (\<lambda>k n p. rev p @ ''t''),
     p_open = (\<lambda>k n c. Some (rev (butlast c))), p_marshal = (\<lambda>_. Some ''{}''),
     p_unmarshal = (\<lambda>_. Some None) \<rparr>"

definition toy_store :: KeyStore where
  "toy_store = \<lparr> ks_Users = Map.empty, ks_nil = False, ks_path = ''keys.json'', ks_masterKey = [] \<rparr>"

lemma toy_marshal: "p_marshal toy_prims us = Some ''{}''"
  by (simp add: toy_prims_def)

lemma save_crash_safe_witness:
  "let r = saveLocked toy_prims (toy_env (\<lambda>st. st = RenameTemp)) toy_store [''keys.json'' \<mapsto> ''old''] in
   snd r = Some (SaveStep RenameTemp) \<and>
   after [''keys.json'' \<mapsto> ''old''] (fst r) ''keys.json'' = Some ''old''"
proof -
  define env where "env = toy_env (\<lambda>st. st = RenameTemp)"
  define d where "d = [''keys.json'' \<mapsto> ''old'']"
  obtain hist err where r: "saveLocked toy_prims env toy_store d = (hist, err)" by fastforce
  have "err = Some (SaveStep RenameTemp)"
    using r by (auto simp: saveLocked_def snapshot_def toy_store_def toy_prims_def env_def toy_env_def
        write_atomic_def Let_def split_beta)
  moreover have "ks_path toy_store = ''keys.json''" by (simp add: toy_store_def)
  ultimately show ?thesis
    using save_crash_safe [OF r] unfolding env_def [symmetric] d_def [symmetric] Let_def r
    by (simp add: d_def)
qed

subsection \<open>Authentication by key\<close>

definition matches :: "prims \<Rightarrow> gostr \<Rightarrow> UserProfile \<Rightarrow> bool" where
  "matches P apiKey u \<longleftrightarrow> key_check P apiKey u = VOk True"

text \<open>No stored hash is malformed: checking any profile gives a verdict.\<close>

definition keys_wf :: "prims \<Rightarrow> gostr \<Rightarrow> users \<Rightarrow> bool" where
  "keys_wf P apiKey us \<longleftrightarrow> (\<forall>u \<in> ran us. \<exists>b. key_check P apiKey u = VOk b)"

definition lookup_spec :: "prims \<Rightarrow> gostr \<Rightarrow> users \<Rightarrow> lookup_error + UserProfile option \<Rightarrow> bool" where
  "lookup_spec P apiKey us r \<longleftrightarrow>
     (case r of Inl _ \<Rightarrow> False
      | Inr None \<Rightarrow> \<forall>u \<in> ran us. \<not> matches P apiKey u
      | Inr (Some u) \<Rightarrow> u \<in> ran us \<and> matches P apiKey u)"

lemma get_by_key_spec:
  "keys_wf P apiKey us \<Longrightarrow>
     (case get_by_key P us apiKey ks of Inl _ \<Rightarrow> False
      | Inr None \<Rightarrow> \<forall>k u. k \<in> set ks \<and> us k = Some u \<longrightarrow> \<not> matches P apiKey u
      | Inr (Some u) \<Rightarrow> \<exists>k. us k = Some u \<and> matches P apiKey u)"
proof (induction ks)
  case (Cons k ks)
  show ?case
  proof (cases "us k")
    case (Some u)
    then obtain b where b: "key_check P apiKey u = VOk b"
      using Cons.prems by (auto simp: keys_wf_def ran_def)
    show ?thesis
    proof (cases b)
      case True
      then show ?thesis using Some b by (auto simp: matches_def)
    next
      case False
      then have "\<not> matches P apiKey u" using b by (simp add: matches_def)
      then show ?thesis using Some b False Cons
        by (auto split: sum.splits option.splits)
    qed
  qed (use Cons in \<open>auto split: sum.splits option.splits\<close>)
qed simp

lemma ranE: "u \<in> ran m \<Longrightarrow> (\<And>k. m k = Some u \<Longrightarrow> thesis) \<Longrightarrow> thesis"
  by (auto simp: ran_def)

lemma lookup_by_key_aux:
  assumes "iter_order order (ks_Users ks)" "keys_wf P apiKey (ks_Users ks)"
  shows "lookup_spec P apiKey (ks_Users ks) (GetByKey P order apiKey ks)"
proof -
  have mem: "k \<in> set order" if "ks_Users ks k = Some u" for k u
    using assms(1) that by (auto simp: iter_order_def)
  show ?thesis
    using get_by_key_spec [OF assms(2), of order] mem
    unfolding lookup_spec_def GetByKey_def
    by (auto split: sum.splits option.splits elim!: ranE intro: ranI)
qed

text \<open>Lookup by API key is sound and complete when no stored hash is malformed: in every
  iteration order of the map \<open>GetByKey\<close> answers without an error, it returns a stored profile the key
  verifies against, and it returns nil only if the key verifies against no profile.\<close>

theorem lookup_by_key:
  assumes "iter_order order (ks_Users ks)" "keys_wf P apiKey (ks_Users ks)"
  shows "lookup_spec P apiKey (ks_Users ks) (GetByKey P order apiKey ks)"
  by (rule lookup_by_key_aux [OF assms])

text \<open>One malformed hash, of whichever user, makes the lookup of an unrelated key fail as soon as
  the iteration meets it first.\<close>

lemma lookup_poisoned:
  assumes "ks_Users ks k = Some u" "key_check P apiKey u = VErr e"
  shows "GetByKey P (k # rest) apiKey ks = Inl (LookupVerify (up_ID u) e)"
  using assms by (simp add: GetByKey_def)

lemma key_check_hashed:
  assumes "hashAPIKey (p_idkey P) rand k = Some h" "\<And>p s t m th n. length (p_idkey P p s t m th n) = n"
    and "up_Key u = h" "up_KeyIndex u = keyIndex (p_hmac P) k"
  shows "key_check P k u = VOk True"
proof -
  obtain salt where "rand = Some salt" using hashAPIKey_form [OF assms(1)] by blast
  with verify_hash_self [OF assms(1) [unfolded this] assms(2)] show ?thesis
    using assms hashAPIKey_IsHashedKey [OF assms(1)] by (simp add: key_check_def)
qed

text \<open>C23: A key handed out by \<open>AddUser\<close> authenticates its user: after adding a profile with a
  plaintext key, the stored profile holds only a hash, and looking the key up returns that profile in
  every iteration order, as long as no other stored profile matches the key; so it does on every
  later lookup, whether or not the save to disk succeeded.\<close>

theorem added_key_authenticates:
  assumes "AddUser P env rand now profile ks d = (ks', d', err)" "err = None \<or> (\<exists>e. err = Some (SaveErr e))"
    and "\<not> IsHashedKey (up_Key profile)"
    and "\<And>p s t m th n. length (p_idkey P p s t m th n) = n"
    and "\<And>k u. ks_Users ks k = Some u \<Longrightarrow> k \<noteq> up_ID profile \<Longrightarrow>
            key_check P (up_Key profile) u = VOk False"
    and "iter_order order (ks_Users ks')"
  shows "\<exists>u. GetByKey P order (up_Key profile) ks' = Inr (Some u) \<and> ks_Users ks' (up_ID profile) = Some u \<and>
     IsHashedKey (up_Key u) \<and> up_ID u = up_ID profile \<and> up_AllowedModels u = up_AllowedModels profile \<and>
     up_Role u = up_Role profile"
proof -
  obtain h where h: "hashAPIKey (p_idkey P) rand (up_Key profile) = Some h"
    using assms(1-3) by (auto simp: AddUser_def split: if_splits option.splits)
  let ?u = "profile\<lparr> up_KeyIndex := keyIndex (p_hmac P) (up_Key profile), up_Key := h, up_LastUsedAt := now \<rparr>"
  have us: "ks_Users ks' = (ks_Users ks)(up_ID profile \<mapsto> ?u)"
    using assms(1-3) h
    by (auto simp: AddUser_def save_def split_beta Let_def split: if_splits)
  have chk: "key_check P (up_Key profile) ?u = VOk True"
    by (rule key_check_hashed [OF h assms(4)]) simp_all
  have wf: "keys_wf P (up_Key profile) (ks_Users ks')"
    unfolding keys_wf_def us using chk assms(5) by (auto simp: ran_def)
  have "matches P (up_Key profile) u \<longleftrightarrow> u = ?u" if "u \<in> ran (ks_Users ks')" for u
    using that chk assms(5) unfolding us by (auto simp: ran_def matches_def split: if_splits)
  moreover have "?u \<in> ran (ks_Users ks')" by (simp add: us ran_def) blast
  ultimately have "GetByKey P order (up_Key profile) ks' = Inr (Some ?u)"
    using lookup_by_key_aux [OF assms(6) wf] chk
    by (auto simp: lookup_spec_def matches_def split: sum.splits option.splits)
  then show ?thesis using us hashAPIKey_IsHashedKey [OF h] by simp
qed

definition toy_user :: "gostr \<Rightarrow> gostr \<Rightarrow> UserProfile" where
  "toy_user i k = \<lparr> up_ID = i, up_Key = k, up_KeyIndex = [], up_Department = ''eng'', up_Team = ''ml'',
     up_Role = ''service'', up_IPAllowlist = [''10.0.0.0/8''], up_AllowedModels = [''llama''],
     up_RateLimitPerMin = Fin 0, up_MaxTokensPerDay = 100, up_MaxTokensPerMonth = 0,
     up_CreatedAt = 0, up_LastUsedAt = 0 \<rparr>"

lemma lookup_by_key_witness:
  "GetByKey toy_prims [''a'', ''b''] ''kb''
     (toy_store\<lparr> ks_Users := [''a'' \<mapsto> toy_user ''a'' ''ka'', ''b'' \<mapsto> toy_user ''b'' ''kb''] \<rparr>) =
       Inr (Some (toy_user ''b'' ''kb''))"
proof -
  let ?us = "[''a'' \<mapsto> toy_user ''a'' ''ka'', ''b'' \<mapsto> toy_user ''b'' ''kb'']"
  have kc: "key_check toy_prims ''kb'' (toy_user i k) = VOk (k = ''kb'')" if "k \<in> {''ka'', ''kb''}" for i k
    using that by (auto simp: key_check_def toy_user_def IsHashedKey_def)
  have r: "ran ?us = {toy_user ''a'' ''ka'', toy_user ''b'' ''kb''}"
    by (simp add: ran_map_upd insert_commute)
  have it: "iter_order [''a'', ''b''] (ks_Users (toy_store\<lparr> ks_Users := ?us \<rparr>))"
    by (auto simp: iter_order_def)
  have wf: "keys_wf toy_prims ''kb'' (ks_Users (toy_store\<lparr> ks_Users := ?us \<rparr>))"
    using kc unfolding keys_wf_def KeyStore.select_convs KeyStore.update_convs r by auto
  define res where "res = GetByKey toy_prims [''a'', ''b''] ''kb'' (toy_store\<lparr> ks_Users := ?us \<rparr>)"
  have m: "matches toy_prims ''kb'' (toy_user ''b'' ''kb'')" "\<not> matches toy_prims ''kb'' (toy_user ''a'' ''ka'')"
    using kc [of "''kb''" "''b''"] kc [of "''ka''" "''a''"] by (simp_all add: matches_def)
  have "lookup_spec toy_prims ''kb'' ?us res"
    using lookup_by_key [OF it wf] unfolding res_def by simp
  then have "res = Inr (Some (toy_user ''b'' ''kb''))"
    unfolding lookup_spec_def r using m by (cases res; cases "projr res") auto
  then show ?thesis unfolding res_def .
qed

lemma toy_save: "ks_masterKey k = [] \<Longrightarrow> snd (saveLocked toy_prims (toy_env (\<lambda>_. False)) k d) = None"
  by (simp add: saveLocked_def snapshot_def toy_marshal write_atomic_def toy_env_def Let_def split_beta)

lemma added_key_authenticates_witness:
  "let env = toy_env (\<lambda>_. False); ks' = fst (AddUser toy_prims env (Some ''0123456789abcdef'') 5 (toy_user ''u'' ''secret'') toy_store Map.empty)
   in \<exists>u. GetByKey toy_prims [''u''] ''secret'' ks' = Inr (Some u) \<and> ks_Users ks' ''u'' = Some u \<and>
     IsHashedKey (up_Key u) \<and> up_ID u = ''u''"
proof -
  let ?p = "toy_user ''u'' ''secret''"
  obtain ks' d' err where r: "AddUser toy_prims (toy_env (\<lambda>_. False)) (Some ''0123456789abcdef'') 5 ?p toy_store Map.empty
      = (ks', d', err)" by (cases "AddUser toy_prims (toy_env (\<lambda>_. False)) (Some ''0123456789abcdef'') 5 ?p toy_store Map.empty")
  have nh: "\<not> IsHashedKey (up_Key ?p)" by (simp add: toy_user_def IsHashedKey_def)
  have ne: "up_ID ?p = ''u''" "up_Key ?p = ''secret''" by (simp_all add: toy_user_def)
  obtain h where h: "hashAPIKey (p_idkey toy_prims) (Some ''0123456789abcdef'') ''secret'' = Some h"
    by (simp add: hashAPIKey_def)
  have e: "err = None" and u: "dom (ks_Users ks') = {''u''}"
    using r nh ne h
    by (auto simp: AddUser_def toy_store_def save_def split_beta toy_save Let_def split: if_splits)
  have it: "iter_order [''u''] (ks_Users ks')" using u by (simp add: iter_order_def)
  have len: "length (p_idkey toy_prims p s t m th n) = n" for p s t m th n by (simp add: toy_prims_def)
  show ?thesis
    using added_key_authenticates [OF r _ nh len _ it] e ne unfolding Let_def r by (auto simp: toy_store_def)
qed

subsection \<open>Access grants\<close>

lemma save_Users [simp]: "fst (save P env ks d) = ks"
  by (simp add: save_def split_beta)

text \<open>Grant and revoke. After a grant the user can access the model and what it could access
  before; after a revocation it can access exactly the models that were allowed and differ from the
  revoked one, except that the wildcard keeps granting everything unless the wildcard itself is what
  was revoked; no other user is affected. This holds in memory even when the save fails.\<close>

theorem grant_revoke:
  assumes "ks_Users ks u = Some p"
  shows "(\<forall>m'. KS_CanAccess u m' (fst (GrantModelAccess P env u m ks d)) \<longleftrightarrow>
            KS_CanAccess u m' ks \<or> m' = m \<or> m = ''*'') \<and>
     (\<forall>m'. KS_CanAccess u m' (fst (RevokeModelAccess P env u m ks d)) \<longleftrightarrow>
            (''*'' \<in> set (up_AllowedModels p) \<and> m \<noteq> ''*'') \<or> (m' \<in> set (up_AllowedModels p) \<and> m' \<noteq> m)) \<and>
     (\<forall>v. v \<noteq> u \<longrightarrow> ks_Users (fst (GrantModelAccess P env u m ks d)) v = ks_Users ks v \<and>
            ks_Users (fst (RevokeModelAccess P env u m ks d)) v = ks_Users ks v)"
proof -
  have s: "fst (save P env k d) = k" for k by simp
  show ?thesis
    using assms
    by (auto simp: GrantModelAccess_def RevokeModelAccess_def KS_CanAccess_def set_user_def list_ex_iff)
qed

lemma grant_revoke_witness:
  "KS_CanAccess ''u'' ''qwen'' (fst (GrantModelAccess toy_prims (toy_env (\<lambda>_. True)) ''u'' ''qwen''
     (set_user ''u'' (toy_user ''u'' ''k'') toy_store) Map.empty)) \<and>
   \<not> KS_CanAccess ''u'' ''llama'' (fst (RevokeModelAccess toy_prims (toy_env (\<lambda>_. True)) ''u'' ''llama''
     (set_user ''u'' (toy_user ''u'' ''k'') toy_store) Map.empty))"
proof -
  have u: "ks_Users (set_user ''u'' (toy_user ''u'' ''k'') toy_store) ''u'' = Some (toy_user ''u'' ''k'')"
    by (simp add: set_user_def)
  have a: "up_AllowedModels (toy_user ''u'' ''k'') = [''llama'']" by (simp add: toy_user_def)
  show ?thesis
    using grant_revoke [OF u, of toy_prims "toy_env (\<lambda>_. True)" "''qwen''" Map.empty]
      grant_revoke [OF u, of toy_prims "toy_env (\<lambda>_. True)" "''llama''" Map.empty] a
    by simp
qed

subsection \<open>Migration of plaintext keys\<close>

definition migrated :: "prims \<Rightarrow> (gostr \<Rightarrow> gostr option) \<Rightarrow> gostr \<Rightarrow> UserProfile \<Rightarrow> UserProfile" where
  "migrated P rand k u =
     (if IsHashedKey (up_Key u) then u
      else u\<lparr> up_KeyIndex := keyIndex (p_hmac P) (up_Key u),
              up_Key := the (hashAPIKey (p_idkey P) (rand k) (up_Key u)) \<rparr>)"

definition plaintext_at :: "users \<Rightarrow> gostr \<Rightarrow> bool" where
  "plaintext_at us k \<longleftrightarrow> (\<exists>u. us k = Some u \<and> \<not> IsHashedKey (up_Key u))"

lemma migrate_hashes_ok:
  assumes "migrate_hashes P rand ks us n = (us', m, None)" "distinct ks"
  shows "m = n + length (filter (plaintext_at us) ks) \<and>
    (\<forall>k. us' k = (if k \<in> set ks then map_option (migrated P rand k) (us k) else us k)) \<and>
    (\<forall>k \<in> set ks. \<forall>u. us k = Some u \<and> \<not> IsHashedKey (up_Key u) \<longrightarrow>
       hashAPIKey (p_idkey P) (rand k) (up_Key u) \<noteq> None)"
  using assms
proof (induction ks arbitrary: us n)
  case (Cons k ks)
  show ?case
  proof (cases "\<exists>u. us k = Some u \<and> \<not> IsHashedKey (up_Key u)")
    case False
    then have "migrate_hashes P rand (k # ks) us n = migrate_hashes P rand ks us n"
      by (auto split: option.splits)
    with Cons False show ?thesis
      by (auto simp: plaintext_at_def migrated_def map_option_case split: option.splits)
  next
    case True
    then obtain u where u: "us k = Some u" "\<not> IsHashedKey (up_Key u)" by blast
    with Cons.prems(1) obtain h where h: "hashAPIKey (p_idkey P) (rand k) (up_Key u) = Some h"
      by (auto simp: Let_def split: option.splits)
    let ?us = "us(k \<mapsto> migrated P rand k u)"
    have step: "migrate_hashes P rand ks ?us (Suc n) = (us', m, None)"
      using Cons.prems(1) u h by (simp add: Let_def migrated_def)
    have "distinct ks" "k \<notin> set ks" using Cons.prems(2) by auto
    note IH = Cons.IH [OF step this(1)]
    have "filter (plaintext_at ?us) ks = filter (plaintext_at us) ks"
      using \<open>k \<notin> set ks\<close> by (intro filter_cong) (auto simp: plaintext_at_def)
    then have m: "m = n + length (filter (plaintext_at us) (k # ks))"
    proof -
      have "plaintext_at us k" using u by (auto simp: plaintext_at_def)
      moreover have "m = Suc n + length (filter (plaintext_at ?us) ks)" using IH by blast
      ultimately show ?thesis
        using \<open>filter (plaintext_at ?us) ks = filter (plaintext_at us) ks\<close> by simp
    qed
    have us': "us' j = (if j \<in> set (k # ks) then map_option (migrated P rand j) (us j) else us j)" for j
      using IH u \<open>k \<notin> set ks\<close> by (cases "j = k") auto
    have "hashAPIKey (p_idkey P) (rand j) (up_Key v) \<noteq> None"
      if "j \<in> set (k # ks)" "us j = Some v" "\<not> IsHashedKey (up_Key v)" for j v
      using that IH u h \<open>k \<notin> set ks\<close> by (cases "j = k") auto
    with m us' show ?thesis by blast
  qed
qed simp

lemma migrate_hashes_none:
  "\<forall>k \<in> set ks. \<not> plaintext_at us k \<Longrightarrow> migrate_hashes P rand ks us n = (us, n, None)"
  by (induction ks) (auto simp: plaintext_at_def split: option.splits)

text \<open>Migrating plaintext keys: a migration that reports success counts exactly the plaintext
  profiles, leaves none in the store, changes no field but the key and its fingerprint and no profile
  that was hashed already, and every migrated profile still accepts its old key. Running it again
  converts nothing, writes nothing and reports 0.\<close>

theorem migrate_hashes_correct:
  assumes "MigrateHashes P rand order env ks d = (n, ks', d', None)"
    and "iter_order order (ks_Users ks)"
    and "\<And>p s t m th n. length (p_idkey P p s t m th n) = n"
  shows "n = length (filter (plaintext_at (ks_Users ks)) order) \<and>
     (\<forall>k. \<not> plaintext_at (ks_Users ks') k) \<and>
     (\<forall>k u. ks_Users ks k = Some u \<longrightarrow> (\<exists>u'. ks_Users ks' k = Some u' \<and>
        u'\<lparr> up_Key := up_Key u, up_KeyIndex := up_KeyIndex u \<rparr> = u \<and>
        (if IsHashedKey (up_Key u) then u' = u else key_check P (up_Key u) u' = VOk True))) \<and>
     MigrateHashes P rand' order env' ks' d' = (0, ks', d', None)"
proof -
  obtain us m e where r: "migrate_hashes P rand order (ks_Users ks) 0 = (us, m, e)"
    by (cases "migrate_hashes P rand order (ks_Users ks) 0")
  have e: "e = None" and us: "ks_Users ks' = us" "ks' = ks\<lparr> ks_Users := us \<rparr>" and n: "n = m"
    using assms(1) r
    by (auto simp: MigrateHashes_def save_def split_beta split: option.splits if_splits)
  have ord: "distinct order" "set order = dom (ks_Users ks)"
    using assms(2) by (auto simp: iter_order_def)
  note M = migrate_hashes_ok [OF r [unfolded e] ord(1)]
  have img: "us k = map_option (migrated P rand k) (ks_Users ks k)" for k
    using M ord(2) by (cases "k \<in> set order") (auto simp: domIff)
  have ok: "hashAPIKey (p_idkey P) (rand k) (up_Key u) \<noteq> None"
    if "ks_Users ks k = Some u" "\<not> IsHashedKey (up_Key u)" for k u
    using M ord(2) that by (metis domI)
  have hashed: "IsHashedKey (up_Key (migrated P rand k u))" if "ks_Users ks k = Some u" for k u
    using ok [OF that] hashAPIKey_IsHashedKey by (fastforce simp: migrated_def)
  have none: "\<not> plaintext_at us k" for k
    using hashed img by (auto simp: plaintext_at_def)
  have each: "\<exists>u'. us k = Some u' \<and> u'\<lparr> up_Key := up_Key u, up_KeyIndex := up_KeyIndex u \<rparr> = u \<and>
      (if IsHashedKey (up_Key u) then u' = u else key_check P (up_Key u) u' = VOk True)"
    if "ks_Users ks k = Some u" for k u
  proof (intro exI conjI)
    show "us k = Some (migrated P rand k u)" using img that by simp
    show "(migrated P rand k u)\<lparr> up_Key := up_Key u, up_KeyIndex := up_KeyIndex u \<rparr> = u"
      by (simp add: migrated_def)
    show "if IsHashedKey (up_Key u) then migrated P rand k u = u
        else key_check P (up_Key u) (migrated P rand k u) = VOk True"
    proof (cases "IsHashedKey (up_Key u)")
      case False
      with ok [OF that] obtain h where h: "hashAPIKey (p_idkey P) (rand k) (up_Key u) = Some h" by auto
      have "key_check P (up_Key u) (migrated P rand k u) = VOk True"
        by (rule key_check_hashed [OF h assms(3)]) (simp_all add: migrated_def False h)
      with False show ?thesis by simp
    qed (simp add: migrated_def)
  qed
  have "MigrateHashes P rand' order env' ks' d' = (0, ks', d', None)"
    using migrate_hashes_none [of order us P rand' 0] none us by (simp add: MigrateHashes_def)
  then show ?thesis using M n none each us by simp
qed

lemma migrate_hashes_correct_witness:
  "let ks = toy_store\<lparr> ks_Users := [''u'' \<mapsto> toy_user ''u'' ''k1''] \<rparr>;
       r = MigrateHashes toy_prims (\<lambda>_. Some ''salt'') [''u''] (toy_env (\<lambda>_. False)) ks Map.empty in
   fst r = 1 \<and> (\<forall>k. \<not> plaintext_at (ks_Users (fst (snd r))) k)"
proof -
  define ks where "ks = toy_store\<lparr> ks_Users := [''u'' \<mapsto> toy_user ''u'' ''k1''] \<rparr>"
  obtain n ks' d' e where r: "MigrateHashes toy_prims (\<lambda>_. Some ''salt'') [''u''] (toy_env (\<lambda>_. False)) ks Map.empty
      = (n, ks', d', e)"
    by (cases "MigrateHashes toy_prims (\<lambda>_. Some ''salt'') [''u''] (toy_env (\<lambda>_. False)) ks Map.empty")
  have nh: "\<not> IsHashedKey (up_Key (toy_user ''u'' ''k1''))" by (simp add: toy_user_def IsHashedKey_def)
  obtain h where h: "hashAPIKey (p_idkey toy_prims) (Some ''salt'') (up_Key (toy_user ''u'' ''k1'')) = Some h"
    by (simp add: hashAPIKey_def)
  have e: "e = None"
    using r nh h by (auto simp: MigrateHashes_def ks_def toy_store_def save_def split_beta toy_save Let_def
        split: if_splits)
  have it: "iter_order [''u''] (ks_Users ks)" by (simp add: ks_def iter_order_def)
  have len: "length (p_idkey toy_prims p s t m th n) = n" for p s t m th n by (simp add: toy_prims_def)
  have "filter (plaintext_at (ks_Users ks)) [''u''] = [''u'']" using nh by (simp add: ks_def plaintext_at_def)
  then show ?thesis
    using migrate_hashes_correct [OF r [unfolded e] it len] unfolding Let_def ks_def [symmetric] r by simp
qed

subsection \<open>Encryption at rest\<close>

lemma encrypt_users_ok:
  assumes "encrypt_users P env mk us ks clone = Inr us'" "distinct ks"
  shows "(\<forall>k \<in> set ks. \<forall>p. us k = Some p \<longrightarrow>
            (\<exists>cp. encryptFieldsLocked P (se_nonce env k) mk p = Inr cp \<and> us' k = Some cp)) \<and>
     (\<forall>k. k \<notin> set ks \<or> us k = None \<longrightarrow> us' k = clone k)"
  using assms
proof (induction ks arbitrary: clone)
  case (Cons k ks)
  show ?case
  proof (cases "us k")
    case None
    with Cons show ?thesis by auto
  next
    case (Some p)
    with Cons.prems obtain cp where cp: "encryptFieldsLocked P (se_nonce env k) mk p = Inr cp"
      by (auto split: sum.splits)
    with Some Cons.prems have "encrypt_users P env mk us ks (clone(k \<mapsto> cp)) = Inr us'" "distinct ks" "k \<notin> set ks"
      by auto
    note IH = Cons.IH [OF this(1,2)] and k = this(3)
    have "us' k = Some cp" using IH k by auto
    with IH k Some cp show ?thesis by auto
  qed
qed simp

lemma encrypt_field_decrypt:
  assumes "encrypt_field P nonce mk v = Inr ct" "\<not> IsEncrypted v"
    and "\<And>k n p. p_open P k n (p_seal P k n p) = Some p" "\<And>x. nonce = Some x \<Longrightarrow> length x = nonceSize"
  shows "Decrypt (p_open P) mk ct = Inr v" "\<not> plain_field ct"
proof -
  have "Decrypt (p_open P) mk ct = Inr v \<and> \<not> plain_field ct"
  proof (cases "v = []")
    case True
    then show ?thesis using assms by (auto simp: encrypt_field_def Decrypt_def IsEncrypted_def plain_field_def)
  next
    case False
    then have e: "Encrypt (p_seal P) nonce mk v = Inr ct" using assms by (simp add: encrypt_field_def)
    then obtain x where "nonce = Some x" using False by (auto simp: Encrypt_def split: if_splits option.splits)
    with e False assms(4) show ?thesis
      using decrypt_encrypt_gen [where opn = "p_open P" and seal = "p_seal P", OF assms(3), of x mk v ct]
      by (auto simp: plain_field_def)
  qed
  then show "Decrypt (p_open P) mk ct = Inr v" "\<not> plain_field ct" by auto
qed

definition clear_fields :: "UserProfile \<Rightarrow> bool" where
  "clear_fields p \<longleftrightarrow> \<not> IsEncrypted (up_Department p) \<and> \<not> IsEncrypted (up_Team p) \<and> \<not> IsEncrypted (up_Role p)"

lemma encrypt_decrypt_profile:
  assumes "encryptFieldsLocked P nonce mk p = Inr cp" "clear_fields p"
    and "\<And>k n p. p_open P k n (p_seal P k n p) = Some p"
    and "\<And>i x. nonce i = Some x \<Longrightarrow> length x = nonceSize"
  shows "decrypt_profile P mk cp = Inr p" "\<not> needs_encryption cp"
proof -
  obtain dep team role where
    dep: "encrypt_field P (nonce 0) mk (up_Department p) = Inr dep" and
    team: "encrypt_field P (nonce 1) mk (up_Team p) = Inr team" and
    role: "encrypt_field P (nonce 2) mk (up_Role p) = Inr role" and
    cp: "cp = p\<lparr> up_Department := dep, up_Team := team, up_Role := role \<rparr>"
    using assms(1) by (auto simp: encryptFieldsLocked_def split: sum.splits)
  have c: "\<not> IsEncrypted (up_Department p)" "\<not> IsEncrypted (up_Team p)" "\<not> IsEncrypted (up_Role p)"
    using assms(2) by (auto simp: clear_fields_def)
  note d = encrypt_field_decrypt [OF dep c(1) assms(3,4)]
    encrypt_field_decrypt [OF team c(2) assms(3,4)] encrypt_field_decrypt [OF role c(3) assms(3,4)]
  show "decrypt_profile P mk cp = Inr p" "\<not> needs_encryption cp"
    using d unfolding cp by (simp_all add: decrypt_profile_def needs_encryption_def)
qed

lemma decrypt_profiles_ok:
  assumes "\<And>k p. k \<in> set ks \<Longrightarrow> us k = Some p \<Longrightarrow> decrypt_profile P mk p = Inr (f k)" "distinct ks"
  shows "decrypt_profiles P mk ks us =
     ((\<lambda>k. if k \<in> set ks \<and> us k \<noteq> None then Some (f k) else us k), None)"
  using assms
proof (induction ks arbitrary: us)
  case (Cons k ks)
  show ?case
  proof (cases "us k")
    case None
    with Cons have "decrypt_profiles P mk ks us =
        ((\<lambda>k. if k \<in> set ks \<and> us k \<noteq> None then Some (f k) else us k), None)" by simp
    with None show ?thesis by (auto simp: fun_eq_iff)
  next
    case (Some p)
    have "decrypt_profiles P mk ks (us(k \<mapsto> f k)) =
        ((\<lambda>j. if j \<in> set ks \<and> (us(k \<mapsto> f k)) j \<noteq> None then Some (f j) else (us(k \<mapsto> f k)) j), None)"
      by (rule Cons.IH) (use Cons.prems in \<open>auto split: if_splits\<close>)
    with Some Cons.prems(1) [of k p] Cons.prems(2) show ?thesis by (auto simp: fun_eq_iff)
  qed
qed (simp add: fun_eq_iff)



end
