(* ===== verification/IPAddr.thy ===== *)
theory IPAddr
  imports GoStrings "HOL-Library.Monad_Syntax"
begin

text \<open>
  IP addresses as \<open>net.ParseIP\<close>, \<open>net.ParseCIDR\<close> and \<open>net.SplitHostPort\<close> read them. An address is
  the number of its 16-byte form, an IPv4 address the mapped one (\<open>::ffff:a.b.c.d\<close>), so that
  \<open>IP.Equal\<close> is equality of numbers.
\<close>

type_synonym ip = int

definition v4_base :: int where "v4_base = 65535 * 2 ^ 32"

definition is_v4 :: "ip \<Rightarrow> bool" where
  "is_v4 a \<longleftrightarrow> v4_base \<le> a \<and> a < v4_base + 2 ^ 32"

subsection \<open>Parsing\<close>

definition v4_field :: "gostr \<Rightarrow> int option" where
  "v4_field w = (if w = [] \<or> \<not> list_all is_digit w \<or> (1 < length w \<and> hd w = CHR ''0'') \<or> 255 < dec_val w
                 then None else Some (dec_val w))"

fun v4_value :: "gostr list \<Rightarrow> int option" where
  "v4_value [a, b, c, d] =
     do { a' \<leftarrow> v4_field a; b' \<leftarrow> v4_field b; c' \<leftarrow> v4_field c; d' \<leftarrow> v4_field d;
          Some (((a' * 256 + b') * 256 + c') * 256 + d') }"
| "v4_value _ = None"

definition parseIPv4 :: "gostr \<Rightarrow> int option" where
  "parseIPv4 s = v4_value (Split (CHR ''.'') s)"

definition hex_digit :: "char \<Rightarrow> int option" where
  "hex_digit c = (let n = of_char c :: int in
     if 48 \<le> n \<and> n \<le> 57 then Some (n - 48)
     else if 97 \<le> n \<and> n \<le> 102 then Some (n - 87)
     else if 65 \<le> n \<and> n \<le> 70 then Some (n - 55) else None)"

definition is_hex :: "char \<Rightarrow> bool" where
  "is_hex c \<longleftrightarrow> hex_digit c \<noteq> None"

definition hex_val :: "gostr \<Rightarrow> int" where
  "hex_val s = fold (\<lambda>c n. 16 * n + the (hex_digit c)) s 0"

text \<open>The loop over the 16-bit groups of an IPv6 address: at most \<open>n\<close> more, \<open>gs\<close> read so far, and
  the position of the \<open>::\<close>. The rest of the input must be empty in the end.\<close>

fun v6_loop :: "nat \<Rightarrow> gostr \<Rightarrow> int list \<Rightarrow> nat option \<Rightarrow> (int list \<times> nat option \<times> gostr) option" where
  "v6_loop 0 s gs el = Some (gs, el, s)"
| "v6_loop (Suc n) s gs el =
     (let h = takeWhile is_hex s; r = dropWhile is_hex s in
      if h = [] \<or> 4 < length h then None
      else if r \<noteq> [] \<and> hd r = CHR ''.'' then
        (if (el = None \<and> length gs \<noteq> 6) \<or> n = 0 then None
         else do { v \<leftarrow> parseIPv4 s; Some (gs @ [v div 65536, v mod 65536], el, []) })
      else let gs' = gs @ [hex_val h] in
        if r = [] then Some (gs', el, [])
        else if hd r \<noteq> CHR '':'' \<or> tl r = [] then None
        else let s' = tl r in
          if hd s' = CHR '':'' then
            (if el \<noteq> None then None
             else if tl s' = [] then Some (gs', Some (length gs'), [])
             else v6_loop n (tl s') gs' (Some (length gs')))
          else v6_loop n s' gs' el)"

definition groups_value :: "int list \<Rightarrow> int" where
  "groups_value gs = fold (\<lambda>g n. 65536 * n + g) gs 0"

definition parseIPv6 :: "gostr \<Rightarrow> int option" where
  "parseIPv6 s =
     (let dbl = HasPrefix s ''::''; s' = (if dbl then drop 2 s else s) in
      if dbl \<and> s' = [] then Some 0
      else do { (gs, el, rest) \<leftarrow> v6_loop 8 s' [] (if dbl then Some 0 else None);
          if rest \<noteq> [] then None
          else case el of
            None \<Rightarrow> if length gs < 8 then None else Some (groups_value gs)
          | Some k \<Rightarrow>
              if 8 \<le> length gs then None
              else Some (groups_value (take k gs @ replicate (8 - length gs) 0 @ drop k gs)) })"

text \<open>The first of dot, colon and percent sign decides; zones are refused.\<close>

definition ip_family :: "gostr \<Rightarrow> char option" where
  "ip_family s = find (\<lambda>c. c \<in> {CHR ''.'', CHR '':'', CHR ''%''}) s"

definition ParseIP :: "gostr \<Rightarrow> ip option" where
  "ParseIP s =
     (case ip_family s of
        Some c \<Rightarrow> if c = CHR ''.'' then map_option (\<lambda>v. v4_base + v) (parseIPv4 s)
                  else if c = CHR '':'' then parseIPv6 s else None
      | None \<Rightarrow> None)"

text \<open>A network: its masked address and the prefix length in the 16-byte form.\<close>

datatype ipnet = IPNet (net_addr: ip) (net_bits: nat)

definition mask_ip :: "nat \<Rightarrow> ip \<Rightarrow> ip" where
  "mask_ip n a = a div 2 ^ (128 - n) * 2 ^ (128 - n)"

definition ParseCIDR :: "gostr \<Rightarrow> ipnet option" where
  "ParseCIDR s =
     (let addr = takeWhile (\<lambda>c. c \<noteq> CHR ''/'') s; m = dropWhile (\<lambda>c. c \<noteq> CHR ''/'') s in
      if m = [] then None
      else do { a \<leftarrow> ParseIP addr;
          let mask = tl m; let four = (ip_family addr = Some (CHR ''.''));
          if mask = [] \<or> \<not> list_all is_digit mask \<or> (if four then 32 else 128) < dec_val mask then None
          else (let n = nat (dec_val mask) + (if four then 96 else 0) in Some (IPNet (mask_ip n a) n)) })"

definition Net_Contains :: "ipnet \<Rightarrow> ip \<Rightarrow> bool" where
  "Net_Contains net a \<longleftrightarrow> is_v4 (net_addr net) = is_v4 a \<and> mask_ip (net_bits net) a = net_addr net"

definition SplitHostPort :: "gostr \<Rightarrow> (gostr \<times> gostr) option" where
  "SplitHostPort hp =
     (case LastIndexByte hp (CHR '':'') of
        None \<Rightarrow> None
      | Some i \<Rightarrow>
          if hd hp = CHR ''['' then
            (case Index hp '']'' of
               None \<Rightarrow> None
             | Some e \<Rightarrow>
                 if e + 1 \<noteq> i then None
                 else if CHR ''['' \<in> set (drop 1 hp) \<or> CHR '']'' \<in> set (drop (e + 1) hp) then None
                 else Some (take (e - 1) (drop 1 hp), drop (i + 1) hp))
          else if CHR '':'' \<in> set (take i hp) \<or> CHR ''['' \<in> set hp \<or> CHR '']'' \<in> set hp then None
          else Some (take i hp, drop (i + 1) hp))"

subsection \<open>Dotted quads\<close>

definition dotted :: "int \<Rightarrow> int \<Rightarrow> int \<Rightarrow> int \<Rightarrow> gostr" where
  "dotted a b c d = Join ''.'' [udec a, udec b, udec c, udec d]"

definition octets :: "int list \<Rightarrow> bool" where
  "octets xs \<longleftrightarrow> (\<forall>x \<in> set xs. 0 \<le> x \<and> x < 256)"

definition v4_num :: "int \<Rightarrow> int \<Rightarrow> int \<Rightarrow> int \<Rightarrow> int" where
  "v4_num a b c d = ((a * 256 + b) * 256 + c) * 256 + d"

lemma udec_no_leading_zero: "0 < n \<Longrightarrow> hd (udec n) \<noteq> CHR ''0''"
proof (induction n rule: udec.induct)
  case (1 n)
  show ?case
  proof (cases "n < 10")
    case True
    with 1 have "digit_val (hd (udec n)) = n" by (simp add: udec.simps [of n])
    moreover have "digit_val (CHR ''0'') = 0" by (simp add: digit_val_def)
    ultimately show ?thesis using 1 by auto
  next
    case False
    then show ?thesis using 1 by (subst udec.simps) (simp add: hd_append)
  qed
qed

lemma v4_field_udec: "0 \<le> n \<Longrightarrow> n < 256 \<Longrightarrow> v4_field (udec n) = Some n"
proof -
  assume n: "0 \<le> n" "n < 256"
  have "list_all is_digit (udec n)" using n udec_digits by (auto simp: list_all_iff)
  moreover have "\<not> (1 < length (udec n) \<and> hd (udec n) = CHR ''0'')"
    using n udec_no_leading_zero [of n] by (cases "n = 0") (simp_all add: udec.simps [of 0])
  ultimately show ?thesis using n by (simp add: v4_field_def)
qed

lemma udec_no_sep: "0 \<le> n \<Longrightarrow> \<not> is_digit c \<Longrightarrow> c \<notin> set (udec n)"
  using udec_digits by blast

lemma parseIPv4_dotted:
  assumes "octets [a, b, c, d]"
  shows "parseIPv4 (dotted a b c d) = Some (v4_num a b c d)"
proof -
  have "Split (CHR ''.'') (dotted a b c d) = [udec a, udec b, udec c, udec d]"
    unfolding dotted_def
    by (rule Split_Join) (use assms udec_no_sep [of _ "CHR ''.''"] in \<open>auto simp: octets_def is_digit_def\<close>)
  then show ?thesis
    using assms by (simp add: parseIPv4_def v4_field_udec octets_def v4_num_def)
qed

lemma find_append: "find P (xs @ ys) = (case find P xs of None \<Rightarrow> find P ys | Some x \<Rightarrow> Some x)"
  by (induction xs) auto

lemma find_digits: "0 \<le> n \<Longrightarrow> \<forall>c. is_digit c \<longrightarrow> \<not> P c \<Longrightarrow> find P (udec n) = None"
  using udec_digits by (auto simp: find_None_iff)

lemma ip_family_dotted:
  assumes "octets [a, b, c, d]"
  shows "ip_family (dotted a b c d) = Some (CHR ''.'')"
proof -
  have "find (\<lambda>c. c \<in> {CHR ''.'', CHR '':'', CHR ''%''}) (udec a) = None"
    using assms by (intro find_digits) (auto simp: octets_def is_digit_def)
  then show ?thesis by (simp add: ip_family_def dotted_def find_append)
qed

lemma ParseIP_dotted:
  "octets [a, b, c, d] \<Longrightarrow> ParseIP (dotted a b c d) = Some (v4_base + v4_num a b c d)"
  by (simp add: ParseIP_def ip_family_dotted parseIPv4_dotted)

lemma v4_num_range: "octets [a, b, c, d] \<Longrightarrow> 0 \<le> v4_num a b c d \<and> v4_num a b c d < 2 ^ 32"
  by (simp add: octets_def v4_num_def)

lemma is_v4_num: "0 \<le> v \<Longrightarrow> v < 2 ^ 32 \<Longrightarrow> is_v4 (v4_base + v)"
  by (simp add: is_v4_def)

text \<open>Masking an IPv4 address to \<open>n\<close> of its 32 bits.\<close>

lemma v4_base_pow: "n \<le> 32 \<Longrightarrow> v4_base = 65535 * 2 ^ n * 2 ^ (32 - n)"
  by (simp add: v4_base_def power_add [symmetric])

lemma mask_v4:
  assumes "n \<le> 32" "0 \<le> v" "v < 2 ^ 32"
  shows "mask_ip (n + 96) (v4_base + v) = v4_base + v div 2 ^ (32 - n) * 2 ^ (32 - n)"
proof -
  have e: "128 - (n + 96) = 32 - n" using assms(1) by simp
  have "(v4_base + v) div 2 ^ (32 - n) = 65535 * 2 ^ n + v div 2 ^ (32 - n)"
    unfolding v4_base_pow [OF assms(1)] by (simp add: div_mult_self3)
  then show ?thesis
    unfolding mask_ip_def e using v4_base_pow [OF assms(1)] by (simp add: algebra_simps)
qed

lemma dotted_no_slash: "octets [a, b, c, d] \<Longrightarrow> CHR ''/'' \<notin> set (dotted a b c d)"
  using udec_no_sep [of _ "CHR ''/''"] by (auto simp: dotted_def octets_def is_digit_def)

lemma ParseCIDR_dotted:
  assumes "octets [a, b, c, d]" "n \<le> 32"
  shows "ParseCIDR (dotted a b c d @ ''/'' @ udec (int n)) =
     Some (IPNet (v4_base + v4_num a b c d div 2 ^ (32 - n) * 2 ^ (32 - n)) (n + 96))"
proof -
  let ?s = "dotted a b c d @ ''/'' @ udec (int n)"
  have t: "takeWhile (\<lambda>c. c \<noteq> CHR ''/'') ?s = dotted a b c d"
    "dropWhile (\<lambda>c. c \<noteq> CHR ''/'') ?s = ''/'' @ udec (int n)"
    using dotted_no_slash [OF assms(1)]
    by (subst takeWhile_append2 dropWhile_append2; auto)+
  have "list_all is_digit (udec (int n))" using udec_digits [of "int n"] by (auto simp: list_all_iff)
  then show ?thesis
    using assms v4_num_range [OF assms(1)]
    unfolding ParseCIDR_def Let_def t
    by (simp add: ParseIP_dotted ip_family_dotted mask_v4)
qed

text \<open>Membership in an IPv4 network compares the leading bits.\<close>

lemma Net_Contains_v4:
  assumes "n \<le> 32" "0 \<le> v" "v < 2 ^ 32" "0 \<le> w" "w < 2 ^ 32"
  shows "Net_Contains (IPNet (v4_base + v div 2 ^ (32 - n) * 2 ^ (32 - n)) (n + 96)) (v4_base + w)
     \<longleftrightarrow> v div 2 ^ (32 - n) = w div 2 ^ (32 - n)"
proof -
  let ?p = "2 ^ (32 - n) :: int"
  have "0 \<le> v mod ?p" by simp
  then have "0 \<le> v div ?p * ?p" "v div ?p * ?p \<le> v"
    using assms(2) div_mult_mod_eq [of v ?p] by (simp add: pos_imp_zdiv_nonneg_iff, linarith)
  then show ?thesis
    using assms by (auto simp: Net_Contains_def mask_v4 is_v4_num)
qed

end
