(* ===== verification/Access.thy ===== *)
theory Access
  imports KeyStore IPAddr
begin

text \<open>
  Who may enter: the source IP allowlist of service accounts (\<open>core/keys/ipallowlist.go\<close>), the model
  access controller (\<open>core/gateway/access.go\<close>), and the authentication providers
  (\<open>core/gateway/auth.go\<close> and the adapter of \<open>cmd/gateway.go\<close>). The two controllers the gateway can
  be given share the interface \<open>AccessController\<close>, the two providers \<open>AuthProvider\<close>.
\<close>

definition RoleService :: gostr where "RoleService = ''service''"

subsection \<open>The IP allowlist\<close>

definition entry_matches :: "ip \<Rightarrow> gostr \<Rightarrow> bool" where
  "entry_matches ip entry0 =
     (let entry = TrimSpace entry0 in
      if entry = [] then False
      else if Contains entry ''/'' then
        (case ParseCIDR entry of None \<Rightarrow> False | Some cidr \<Rightarrow> Net_Contains cidr ip)
      else (case ParseIP entry of None \<Rightarrow> False | Some rhs \<Rightarrow> rhs = ip))"

definition IsIPAllowed :: "UserProfile \<Rightarrow> gostr \<Rightarrow> bool" where
  "IsIPAllowed p source =
     (if up_Role p \<noteq> RoleService then True
      else if up_IPAllowlist p = [] then True
      else
        let host = (case SplitHostPort source of Some (h, _) \<Rightarrow> h | None \<Rightarrow> source) in
        case ParseIP (TrimSpace host) of
          None \<Rightarrow> False
        | Some ip \<Rightarrow> list_ex (entry_matches ip) (up_IPAllowlist p))"

subsection \<open>Access controllers\<close>

definition CanAccess :: "KeyStore \<Rightarrow> gostr \<Rightarrow> gostr \<Rightarrow> bool" where
  "CanAccess store userID modelName =
     (case GetByID userID store of
        None \<Rightarrow> False
      | Some profile \<Rightarrow> list_ex (\<lambda>model. model = ''*'' \<or> model = modelName) (up_AllowedModels profile))"

definition IsSourceIPAllowed :: "KeyStore \<Rightarrow> gostr \<Rightarrow> gostr \<Rightarrow> bool" where
  "IsSourceIPAllowed store userID sourceIP =
     (case GetByID userID store of None \<Rightarrow> True | Some profile \<Rightarrow> IsIPAllowed profile sourceIP)"

definition DenyAll_CanAccess :: "gostr \<Rightarrow> gostr \<Rightarrow> bool" where "DenyAll_CanAccess userID modelName = False"
definition AllowAll_CanAccess :: "gostr \<Rightarrow> gostr \<Rightarrow> bool" where "AllowAll_CanAccess userID modelName = True"

subsection \<open>Authentication providers\<close>

type_synonym api_keys = "gostr \<rightharpoonup> gostr"

definition APIKey_ValidateToken :: "api_keys \<Rightarrow> gostr \<Rightarrow> gostr option" where
  "APIKey_ValidateToken keys token = keys token"

definition APIKey_AddKey :: "gostr \<Rightarrow> gostr \<Rightarrow> api_keys \<Rightarrow> api_keys" where
  "APIKey_AddKey apiKey userID keys = keys(apiKey \<mapsto> userID)"

definition APIKey_RemoveKey :: "gostr \<Rightarrow> api_keys \<Rightarrow> api_keys" where
  "APIKey_RemoveKey apiKey keys = keys(apiKey := None)"

text \<open>The adapter over the key store drops the lookup error: a malformed hash reads as an invalid
  key. A panic of the verification is \<open>None\<close> of the outer option.\<close>

definition Adapter_ValidateToken :: "prims \<Rightarrow> gostr list \<Rightarrow> KeyStore \<Rightarrow> gostr \<Rightarrow> gostr option option" where
  "Adapter_ValidateToken P order store token =
     (case GetByKey P order token store of
        Inr (Some user) \<Rightarrow> Some (Some (up_ID user))
      | Inr None \<Rightarrow> Some None
      | Inl LookupPanic \<Rightarrow> None
      | Inl (LookupVerify _ _) \<Rightarrow> Some None)"

subsection \<open>Allowlists of IPv4 networks\<close>

lemma dotted_chars: "octets [a, b, c, d] \<Longrightarrow> x \<in> set (dotted a b c d) \<Longrightarrow> is_digit x \<or> x = CHR ''.''"
  using udec_digits by (auto simp: dotted_def octets_def)

lemma is_digit_not: "is_digit x \<Longrightarrow> \<not> is_space x \<and> x \<noteq> CHR ''/'' \<and> x \<noteq> CHR '':'' \<and> x \<noteq> CHR ''['' \<and> x \<noteq> CHR '']''"
  by (auto simp: is_digit_def is_space_def)

lemma dot_not: "\<not> is_space (CHR ''.'')"
  by (simp add: is_space_def)

lemma dotted_nonempty [simp]: "dotted a b c d \<noteq> []"
  by (simp add: dotted_def)

lemma TrimSpace_dotted [simp]: "octets [a, b, c, d] \<Longrightarrow> TrimSpace (dotted a b c d) = dotted a b c d"
  using dotted_chars is_digit_not dot_not by (intro TrimSpace_no_space) blast

lemma SplitHostPort_dotted:
  "octets [a, b, c, d] \<Longrightarrow> SplitHostPort (dotted a b c d) = None"
proof -
  assume "octets [a, b, c, d]"
  then have "CHR '':'' \<notin> set (dotted a b c d)"
    using dotted_chars [of a b c d "CHR '':''"] by (auto simp: is_digit_def)
  then show ?thesis by (simp add: SplitHostPort_def)
qed

lemma SplitHostPort_dotted_port:
  assumes "octets [a, b, c, d]" "0 \<le> port"
  shows "SplitHostPort (dotted a b c d @ '':'' @ udec port) = Some (dotted a b c d, udec port)"
proof -
  have no: "x \<notin> set (dotted a b c d)" "x \<notin> set (udec port)" if "x \<in> {CHR '':'', CHR ''['', CHR '']''}" for x
    using that dotted_chars [OF assms(1), of x] udec_digits [OF assms(2), of x] is_digit_not by auto
  have l: "LastIndexByte (dotted a b c d @ CHR '':'' # udec port) (CHR '':'') = Some (length (dotted a b c d))"
    by (rule LastIndexByte_append) (use no in simp)
  have "hd (dotted a b c d @ CHR '':'' # udec port) \<noteq> CHR ''[''"
    using no(1) [of "CHR ''[''"] by (cases "dotted a b c d") auto
  then show ?thesis using l no by (simp add: SplitHostPort_def)
qed

lemma entry_matches_cidr:
  assumes "octets [a, b, c, d]" "n \<le> 32" "0 \<le> w" "w < 2 ^ 32"
  shows "entry_matches (v4_base + w) (dotted a b c d @ ''/'' @ udec (int n)) \<longleftrightarrow>
     v4_num a b c d div 2 ^ (32 - n) = w div 2 ^ (32 - n)"
proof -
  let ?e = "dotted a b c d @ ''/'' @ udec (int n)"
  have "\<forall>x \<in> set ?e. \<not> is_space x"
    using dotted_chars [OF assms(1)] udec_digits [of "int n"] is_digit_not dot_not
    by (auto simp: is_space_def)
  then have t: "TrimSpace ?e = ?e" by (rule TrimSpace_no_space)
  have "Contains ?e ''/''" unfolding Contains_iff by blast
  then show ?thesis
    unfolding entry_matches_def Let_def t ParseCIDR_dotted [OF assms(1,2)]
    using Net_Contains_v4 [OF assms(2) _ _ assms(3,4)] v4_num_range [OF assms(1)] by simp
qed

lemma entry_matches_ip:
  assumes "octets [a, b, c, d]"
  shows "entry_matches ip (dotted a b c d) \<longleftrightarrow> ip = v4_base + v4_num a b c d"
proof -
  have "\<not> Contains (dotted a b c d) ''/''"
    using dotted_no_slash [OF assms] unfolding Contains_iff by fastforce
  then show ?thesis
    by (auto simp: entry_matches_def assms ParseIP_dotted)
qed

text \<open>Source IP allowlist. For a service account whose allowlist consists of IPv4 networks
  \<open>a.b.c.d/n\<close>, an IPv4 source, written with or without a port, is admitted exactly when it agrees with
  one of the networks on its first \<open>n\<close> bits.\<close>

theorem ip_allowlist_cidr:
  assumes "up_Role p = RoleService"
    and "up_IPAllowlist p = map (\<lambda>(a, b, c, d, n). dotted a b c d @ ''/'' @ udec (int n)) nets" "nets \<noteq> []"
    and "\<forall>(a, b, c, d, n) \<in> set nets. octets [a, b, c, d] \<and> n \<le> 32"
    and "octets [x, y, z, w]" "source = dotted x y z w \<or> (\<exists>port \<ge> 0. source = dotted x y z w @ '':'' @ udec port)"
  shows "IsIPAllowed p source \<longleftrightarrow>
     (\<exists>(a, b, c, d, n) \<in> set nets. v4_num a b c d div 2 ^ (32 - n) = v4_num x y z w div 2 ^ (32 - n))"
proof -
  have r: "0 \<le> v4_num x y z w" "v4_num x y z w < 2 ^ 32" using v4_num_range [OF assms(5)] by auto
  have "(case SplitHostPort source of Some (h, _) \<Rightarrow> h | None \<Rightarrow> source) = dotted x y z w"
    using assms(6) SplitHostPort_dotted [OF assms(5)] SplitHostPort_dotted_port [OF assms(5)] by auto
  then have "IsIPAllowed p source \<longleftrightarrow>
      list_ex (entry_matches (v4_base + v4_num x y z w)) (up_IPAllowlist p)"
    using assms(1-3,5) by (simp add: IsIPAllowed_def ParseIP_dotted)
  also have "\<dots> \<longleftrightarrow> (\<exists>(a, b, c, d, n) \<in> set nets. v4_num a b c d div 2 ^ (32 - n) = v4_num x y z w div 2 ^ (32 - n))"
    unfolding assms(2) list_ex_iff set_map bex_simps
    using assms(4) entry_matches_cidr [OF _ _ r] by (intro bex_cong) auto
  finally show ?thesis .
qed

lemma ip_allowlist_cidr_witness:
  "IsIPAllowed (toy_user ''s'' ''k'') (dotted 10 200 3 4 @ '':'' @ udec 5000) \<and>
   \<not> IsIPAllowed (toy_user ''s'' ''k'') (dotted 11 0 0 1)"
proof -
  let ?p = "toy_user ''s'' ''k''"
  have p: "up_Role ?p = RoleService" "up_IPAllowlist ?p =
      map (\<lambda>(a, b, c, d, n). dotted a b c d @ ''/'' @ udec (int n)) [(10, 0, 0, 0, 8)]"
    unfolding toy_user_def RoleService_def by simp code_simp
  have o: "octets [10, 200, 3, 4]" "octets [11, 0, 0, 1]" "\<forall>(a, b, c, d, n) \<in> set [(10, 0, 0, 0, 8 :: nat)]. octets [a, b, c, d] \<and> n \<le> 32"
    by (simp_all add: octets_def)
  have "\<exists>port \<ge> 0. dotted 10 200 3 4 @ '':'' @ udec 5000 = dotted 10 200 3 4 @ '':'' @ udec port"
    by (rule exI [of _ 5000]) simp
  then have a: "IsIPAllowed ?p (dotted 10 200 3 4 @ '':'' @ udec 5000) \<longleftrightarrow>
      (\<exists>(a, b, c, d, n) \<in> set [(10, 0, 0, 0, 8 :: nat)]. v4_num a b c d div 2 ^ (32 - n) = v4_num 10 200 3 4 div 2 ^ (32 - n))"
    by (intro ip_allowlist_cidr [OF p _ o(3) o(1)]) auto
  have b: "IsIPAllowed ?p (dotted 11 0 0 1) \<longleftrightarrow>
      (\<exists>(a, b, c, d, n) \<in> set [(10, 0, 0, 0, 8 :: nat)]. v4_num a b c d div 2 ^ (32 - n) = v4_num 11 0 0 1 div 2 ^ (32 - n))"
    by (intro ip_allowlist_cidr [OF p _ o(3) o(2)]) auto
  show ?thesis unfolding a b by (simp add: v4_num_def)
qed

subsection \<open>Ciphertext roles\<close>

text \<open>The role of a profile as an encrypting key store writes it to disk.\<close>

lemma encrypt_role:
  assumes "encryptFieldsLocked P nonce mk p = Inr cp" "up_Role p = RoleService"
  shows "IsEncrypted (up_Role cp)"
proof -
  have "encrypt_field P (nonce 2) mk RoleService = Inr (up_Role cp)"
    using assms by (auto simp: encryptFieldsLocked_def split: sum.splits)
  moreover have "\<not> IsEncrypted RoleService" "RoleService \<noteq> []"
    by (simp_all add: IsEncrypted_def encPrefix_def RoleService_def)
  ultimately have "\<exists>x. encPrefix @ x = up_Role cp"
    by (auto simp: encrypt_field_def Encrypt_def split: if_splits option.splits)
  then show ?thesis by (metis IsEncrypted_def HasPrefix_append)
qed

lemma encrypted_not_service: "IsEncrypted r \<Longrightarrow> r \<noteq> RoleService"
  by (auto simp: IsEncrypted_def encPrefix_def RoleService_def)

text \<open>The allowlist and field encryption do not compose: once a key store with a master key has
  written its file, a process that loads that file without the key (as the gateway does, which never
  sets one) admits every service account from every source address, because the stored role is a
  ciphertext and no longer reads \<open>service\<close>.\<close>

theorem encrypted_role_disables_allowlist:
  assumes "saveLocked P env ks d = (hist, None)" "ks_masterKey ks \<noteq> []"
    and "iter_order (se_order env) (ks_Users ks)"
    and "\<And>us b. p_marshal P us = Some b \<Longrightarrow> p_unmarshal P b = Some (Some us)"
    and "ks_Users ks uid = Some p" "up_Role p = RoleService"
  shows "\<exists>gw. LoadKeyStore P False (ks_path ks) (after d hist) = Inr gw \<and>
     (\<forall>src. IsSourceIPAllowed gw uid src)"
proof -
  obtain us bytes where s: "snapshot P env ks = Inr us" "p_marshal P us = Some bytes"
      "after d hist (ks_path ks) = Some bytes"
    using save_crash_safe_gen [OF assms(1)] by auto
  have e: "encrypt_users P env (ks_masterKey ks) (ks_Users ks) (se_order env) Map.empty = Inr us"
    using s(1) assms(2) by (simp add: snapshot_def)
  have ord: "distinct (se_order env)" "uid \<in> set (se_order env)"
    using assms(3,5) by (auto simp: iter_order_def)
  then obtain cp where cp: "encryptFieldsLocked P (se_nonce env uid) (ks_masterKey ks) p = Inr cp" "us uid = Some cp"
    using encrypt_users_ok [OF e ord(1)] assms(5) by blast
  let ?gw = "\<lparr> ks_Users = us, ks_nil = False, ks_path = ks_path ks, ks_masterKey = [] \<rparr>"
  have "LoadKeyStore P False (ks_path ks) (after d hist) = Inr ?gw"
    using s(3) assms(4) [OF s(2)] by (simp add: LoadKeyStore_def)
  moreover have "IsSourceIPAllowed ?gw uid src" for src
    using encrypted_not_service [OF encrypt_role [OF cp(1) assms(6)]] cp(2)
    by (simp add: IsSourceIPAllowed_def GetByID_def IsIPAllowed_def)
  ultimately show ?thesis by blast
qed

lemma encrypted_role_disables_allowlist_witness:
  "let mk = replicate 32 (CHR ''k''); u = toy_user ''u'' ''key'';
       env = (toy_env (\<lambda>_. False))\<lparr> se_order := [''u''], se_nonce := (\<lambda>_ _. Some (replicate 12 (CHR ''n''))) \<rparr>;
       cp = projr (encryptFieldsLocked toy_prims (se_nonce env ''u'') mk u);
       P = toy_prims\<lparr> p_marshal := (\<lambda>us. if us = [''u'' \<mapsto> cp] then Some ''x'' else None),
                      p_unmarshal := (\<lambda>_. Some (Some [''u'' \<mapsto> cp])) \<rparr>;
       ks = toy_store\<lparr> ks_Users := [''u'' \<mapsto> u], ks_masterKey := mk \<rparr> in
   \<not> IsSourceIPAllowed ks ''u'' (dotted 192 168 0 1) \<and>
   (\<exists>gw. LoadKeyStore P False ''keys.json'' (after Map.empty (fst (saveLocked P env ks Map.empty))) = Inr gw \<and>
      (\<forall>src. IsSourceIPAllowed gw ''u'' src))"
proof -
  define mk where "mk = replicate 32 (CHR ''k'')"
  define u where "u = toy_user ''u'' ''key''"
  define env where "env = (toy_env (\<lambda>_. False))\<lparr> se_order := [''u''], se_nonce := (\<lambda>_ _. Some (replicate 12 (CHR ''n''))) \<rparr>"
  define cp where "cp = projr (encryptFieldsLocked toy_prims (se_nonce env ''u'') mk u)"
  define P where "P = toy_prims\<lparr> p_marshal := (\<lambda>us. if us = [''u'' \<mapsto> cp] then Some ''x'' else None),
                      p_unmarshal := (\<lambda>_. Some (Some [''u'' \<mapsto> cp])) \<rparr>"
  define ks where "ks = toy_store\<lparr> ks_Users := [''u'' \<mapsto> u], ks_masterKey := mk \<rparr>"
  have mk: "length mk = masterKeyLen" "mk \<noteq> []" by (simp_all add: mk_def masterKeyLen_def)
  have n: "se_nonce env k i = Some (replicate 12 (CHR ''n''))" for k i by (simp add: env_def)
  have f: "up_Department u = ''eng''" "up_Team u = ''ml''" "up_Role u = ''service''"
    by (simp_all add: u_def toy_user_def)
  have ne: "\<not> IsEncrypted ''eng''" "\<not> IsEncrypted ''ml''" "\<not> IsEncrypted ''service''"
    by (simp_all add: IsEncrypted_def encPrefix_def)
  have enc: "encryptFieldsLocked toy_prims (se_nonce env ''u'') mk u = Inr cp"
    unfolding cp_def encryptFieldsLocked_def encrypt_field_def f n using ne mk
    by (simp add: Encrypt_def)
  have seal: "p_seal P = p_seal toy_prims" by (simp add: P_def)
  have "encryptFieldsLocked P (se_nonce env ''u'') mk u = Inr cp"
    using enc unfolding encryptFieldsLocked_def encrypt_field_def seal .
  then have snap: "snapshot P env ks = Inr [''u'' \<mapsto> cp]"
    using mk by (simp add: snapshot_def ks_def env_def)
  have "snd (saveLocked P env ks Map.empty) = None"
    unfolding saveLocked_def snap by (simp add: P_def write_atomic_def env_def toy_env_def Let_def)
  then obtain hist where h: "saveLocked P env ks Map.empty = (hist, None)"
    by (cases "saveLocked P env ks Map.empty") simp
  have ku: "ks_Users ks ''u'' = Some u" "ks_path ks = ''keys.json''" by (simp_all add: ks_def toy_store_def)
  have "\<exists>gw. LoadKeyStore P False (ks_path ks) (after Map.empty hist) = Inr gw \<and> (\<forall>src. IsSourceIPAllowed gw ''u'' src)"
  proof (rule encrypted_role_disables_allowlist [OF h])
    show "p_marshal P us = Some b \<Longrightarrow> p_unmarshal P b = Some (Some us)" for us b
      by (simp add: P_def split: if_splits)
    show "ks_Users ks ''u'' = Some u" by (fact ku)
  qed (simp_all add: ks_def mk env_def iter_order_def f RoleService_def)
  moreover have "\<not> IsSourceIPAllowed ks ''u'' (dotted 192 168 0 1)"
    unfolding IsSourceIPAllowed_def GetByID_def ku(1) u_def by code_simp
  ultimately show ?thesis
    unfolding Let_def mk_def [symmetric] u_def [symmetric] env_def [symmetric] cp_def [symmetric]
      P_def [symmetric] ks_def [symmetric] h using ku by simp
qed

end
