(* ===== verification/GoTime.thy ===== *)
theory GoTime
  imports Prelude GoStrings
begin

text \<open>
  The calendar arithmetic of Go's \<open>time\<close> package that the program relies on, in UTC: the civil date
  of an instant, \<open>time.Date\<close> (which normalises months out of range), \<open>AddDate\<close>, and the layouts
  \<open>2006-01-02\<close> and \<open>2006-01\<close>. Day 0 is 1 January 1970.
\<close>

abbreviation (input) day_ns :: duration where "day_ns \<equiv> 86400000000000"

definition leap :: "int \<Rightarrow> bool" where
  "leap y \<longleftrightarrow> y mod 4 = 0 \<and> (y mod 100 \<noteq> 0 \<or> y mod 400 = 0)"

text \<open>Days from 1 January of year 1 to 1 January of year \<open>y\<close>.\<close>

definition days_before_year :: "int \<Rightarrow> int" where
  "days_before_year y = 365 * (y - 1) + (y - 1) div 4 - (y - 1) div 100 + (y - 1) div 400"

definition leap_day :: "bool \<Rightarrow> int" where
  "leap_day l = (if l then 1 else 0)"

definition days_before_month :: "bool \<Rightarrow> int \<Rightarrow> int" where
  "days_before_month l m =
     (if m = 1 then 0 else if m = 2 then 31
      else leap_day l +
        (if m = 3 then 59 else if m = 4 then 90 else if m = 5 then 120 else if m = 6 then 151
         else if m = 7 then 181 else if m = 8 then 212 else if m = 9 then 243
         else if m = 10 then 273 else if m = 11 then 304 else if m = 12 then 334 else 365))"

definition month_of :: "bool \<Rightarrow> int \<Rightarrow> int" where
  "month_of l yd =
     (if yd < 31 then 1
      else let r = yd - leap_day l in
        if r < 59 then 2 else if r < 90 then 3 else if r < 120 then 4 else if r < 151 then 5
        else if r < 181 then 6 else if r < 212 then 7 else if r < 243 then 8
        else if r < 273 then 9 else if r < 304 then 10 else if r < 334 then 11 else 12)"

text \<open>Year and day of the year of a day, by 400-, 100-, 4- and 1-year cycles.\<close>

definition year_yday :: "int \<Rightarrow> int \<times> int" where
  "year_yday z =
     (let a = z div 146097; d1 = z mod 146097;
          b = min 3 (d1 div 36524); d2 = d1 - 36524 * b;
          c = d2 div 1461; d3 = d2 mod 1461;
          e = min 3 (d3 div 365)
      in (400 * a + 100 * b + 4 * c + e + 1, d3 - 365 * e))"

definition epoch_days :: int where
  "epoch_days = 719162"

definition civil :: "int \<Rightarrow> int \<times> int \<times> int" where
  "civil z = (let (y, yd) = year_yday (z + epoch_days); m = month_of (leap y) yd
              in (y, m, yd - days_before_month (leap y) m + 1))"

definition date_days :: "int \<Rightarrow> int \<Rightarrow> int \<Rightarrow> int" where
  "date_days y m d =
     (let y' = y + (m - 1) div 12; m' = (m - 1) mod 12 + 1
      in days_before_year y' + days_before_month (leap y') m' + (d - 1) - epoch_days)"

definition day_of :: "time \<Rightarrow> int" where
  "day_of t = t div day_ns"

definition midnight :: "int \<Rightarrow> time" where
  "midnight z = z * day_ns"

definition Date :: "int \<Rightarrow> int \<Rightarrow> int \<Rightarrow> time" where
  "Date y m d = midnight (date_days y m d)"

definition AddDate :: "time \<Rightarrow> int \<Rightarrow> int \<Rightarrow> int \<Rightarrow> time" where
  "AddDate t dy dm dd = (let (y, m, d) = civil (day_of t)
     in midnight (date_days (y + dy) (m + dm) (d + dd)) + t mod day_ns)"

definition Year :: "time \<Rightarrow> int" where "Year t = fst (civil (day_of t))"
definition Month :: "time \<Rightarrow> int" where "Month t = fst (snd (civil (day_of t)))"
definition Day :: "time \<Rightarrow> int" where "Day t = snd (snd (civil (day_of t)))"

text \<open>\<open>Format\<close> with the layouts \<open>2006-01-02\<close> and \<open>2006-01\<close>.\<close>

definition pad_year :: "int \<Rightarrow> gostr" where
  "pad_year y = (if y < 0 then ''-'' @ pad0 4 (- y) else pad0 4 y)"

definition Format_day :: "time \<Rightarrow> gostr" where
  "Format_day t = pad_year (Year t) @ ''-'' @ pad0 2 (Month t) @ ''-'' @ pad0 2 (Day t)"

definition Format_month :: "time \<Rightarrow> gostr" where
  "Format_month t = pad_year (Year t) @ ''-'' @ pad0 2 (Month t)"

subsection \<open>Round trips\<close>

lemma divmod_bounds:
  fixes x k :: int
  assumes "0 < k"
  shows "x = k * (x div k) + x mod k" "0 \<le> x mod k" "x mod k < k"
  using assms by simp_all

lemma min_div:
  fixes x k n :: int
  assumes "0 < k" "0 \<le> x" "0 \<le> n"
  shows "0 \<le> min n (x div k)" "min n (x div k) \<le> n" "0 \<le> x - k * min n (x div k)"
    and "min n (x div k) < n \<Longrightarrow> x - k * min n (x div k) < k"
proof -
  have q: "0 \<le> x div k" using assms by (simp add: pos_imp_zdiv_nonneg_iff)
  note d = divmod_bounds [OF assms(1), of x]
  show "0 \<le> min n (x div k)" "min n (x div k) \<le> n" using q assms by auto
  have "k * min n (x div k) \<le> k * (x div k)" using assms by (intro mult_left_mono) auto
  then show "0 \<le> x - k * min n (x div k)" using d by linarith
  show "x - k * min n (x div k) < k" if "min n (x div k) < n"
  proof -
    from that have m: "min n (x div k) = x div k" by linarith
    show ?thesis unfolding m using d by linarith
  qed
qed

lemma cycles:
  assumes "0 \<le> b" "b \<le> 3" "0 \<le> c" "c \<le> 24" "0 \<le> e" "e \<le> (3 :: int)"
  shows "days_before_year (400 * a + 100 * b + 4 * c + e + 1) = 146097 * a + 36524 * b + 1461 * c + 365 * e"
    and "leap (400 * a + 100 * b + 4 * c + e + 1) \<longleftrightarrow> e = 3 \<and> (c = 24 \<longrightarrow> b = 3)"
proof -
  let ?Y = "400 * a + 100 * b + 4 * c + e"
  have "?Y div 4 = 100 * a + 25 * b + c"
    by (rule int_div_pos_eq [of _ _ _ e]) (use assms in auto)
  moreover have "?Y div 100 = 4 * a + b"
    by (rule int_div_pos_eq [of _ _ _ "4 * c + e"]) (use assms in auto)
  moreover have "?Y div 400 = a"
    by (rule int_div_pos_eq [of _ _ _ "100 * b + 4 * c + e"]) (use assms in auto)
  ultimately show "days_before_year (?Y + 1) = 146097 * a + 36524 * b + 1461 * c + 365 * e"
    by (simp add: days_before_year_def)
  have m4: "(?Y + 1) mod 4 = 0 \<longleftrightarrow> e = 3"
  proof (cases "e = 3")
    case True
    then have "?Y + 1 = (100 * a + 25 * b + c + 1) * 4" by simp
    then show ?thesis using True by (simp only: mod_mult_self2_is_0 simp_thms)
  next
    case False
    then show ?thesis
      using int_mod_pos_eq [of "?Y + 1" 4 "100 * a + 25 * b + c" "e + 1"] assms by simp
  qed
  have m100: "(?Y + 1) mod 100 = 0 \<longleftrightarrow> e = 3 \<and> c = 24"
  proof (cases "e = 3 \<and> c = 24")
    case True
    then have "?Y + 1 = (4 * a + b + 1) * 100" by simp
    then show ?thesis using True by (simp only: mod_mult_self2_is_0 simp_thms)
  next
    case False
    then have "4 * c + e + 1 < 100" using assms by auto
    then show ?thesis
      using int_mod_pos_eq [of "?Y + 1" 100 "4 * a + b" "4 * c + e + 1"] assms False by simp
  qed
  have m400: "(?Y + 1) mod 400 = 0 \<longleftrightarrow> e = 3 \<and> c = 24 \<and> b = 3"
  proof (cases "e = 3 \<and> c = 24 \<and> b = 3")
    case True
    then have "?Y + 1 = (a + 1) * 400" by simp
    then show ?thesis using True by (simp only: mod_mult_self2_is_0 simp_thms)
  next
    case False
    then have "100 * b + 4 * c + e + 1 < 400" using assms by auto
    then show ?thesis
      using int_mod_pos_eq [of "?Y + 1" 400 a "100 * b + 4 * c + e + 1"] assms False by simp
  qed
  show "leap (?Y + 1) \<longleftrightarrow> e = 3 \<and> (c = 24 \<longrightarrow> b = 3)"
    unfolding leap_def m4 m100 m400 by auto
qed

lemma year_yday_eq:
  assumes "z div 146097 = a" "z mod 146097 = d1" "min 3 (d1 div 36524) = b" "d1 - 36524 * b = d2"
    "d2 div 1461 = c" "d2 mod 1461 = d3" "min 3 (d3 div 365) = e" "d3 - 365 * e = yd"
  shows "year_yday z = (400 * a + 100 * b + 4 * c + e + 1, yd)"
  unfolding year_yday_def assms Let_def by (rule refl)

lemma year_yday:
  assumes "year_yday z = (y, yd)"
  shows "z = days_before_year y + yd" "0 \<le> yd" "yd < 365 + leap_day (leap y)"
proof -
  define d1 where "d1 = z mod 146097"
  define a where "a = z div 146097"
  define b where "b = min 3 (d1 div 36524)"
  define d2 where "d2 = d1 - 36524 * b"
  define c where "c = d2 div 1461"
  define d3 where "d3 = d2 mod 1461"
  define e where "e = min 3 (d3 div 365)"
  have y: "y = 400 * a + 100 * b + 4 * c + e + 1" "yd = d3 - 365 * e"
    using assms year_yday_eq [OF a_def [symmetric] d1_def [symmetric] b_def [symmetric]
        d2_def [symmetric] c_def [symmetric] d3_def [symmetric] e_def [symmetric] refl] by auto
  have d1: "0 \<le> d1" "d1 < 146097" "z = 146097 * a + d1" by (simp_all add: d1_def a_def)
  note mb = min_div [of 36524 d1 3, folded b_def, folded d2_def]
  have d2: "0 \<le> b" "b \<le> 3" "0 \<le> d2" "b < 3 \<longrightarrow> d2 < 36524" using mb d1 by auto
  have d2': "d2 \<le> 36524"
  proof (cases "b = 3")
    case True
    then show ?thesis using d1 by (simp add: d2_def)
  qed (use d2 in auto)
  have d3: "d2 = 1461 * c + d3" "0 \<le> d3" "d3 < 1461"
    using divmod_bounds [of 1461 d2] by (simp_all add: c_def d3_def)
  have c: "0 \<le> c" "c \<le> 24" "c = 24 \<and> b < 3 \<longrightarrow> d3 < 1460" using d2 d2' d3 by linarith+
  note me = min_div [of 365 d3 3, folded e_def]
  have e: "0 \<le> e" "e \<le> 3" "0 \<le> d3 - 365 * e" "e < 3 \<longrightarrow> d3 - 365 * e < 365" using me d3 by auto
  have e': "d3 - 365 * e \<le> 365" "d3 < 1460 \<longrightarrow> d3 - 365 * e < 365"
    using e d3 by (cases "e = 3"; force)+
  note cyc = cycles [OF d2(1,2) c(1,2) e(1,2), of a]
  show "z = days_before_year y + yd"
    unfolding y cyc(1) using d1(3) d3(1) d2_def by simp
  show "0 \<le> yd" using e y by simp
  show "yd < 365 + leap_day (leap y)"
    unfolding y cyc(2) leap_day_def using e e' c(3) d2 by (cases "e = 3"; cases "c = 24"; cases "b = 3") auto
qed

lemma year_decompose:
  obtains a b c e where "y = 400 * a + 100 * b + 4 * c + e + (1 :: int)"
    "0 \<le> b" "b \<le> 3" "0 \<le> c" "c \<le> 24" "0 \<le> e" "e \<le> 3"
proof -
  obtain a r where 1: "y - 1 = 400 * a + r" "0 \<le> r" "r < 400"
    using divmod_bounds [of 400 "y - 1"] by (metis zero_less_numeral)
  obtain b t where 2: "r = 100 * b + t" "0 \<le> t" "t < 100"
    using divmod_bounds [of 100 r] by (metis zero_less_numeral)
  obtain c e where 3: "t = 4 * c + e" "0 \<le> e" "e < 4"
    using divmod_bounds [of 4 t] by (metis zero_less_numeral)
  show thesis by (rule that [of a b c e]) (use 1 2 3 in linarith)+
qed

lemma min_div_eq:
  fixes k n q r :: int
  assumes "0 < k" "q \<le> n" "0 \<le> r" "r < k \<or> q = n"
  shows "min n ((k * q + r) div k) = q"
proof (cases "r < k")
  case True
  then have "(k * q + r) div k = q" using assms by simp
  then show ?thesis using assms by simp
next
  case False
  have "q \<le> (k * q + r) div k" using assms by (simp add: pos_imp_zdiv_nonneg_iff)
  with False show ?thesis using assms by simp
qed

lemma year_yday_inverse:
  assumes "0 \<le> yd" "yd < 365 + leap_day (leap y)"
  shows "year_yday (days_before_year y + yd) = (y, yd)"
proof -
  obtain a b c e where y: "y = 400 * a + 100 * b + 4 * c + e + 1"
    and r: "0 \<le> b" "b \<le> 3" "0 \<le> c" "c \<le> 24" "0 \<le> e" "e \<le> 3"
    by (rule year_decompose)
  note cyc = cycles [OF r, of a, folded y]
  have yd: "yd \<le> 365" "yd = 365 \<longrightarrow> e = 3 \<and> (c = 24 \<longrightarrow> b = 3)"
    using assms cyc(2) by (auto simp: leap_day_def split: if_splits)
  let ?d3 = "365 * e + yd"
  let ?d2 = "1461 * c + ?d3"
  let ?d1 = "36524 * b + ?d2"
  have 3: "0 \<le> ?d3" "?d3 < 1461" using r yd assms(1) by linarith+
  have 2: "0 \<le> ?d2" "?d2 \<le> 36524" "?d2 = 36524 \<longrightarrow> b = 3" using r yd 3 assms(1) by linarith+
  have 1: "0 \<le> ?d1" "?d1 < 146097" using r 2 by linarith+
  have z: "days_before_year y + yd = 146097 * a + ?d1" unfolding cyc(1) by simp
  have "(146097 * a + ?d1) div 146097 = a" "(146097 * a + ?d1) mod 146097 = ?d1"
    using int_div_pos_eq [of "146097 * a + ?d1" 146097 a ?d1]
      int_mod_pos_eq [of "146097 * a + ?d1" 146097 a ?d1] 1 by auto
  moreover have "min 3 (?d1 div 36524) = b"
    by (rule min_div_eq) (use r(1,2) 2 in auto)
  moreover have "?d2 div 1461 = c" "?d2 mod 1461 = ?d3"
    using int_div_pos_eq [of ?d2 1461 c ?d3] int_mod_pos_eq [of ?d2 1461 c ?d3] 3 by auto
  moreover have "min 3 (?d3 div 365) = e"
    by (rule min_div_eq) (use r(5,6) yd assms(1) in auto)
  moreover have "?d1 - 36524 * b = ?d2" "?d3 - 365 * e = yd" by simp_all
  ultimately show ?thesis
    unfolding z by (subst year_yday_eq) (assumption | simp only: y)+
qed

subsection \<open>Months\<close>

lemma month_of:
  assumes "0 \<le> yd" "yd < 365 + leap_day l"
  shows "1 \<le> month_of l yd" "month_of l yd \<le> 12"
    "days_before_month l (month_of l yd) \<le> yd" "yd < days_before_month l (month_of l yd + 1)"
proof -
  let ?r = "yd - leap_day l"
  have k: "0 \<le> leap_day l" "leap_day l \<le> 1" by (simp_all add: leap_day_def)
  consider "yd < 31" | "\<not> yd < 31" "?r < 59" | "\<not> ?r < 59" "?r < 90" | "\<not> ?r < 90" "?r < 120"
    | "\<not> ?r < 120" "?r < 151" | "\<not> ?r < 151" "?r < 181" | "\<not> ?r < 181" "?r < 212"
    | "\<not> ?r < 212" "?r < 243" | "\<not> ?r < 243" "?r < 273" | "\<not> ?r < 273" "?r < 304"
    | "\<not> ?r < 304" "?r < 334" | "\<not> ?r < 334"
    by blast
  then have "1 \<le> month_of l yd \<and> month_of l yd \<le> 12 \<and>
    days_before_month l (month_of l yd) \<le> yd \<and> yd < days_before_month l (month_of l yd + 1)"
    using k assms by cases (simp_all add: month_of_def days_before_month_def Let_def)
  then show "1 \<le> month_of l yd" "month_of l yd \<le> 12"
    "days_before_month l (month_of l yd) \<le> yd" "yd < days_before_month l (month_of l yd + 1)"
    by auto
qed

definition month_len :: "bool \<Rightarrow> int \<Rightarrow> int" where
  "month_len l m = days_before_month l (m + 1) - days_before_month l m"

lemma month_cases:
  "1 \<le> m \<Longrightarrow> m \<le> 12 \<Longrightarrow> m \<in> {1, 2, 3, 4, 5, 6, 7, 8, 9, 10, 11, 12 :: int}"
  unfolding insert_iff empty_iff by presburger

lemma month_of_inverse:
  assumes "1 \<le> m" "m \<le> 12" "1 \<le> d" "d \<le> month_len l m"
  shows "month_of l (days_before_month l m + d - 1) = m"
    "0 \<le> days_before_month l m + d - 1" "days_before_month l m + d - 1 < 365 + leap_day l"
proof -
  note m = month_cases [OF assms(1,2), unfolded insert_iff empty_iff]
  have "month_of l (days_before_month l m + d - 1) = m \<and>
    0 \<le> days_before_month l m + d - 1 \<and> days_before_month l m + d - 1 < 365 + leap_day l"
    using m assms(3,4)
    by (cases l; elim disjE FalseE; hypsubst)
      (simp_all add: month_of_def days_before_month_def leap_day_def Let_def month_len_def)
  then show "month_of l (days_before_month l m + d - 1) = m"
    "0 \<le> days_before_month l m + d - 1" "days_before_month l m + d - 1 < 365 + leap_day l"
    by auto
qed

lemma month_len_28: "1 \<le> m \<Longrightarrow> m \<le> 12 \<Longrightarrow> 28 \<le> month_len l m"
  using month_cases [of m] by (auto simp: month_len_def days_before_month_def leap_day_def)

lemma civil_range:
  "1 \<le> Month t" "Month t \<le> 12" "1 \<le> Day t" "Day t \<le> month_len (leap (Year t)) (Month t)"
proof -
  obtain y yd where z: "year_yday (day_of t + epoch_days) = (y, yd)" by fastforce
  note m = month_of [OF year_yday(2,3) [OF z]]
  show "1 \<le> Month t" "Month t \<le> 12" "1 \<le> Day t" "Day t \<le> month_len (leap (Year t)) (Month t)"
    using m by (simp_all add: Month_def Day_def Year_def civil_def z Let_def month_len_def)
qed

lemma date_days_civil: "civil z = (y, m, d) \<Longrightarrow> date_days y m d = z"
proof -
  assume c: "civil z = (y, m, d)"
  obtain y' yd where z: "year_yday (z + epoch_days) = (y', yd)" by fastforce
  note m = month_of [OF year_yday(2,3) [OF z]]
  from c z have y: "y = y'" "m = month_of (leap y) yd" "d = yd - days_before_month (leap y) m + 1"
    by (auto simp: civil_def Let_def)
  have "(m - 1) div 12 = 0" "(m - 1) mod 12 + 1 = m" using m y by simp_all
  then show "date_days y m d = z"
    using year_yday(1) [OF z] y by (simp add: date_days_def Let_def)
qed

text \<open>A date with the day in range is found again, after the month is brought into range.\<close>

lemma civil_date_days:
  assumes "m0 = (m - 1) mod 12 + 1" "y0 = y + (m - 1) div 12" "1 \<le> d" "d \<le> month_len (leap y0) m0"
  shows "civil (date_days y m d) = (y0, m0, d)"
proof -
  have m0: "1 \<le> m0" "m0 \<le> 12" using assms(1) by (simp_all add: zmod_le_nonneg_dividend) linarith?
  let ?yd = "days_before_month (leap y0) m0 + d - 1"
  note mo = month_of_inverse [OF m0 assms(3,4)]
  have "date_days y m d + epoch_days = days_before_year y0 + ?yd"
    by (simp add: date_days_def Let_def assms(1,2))
  then have "year_yday (date_days y m d + epoch_days) = (y0, ?yd)"
    using year_yday_inverse [OF mo(2,3)] by simp
  then show ?thesis using mo by (simp add: civil_def Let_def)
qed

lemma day_of_midnight [simp]: "day_of (midnight z) = z"
  by (simp add: day_of_def midnight_def)

lemma day_of_add: "0 \<le> r \<Longrightarrow> r < day_ns \<Longrightarrow> day_of (midnight z + r) = z"
  by (simp add: day_of_def midnight_def)

lemma midnight_day_of: "midnight (day_of t) + t mod day_ns = t"
  by (simp add: midnight_def day_of_def)

lemma day_of_le: "midnight (day_of t) \<le> t" "t < midnight (day_of t + 1)"
proof -
  note d = divmod_bounds [of day_ns t]
  show "midnight (day_of t) \<le> t" "t < midnight (day_of t + 1)"
    using d by (simp_all add: midnight_def day_of_def)
qed

lemma midnight_mono: "z \<le> z' \<Longrightarrow> midnight z \<le> midnight z'"
  by (simp add: midnight_def)

lemma day_of_mono: "t \<le> t' \<Longrightarrow> day_of t \<le> day_of t'"
  by (simp add: day_of_def zdiv_mono1)

lemma day_of_less_iff: "day_of t < z \<longleftrightarrow> t < midnight z"
  by (metis day_of_le(1) day_of_le(2) day_of_midnight day_of_mono leD leI midnight_mono order.strict_trans1
      zle_add1_eq_le not_less)

subsection \<open>Months in sequence\<close>

text \<open>Months are numbered through: month \<open>i\<close> is month \<open>i mod 12 + 1\<close> of year \<open>i div 12\<close>.\<close>

definition month_start :: "int \<Rightarrow> int" where
  "month_start i = date_days 0 (i + 1) 1"

definition month_index :: "time \<Rightarrow> int" where
  "month_index t = Year t * 12 + (Month t - 1)"

lemma div_step:
  fixes y k :: int
  assumes "1 < k"
  shows "y div k = (y - 1) div k + (if y mod k = 0 then 1 else 0)"
proof -
  note d = divmod_bounds [of k y]
  show ?thesis
  proof (cases "y mod k = 0")
    case True
    then have "y - 1 = k * (y div k - 1) + (k - 1)" using d assms by (simp add: algebra_simps)
    then have "(y - 1) div k = y div k - 1" using assms by (intro int_div_pos_eq [of _ _ _ "k - 1"]) auto
    then show ?thesis using True by simp
  next
    case False
    then have "y - 1 = k * (y div k) + (y mod k - 1)" using d assms by simp
    moreover have "0 \<le> y mod k" "y mod k < k" using assms by simp_all
    then have "0 \<le> y mod k - 1" "y mod k - 1 < k" using False by linarith+
    ultimately have "(y - 1) div k = y div k" by (rule int_div_pos_eq)
    then show ?thesis using False by simp
  qed
qed

lemma mod_100_4: "y mod 100 = 0 \<Longrightarrow> y mod 4 = (0 :: int)"
  using mod_mod_cancel [of 4 100 y] by simp

lemma mod_400_100: "y mod 400 = 0 \<Longrightarrow> y mod 100 = (0 :: int)"
  using mod_mod_cancel [of 100 400 y] by simp

lemma sum_step:
  fixes a b c :: int
  shows "a' = a + x \<Longrightarrow> b' = b + y \<Longrightarrow> c' = c + z \<Longrightarrow>
    365 * Y + a' - b' + c' = 365 * (Y - 1) + a - b + c + 365 + (x - y + z)"
  by simp

lemma days_before_year_Suc: "days_before_year (y + 1) = days_before_year y + 365 + leap_day (leap y)"
proof -
  have s: "y div 4 = (y - 1) div 4 + (if y mod 4 = 0 then 1 else 0)"
    "y div 100 = (y - 1) div 100 + (if y mod 100 = 0 then 1 else 0)"
    "y div 400 = (y - 1) div 400 + (if y mod 400 = 0 then 1 else 0)"
    by (rule div_step; simp)+
  have "days_before_year (y + 1) = 365 * y + y div 4 - y div 100 + y div 400"
    by (simp add: days_before_year_def)
  also have "\<dots> = days_before_year y + 365 + ((if y mod 4 = 0 then 1 else 0) -
      (if y mod 100 = 0 then 1 else 0) + (if y mod 400 = 0 then 1 else 0))"
    unfolding days_before_year_def by (rule sum_step [OF s])
  also have "(if y mod 4 = 0 then 1 else 0) - (if y mod 100 = 0 then 1 else 0) +
      (if y mod 400 = 0 then 1 else 0) = leap_day (leap y)"
    using mod_100_4 [of y] mod_400_100 [of y] by (cases "y mod 4 = 0"; cases "y mod 100 = 0"; cases "y mod 400 = 0") (simp_all add: leap_def leap_day_def)
  finally show ?thesis .
qed

lemma month_start_eq:
  "month_start i = days_before_year (i div 12) + days_before_month (leap (i div 12)) (i mod 12 + 1) - epoch_days"
  by (simp add: month_start_def date_days_def Let_def)

lemma month_start_Suc:
  "month_start (i + 1) = month_start i + month_len (leap (i div 12)) (i mod 12 + 1)"
proof (cases "i mod 12 = 11")
  case True
  then have i: "i + 1 = 12 * (i div 12 + 1) + 0" using divmod_bounds [of 12 i] by simp
  have "(i + 1) div 12 = i div 12 + 1" "(i + 1) mod 12 = 0"
    by (rule int_div_pos_eq [OF i] int_mod_pos_eq [OF i]; simp)+
  then show ?thesis
    by (simp add: month_start_eq True days_before_year_Suc month_len_def days_before_month_def)
next
  case False
  have i: "i + 1 = 12 * (i div 12) + (i mod 12 + 1)" by simp
  have "i mod 12 < 12" "0 \<le> i mod 12" by simp_all
  then have "(i + 1) div 12 = i div 12" "(i + 1) mod 12 = i mod 12 + 1"
    using False by (intro int_div_pos_eq [OF i] int_mod_pos_eq [OF i]; linarith)+
  then show ?thesis by (simp add: month_start_eq month_len_def)
qed

lemma month_start_less: "month_start i < month_start (i + 1)"
proof -
  have "28 \<le> month_len (leap (i div 12)) (i mod 12 + 1)" by (rule month_len_28) simp_all
  then show ?thesis by (simp add: month_start_Suc)
qed

lemma month_start_mono: "i \<le> j \<Longrightarrow> month_start i \<le> month_start j"
proof (induction j rule: int_ge_induct)
  case (step j)
  then show ?case using month_start_less [of j] by simp
qed simp

lemma month_index_divmod: "month_index t div 12 = Year t" "month_index t mod 12 = Month t - 1"
  using civil_range(1,2) [of t]
    int_div_pos_eq [of "month_index t" 12 "Year t" "Month t - 1"]
    int_mod_pos_eq [of "month_index t" 12 "Year t" "Month t - 1"]
  by (auto simp: month_index_def)

lemma civil_day_of: "civil (day_of t) = (Year t, Month t, Day t)"
  by (simp add: Year_def Month_def Day_def)

lemma day_in_month: "day_of t = month_start (month_index t) + Day t - 1"
proof -
  have m: "(Month t - 1) div 12 = 0" "(Month t - 1) mod 12 = Month t - 1"
    using civil_range(1,2) [of t] by simp_all
  have "date_days (Year t) (Month t) (Day t) = day_of t" by (rule date_days_civil) (rule civil_day_of)
  then show ?thesis
    by (simp add: month_start_eq month_index_divmod date_days_def m Let_def)
qed

lemma month_bounds:
  "month_start (month_index t) \<le> day_of t" "day_of t < month_start (month_index t + 1)"
proof -
  have "Day t \<le> month_len (leap (Year t)) (Month t)" "1 \<le> Day t" using civil_range by blast+
  then show "month_start (month_index t) \<le> day_of t" "day_of t < month_start (month_index t + 1)"
    using day_in_month [of t] by (simp_all add: month_start_Suc month_index_divmod)
qed

lemma month_index_mono: "t \<le> t' \<Longrightarrow> month_index t \<le> month_index t'"
proof (rule ccontr)
  assume "t \<le> t'" "\<not> month_index t \<le> month_index t'"
  then have "month_start (month_index t' + 1) \<le> month_start (month_index t)"
    by (intro month_start_mono) simp
  with month_bounds [of t] month_bounds [of t'] day_of_mono [OF \<open>t \<le> t'\<close>] show False by linarith
qed

lemma month_index_less_iff: "month_index t < i \<longleftrightarrow> t < midnight (month_start i)"
proof
  assume "month_index t < i"
  then have "month_start (month_index t + 1) \<le> month_start i" by (intro month_start_mono) simp
  with month_bounds(2) [of t] show "t < midnight (month_start i)" by (simp add: day_of_less_iff [symmetric])
next
  assume "t < midnight (month_start i)"
  then have "day_of t < month_start i" by (simp add: day_of_less_iff)
  show "month_index t < i"
  proof (rule ccontr)
    assume "\<not> month_index t < i"
    then have "month_start i \<le> month_start (month_index t)" by (intro month_start_mono) simp
    with \<open>day_of t < month_start i\<close> month_bounds(1) [of t] show False by linarith
  qed
qed

subsection \<open>The layouts name days and months\<close>

lemma Split_dash2:
  assumes "CHR ''-'' \<notin> set a" "CHR ''-'' \<notin> set b" "CHR ''-'' \<notin> set c"
  shows "Split (CHR ''-'') (a @ ''-'' @ b @ ''-'' @ c) = [a, b, c]"
  using assms Split_append [of "CHR ''-''" a] Split_append [of "CHR ''-''" b] by simp

lemma pad0_no_dash: "0 \<le> n \<Longrightarrow> CHR ''-'' \<notin> set (pad0 w n)"
  using pad0_digits [of n "CHR ''-''" w] by (auto simp: is_digit_def)

lemma pad0_no_colon: "0 \<le> n \<Longrightarrow> CHR '':'' \<notin> set (pad0 w n)"
  using pad0_digits [of n "CHR '':''" w] by (auto simp: is_digit_def)

lemma pad0_inj: "0 \<le> m \<Longrightarrow> 0 \<le> n \<Longrightarrow> pad0 w m = pad0 w n \<Longrightarrow> m = n"
  using dec_val_pad0 by metis

lemma Format_day_inj:
  assumes "0 \<le> Year t" "0 \<le> Year t'"
  shows "Format_day t = Format_day t' \<longleftrightarrow> day_of t = day_of t'"
proof
  assume eq: "Format_day t = Format_day t'"
  have pos: "0 \<le> Month s" "0 \<le> Day s" for s using civil_range(1,3) [of s] by simp_all
  have s: "Split (CHR ''-'') (Format_day s) = [pad0 4 (Year s), pad0 2 (Month s), pad0 2 (Day s)]"
    if "0 \<le> Year s" for s
    using that pos Split_dash2 [of "pad0 4 (Year s)" "pad0 2 (Month s)" "pad0 2 (Day s)"]
    by (simp add: Format_day_def pad_year_def pad0_no_dash)
  have "[pad0 4 (Year t), pad0 2 (Month t), pad0 2 (Day t)] =
      [pad0 4 (Year t'), pad0 2 (Month t'), pad0 2 (Day t')]"
    using s [OF assms(1)] s [OF assms(2)] eq by simp
  then have "Year t = Year t'" "Month t = Month t'" "Day t = Day t'"
    using assms pos pad0_inj by auto
  then have "civil (day_of t) = civil (day_of t')" by (simp add: civil_day_of)
  then show "day_of t = day_of t'"
    using date_days_civil [OF civil_day_of, of t] date_days_civil [OF civil_day_of, of t'] by (simp add: civil_day_of)
next
  assume "day_of t = day_of t'"
  then show "Format_day t = Format_day t'" by (simp add: Format_day_def Year_def Month_def Day_def)
qed

lemma Format_month_inj:
  assumes "0 \<le> Year t" "0 \<le> Year t'"
  shows "Format_month t = Format_month t' \<longleftrightarrow> month_index t = month_index t'"
proof
  assume eq: "Format_month t = Format_month t'"
  have pos: "0 \<le> Month s" for s using civil_range(1) [of s] by simp
  have s: "Split (CHR ''-'') (Format_month s) = [pad0 4 (Year s), pad0 2 (Month s)]" if "0 \<le> Year s" for s
    using that pos Split_append [of "CHR ''-''" "pad0 4 (Year s)" "pad0 2 (Month s)"]
    by (simp add: Format_month_def pad_year_def pad0_no_dash)
  have "[pad0 4 (Year t), pad0 2 (Month t)] = [pad0 4 (Year t'), pad0 2 (Month t')]"
    using s [OF assms(1)] s [OF assms(2)] eq by simp
  then have "Year t = Year t'" "Month t = Month t'" using assms pos pad0_inj by auto
  then show "month_index t = month_index t'" by (simp add: month_index_def)
next
  assume "month_index t = month_index t'"
  then have "Year t = Year t'" "Month t = Month t'" using month_index_divmod [of t] month_index_divmod [of t'] by auto
  then show "Format_month t = Format_month t'" by (simp add: Format_month_def)
qed

end
