(* ===== verification/Quota.thy ===== *)
theory Quota
  imports KeyStore GoTime
begin

text \<open>
  Token quotas (\<open>core/gateway/quota*.go\<close>): the manager that checks a user's daily and monthly usage
  before a request and records the tokens after it, and the three backends that keep the counters, in
  memory, in SQLite and in Redis. The promise the manager builds on (a counter holds the sum of what
  was added in the current UTC day or month) is the locale \<open>quota_counter\<close>, interpreted on the daily
  and the monthly counter of each backend.
\<close>

subsection \<open>Windows\<close>

definition nextDailyReset :: "time \<Rightarrow> time" where
  "nextDailyReset now = (let tomorrow = AddDate now 0 0 1
                         in Date (Year tomorrow) (Month tomorrow) (Day tomorrow))"

definition nextMonthlyReset :: "time \<Rightarrow> time" where
  "nextMonthlyReset now = (let nextMonth = AddDate now 0 1 0
                           in Date (Year nextMonth) (Month nextMonth) 1)"

definition dayKey :: "time \<Rightarrow> gostr" where "dayKey t = Format_day t"
definition monthKey :: "time \<Rightarrow> gostr" where "monthKey t = Format_month t"

subsection \<open>The in-memory backend\<close>

record memoryCounter =
  mc_used :: int
  mc_resetAt :: time

type_synonym counters = "gostr \<rightharpoonup> memoryCounter"

record MemoryQuotaBackend =
  mq_daily :: counters
  mq_monthly :: counters

definition NewMemoryQuotaBackend :: MemoryQuotaBackend where
  "NewMemoryQuotaBackend = \<lparr> mq_daily = Map.empty, mq_monthly = Map.empty \<rparr>"

text \<open>Readings of the clock: at the creation of the counter, at the test, at the reset.\<close>

definition addTo :: "(time \<Rightarrow> time) \<Rightarrow> time \<Rightarrow> time \<Rightarrow> time \<Rightarrow> gostr \<Rightarrow> int \<Rightarrow> counters \<Rightarrow> counters" where
  "addTo resetFn t0 t1 t2 userID tokens m =
     (let counter = (case m userID of None \<Rightarrow> \<lparr> mc_used = 0, mc_resetAt = resetFn t0 \<rparr> | Some c \<Rightarrow> c);
          counter1 = (if mc_resetAt counter < t1
                      then counter\<lparr> mc_used := 0, mc_resetAt := resetFn t2 \<rparr> else counter)
      in m(userID \<mapsto> counter1\<lparr> mc_used := i64 (mc_used counter1 + tokens) \<rparr>))"

definition getFrom :: "time \<Rightarrow> gostr \<Rightarrow> counters \<Rightarrow> int" where
  "getFrom t userID m =
     (case m userID of
        None \<Rightarrow> 0
      | Some c \<Rightarrow> if mc_resetAt c < t then 0 else mc_used c)"

definition mem_AddDaily :: "time \<Rightarrow> time \<Rightarrow> time \<Rightarrow> gostr \<Rightarrow> int \<Rightarrow> MemoryQuotaBackend \<Rightarrow> MemoryQuotaBackend" where
  "mem_AddDaily t0 t1 t2 u n b = b\<lparr> mq_daily := addTo nextDailyReset t0 t1 t2 u n (mq_daily b) \<rparr>"

definition mem_AddMonthly :: "time \<Rightarrow> time \<Rightarrow> time \<Rightarrow> gostr \<Rightarrow> int \<Rightarrow> MemoryQuotaBackend \<Rightarrow> MemoryQuotaBackend" where
  "mem_AddMonthly t0 t1 t2 u n b = b\<lparr> mq_monthly := addTo nextMonthlyReset t0 t1 t2 u n (mq_monthly b) \<rparr>"

definition mem_GetDaily :: "time \<Rightarrow> gostr \<Rightarrow> MemoryQuotaBackend \<Rightarrow> int option" where
  "mem_GetDaily t u b = Some (getFrom t u (mq_daily b))"

definition mem_GetMonthly :: "time \<Rightarrow> gostr \<Rightarrow> MemoryQuotaBackend \<Rightarrow> int option" where
  "mem_GetMonthly t u b = Some (getFrom t u (mq_monthly b))"

subsection \<open>The SQLite backend\<close>

text \<open>The two tables by primary key. SQLite turns an integer sum that leaves 64 bits into a REAL
  (\<open>None\<close> here), which the scan into an int64 then refuses. \<open>fault\<close>: the database reports an error.\<close>

type_synonym sql_table = "gostr \<times> gostr \<rightharpoonup> int option"

record SQLiteQuotaBackend =
  sq_daily :: sql_table
  sq_monthly :: sql_table

definition sql_sum :: "int option \<Rightarrow> int \<Rightarrow> int option" where
  "sql_sum v n = (case v of Some x \<Rightarrow> if is_i64 (x + n) then Some (x + n) else None | None \<Rightarrow> None)"

definition sql_upsert :: "gostr \<times> gostr \<Rightarrow> int \<Rightarrow> sql_table \<Rightarrow> sql_table" where
  "sql_upsert k n tab = (case tab k of None \<Rightarrow> tab(k \<mapsto> Some n) | Some v \<Rightarrow> tab(k \<mapsto> sql_sum v n))"

definition sql_select :: "gostr \<times> gostr \<Rightarrow> sql_table \<Rightarrow> int option" where
  "sql_select k tab = (case tab k of None \<Rightarrow> Some 0 | Some v \<Rightarrow> v)"

definition sql_AddDaily :: "bool \<Rightarrow> time \<Rightarrow> gostr \<Rightarrow> int \<Rightarrow> SQLiteQuotaBackend \<Rightarrow> SQLiteQuotaBackend \<times> bool" where
  "sql_AddDaily fault t u n b =
     (if fault then (b, False) else (b\<lparr> sq_daily := sql_upsert (u, dayKey t) n (sq_daily b) \<rparr>, True))"

definition sql_AddMonthly :: "bool \<Rightarrow> time \<Rightarrow> gostr \<Rightarrow> int \<Rightarrow> SQLiteQuotaBackend \<Rightarrow> SQLiteQuotaBackend \<times> bool" where
  "sql_AddMonthly fault t u n b =
     (if fault then (b, False) else (b\<lparr> sq_monthly := sql_upsert (u, monthKey t) n (sq_monthly b) \<rparr>, True))"

definition sql_GetDaily :: "bool \<Rightarrow> time \<Rightarrow> gostr \<Rightarrow> SQLiteQuotaBackend \<Rightarrow> int option" where
  "sql_GetDaily fault t u b = (if fault then None else sql_select (u, dayKey t) (sq_daily b))"

definition sql_GetMonthly :: "bool \<Rightarrow> time \<Rightarrow> gostr \<Rightarrow> SQLiteQuotaBackend \<Rightarrow> int option" where
  "sql_GetMonthly fault t u b = (if fault then None else sql_select (u, monthKey t) (sq_monthly b))"

subsection \<open>The Redis backend\<close>

text \<open>The server maps keys to integers with an expiry. \<open>INCRBY\<close> refuses to overflow and keeps the
  value; \<open>EXPIRE\<close> then still runs, both in one pipeline whose first error is returned.\<close>

type_synonym redis = "gostr \<rightharpoonup> int \<times> time option"

record RedisQuotaBackend =
  rq_client :: redis
  rq_keyPrefix :: gostr

definition redis_live :: "time \<Rightarrow> redis \<Rightarrow> gostr \<Rightarrow> (int \<times> time option) option" where
  "redis_live now db k = (case db k of
     Some (v, Some e) \<Rightarrow> if e \<le> now then None else Some (v, Some e)
   | r \<Rightarrow> r)"

definition redis_incrby :: "time \<Rightarrow> gostr \<Rightarrow> int \<Rightarrow> redis \<Rightarrow> redis \<times> bool" where
  "redis_incrby now k n db =
     (case redis_live now db k of
        None \<Rightarrow> (db(k \<mapsto> (n, None)), True)
      | Some (v, e) \<Rightarrow> if is_i64 (v + n) then (db(k \<mapsto> (v + n, e)), True) else (db, False))"

definition redis_expire :: "time \<Rightarrow> gostr \<Rightarrow> duration \<Rightarrow> redis \<Rightarrow> redis" where
  "redis_expire now k ttl db =
     (case redis_live now db k of None \<Rightarrow> db | Some (v, _) \<Rightarrow> db(k \<mapsto> (v, Some (now + ttl))))"

definition redis_dailyKey :: "time \<Rightarrow> gostr \<Rightarrow> RedisQuotaBackend \<Rightarrow> gostr" where
  "redis_dailyKey t u b = rq_keyPrefix b @ ''daily:'' @ u @ '':'' @ dayKey t"

definition redis_monthlyKey :: "time \<Rightarrow> gostr \<Rightarrow> RedisQuotaBackend \<Rightarrow> gostr" where
  "redis_monthlyKey t u b = rq_keyPrefix b @ ''monthly:'' @ u @ '':'' @ monthKey t"

definition redis_add :: "gostr \<Rightarrow> duration \<Rightarrow> time \<Rightarrow> int \<Rightarrow> RedisQuotaBackend \<Rightarrow> RedisQuotaBackend \<times> bool" where
  "redis_add k ttl now n b =
     (let (db, ok) = redis_incrby now k n (rq_client b)
      in (b\<lparr> rq_client := redis_expire now k ttl db \<rparr>, ok))"

definition redis_AddDaily ::
    "bool \<Rightarrow> time \<Rightarrow> time \<Rightarrow> gostr \<Rightarrow> int \<Rightarrow> RedisQuotaBackend \<Rightarrow> RedisQuotaBackend \<times> bool" where
  "redis_AddDaily fault t server_now u n b =
     (if fault then (b, False) else redis_add (redis_dailyKey t u b) (48 * hour) server_now n b)"

definition redis_AddMonthly ::
    "bool \<Rightarrow> time \<Rightarrow> time \<Rightarrow> gostr \<Rightarrow> int \<Rightarrow> RedisQuotaBackend \<Rightarrow> RedisQuotaBackend \<times> bool" where
  "redis_AddMonthly fault t server_now u n b =
     (if fault then (b, False) else redis_add (redis_monthlyKey t u b) (70 * 24 * hour) server_now n b)"

definition redis_get :: "bool \<Rightarrow> time \<Rightarrow> gostr \<Rightarrow> RedisQuotaBackend \<Rightarrow> int option" where
  "redis_get fault server_now k b =
     (if fault then None
      else case redis_live server_now (rq_client b) k of None \<Rightarrow> Some 0 | Some (v, _) \<Rightarrow> Some v)"

definition redis_GetDaily :: "bool \<Rightarrow> time \<Rightarrow> time \<Rightarrow> gostr \<Rightarrow> RedisQuotaBackend \<Rightarrow> int option" where
  "redis_GetDaily fault t server_now u b = redis_get fault server_now (redis_dailyKey t u b) b"

definition redis_GetMonthly :: "bool \<Rightarrow> time \<Rightarrow> time \<Rightarrow> gostr \<Rightarrow> RedisQuotaBackend \<Rightarrow> int option" where
  "redis_GetMonthly fault t server_now u b = redis_get fault server_now (redis_monthlyKey t u b) b"

subsection \<open>The manager\<close>

text \<open>The manager reads the backend through its two getters; \<open>None\<close> is a backend error.\<close>

datatype quota_error =
  UserNotFound gostr | ReadDaily | ReadMonthly | DailyExceeded int int | MonthlyExceeded int int

definition CheckQuota ::
    "KeyStore \<Rightarrow> (gostr \<Rightarrow> int option) \<Rightarrow> (gostr \<Rightarrow> int option) \<Rightarrow> gostr \<Rightarrow> quota_error option" where
  "CheckQuota store getDaily getMonthly userID =
     (if userID = [] then None
      else case GetByID userID store of
        None \<Rightarrow> Some (UserNotFound userID)
      | Some profile \<Rightarrow>
          (let daily = (if 0 < up_MaxTokensPerDay profile then
                  case getDaily userID of
                    None \<Rightarrow> Some ReadDaily
                  | Some dailyUsed \<Rightarrow>
                      if up_MaxTokensPerDay profile \<le> dailyUsed
                      then Some (DailyExceeded dailyUsed (up_MaxTokensPerDay profile)) else None
                else None)
           in case daily of Some e \<Rightarrow> Some e
            | None \<Rightarrow>
                if 0 < up_MaxTokensPerMonth profile then
                  (case getMonthly userID of
                    None \<Rightarrow> Some ReadMonthly
                  | Some monthlyUsed \<Rightarrow>
                      if up_MaxTokensPerMonth profile \<le> monthlyUsed
                      then Some (MonthlyExceeded monthlyUsed (up_MaxTokensPerMonth profile)) else None)
                else None))"

text \<open>\<open>Record\<close> adds the 64-bit sum to both counters, and drops the errors of the backend.\<close>

definition Record ::
    "(gostr \<Rightarrow> int \<Rightarrow> 'b \<Rightarrow> 'b) \<Rightarrow> (gostr \<Rightarrow> int \<Rightarrow> 'b \<Rightarrow> 'b) \<Rightarrow> gostr \<Rightarrow> int \<Rightarrow> int \<Rightarrow> 'b \<Rightarrow> 'b" where
  "Record addDaily addMonthly userID inputTokens outputTokens b =
     (if userID = [] then b
      else let totalTokens = i64 (inputTokens + outputTokens)
           in addMonthly userID totalTokens (addDaily userID totalTokens b))"

record QuotaUsage =
  qu_UserID :: gostr
  qu_DailyUsed :: int
  qu_DailyLimit :: int
  qu_DailyResetAt :: time
  qu_MonthlyUsed :: int
  qu_MonthlyLimit :: int
  qu_MonthlyResetAt :: time
  qu_DailyPercent :: flt
  qu_MonthlyPercent :: flt

definition usage_percent :: "int \<Rightarrow> int \<Rightarrow> flt" where
  "usage_percent used limit =
     (if 0 < limit then of_i64 used / of_i64 limit * Fin 100 else Fin 0)"

definition GetUsage ::
    "KeyStore \<Rightarrow> (gostr \<Rightarrow> int option) \<Rightarrow> (gostr \<Rightarrow> int option) \<Rightarrow> time \<Rightarrow> time \<Rightarrow> gostr \<Rightarrow> quota_error + QuotaUsage" where
  "GetUsage store getDaily getMonthly t1 t2 userID =
     (case GetByID userID store of
        None \<Rightarrow> Inl (UserNotFound userID)
      | Some profile \<Rightarrow>
          (case getDaily userID of
             None \<Rightarrow> Inl ReadDaily
           | Some dailyUsed \<Rightarrow>
               (case getMonthly userID of
                  None \<Rightarrow> Inl ReadMonthly
                | Some monthlyUsed \<Rightarrow> Inr
                    \<lparr> qu_UserID = userID, qu_DailyUsed = dailyUsed,
                      qu_DailyLimit = up_MaxTokensPerDay profile, qu_DailyResetAt = nextDailyReset t1,
                      qu_MonthlyUsed = monthlyUsed, qu_MonthlyLimit = up_MaxTokensPerMonth profile,
                      qu_MonthlyResetAt = nextMonthlyReset t2,
                      qu_DailyPercent = usage_percent dailyUsed (up_MaxTokensPerDay profile),
                      qu_MonthlyPercent = usage_percent monthlyUsed (up_MaxTokensPerMonth profile) \<rparr>)))"

subsection \<open>Choosing a backend\<close>

record QuotaConfig =
  qc_Backend :: gostr
  qc_SQLiteDB :: gostr
  qc_RedisAddr :: gostr
  qc_RedisKeyPrefix :: gostr

datatype quota_backend = MemoryBackend MemoryQuotaBackend | SQLiteBackend gostr | RedisBackend gostr gostr

datatype build_error = NoSQLiteDB | SQLiteOpen | NoRedisAddr | RedisPing | UnknownBackend gostr

text \<open>Opening the database or reaching the server succeeds or not.\<close>

definition NewRedisQuotaBackend :: "bool \<Rightarrow> gostr \<Rightarrow> gostr \<Rightarrow> quota_backend option" where
  "NewRedisQuotaBackend reachable addr keyPrefix =
     (let prefix = (if keyPrefix = [] then ''sovstack:quota:'' else keyPrefix)
      in if reachable then Some (RedisBackend addr prefix) else None)"

definition BuildQuotaBackend ::
    "bool \<Rightarrow> bool \<Rightarrow> QuotaConfig \<Rightarrow> build_error + (quota_backend \<times> gostr)" where
  "BuildQuotaBackend sqlite_opens redis_reachable cfg =
     (let kind = ToLower (TrimSpace (qc_Backend cfg)) in
      if kind = [] \<or> kind = ''memory'' then Inr (MemoryBackend NewMemoryQuotaBackend, ''memory'')
      else if kind = ''sqlite'' then
        (if qc_SQLiteDB cfg = [] then Inl NoSQLiteDB
         else if \<not> sqlite_opens then Inl SQLiteOpen
         else Inr (SQLiteBackend (qc_SQLiteDB cfg), ''sqlite ('' @ qc_SQLiteDB cfg @ '')''))
      else if kind = ''redis'' then
        (if qc_RedisAddr cfg = [] then Inl NoRedisAddr
         else case NewRedisQuotaBackend redis_reachable (qc_RedisAddr cfg) (qc_RedisKeyPrefix cfg) of
           None \<Rightarrow> Inl RedisPing
         | Some b \<Rightarrow> Inr (b, ''redis ('' @ qc_RedisAddr cfg @ '')''))
      else Inl (UnknownBackend (qc_Backend cfg)))"

subsection \<open>Where the windows end\<close>

lemma date_days_Suc: "date_days y m (d + k) = date_days y m d + k"
  by (simp add: date_days_def Let_def)

lemma date_days_day_of: "date_days (Year t) (Month t) (Day t) = day_of t"
  by (rule date_days_civil) (rule civil_day_of)

lemma Date_self: "Date (Year t) (Month t) (Day t) = midnight (day_of t)"
  by (simp add: Date_def date_days_day_of)

lemma Date_month: "Date (Year t) (Month t) 1 = midnight (month_start (month_index t))"
proof -
  have "date_days (Year t) (Month t) 1 = day_of t - (Day t - 1)"
    using date_days_Suc [of "Year t" "Month t" 1 "Day t - 1"] date_days_day_of [of t] by simp
  then show ?thesis using day_in_month [of t] by (simp add: Date_def)
qed

lemma nextDailyReset_eq: "nextDailyReset t = midnight (day_of t + 1)"
proof -
  have "day_of (AddDate t 0 0 1) = day_of t + 1"
    by (simp add: AddDate_def civil_day_of day_of_add date_days_Suc date_days_day_of)
  then show ?thesis by (simp add: nextDailyReset_def Let_def Date_self)
qed

lemma date_days_next_month:
  "date_days (Year t) (Month t + 1) (Day t) = month_start (month_index t + 1) + Day t - 1"
proof -
  let ?i = "month_index t"
  have m: "1 \<le> Month t" "Month t \<le> 12" using civil_range by blast+
  have "?i + 1 = 12 * Year t + Month t" by (simp add: month_index_def)
  moreover have "(12 * Year t + Month t) div 12 = Year t + Month t div 12"
    "(12 * Year t + Month t) mod 12 = Month t mod 12" by simp_all
  ultimately show ?thesis by (simp add: month_start_eq date_days_def Let_def add.commute)
qed

lemma month_index_unique:
  assumes "month_start i \<le> day_of t" "day_of t < month_start (i + 1)"
  shows "month_index t = i"
  using assms by (metis day_of_less_iff month_index_less_iff not_less zless_add1_eq order_antisym_conv less_le_not_le)

definition fits_next_month :: "time \<Rightarrow> bool" where
  "fits_next_month t \<longleftrightarrow> Day t \<le> month_start (month_index t + 2) - month_start (month_index t + 1)"

lemma month_len_31: "1 \<le> m \<Longrightarrow> m \<le> 12 \<Longrightarrow> month_len l m \<le> 31"
  using month_cases [of m] by (auto simp: month_len_def days_before_month_def leap_day_def)

lemma month_lengths:
  "28 \<le> month_start (i + 1) - month_start i" "month_start (i + 1) - month_start i \<le> 31"
proof -
  have "28 \<le> month_len (leap (i div 12)) (i mod 12 + 1)" by (rule month_len_28) simp_all
  moreover have "month_len (leap (i div 12)) (i mod 12 + 1) \<le> 31" by (rule month_len_31) simp_all
  ultimately show "28 \<le> month_start (i + 1) - month_start i" "month_start (i + 1) - month_start i \<le> 31"
    by (simp_all add: month_start_Suc)
qed

lemma Day_le_31: "Day t \<le> 31"
proof -
  have "Day t \<le> month_len (leap (Year t)) (Month t)" "1 \<le> Month t" "Month t \<le> 12" using civil_range by blast+
  then show ?thesis using month_len_31 [of "Month t" "leap (Year t)"] by linarith
qed

lemma nextMonthlyReset_eq:
  "nextMonthlyReset t = midnight (month_start (month_index t + (if fits_next_month t then 1 else 2)))"
proof -
  let ?n = "AddDate t 0 1 0" and ?i = "month_index t"
  have d: "day_of ?n = month_start (?i + 1) + Day t - 1"
    by (simp add: AddDate_def civil_day_of day_of_add date_days_next_month)
  have pos: "1 \<le> Day t" using civil_range by blast
  have "month_index ?n = ?i + (if fits_next_month t then 1 else 2)"
  proof (rule month_index_unique)
    have "month_start (?i + 2 + 1) - month_start (?i + 2) \<ge> 28" "month_start (?i + 1 + 1) - month_start (?i + 1) \<ge> 28"
      using month_lengths(1) by blast+
    then show "month_start (?i + (if fits_next_month t then 1 else 2)) \<le> day_of ?n"
      and "day_of ?n < month_start (?i + (if fits_next_month t then 1 else 2) + 1)"
      using d pos Day_le_31 [of t] by (auto simp: fits_next_month_def add.assoc)
  qed
  then show ?thesis by (simp add: nextMonthlyReset_def Let_def Date_month)
qed

text \<open>The monthly window is right up to the 28th and wrong at some month ends: the reset of a
  counter created in a month is the first midnight of the next month exactly when the next month has a
  day with the current day's number; otherwise (29 to 31 January, 31 March, ...) \<open>AddDate\<close> overflows
  into the month after it and the counter is reset one month late.\<close>

theorem monthly_reset:
  "nextMonthlyReset t =
     (if fits_next_month t then midnight (month_start (month_index t + 1))
      else midnight (month_start (month_index t + 2))) \<and>
   (Day t \<le> 28 \<longrightarrow> nextMonthlyReset t = midnight (month_start (month_index t + 1)))"
  using nextMonthlyReset_eq [of t] month_lengths(1) [of "month_index t + 1"]
  by (auto simp: fits_next_month_def add.assoc)

text \<open>31 January 2026, 12:00 UTC: the reset is 1 March.\<close>

lemma monthly_reset_witness:
  "nextMonthlyReset (Date 2026 1 31 + 12 * hour) = Date 2026 3 1 \<and>
   nextMonthlyReset (Date 2026 1 28 + 12 * hour) = Date 2026 2 1"
proof -
  have a: "\<not> fits_next_month (Date 2026 1 31 + 12 * hour)"
    "midnight (month_start (month_index (Date 2026 1 31 + 12 * hour) + 2)) = Date 2026 3 1"
    "Day (Date 2026 1 28 + 12 * hour) \<le> 28"
    "midnight (month_start (month_index (Date 2026 1 28 + 12 * hour) + 1)) = Date 2026 2 1"
    by code_simp+
  show ?thesis
    using monthly_reset [of "Date 2026 1 31 + 12 * hour"] monthly_reset [of "Date 2026 1 28 + 12 * hour"] a
    by simp
qed

subsection \<open>What a counter promises\<close>

type_synonym usage_event = "gostr \<times> int \<times> time"

text \<open>Adding a history of \<open>(user, tokens, time)\<close>, and what a user's counter should then show.\<close>

definition quota_run :: "(gostr \<Rightarrow> int \<Rightarrow> time \<Rightarrow> 'b \<Rightarrow> 'b) \<Rightarrow> usage_event list \<Rightarrow> 'b \<Rightarrow> 'b" where
  "quota_run add es b = fold (\<lambda>(u, n, t). add u n t) es b"

definition window_sum :: "(time \<Rightarrow> int) \<Rightarrow> gostr \<Rightarrow> time \<Rightarrow> usage_event list \<Rightarrow> int" where
  "window_sum win u t es = sum_list (map (\<lambda>(_, n, _). n) (filter (\<lambda>(v, n, t'). v = u \<and> win t' = win t) es))"

text \<open>Instants never decrease, are valid for adding, and tokens are not negative.\<close>

fun history_ok :: "(time \<Rightarrow> bool) \<Rightarrow> time \<Rightarrow> usage_event list \<Rightarrow> time \<Rightarrow> bool" where
  "history_ok vadd a [] t = (a \<le> t)"
| "history_ok vadd a ((u, n, t1) # es) t = (a \<le> t1 \<and> vadd t1 \<and> 0 \<le> n \<and> history_ok vadd t1 es t)"

text \<open>Requests of one user in flight: admitted after a check, finished with a record of at most \<open>M\<close>
  tokens; at most \<open>K\<close> at a time. Records of other users interleave.\<close>

record 'b serving =
  sv_back :: 'b
  sv_inflight :: nat
  sv_now :: time

inductive serve_step ::
    "(gostr \<Rightarrow> int \<Rightarrow> time \<Rightarrow> 'b \<Rightarrow> 'b) \<Rightarrow> (time \<Rightarrow> gostr \<Rightarrow> 'b \<Rightarrow> bool) \<Rightarrow> (time \<Rightarrow> bool) \<Rightarrow>
     gostr \<Rightarrow> nat \<Rightarrow> int \<Rightarrow> 'b serving \<Rightarrow> 'b serving \<Rightarrow> bool"
  for add check vadd u K M where
  admit: "sv_now s \<le> t \<Longrightarrow> check t u (sv_back s) \<Longrightarrow> sv_inflight s < K \<Longrightarrow>
     serve_step add check vadd u K M s (s\<lparr> sv_inflight := Suc (sv_inflight s), sv_now := t \<rparr>)"
| finish: "sv_now s \<le> t \<Longrightarrow> vadd t \<Longrightarrow> sv_inflight s = Suc k \<Longrightarrow> 0 \<le> n \<Longrightarrow> n \<le> M \<Longrightarrow>
     serve_step add check vadd u K M s
       (s\<lparr> sv_back := add u n t (sv_back s), sv_inflight := k, sv_now := t \<rparr>)"
| other: "sv_now s \<le> t \<Longrightarrow> vadd t \<Longrightarrow> v \<noteq> u \<Longrightarrow>
     serve_step add check vadd u K M s (s\<lparr> sv_back := add v n t (sv_back s), sv_now := t \<rparr>)"

inductive_cases serve_stepE: "serve_step add check vadd u K M s s'"

locale quota_counter =
  fixes add :: "gostr \<Rightarrow> int \<Rightarrow> time \<Rightarrow> 'b \<Rightarrow> 'b"
    and get :: "time \<Rightarrow> gostr \<Rightarrow> 'b \<Rightarrow> int option"
    and init :: 'b
    and win :: "time \<Rightarrow> int"
    and vadd :: "time \<Rightarrow> bool"
    and vget :: "time \<Rightarrow> bool"
    and ok :: "time \<Rightarrow> 'b \<Rightarrow> bool"
  assumes ok_init: "ok t init"
    and ok_mono: "ok t b \<Longrightarrow> t \<le> t' \<Longrightarrow> ok t' b"
    and ok_add: "ok t b \<Longrightarrow> t \<le> t' \<Longrightarrow> vadd t' \<Longrightarrow> ok t' (add u n t' b)"
    and get_init: "get t u init = Some 0"
    and get_idle: "ok t b \<Longrightarrow> t \<le> t1 \<Longrightarrow> t1 \<le> t2 \<Longrightarrow> vget t1 \<Longrightarrow> vget t2 \<Longrightarrow> get t1 u b = Some x \<Longrightarrow>
        get t2 u b = Some (if win t1 = win t2 then x else 0)"
    and get_add_same: "ok t b \<Longrightarrow> t \<le> t1 \<Longrightarrow> t1 \<le> t2 \<Longrightarrow> vadd t1 \<Longrightarrow> vget t2 \<Longrightarrow> win t1 = win t2 \<Longrightarrow>
        get t2 u b = Some x \<Longrightarrow> is_i64 (x + n) \<Longrightarrow> get t2 u (add u n t1 b) = Some (x + n)"
    and get_add_other: "ok t b \<Longrightarrow> t \<le> t1 \<Longrightarrow> t1 \<le> t2 \<Longrightarrow> vadd t1 \<Longrightarrow> vget t2 \<Longrightarrow> v \<noteq> u \<or> win t1 \<noteq> win t2 \<Longrightarrow>
        get t2 u (add v n t1 b) = get t2 u b"
begin

lemma history_le: "history_ok vadd a es t \<Longrightarrow> a \<le> t"
  by (induction es arbitrary: a) (auto intro: order_trans)

lemma window_sum_nonneg: "history_ok vadd a es t \<Longrightarrow> 0 \<le> window_sum win u t es"
proof (induction es arbitrary: a)
  case (Cons e es)
  obtain v n t1 where e: "e = (v, n, t1)" by (cases e)
  with Cons have "0 \<le> window_sum win u t es" "0 \<le> n" by auto
  then show ?case by (auto simp: window_sum_def e)
qed (simp add: window_sum_def)

lemma run_from:
  "ok a b \<Longrightarrow> history_ok vadd a es t \<Longrightarrow> vget t \<Longrightarrow> get t u b = Some x \<Longrightarrow> 0 \<le> x \<Longrightarrow>
     x + window_sum win u t es < 2 ^ 63 \<Longrightarrow>
     get t u (quota_run add es b) = Some (x + window_sum win u t es)"
proof (induction es arbitrary: a b x)
  case Nil
  then show ?case by (simp add: quota_run_def window_sum_def)
next
  case (Cons e es)
  obtain v n t1 where e: "e = (v, n, t1)" by (cases e)
  with Cons.prems have h: "a \<le> t1" "vadd t1" "0 \<le> n" "history_ok vadd t1 es t" "t1 \<le> t"
    using history_le by auto
  let ?b = "add v n t1 b"
  have ok: "ok t1 ?b" using ok_add Cons.prems(1) h by blast
  have run: "quota_run add (e # es) b = quota_run add es ?b" using e by (simp add: quota_run_def)
  have nn: "0 \<le> window_sum win u t es" using window_sum_nonneg h(4) .
  show ?case
  proof (cases "v = u \<and> win t1 = win t")
    case True
    then have w: "window_sum win u t (e # es) = n + window_sum win u t es"
      using e by (simp add: window_sum_def)
    have "is_i64 (x + n)" using Cons.prems(5,6) w nn h(3) by (simp add: is_i64_def)
    then have "get t u ?b = Some (x + n)"
      using get_add_same [OF Cons.prems(1) h(1,5,2) Cons.prems(3)] True Cons.prems(4) by blast
    from Cons.IH [OF ok h(4) Cons.prems(3) this] show ?thesis
      using w run Cons.prems(5,6) h(3) by (simp add: add.assoc)
  next
    case False
    then have w: "window_sum win u t (e # es) = window_sum win u t es"
      using e by (auto simp: window_sum_def)
    have "get t u ?b = Some x"
      using get_add_other [OF Cons.prems(1) h(1,5,2) Cons.prems(3)] False Cons.prems(4) by auto
    from Cons.IH [OF ok h(4) Cons.prems(3) this Cons.prems(5)] show ?thesis
      using w run Cons.prems(6) by simp
  qed
qed

lemma run_sum:
  assumes "history_ok vadd a es t" "vget t" "window_sum win u t es < 2 ^ 63"
  shows "get t u (quota_run add es init) = Some (window_sum win u t es)"
  using run_from [OF ok_init assms(1,2) get_init] assms(3) by simp

text \<open>Bounded overshoot of the limit \<open>L\<close> with \<open>K\<close> requests of at most \<open>M\<close> tokens in flight.\<close>

definition bounded :: "gostr \<Rightarrow> int \<Rightarrow> nat \<Rightarrow> int \<Rightarrow> 'b serving \<Rightarrow> bool" where
  "bounded u L K M s \<longleftrightarrow> ok (sv_now s) (sv_back s) \<and> sv_inflight s \<le> K \<and>
     (\<forall>t. sv_now s \<le> t \<and> vget t \<longrightarrow>
        (\<exists>x. get t u (sv_back s) = Some x \<and> 0 \<le> x \<and> x + M * int (sv_inflight s) \<le> L - 1 + int K * M))"

lemma bounded_step:
  assumes "serve_step add check vadd u K M s s'" "bounded u L K M s"
    and L: "1 \<le> L" "0 \<le> M" "L + int K * M < 2 ^ 63"
    and check: "\<And>t b x. check t u b \<Longrightarrow> get t u b = Some x \<Longrightarrow> vget t \<and> x < L"
    and check_get: "\<And>t b. check t u b \<Longrightarrow> vget t \<and> get t u b \<noteq> None"
  shows "bounded u L K M s'"
  using assms(1)
proof cases
  case (admit t)
  obtain x where x: "vget t" "get t u (sv_back s) = Some x" "x < L"
    using admit(3) check check_get by blast
  have b0: "0 \<le> x" using assms(2) admit(2) x by (fastforce simp: bounded_def)
  have "\<exists>y. get t' u (sv_back s) = Some y \<and> 0 \<le> y \<and> y + M * int (Suc (sv_inflight s)) \<le> L - 1 + int K * M"
    if "t \<le> t'" "vget t'" for t'
  proof -
    have "get t' u (sv_back s) = Some (if win t = win t' then x else 0)"
      using get_idle [of "sv_now s" "sv_back s" t t' u x] assms(2) admit(2) x that by (simp add: bounded_def)
    moreover have "M * int (Suc (sv_inflight s)) \<le> M * int K"
      using admit(4) L(2) by (intro mult_left_mono) auto
    ultimately show ?thesis using x(3) b0 L(1) by (auto simp: mult.commute)
  qed
  then show ?thesis
    using admit assms(2) ok_mono [of "sv_now s" "sv_back s" t] by (auto simp: bounded_def)
next
  case (finish t k n)
  have "\<exists>y. get t' u (add u n t (sv_back s)) = Some y \<and> 0 \<le> y \<and> y + M * int k \<le> L - 1 + int K * M"
    if t': "t \<le> t'" "vget t'" for t'
  proof -
    have "sv_now s \<le> t'" using t'(1) finish(2) by simp
    then obtain x where x: "get t' u (sv_back s) = Some x" "0 \<le> x" "x + M * int (sv_inflight s) \<le> L - 1 + int K * M"
      using assms(2) t'(2) unfolding bounded_def by blast
    have Mk: "0 \<le> M * int k" using L(2) by simp
    have sv: "M * int (sv_inflight s) = M * int k + M" using finish(4) by (simp add: algebra_simps)
    show ?thesis
    proof (cases "win t = win t'")
      case True
      have "0 \<le> x + n \<and> x + n < 2 ^ 63" using x sv Mk finish(5,6) L by linarith
      then have "is_i64 (x + n)" by (simp add: is_i64_def)
      then have "get t' u (add u n t (sv_back s)) = Some (x + n)"
        using get_add_same [of "sv_now s" "sv_back s" t t' u x n] assms(2) finish(2,3) t' True x
        by (simp add: bounded_def)
      then show ?thesis using x sv finish(5,6) by simp
    next
      case False
      then have "get t' u (add u n t (sv_back s)) = Some x"
        using get_add_other [of "sv_now s" "sv_back s" t t' u u n] assms(2) finish(2,3) t' x
        by (simp add: bounded_def)
      then show ?thesis using x sv L(2) by simp
    qed
  qed
  then show ?thesis
    using finish assms(2) ok_add [of "sv_now s" "sv_back s" t u n] by (auto simp: bounded_def)
next
  case (other t v n)
  have "get t' u (add v n t (sv_back s)) = get t' u (sv_back s)" if "t \<le> t'" "vget t'" for t'
    using get_add_other [of "sv_now s" "sv_back s" t t' v u n] assms(2) other(2-4) that
    by (simp add: bounded_def)
  then show ?thesis
    using other assms(2) ok_add [of "sv_now s" "sv_back s" t v n] by (auto simp: bounded_def)
qed

lemma bounded_reach:
  assumes "(serve_step add check vadd u K M)\<^sup>*\<^sup>* \<lparr> sv_back = init, sv_inflight = 0, sv_now = a \<rparr> s"
    and "1 \<le> L" "0 \<le> M" "L + int K * M < 2 ^ 63"
    and "\<And>t b x. check t u b \<Longrightarrow> get t u b = Some x \<Longrightarrow> vget t \<and> x < L"
    and "\<And>t b. check t u b \<Longrightarrow> vget t \<and> get t u b \<noteq> None"
  shows "bounded u L K M s"
  using assms(1)
proof (induction rule: rtranclp_induct)
  case base
  then show ?case using assms(2,3) ok_init get_init by (simp add: bounded_def)
next
  case (step s s')
  show ?case by (rule bounded_step [OF step(2,3) assms(2-4)]) (use assms(5,6) in blast)+
qed

end

subsection \<open>Counters by reset time, by key, and by expiring key\<close>

locale window =
  fixes win :: "time \<Rightarrow> int"
  assumes win_mono: "t \<le> t' \<Longrightarrow> win t \<le> win t'"
begin

lemma convex: "t \<le> t1 \<Longrightarrow> t1 \<le> t2 \<Longrightarrow> win t = win t2 \<Longrightarrow> win t1 = win t2"
  using win_mono [of t t1] win_mono [of t1 t2] by simp

end

locale reset_window = window +
  fixes resetFn :: "time \<Rightarrow> time" and vadd vget :: "time \<Rightarrow> bool"
  assumes vadd_vget: "vadd t \<Longrightarrow> vget t"
    and reset: "vadd t \<Longrightarrow> vget t' \<Longrightarrow> t \<le> t' \<Longrightarrow> resetFn t < t' \<longleftrightarrow> win t \<noteq> win t'"
begin

definition mem_ok :: "time \<Rightarrow> counters \<Rightarrow> bool" where
  "mem_ok t m \<longleftrightarrow> (\<forall>u c. m u = Some c \<longrightarrow> (\<exists>t' \<le> t. vadd t' \<and> mc_resetAt c = resetFn t'))"

lemma mem_okD: "mem_ok t m \<Longrightarrow> m u = Some c \<Longrightarrow> \<exists>t' \<le> t. vadd t' \<and> mc_resetAt c = resetFn t'"
  by (auto simp: mem_ok_def)

lemma addTo_cases:
  assumes "mem_ok t m" "t \<le> t1" "vadd t1"
  obtains s where "vadd s" "s \<le> t1" "win s = win t1"
    "addTo resetFn t1 t1 t1 u n m = m(u \<mapsto> \<lparr> mc_used = i64 (getFrom t1 u m + n), mc_resetAt = resetFn s \<rparr>)"
proof (cases "m u")
  case None
  have "\<not> resetFn t1 < t1" using reset [OF assms(3) vadd_vget [OF assms(3)]] by simp
  with None show thesis using assms by (intro that [of t1]) (simp_all add: addTo_def getFrom_def Let_def)
next
  case (Some c)
  obtain t' where t': "t' \<le> t" "vadd t'" "mc_resetAt c = resetFn t'" using mem_okD [OF assms(1) Some] by blast
  have r: "resetFn t' < t1 \<longleftrightarrow> win t' \<noteq> win t1" using reset t' assms vadd_vget by auto
  show thesis
  proof (cases "win t' = win t1")
    case True
    then show thesis using Some t' r assms
      by (intro that [of t']; cases c) (simp_all add: addTo_def getFrom_def Let_def)
  next
    case False
    then show thesis using Some t' r assms
      by (intro that [of t1]; cases c) (simp_all add: addTo_def getFrom_def Let_def)
  qed
qed

lemma getFrom_eq:
  assumes "m u = Some c" "mc_resetAt c = resetFn s" "vadd s" "vget t" "s \<le> t"
  shows "getFrom t u m = (if win s = win t then mc_used c else 0)"
  using assms reset [of s t] by (auto simp: getFrom_def)

end

sublocale reset_window \<subseteq> mem: quota_counter
  "\<lambda>u n t. addTo resetFn t t t u n" "\<lambda>t u m. Some (getFrom t u m)" Map.empty win vadd vget mem_ok
proof
  show "mem_ok t Map.empty" for t by (simp add: mem_ok_def)
  show "mem_ok t m \<Longrightarrow> t \<le> t' \<Longrightarrow> mem_ok t' m" for t t' m
    unfolding mem_ok_def using order_trans by metis
  show "mem_ok t' (addTo resetFn t' t' t' u n m)" if h: "mem_ok t m" "t \<le> t'" "vadd t'" for t t' m u n
  proof -
    from h(1,2) have "mem_ok t' m" unfolding mem_ok_def using order_trans by metis
    moreover obtain s where "vadd s" "s \<le> t'" "win s = win t'"
      "addTo resetFn t' t' t' u n m = m(u \<mapsto> \<lparr> mc_used = i64 (getFrom t' u m + n), mc_resetAt = resetFn s \<rparr>)"
      by (rule addTo_cases [OF h])
    ultimately show ?thesis by (auto simp: mem_ok_def)
  qed
  show "Some (getFrom t u Map.empty) = Some 0" for t u by (simp add: getFrom_def)
next
  fix t m t1 t2 x and u :: gostr
  assume *: "mem_ok t m" "t \<le> t1" "t1 \<le> t2" "vget t1" "vget t2" "Some (getFrom t1 u m) = Some x"
  show "Some (getFrom t2 u m) = Some (if win t1 = win t2 then x else 0)"
  proof (cases "m u")
    case (Some c)
    obtain s where s: "s \<le> t" "vadd s" "mc_resetAt c = resetFn s" using mem_okD [OF *(1) Some] by blast
    show ?thesis
      using getFrom_eq [of m u c, OF Some s(3,2) *(4)] getFrom_eq [of m u c, OF Some s(3,2) *(5)] s *
        convex [of s t1 t2] by auto
  qed (use * in \<open>simp add: getFrom_def\<close>)
next
  fix t m t1 t2 x n and u :: gostr
  assume *: "mem_ok t m" "t \<le> t1" "t1 \<le> t2" "vadd t1" "vget t2" "win t1 = win t2"
    "Some (getFrom t2 u m) = Some x" "is_i64 (x + n)"
  obtain s where s: "vadd s" "s \<le> t1" "win s = win t1"
    "addTo resetFn t1 t1 t1 u n m = m(u \<mapsto> \<lparr> mc_used = i64 (getFrom t1 u m + n), mc_resetAt = resetFn s \<rparr>)"
    by (rule addTo_cases [OF *(1,2,4)])
  have "getFrom t1 u m = x"
  proof (cases "m u")
    case (Some c)
    obtain s' where s': "s' \<le> t" "vadd s'" "mc_resetAt c = resetFn s'" using mem_okD [OF *(1) Some] by blast
    show ?thesis
      using getFrom_eq [of m u c, OF Some s'(3,2) vadd_vget [OF *(4)]] getFrom_eq [of m u c, OF Some s'(3,2) *(5)] s' * by auto
  qed (use * in \<open>simp add: getFrom_def\<close>)
  then show "Some (getFrom t2 u (addTo resetFn t1 t1 t1 u n m)) = Some (x + n)"
    using getFrom_eq [of "addTo resetFn t1 t1 t1 u n m" u _ s t2] s * by auto
next
  fix t m t1 t2 n and u v :: gostr
  assume *: "mem_ok t m" "t \<le> t1" "t1 \<le> t2" "vadd t1" "vget t2" "v \<noteq> u \<or> win t1 \<noteq> win t2"
  obtain s where s: "vadd s" "s \<le> t1" "win s = win t1"
    "addTo resetFn t1 t1 t1 v n m = m(v \<mapsto> \<lparr> mc_used = i64 (getFrom t1 v m + n), mc_resetAt = resetFn s \<rparr>)"
    by (rule addTo_cases [OF *(1,2,4)])
  show "Some (getFrom t2 u (addTo resetFn t1 t1 t1 v n m)) = Some (getFrom t2 u m)"
  proof (cases "v = u")
    case True
    then have w: "win t1 \<noteq> win t2" using *(6) by simp
    have "getFrom t2 u (addTo resetFn t1 t1 t1 v n m) = 0"
      using getFrom_eq [of "addTo resetFn t1 t1 t1 v n m" u _ s t2] s * True w by auto
    moreover have "getFrom t2 u m = 0"
    proof (cases "m u")
      case (Some c)
      obtain s' where s': "s' \<le> t" "vadd s'" "mc_resetAt c = resetFn s'" using mem_okD [OF *(1) Some] by blast
      show ?thesis using getFrom_eq [of m u c, OF Some s'(3,2) *(5)] s' * w convex [of s' t1 t2] by auto
    qed (simp add: getFrom_def)
    ultimately show ?thesis by simp
  qed (use s in \<open>simp add: getFrom_def\<close>)
qed

locale key_window = window +
  fixes key :: "time \<Rightarrow> gostr" and vkey :: "time \<Rightarrow> bool"
  assumes key: "vkey t \<Longrightarrow> vkey t' \<Longrightarrow> key t = key t' \<longleftrightarrow> win t = win t'"
begin

definition sql_ok :: "time \<Rightarrow> sql_table \<Rightarrow> bool" where
  "sql_ok t tab \<longleftrightarrow> (\<forall>(u :: gostr) k v. tab (u, k) = Some v \<longrightarrow> (\<exists>t' \<le> t. vkey t' \<and> k = key t'))"

lemma sql_ok_none:
  "sql_ok t tab \<Longrightarrow> t \<le> t1 \<Longrightarrow> t1 \<le> t2 \<Longrightarrow> vkey t1 \<Longrightarrow> vkey t2 \<Longrightarrow> win t1 \<noteq> win t2 \<Longrightarrow> tab (u, key t2) = None"
proof (rule ccontr)
  assume *: "sql_ok t tab" "t \<le> t1" "t1 \<le> t2" "vkey t1" "vkey t2" "win t1 \<noteq> win t2" "tab (u, key t2) \<noteq> None"
  then obtain t' where "t' \<le> t" "vkey t'" "key t2 = key t'" by (fastforce simp: sql_ok_def)
  then show False using * key [of t2 t'] convex [of t' t1 t2] by simp
qed

end

sublocale key_window \<subseteq> sql: quota_counter
  "\<lambda>u n t. sql_upsert (u, key t) n" "\<lambda>t u tab. sql_select (u, key t) tab" Map.empty win vkey vkey sql_ok
proof
  show "sql_ok t Map.empty" for t by (simp add: sql_ok_def)
  show "sql_ok t tab \<Longrightarrow> t \<le> t' \<Longrightarrow> sql_ok t' tab" for t t' tab
    unfolding sql_ok_def using order_trans by metis
  show "sql_ok t' (sql_upsert (u, key t') n tab)" if "sql_ok t tab" "t \<le> t'" "vkey t'" for t t' tab u n
  proof -
    from that(1,2) have "sql_ok t' tab" unfolding sql_ok_def using order_trans by metis
    then show ?thesis using that(3) by (auto simp: sql_ok_def sql_upsert_def split: option.splits)
  qed
  show "sql_select (u, key t) Map.empty = Some 0" for t u by (simp add: sql_select_def)
next
  fix t tab t1 t2 x and u :: gostr
  assume *: "sql_ok t tab" "t \<le> t1" "t1 \<le> t2" "vkey t1" "vkey t2" "sql_select (u, key t1) tab = Some x"
  show "sql_select (u, key t2) tab = Some (if win t1 = win t2 then x else 0)"
  proof (cases "win t1 = win t2")
    case True
    then show ?thesis using * key [of t1 t2] by simp
  next
    case False
    then show ?thesis using sql_ok_none [OF *(1-5)] by (simp add: sql_select_def)
  qed
next
  fix t tab t1 t2 x n and u :: gostr
  assume "sql_ok t tab" "t \<le> t1" "t1 \<le> t2" "vkey t1" "vkey t2" "win t1 = win t2"
    "sql_select (u, key t2) tab = Some x" "is_i64 (x + n)"
  then show "sql_select (u, key t2) (sql_upsert (u, key t1) n tab) = Some (x + n)"
    using key [of t1 t2] by (auto simp: sql_select_def sql_upsert_def sql_sum_def split: option.splits)
next
  fix t tab t1 t2 n and u v :: gostr
  assume "sql_ok t tab" "t \<le> t1" "t1 \<le> t2" "vkey t1" "vkey t2" "v \<noteq> u \<or> win t1 \<noteq> win t2"
  then show "sql_select (u, key t2) (sql_upsert (v, key t1) n tab) = sql_select (u, key t2) tab"
    using key [of t2 t1] by (auto simp: sql_select_def sql_upsert_def split: option.splits)
qed

definition rdb_add :: "gostr \<Rightarrow> duration \<Rightarrow> time \<Rightarrow> int \<Rightarrow> redis \<Rightarrow> redis" where
  "rdb_add k ttl now n db = redis_expire now k ttl (fst (redis_incrby now k n db))"

definition rdb_get :: "time \<Rightarrow> gostr \<Rightarrow> redis \<Rightarrow> int option" where
  "rdb_get now k db = Some (case redis_live now db k of None \<Rightarrow> 0 | Some (v, _) \<Rightarrow> v)"

lemma rdb_add_other [simp]: "k' \<noteq> k \<Longrightarrow> rdb_add k ttl now n db k' = db k'"
  by (simp add: rdb_add_def redis_expire_def redis_incrby_def redis_live_def split: option.split prod.split)

lemma redis_add_client [simp]: "rq_client (fst (redis_add k ttl now n b)) = rdb_add k ttl now n (rq_client b)"
  by (simp add: redis_add_def rdb_add_def split_beta)

lemma redis_add_prefix [simp]: "rq_keyPrefix (fst (redis_add k ttl now n b)) = rq_keyPrefix b"
  by (simp add: redis_add_def split_beta)

lemma redis_live_cong: "db k = db' k \<Longrightarrow> redis_live now db k = redis_live now db' k"
  by (simp add: redis_live_def)

lemma rdb_add_ok:
  assumes "rdb_get now k db = Some x" "is_i64 (x + n)" "0 < ttl"
  shows "rdb_add k ttl now n db k = Some (x + n, Some (now + ttl))"
  using assms
  by (auto simp: rdb_add_def rdb_get_def redis_expire_def redis_incrby_def redis_live_def
      split: option.splits if_splits)

text \<open>What a key holds after an addition always expires \<open>ttl\<close> after it.\<close>

lemma rdb_add_expiry: "0 < ttl \<Longrightarrow> rdb_add k ttl now n db k = Some (v, e) \<Longrightarrow> e = Some (now + ttl)"
  by (auto simp: rdb_add_def redis_expire_def redis_incrby_def redis_live_def split: option.splits if_splits)

locale redis_window = window +
  fixes rkey :: "gostr \<Rightarrow> time \<Rightarrow> gostr" and vkey :: "time \<Rightarrow> bool" and ttl :: duration
  assumes rkey: "vkey t \<Longrightarrow> vkey t' \<Longrightarrow> rkey u t = rkey v t' \<longleftrightarrow> u = v \<and> win t = win t'"
    and ttl: "win t = win t' \<Longrightarrow> t \<le> t' \<Longrightarrow> t' < t + ttl"
begin

lemma ttl_pos: "0 < ttl"
  using ttl [of 0 0] by simp

definition rdb_ok :: "time \<Rightarrow> redis \<Rightarrow> bool" where
  "rdb_ok t db \<longleftrightarrow> (\<forall>u t0 v e. vkey t0 \<and> db (rkey u t0) = Some (v, e) \<longrightarrow>
     (\<exists>t' \<le> t. vkey t' \<and> win t' = win t0 \<and> e = Some (t' + ttl)))"

lemma rdb_okD:
  "rdb_ok t db \<Longrightarrow> vkey t0 \<Longrightarrow> db (rkey u t0) = Some (v, e) \<Longrightarrow>
     \<exists>t' \<le> t. vkey t' \<and> win t' = win t0 \<and> e = Some (t' + ttl)"
  unfolding rdb_ok_def by blast

lemma rdb_get_live:
  assumes "rdb_ok t db" "t \<le> t1" "vkey t1" "db (rkey u t1) = Some (v, e)"
  shows "rdb_get t1 (rkey u t1) db = Some v"
proof -
  obtain t' where "t' \<le> t" "win t' = win t1" "e = Some (t' + ttl)" using rdb_okD [OF assms(1,3,4)] by blast
  then show ?thesis using ttl [of t' t1] assms by (simp add: rdb_get_def redis_live_def)
qed

lemma rdb_get_none: "db k = None \<Longrightarrow> rdb_get now k db = Some 0"
  by (simp add: rdb_get_def redis_live_def)

lemma rdb_get_eq:
  assumes "rdb_ok t db" "t \<le> t1" "t1 \<le> t2" "vkey t1" "vkey t2" "win t1 = win t2"
  shows "rdb_get t2 (rkey u t2) db = rdb_get t1 (rkey u t1) db"
proof -
  have k: "rkey u t2 = rkey u t1" using rkey [of t2 t1] assms by auto
  show ?thesis
  proof (cases "db (rkey u t1)")
    case None
    then show ?thesis using k by (simp add: rdb_get_none)
  next
    case (Some r)
    then show ?thesis
      using rdb_get_live [OF assms(1,2,4), of u] rdb_get_live [OF assms(1) _ assms(5), of u] assms(2,3) k
      by (cases r) simp
  qed
qed

lemma rdb_none:
  assumes "rdb_ok t db" "t \<le> t1" "t1 \<le> t2" "vkey t1" "vkey t2" "win t1 \<noteq> win t2"
  shows "db (rkey u t2) = None"
proof (rule ccontr)
  assume "db (rkey u t2) \<noteq> None"
  then obtain v e where "db (rkey u t2) = Some (v, e)" by auto
  then obtain t' where "t' \<le> t" "win t' = win t2" using rdb_okD [OF assms(1,5)] by blast
  then show False using convex [of t' t1 t2] assms by auto
qed

end

sublocale redis_window \<subseteq> rdb: quota_counter
  "\<lambda>u n t. rdb_add (rkey u t) ttl t n" "\<lambda>t u db. rdb_get t (rkey u t) db" Map.empty win vkey vkey rdb_ok
proof
  show "rdb_ok t Map.empty" for t by (simp add: rdb_ok_def)
  show "rdb_ok t db \<Longrightarrow> t \<le> t' \<Longrightarrow> rdb_ok t' db" for t t' db
    unfolding rdb_ok_def using order_trans by blast
  show "rdb_ok t' (rdb_add (rkey u t') ttl t' n db)" if h: "rdb_ok t db" "t \<le> t'" "vkey t'" for t t' db u n
    unfolding rdb_ok_def
  proof (intro allI impI)
    fix v t0 x e
    assume a: "vkey t0 \<and> rdb_add (rkey u t') ttl t' n db (rkey v t0) = Some (x, e)"
    show "\<exists>s \<le> t'. vkey s \<and> win s = win t0 \<and> e = Some (s + ttl)"
    proof (cases "rkey v t0 = rkey u t'")
      case True
      then have "win t' = win t0" using rkey [of t0 t' v u] a h by auto
      then show ?thesis using rdb_add_expiry [OF ttl_pos] a True h by auto
    next
      case False
      then have "db (rkey v t0) = Some (x, e)" using a by simp
      then show ?thesis using rdb_okD [OF h(1)] a h(2) order_trans by blast
    qed
  qed
  show "rdb_get t (rkey u t) Map.empty = Some 0" for t u by (simp add: rdb_get_none)
next
  fix t db t1 t2 x and u :: gostr
  assume *: "rdb_ok t db" "t \<le> t1" "t1 \<le> t2" "vkey t1" "vkey t2" "rdb_get t1 (rkey u t1) db = Some x"
  show "rdb_get t2 (rkey u t2) db = Some (if win t1 = win t2 then x else 0)"
    using rdb_get_eq [OF *(1-5), of u] rdb_none [OF *(1-5), of u] *(6) by (auto simp: rdb_get_none)
next
  fix t db t1 t2 x n and u :: gostr
  assume *: "rdb_ok t db" "t \<le> t1" "t1 \<le> t2" "vkey t1" "vkey t2" "win t1 = win t2"
    "rdb_get t2 (rkey u t2) db = Some x" "is_i64 (x + n)"
  have k: "rkey u t2 = rkey u t1" using rkey [of t2 t1] * by auto
  have "rdb_get t1 (rkey u t1) db = Some x" using rdb_get_eq [OF *(1-6), of u] *(7) by simp
  then have "rdb_add (rkey u t1) ttl t1 n db (rkey u t1) = Some (x + n, Some (t1 + ttl))"
    using *(8) ttl_pos by (rule rdb_add_ok)
  then show "rdb_get t2 (rkey u t2) (rdb_add (rkey u t1) ttl t1 n db) = Some (x + n)"
    using ttl [OF *(6,3)] k by (simp add: rdb_get_def redis_live_def)
next
  fix t db t1 t2 n and u v :: gostr
  assume *: "rdb_ok t db" "t \<le> t1" "t1 \<le> t2" "vkey t1" "vkey t2" "v \<noteq> u \<or> win t1 \<noteq> win t2"
  then have "rkey u t2 \<noteq> rkey v t1" using rkey [of t2 t1 u v] by auto
  then show "rdb_get t2 (rkey u t2) (rdb_add (rkey v t1) ttl t1 n db) = rdb_get t2 (rkey u t2) db"
    by (simp add: rdb_get_def redis_live_def)
qed

subsection \<open>The counters of the three backends\<close>

definition off_midnight :: "time \<Rightarrow> bool" where "off_midnight t \<longleftrightarrow> t mod day_ns \<noteq> 0"
definition month_safe :: "time \<Rightarrow> bool" where "month_safe t \<longleftrightarrow> off_midnight t \<and> fits_next_month t"
definition year_ok :: "time \<Rightarrow> bool" where "year_ok t \<longleftrightarrow> 0 \<le> Year t"

lemma midnight_less_iff: "off_midnight t \<Longrightarrow> midnight z < t \<longleftrightarrow> z \<le> day_of t"
proof -
  assume "off_midnight t"
  then have "t \<noteq> midnight z" by (auto simp: off_midnight_def midnight_def)
  then show ?thesis using day_of_less_iff [of t z] by auto
qed

interpretation day: reset_window day_of nextDailyReset off_midnight off_midnight
proof
  show "day_of t \<le> day_of t'" if "t \<le> t'" for t t' using that by (rule day_of_mono)
  show "nextDailyReset t < t' \<longleftrightarrow> day_of t \<noteq> day_of t'" if "off_midnight t'" "t \<le> t'" for t t'
    using midnight_less_iff [OF that(1), of "day_of t + 1"] day_of_mono [OF that(2)]
    by (auto simp: nextDailyReset_eq)
qed

interpretation month: reset_window month_index nextMonthlyReset month_safe off_midnight
proof
  show "month_index t \<le> month_index t'" if "t \<le> t'" for t t' using that by (rule month_index_mono)
  show "off_midnight t" if "month_safe t" for t using that by (simp add: month_safe_def)
  show "nextMonthlyReset t < t' \<longleftrightarrow> month_index t \<noteq> month_index t'"
    if "month_safe t" "off_midnight t'" "t \<le> t'" for t t'
  proof -
    have "nextMonthlyReset t < t' \<longleftrightarrow> \<not> t' < midnight (month_start (month_index t + 1))"
      using midnight_less_iff [OF that(2), of "month_start (month_index t + 1)"] that(1)
      by (auto simp: nextMonthlyReset_eq month_safe_def day_of_less_iff [symmetric])
    then show ?thesis using month_index_less_iff [of t' "month_index t + 1"] month_index_mono [OF that(3)] by auto
  qed
qed

interpretation dayk: key_window day_of dayKey year_ok
  by unfold_locales (auto simp: day_of_mono year_ok_def dayKey_def Format_day_inj)

interpretation monthk: key_window month_index monthKey year_ok
  by unfold_locales (auto simp: month_index_mono year_ok_def monthKey_def Format_month_inj)

text \<open>A Redis key: prefix, kind, user and date; the date has no colon, so the user can be read back
  even when it has.\<close>

lemma Format_day_no_colon: "0 \<le> Year t \<Longrightarrow> CHR '':'' \<notin> set (dayKey t)"
  using civil_range(1,3) [of t] by (simp add: dayKey_def Format_day_def pad_year_def pad0_no_colon)

lemma Format_month_no_colon: "0 \<le> Year t \<Longrightarrow> CHR '':'' \<notin> set (monthKey t)"
  using civil_range(1) [of t] by (simp add: monthKey_def Format_month_def pad_year_def pad0_no_colon)

lemma snoc_sep_inj:
  fixes x :: char
  assumes "a @ x # b = c @ x # d" "x \<notin> set b" "x \<notin> set d"
  shows "a = c \<and> b = d"
proof -
  have "length a = length c"
    using LastIndexByte_append [of x b a] LastIndexByte_append [of x d c] assms by simp
  then show ?thesis using assms(1) by simp
qed

lemma daily_key_inj:
  assumes "year_ok t" "year_ok t'"
  shows "p @ ''daily:'' @ u @ '':'' @ dayKey t = p @ ''daily:'' @ v @ '':'' @ dayKey t' \<longleftrightarrow>
     u = v \<and> day_of t = day_of t'"
  using snoc_sep_inj [of u "CHR '':''" "dayKey t" v "dayKey t'"] Format_day_no_colon [of t]
    Format_day_no_colon [of t'] assms dayk.key [of t t'] by (auto simp: year_ok_def)

lemma monthly_key_inj:
  assumes "year_ok t" "year_ok t'"
  shows "p @ ''monthly:'' @ u @ '':'' @ monthKey t = p @ ''monthly:'' @ v @ '':'' @ monthKey t' \<longleftrightarrow>
     u = v \<and> month_index t = month_index t'"
  using snoc_sep_inj [of u "CHR '':''" "monthKey t" v "monthKey t'"] Format_month_no_colon [of t]
    Format_month_no_colon [of t'] assms monthk.key [of t t'] by (auto simp: year_ok_def)

lemma same_day_within: "day_of t = day_of t' \<Longrightarrow> t' < t + 24 * hour"
  using day_of_le [of t] day_of_le [of t'] by (simp add: midnight_def)

lemma same_month_within: "month_index t = month_index t' \<Longrightarrow> t' < t + 31 * 24 * hour"
proof -
  assume eq: "month_index t = month_index t'"
  let ?i = "month_index t"
  have "midnight (month_start ?i) \<le> t" using month_index_less_iff [of t ?i] by auto
  moreover have "t' < midnight (month_start (?i + 1))" using month_index_less_iff [of t' "?i + 1"] eq by auto
  moreover have "month_start (?i + 1) \<le> month_start ?i + 31" using month_lengths(2) [of ?i] by simp
  then have "midnight (month_start (?i + 1)) \<le> midnight (month_start ?i + 31)" by (rule midnight_mono)
  ultimately show ?thesis by (simp add: midnight_def algebra_simps)
qed

interpretation rday: redis_window day_of "\<lambda>u t. p @ ''daily:'' @ u @ '':'' @ dayKey t" year_ok "48 * hour" for p
proof
  show "(p @ ''daily:'' @ u @ '':'' @ dayKey t = p @ ''daily:'' @ v @ '':'' @ dayKey t') =
      (u = v \<and> day_of t = day_of t')" if "year_ok t" "year_ok t'" for t t' u v
    using that by (rule daily_key_inj)
  show "t' < t + 48 * hour" if "day_of t = day_of t'" for t t'
    using same_day_within [OF that] by simp
qed

interpretation rmonth: redis_window month_index "\<lambda>u t. p @ ''monthly:'' @ u @ '':'' @ monthKey t" year_ok
  "70 * 24 * hour" for p
proof
  show "(p @ ''monthly:'' @ u @ '':'' @ monthKey t = p @ ''monthly:'' @ v @ '':'' @ monthKey t') =
      (u = v \<and> month_index t = month_index t')" if "year_ok t" "year_ok t'" for t t' u v
    using that by (rule monthly_key_inj)
  show "t' < t + 70 * 24 * hour" if "month_index t = month_index t'" for t t'
    using same_month_within [OF that] by simp
qed

subsection \<open>Usage histories on the whole backends\<close>

text \<open>A request that used \<open>i\<close> input and \<open>o\<close> output tokens, recorded at one instant.\<close>

type_synonym request_event = "gostr \<times> int \<times> int \<times> time"

definition totals :: "request_event list \<Rightarrow> usage_event list" where
  "totals es = map (\<lambda>(u, i, o', t). (u, i + o', t)) es"

definition mem_record :: "request_event \<Rightarrow> MemoryQuotaBackend \<Rightarrow> MemoryQuotaBackend" where
  "mem_record e b = (case e of (u, i, o', t) \<Rightarrow> Record (mem_AddDaily t t t) (mem_AddMonthly t t t) u i o' b)"

definition sql_record :: "request_event \<Rightarrow> SQLiteQuotaBackend \<Rightarrow> SQLiteQuotaBackend" where
  "sql_record e b = (case e of (u, i, o', t) \<Rightarrow>
     Record (\<lambda>u n b. fst (sql_AddDaily False t u n b)) (\<lambda>u n b. fst (sql_AddMonthly False t u n b)) u i o' b)"

definition redis_record :: "request_event \<Rightarrow> RedisQuotaBackend \<Rightarrow> RedisQuotaBackend" where
  "redis_record e b = (case e of (u, i, o', t) \<Rightarrow>
     Record (\<lambda>u n b. fst (redis_AddDaily False t t u n b)) (\<lambda>u n b. fst (redis_AddMonthly False t t u n b)) u i o' b)"

definition empty_sqlite :: SQLiteQuotaBackend where
  "empty_sqlite = \<lparr> sq_daily = Map.empty, sq_monthly = Map.empty \<rparr>"

definition empty_redis :: "gostr \<Rightarrow> RedisQuotaBackend" where
  "empty_redis p = \<lparr> rq_client = Map.empty, rq_keyPrefix = p \<rparr>"

definition requests_ok :: "request_event list \<Rightarrow> bool" where
  "requests_ok es \<longleftrightarrow> (\<forall>(u, i, o', t) \<in> set es. u \<noteq> [] \<and> 0 \<le> i \<and> 0 \<le> o' \<and> i + o' < 2 ^ 63)"

lemma requests_ok_Cons [simp]:
  "requests_ok ((u, i, o', t) # es) \<longleftrightarrow> u \<noteq> [] \<and> 0 \<le> i \<and> 0 \<le> o' \<and> i + o' < 2 ^ 63 \<and> requests_ok es"
  by (auto simp: requests_ok_def)

lemma totals_Cons [simp]: "totals ((u, i, o', t) # es) = (u, i + o', t) # totals es"
  by (simp add: totals_def)

lemma i64_total: "0 \<le> i \<Longrightarrow> 0 \<le> o' \<Longrightarrow> i + o' < 2 ^ 63 \<Longrightarrow> i64 (i + o') = i + o'"
  by (simp add: is_i64_def)

text \<open>Each counter of a backend only sees its own additions.\<close>

lemma mem_record_fields:
  assumes "u \<noteq> []" "0 \<le> i" "0 \<le> o'" "i + o' < 2 ^ 63"
  shows "mq_daily (mem_record (u, i, o', t) b) = addTo nextDailyReset t t t u (i + o') (mq_daily b)"
    "mq_monthly (mem_record (u, i, o', t) b) = addTo nextMonthlyReset t t t u (i + o') (mq_monthly b)"
  unfolding mem_record_def Record_def mem_AddDaily_def mem_AddMonthly_def Let_def prod.case i64_total [OF assms(2-4)]
  using assms(1) by simp_all

lemma sql_record_fields:
  assumes "u \<noteq> []" "0 \<le> i" "0 \<le> o'" "i + o' < 2 ^ 63"
  shows "sq_daily (sql_record (u, i, o', t) b) = sql_upsert (u, dayKey t) (i + o') (sq_daily b)"
    "sq_monthly (sql_record (u, i, o', t) b) = sql_upsert (u, monthKey t) (i + o') (sq_monthly b)"
  unfolding sql_record_def Record_def sql_AddDaily_def sql_AddMonthly_def Let_def prod.case i64_total [OF assms(2-4)]
  using assms(1) by simp_all

lemma quota_run_Cons [simp]: "quota_run add ((u, n, t) # es) b = quota_run add es (add u n t b)"
  by (simp add: quota_run_def)

lemma mem_run:
  "requests_ok es \<Longrightarrow>
     mq_daily (fold mem_record es b) = quota_run (\<lambda>u n t. addTo nextDailyReset t t t u n) (totals es) (mq_daily b) \<and>
     mq_monthly (fold mem_record es b) = quota_run (\<lambda>u n t. addTo nextMonthlyReset t t t u n) (totals es) (mq_monthly b)"
proof (induction es arbitrary: b)
  case (Cons e es)
  then show ?case
    by (cases e) (simp add: mem_record_fields)
qed (simp add: totals_def quota_run_def)

lemma sql_run:
  "requests_ok es \<Longrightarrow>
     sq_daily (fold sql_record es b) = quota_run (\<lambda>u n t. sql_upsert (u, dayKey t) n) (totals es) (sq_daily b) \<and>
     sq_monthly (fold sql_record es b) = quota_run (\<lambda>u n t. sql_upsert (u, monthKey t) n) (totals es) (sq_monthly b)"
proof (induction es arbitrary: b)
  case (Cons e es)
  then show ?case
    by (cases e) (simp add: sql_record_fields)
qed (simp add: totals_def quota_run_def)

definition agree :: "(gostr \<Rightarrow> bool) \<Rightarrow> redis \<Rightarrow> redis \<Rightarrow> bool" where
  "agree K db db' \<longleftrightarrow> (\<forall>k. K k \<longrightarrow> db k = db' k)"

lemma agree_add: "agree K db db' \<Longrightarrow> agree K (rdb_add k ttl now n db) (rdb_add k ttl now n db')"
proof -
  assume a: "agree K db db'"
  have "rdb_add k ttl now n db k' = rdb_add k ttl now n db' k'" if "K k'" for k'
  proof (cases "k' = k")
    case True
    then have "redis_live now db k = redis_live now db' k" "db k = db' k"
      using a that by (auto simp: agree_def intro: redis_live_cong)
    then show ?thesis using True
      by (simp add: rdb_add_def redis_expire_def redis_incrby_def redis_live_def split: option.split prod.split)
  qed (use a that in \<open>simp add: agree_def\<close>)
  then show ?thesis by (simp add: agree_def)
qed

lemma agree_other: "agree K db db' \<Longrightarrow> \<not> K k \<Longrightarrow> agree K (rdb_add k ttl now n db) db'"
  unfolding agree_def by (metis rdb_add_other)

lemma agree_get: "agree K db db' \<Longrightarrow> K k \<Longrightarrow> rdb_get now k db = rdb_get now k db'"
  by (simp add: agree_def rdb_get_def redis_live_def)

definition daily_key :: "gostr \<Rightarrow> gostr \<Rightarrow> bool" where "daily_key p k \<longleftrightarrow> HasPrefix k (p @ ''daily:'')"
definition monthly_key :: "gostr \<Rightarrow> gostr \<Rightarrow> bool" where "monthly_key p k \<longleftrightarrow> HasPrefix k (p @ ''monthly:'')"

lemma HasPrefix_cancel [simp]: "HasPrefix (p @ s) (p @ q) \<longleftrightarrow> HasPrefix s q"
  by (auto simp: HasPrefix_iff)

lemma key_kinds:
  "daily_key p (p @ ''daily:'' @ x)" "\<not> daily_key p (p @ ''monthly:'' @ x)"
  "monthly_key p (p @ ''monthly:'' @ x)" "\<not> monthly_key p (p @ ''daily:'' @ x)"
  by (simp_all add: daily_key_def monthly_key_def)

lemma redis_run:
  "requests_ok es \<Longrightarrow> rq_keyPrefix b = p \<Longrightarrow> agree (daily_key p) (rq_client b) db \<Longrightarrow>
     agree (monthly_key p) (rq_client b) db' \<Longrightarrow>
     rq_keyPrefix (fold redis_record es b) = p \<and>
     agree (daily_key p) (rq_client (fold redis_record es b))
       (quota_run (\<lambda>u n t. rdb_add (p @ ''daily:'' @ u @ '':'' @ dayKey t) (48 * hour) t n) (totals es) db) \<and>
     agree (monthly_key p) (rq_client (fold redis_record es b))
       (quota_run (\<lambda>u n t. rdb_add (p @ ''monthly:'' @ u @ '':'' @ monthKey t) (70 * 24 * hour) t n) (totals es) db')"
proof (induction es arbitrary: b db db')
  case (Cons e es)
  obtain u i o' t where e: "e = (u, i, o', t)" by (cases e)
  let ?n = "i + o'" and ?dk = "p @ ''daily:'' @ u @ '':'' @ dayKey t" and ?mk = "p @ ''monthly:'' @ u @ '':'' @ monthKey t"
  let ?b = "redis_record e b"
  have n: "i64 ?n = ?n" "u \<noteq> []" "requests_ok es" using Cons.prems(1) e i64_total by auto
  have b: "rq_keyPrefix ?b = p"
    "rq_client ?b = rdb_add ?mk (70 * 24 * hour) t ?n (rdb_add ?dk (48 * hour) t ?n (rq_client b))"
    using Cons.prems(2) n
    by (simp_all add: e redis_record_def Record_def redis_AddDaily_def redis_AddMonthly_def Let_def
        redis_dailyKey_def redis_monthlyKey_def)
  have "agree (daily_key p) (rq_client ?b) (rdb_add ?dk (48 * hour) t ?n db)"
    unfolding b using key_kinds(2) [of p] by (intro agree_other agree_add Cons.prems(3)) simp
  moreover have "agree (monthly_key p) (rq_client ?b) (rdb_add ?mk (70 * 24 * hour) t ?n db')"
    unfolding b using key_kinds(4) [of p] by (intro agree_add agree_other Cons.prems(4)) simp
  ultimately show ?case
    using Cons.IH [OF n(3) b(1)] e by simp
qed (simp add: totals_def quota_run_def)

lemma redis_GetDaily_eq:
  "redis_GetDaily False t t u b = rdb_get t (rq_keyPrefix b @ ''daily:'' @ u @ '':'' @ dayKey t) (rq_client b)"
  by (simp add: redis_GetDaily_def redis_get_def redis_dailyKey_def rdb_get_def split: option.split)

lemma redis_GetMonthly_eq:
  "redis_GetMonthly False t t u b = rdb_get t (rq_keyPrefix b @ ''monthly:'' @ u @ '':'' @ monthKey t) (rq_client b)"
  by (simp add: redis_GetMonthly_def redis_get_def redis_monthlyKey_def rdb_get_def split: option.split)

text \<open>C28: The three quota backends are interchangeable on the daily counter: after any history of
  recorded requests at non-decreasing instants (none exactly at midnight, years not before 0), with no
  backend error and less than \<open>2^63\<close> tokens in the day, each reports for a user exactly the sum of the
  input and output tokens recorded for that user on the current UTC day.\<close>

theorem daily_usage_exact:
  assumes "requests_ok es" "history_ok (\<lambda>t. off_midnight t \<and> year_ok t) a (totals es) t"
    and "off_midnight t" "year_ok t" "window_sum day_of u t (totals es) < 2 ^ 63"
  shows "mem_GetDaily t u (fold mem_record es NewMemoryQuotaBackend) = Some (window_sum day_of u t (totals es)) \<and>
     sql_GetDaily False t u (fold sql_record es empty_sqlite) = Some (window_sum day_of u t (totals es)) \<and>
     redis_GetDaily False t t u (fold redis_record es (empty_redis p)) = Some (window_sum day_of u t (totals es))"
proof -
  have h: "history_ok off_midnight a' es' t" "history_ok year_ok a' es' t"
    if "history_ok (\<lambda>t. off_midnight t \<and> year_ok t) a' es' t" for a' es'
    using that by (induction es' arbitrary: a') auto
  have "agree K Map.empty Map.empty" for K by (simp add: agree_def)
  note R = redis_run [OF assms(1), of "empty_redis p" p Map.empty Map.empty]
  have r: "agree (daily_key p) (rq_client (fold redis_record es (empty_redis p)))
       (quota_run (\<lambda>u n t. rdb_add (p @ ''daily:'' @ u @ '':'' @ dayKey t) (48 * hour) t n) (totals es) Map.empty)"
      "rq_keyPrefix (fold redis_record es (empty_redis p)) = p"
    using R by (simp_all add: empty_redis_def agree_def)
  have "redis_GetDaily False t t u (fold redis_record es (empty_redis p)) =
      rdb_get t (p @ ''daily:'' @ u @ '':'' @ dayKey t) (rq_client (fold redis_record es (empty_redis p)))"
    unfolding redis_GetDaily_eq r(2) ..
  also have "\<dots> = Some (window_sum day_of u t (totals es))"
    unfolding agree_get [OF r(1) key_kinds(1)]
    by (rule rday.rdb.run_sum [OF h(2) [OF assms(2)] assms(4,5)])
  finally show ?thesis
    using day.mem.run_sum [OF h(1) [OF assms(2)] assms(3,5)] dayk.sql.run_sum [OF h(2) [OF assms(2)] assms(4,5)]
      mem_run [OF assms(1), of NewMemoryQuotaBackend] sql_run [OF assms(1), of empty_sqlite]
    by (simp add: mem_GetDaily_def NewMemoryQuotaBackend_def sql_GetDaily_def empty_sqlite_def)
qed

lemma history_split:
  "history_ok (\<lambda>t. A t \<and> B t) a es t \<Longrightarrow> history_ok A a es t \<and> history_ok B a es t"
  by (induction es arbitrary: a) auto

text \<open>The same for the monthly counter: SQLite and Redis report exactly the tokens of the current
  UTC month; the in-memory backend does too when no request is recorded on a day that the next month
  does not have.\<close>

theorem monthly_usage_exact:
  assumes "requests_ok es" "history_ok year_ok a (totals es) t"
    and "year_ok t" "window_sum month_index u t (totals es) < 2 ^ 63"
  shows "sql_GetMonthly False t u (fold sql_record es empty_sqlite) = Some (window_sum month_index u t (totals es)) \<and>
     redis_GetMonthly False t t u (fold redis_record es (empty_redis p)) = Some (window_sum month_index u t (totals es)) \<and>
     (history_ok month_safe a (totals es) t \<and> off_midnight t \<longrightarrow>
       mem_GetMonthly t u (fold mem_record es NewMemoryQuotaBackend) = Some (window_sum month_index u t (totals es)))"
proof -
  note R = redis_run [OF assms(1), of "empty_redis p" p Map.empty Map.empty]
  have r: "agree (monthly_key p) (rq_client (fold redis_record es (empty_redis p)))
       (quota_run (\<lambda>u n t. rdb_add (p @ ''monthly:'' @ u @ '':'' @ monthKey t) (70 * 24 * hour) t n) (totals es) Map.empty)"
      "rq_keyPrefix (fold redis_record es (empty_redis p)) = p"
    using R by (simp_all add: empty_redis_def agree_def)
  have "redis_GetMonthly False t t u (fold redis_record es (empty_redis p)) =
      rdb_get t (p @ ''monthly:'' @ u @ '':'' @ monthKey t) (rq_client (fold redis_record es (empty_redis p)))"
    unfolding redis_GetMonthly_eq r(2) ..
  also have "\<dots> = Some (window_sum month_index u t (totals es))"
    unfolding agree_get [OF r(1) key_kinds(3)]
    by (rule rmonth.rdb.run_sum [OF assms(2-4)])
  finally show ?thesis
    using month.mem.run_sum [of a "totals es" t u] monthk.sql.run_sum [OF assms(2-4)] assms(4)
      mem_run [OF assms(1), of NewMemoryQuotaBackend] sql_run [OF assms(1), of empty_sqlite]
    by (simp add: mem_GetMonthly_def NewMemoryQuotaBackend_def sql_GetMonthly_def empty_sqlite_def)
qed

lemma daily_usage_exact_witness:
  "let t1 = Date 2026 1 31 + hour; t2 = Date 2026 1 31 + 2 * hour; t3 = Date 2026 2 1 + hour;
       es = [(''u'', 10, 5, t1), (''v'', 7, 0, t1), (''u'', 1, 1, t2), (''u'', 4, 0, t3)] in
   mem_GetDaily t3 ''u'' (fold mem_record es NewMemoryQuotaBackend) = Some 4 \<and>
   redis_GetDaily False t3 t3 ''u'' (fold redis_record es (empty_redis ''q:'')) = Some 4"
proof -
  define t1 t2 t3 where "t1 = Date 2026 1 31 + hour" and "t2 = Date 2026 1 31 + 2 * hour"
    and "t3 = Date 2026 2 1 + hour"
  define es :: "request_event list" where "es = [(''u'', 10, 5, t1), (''v'', 7, 0, t1), (''u'', 1, 1, t2), (''u'', 4, 0, t3)]"
  have d: "day_of t1 = 20484" "day_of t2 = 20484" "day_of t3 = 20485" "t1 \<le> t2" "t2 \<le> t3"
    "off_midnight t1" "off_midnight t2" "off_midnight t3" "year_ok t1" "year_ok t2" "year_ok t3"
    unfolding t1_def t2_def t3_def by code_simp+
  have s: "window_sum day_of ''u'' t3 (totals es) = 4"
    by (simp add: es_def totals_def window_sum_def d)
  have ok: "requests_ok es" by (simp add: es_def requests_ok_def)
  have h: "history_ok (\<lambda>t. off_midnight t \<and> year_ok t) t1 (totals es) t3" using d by (simp add: es_def totals_def)
  have "window_sum day_of ''u'' t3 (totals es) < 2 ^ 63" using s by simp
  from daily_usage_exact [OF ok h d(8,11) this, of "''q:''"] show ?thesis
    unfolding Let_def t1_def [symmetric] t2_def [symmetric] t3_def [symmetric] es_def [symmetric] s by blast
qed

lemma monthly_usage_exact_witness:
  "let t1 = Date 2026 1 28 + hour; t2 = Date 2026 2 1 + hour;
       es = [(''u'', 10, 5, t1), (''u'', 4, 0, t2)] in
   sql_GetMonthly False t2 ''u'' (fold sql_record es empty_sqlite) = Some 4 \<and>
   mem_GetMonthly t2 ''u'' (fold mem_record es NewMemoryQuotaBackend) = Some 4"
proof -
  define t1 t2 where "t1 = Date 2026 1 28 + hour" and "t2 = Date 2026 2 1 + hour"
  define es :: "request_event list" where "es = [(''u'', 10, 5, t1), (''u'', 4, 0, t2)]"
  have d: "month_index t1 = 24312" "month_index t2 = 24313" "t1 \<le> t2" "off_midnight t2"
    "month_safe t1" "month_safe t2" "year_ok t1" "year_ok t2"
    unfolding t1_def t2_def by code_simp+
  have s: "window_sum month_index ''u'' t2 (totals es) = 4"
    by (simp add: es_def totals_def window_sum_def d)
  have ok: "requests_ok es" by (simp add: es_def requests_ok_def)
  have h: "history_ok year_ok t1 (totals es) t2" "history_ok month_safe t1 (totals es) t2"
    using d by (simp_all add: es_def totals_def)
  have "window_sum month_index ''u'' t2 (totals es) < 2 ^ 63" using s by simp
  from monthly_usage_exact [OF ok h(1) d(8) this, of "[]"] h d(4) show ?thesis
    unfolding Let_def t1_def [symmetric] t2_def [symmetric] es_def [symmetric] s by blast
qed

subsection \<open>The check\<close>

lemma check_quota_gen:
  "CheckQuota store getD getM u = None \<longleftrightarrow> u = [] \<or>
     (\<exists>p. ks_Users store u = Some p \<and>
        (0 < up_MaxTokensPerDay p \<longrightarrow> (\<exists>x. getD u = Some x \<and> x < up_MaxTokensPerDay p)) \<and>
        (0 < up_MaxTokensPerMonth p \<longrightarrow> (\<exists>x. getM u = Some x \<and> x < up_MaxTokensPerMonth p)))"
  by (auto simp: CheckQuota_def GetByID_def Let_def not_le split: option.splits)

text \<open>\<open>CheckQuota\<close> admits exactly when the user is anonymous, or is known and each positive limit
  (daily, monthly) is above what its counter reads; a limit that is 0 or negative is no limit and its
  counter is not read; a counter that cannot be read rejects.\<close>

theorem check_quota_iff:
  "CheckQuota store getD getM u = None \<longleftrightarrow> u = [] \<or>
     (\<exists>p. ks_Users store u = Some p \<and>
        (0 < up_MaxTokensPerDay p \<longrightarrow> (\<exists>x. getD u = Some x \<and> x < up_MaxTokensPerDay p)) \<and>
        (0 < up_MaxTokensPerMonth p \<longrightarrow> (\<exists>x. getM u = Some x \<and> x < up_MaxTokensPerMonth p)))"
  by (rule check_quota_gen)

lemma check_quota_iff_witness:
  "CheckQuota (set_user ''u'' (toy_user ''u'' ''k'') toy_store) (\<lambda>_. Some 99) (\<lambda>_. None) ''u'' = None \<and>
   CheckQuota (set_user ''u'' (toy_user ''u'' ''k'') toy_store) (\<lambda>_. Some 100) (\<lambda>_. None) ''u'' \<noteq> None"
  using check_quota_iff [of "set_user ''u'' (toy_user ''u'' ''k'') toy_store" "\<lambda>_. Some 99" "\<lambda>_. None" "''u''"]
    check_quota_iff [of "set_user ''u'' (toy_user ''u'' ''k'') toy_store" "\<lambda>_. Some 100" "\<lambda>_. None" "''u''"]
  by (simp add: set_user_def toy_user_def)

subsection \<open>Overshoot\<close>

lemma serve_map:
  assumes add: "\<And>v n t b. f (add v n t b) = addc v n t (f b)"
    and check: "\<And>t b. check t u b \<Longrightarrow> checkc t u (f b)"
    and "(serve_step add check vadd u K M)\<^sup>*\<^sup>* s s'"
  shows "(serve_step addc checkc vadd u K M)\<^sup>*\<^sup>*
     \<lparr> sv_back = f (sv_back s), sv_inflight = sv_inflight s, sv_now = sv_now s \<rparr>
     \<lparr> sv_back = f (sv_back s'), sv_inflight = sv_inflight s', sv_now = sv_now s' \<rparr>"
  using assms(3)
proof (induction rule: rtranclp_induct)
  case (step s1 s2)
  let ?c = "\<lambda>s. \<lparr> sv_back = f (sv_back s), sv_inflight = sv_inflight s, sv_now = sv_now s \<rparr>"
  from step(2) have "serve_step addc checkc vadd u K M (?c s1) (?c s2)"
  proof cases
    case (admit t)
    then show ?thesis using serve_step.admit [of "?c s1" t checkc u K addc vadd M] check by simp
  next
    case (finish t k n)
    then show ?thesis using serve_step.finish [of "?c s1" t vadd k n M addc checkc u K] add by simp
  next
    case (other t v n)
    then show ?thesis using serve_step.other [of "?c s1" t vadd v u addc checkc K M n] add by simp
  qed
  with step(3) show ?case by (rule rtranclp.rtrancl_into_rtrancl)
qed simp

text \<open>A record of \<open>n\<close> tokens and the check of the manager, on the SQLite backend.\<close>

definition sql_add :: "gostr \<Rightarrow> int \<Rightarrow> time \<Rightarrow> SQLiteQuotaBackend \<Rightarrow> SQLiteQuotaBackend" where
  "sql_add u n t b = b\<lparr> sq_daily := sql_upsert (u, dayKey t) n (sq_daily b),
                        sq_monthly := sql_upsert (u, monthKey t) n (sq_monthly b) \<rparr>"

lemma sql_add_Record:
  "u \<noteq> [] \<Longrightarrow> is_i64 n \<Longrightarrow> sql_add u n t b =
     Record (\<lambda>u n b. fst (sql_AddDaily False t u n b)) (\<lambda>u n b. fst (sql_AddMonthly False t u n b)) u n 0 b"
  by (simp add: sql_add_def Record_def sql_AddDaily_def sql_AddMonthly_def)

definition sql_check :: "KeyStore \<Rightarrow> time \<Rightarrow> gostr \<Rightarrow> SQLiteQuotaBackend \<Rightarrow> bool" where
  "sql_check store t u b \<longleftrightarrow> year_ok t \<and>
     CheckQuota store (\<lambda>v. sql_GetDaily False t v b) (\<lambda>v. sql_GetMonthly False t v b) u = None"

text \<open>Hard caps with a bounded overshoot: when at most \<open>K\<close> requests of a user are in flight between
  check and record, each using at most \<open>M\<close> tokens, then in every interleaving with other users the
  user's daily and monthly usage never exceed the limit by \<open>K * M\<close> or more.\<close>

theorem quota_overshoot:
  assumes "(serve_step sql_add (sql_check store) year_ok u K M)\<^sup>*\<^sup>*
      \<lparr> sv_back = empty_sqlite, sv_inflight = 0, sv_now = a \<rparr> s"
    and "u \<noteq> []" "ks_Users store u = Some p" "0 \<le> M"
    and "0 < up_MaxTokensPerDay p" "up_MaxTokensPerDay p + int K * M < 2 ^ 63"
    and "0 < up_MaxTokensPerMonth p" "up_MaxTokensPerMonth p + int K * M < 2 ^ 63"
    and "sv_now s \<le> t" "year_ok t"
  shows "\<exists>x y. sql_GetDaily False t u (sv_back s) = Some x \<and> x < up_MaxTokensPerDay p + int K * M \<and>
     sql_GetMonthly False t u (sv_back s) = Some y \<and> y < up_MaxTokensPerMonth p + int K * M"
proof -
  let ?cd = "\<lambda>t u tab. year_ok t \<and> (\<exists>x. sql_select (u, dayKey t) tab = Some x \<and> x < up_MaxTokensPerDay p)"
  let ?cm = "\<lambda>t u tab. year_ok t \<and> (\<exists>x. sql_select (u, monthKey t) tab = Some x \<and> x < up_MaxTokensPerMonth p)"
  have chk: "?cd t' u (sq_daily b)" "?cm t' u (sq_monthly b)" if "sql_check store t' u b" for t' b
    using that assms(2,3,5,7)
    by (auto simp: sql_check_def check_quota_gen sql_GetDaily_def sql_GetMonthly_def)
  have d: "(serve_step (\<lambda>u n t. sql_upsert (u, dayKey t) n) ?cd year_ok u K M)\<^sup>*\<^sup>*
      \<lparr> sv_back = Map.empty, sv_inflight = 0, sv_now = a \<rparr>
      \<lparr> sv_back = sq_daily (sv_back s), sv_inflight = sv_inflight s, sv_now = sv_now s \<rparr>"
    using serve_map [of sq_daily sql_add "\<lambda>u n t. sql_upsert (u, dayKey t) n" "sql_check store" u ?cd, OF _ chk(1) assms(1)]
    by (simp add: sql_add_def empty_sqlite_def)
  have m: "(serve_step (\<lambda>u n t. sql_upsert (u, monthKey t) n) ?cm year_ok u K M)\<^sup>*\<^sup>*
      \<lparr> sv_back = Map.empty, sv_inflight = 0, sv_now = a \<rparr>
      \<lparr> sv_back = sq_monthly (sv_back s), sv_inflight = sv_inflight s, sv_now = sv_now s \<rparr>"
    using serve_map [of sq_monthly sql_add "\<lambda>u n t. sql_upsert (u, monthKey t) n" "sql_check store" u ?cm, OF _ chk(2) assms(1)]
    by (simp add: sql_add_def empty_sqlite_def)
  have nn: "0 \<le> M * int (sv_inflight s)" using assms(4) by simp
  have "dayk.sql.bounded u (up_MaxTokensPerDay p) K M
      \<lparr> sv_back = sq_daily (sv_back s), sv_inflight = sv_inflight s, sv_now = sv_now s \<rparr>"
    by (rule dayk.sql.bounded_reach [OF d]) (use assms(4-6) in auto)
  then obtain x where x: "sql_select (u, dayKey t) (sq_daily (sv_back s)) = Some x"
      "x + M * int (sv_inflight s) \<le> up_MaxTokensPerDay p - 1 + int K * M"
    using assms(9,10) by (auto simp: dayk.sql.bounded_def)
  have "monthk.sql.bounded u (up_MaxTokensPerMonth p) K M
      \<lparr> sv_back = sq_monthly (sv_back s), sv_inflight = sv_inflight s, sv_now = sv_now s \<rparr>"
    by (rule monthk.sql.bounded_reach [OF m]) (use assms(4,7,8) in auto)
  then obtain y where y: "sql_select (u, monthKey t) (sq_monthly (sv_back s)) = Some y"
      "y + M * int (sv_inflight s) \<le> up_MaxTokensPerMonth p - 1 + int K * M"
    using assms(9,10) by (auto simp: monthk.sql.bounded_def)
  have "x < up_MaxTokensPerDay p + int K * M" "y < up_MaxTokensPerMonth p + int K * M"
    using x(2) y(2) nn by linarith+
  with x(1) y(1) show ?thesis by (simp add: sql_GetDaily_def sql_GetMonthly_def)
qed

definition capped_user :: UserProfile where
  "capped_user = (toy_user ''u'' ''k'')\<lparr> up_MaxTokensPerMonth := 1000 \<rparr>"

definition capped_store :: KeyStore where
  "capped_store = set_user ''u'' capped_user toy_store"

lemma quota_overshoot_witness:
  "\<exists>x y. sql_GetDaily False (Date 2026 1 31) ''u'' (sql_add ''u'' 150 (Date 2026 1 31) empty_sqlite) = Some x \<and>
     x < 100 + 150 \<and>
     sql_GetMonthly False (Date 2026 1 31) ''u'' (sql_add ''u'' 150 (Date 2026 1 31) empty_sqlite) = Some y \<and>
     y < 1000 + 150"
proof -
  define t where "t = Date 2026 1 31"
  define u where "u = ''u''"
  have y: "year_ok t" unfolding t_def by code_simp
  have c: "sql_check capped_store t u empty_sqlite"
    unfolding t_def u_def by code_simp
  let ?s0 = "\<lparr> sv_back = empty_sqlite, sv_inflight = 0, sv_now = t \<rparr>"
  let ?s1 = "\<lparr> sv_back = empty_sqlite, sv_inflight = 1, sv_now = t \<rparr>"
  let ?s2 = "\<lparr> sv_back = sql_add u 150 t empty_sqlite, sv_inflight = 0, sv_now = t \<rparr>"
  have a1: "serve_step sql_add (sql_check capped_store) year_ok u 1 150 ?s0 ?s1"
    using serve_step.admit [of ?s0 t "sql_check capped_store" u 1 sql_add year_ok 150] c by simp
  have a2: "serve_step sql_add (sql_check capped_store) year_ok u 1 150 ?s1 ?s2"
    using serve_step.finish [of ?s1 t year_ok 0 150 150 sql_add "sql_check capped_store" u 1] y by simp
  have r: "(serve_step sql_add (sql_check capped_store) year_ok u 1 150)\<^sup>*\<^sup>* ?s0 ?s2"
    using a1 a2 by (meson rtranclp.rtrancl_into_rtrancl rtranclp.rtrancl_refl)
  have p: "u \<noteq> []" "ks_Users capped_store u = Some capped_user" "up_MaxTokensPerDay capped_user = 100"
    "up_MaxTokensPerMonth capped_user = 1000"
    unfolding u_def by code_simp+
  from quota_overshoot [OF r p(1,2), of t] y p(3,4) show ?thesis
    unfolding t_def [symmetric] u_def [symmetric] by simp
qed

end
