(* ===== verification/Admission.thy ===== *)
theory Admission
  imports Float64 GoHttp
begin

text \<open>
  The adaptive admission controller (\<open>core/admission\<close>): the parser of the Prometheus text it polls
  (\<open>parser.go\<close>), the poll cycle (\<open>poller.go\<close>), and the per-model moving average, dynamic threshold
  and decision (\<open>admission.go\<close>), with their float64 arithmetic. The clock, the list of running
  models and the metrics bodies are arguments.
\<close>

subsection \<open>Parsing the exposition text\<close>

text \<open>\<open>strconv.ParseFloat\<close> on decimal literals, infinities and NaN; a value that rounds to an
  infinity is a range error. Hexadecimal literals and digit separators are not modelled.\<close>

definition scan_sign :: "gostr \<Rightarrow> bool \<times> gostr" where
  "scan_sign s = (case s of c # r \<Rightarrow> if c = CHR ''-'' then (True, r) else if c = CHR ''+'' then (False, r)
                                else (False, s) | [] \<Rightarrow> (False, []))"

definition scan_exp :: "gostr \<Rightarrow> int option" where
  "scan_exp s =
     (case s of
        [] \<Rightarrow> Some 0
      | c # r \<Rightarrow> if c = CHR ''e'' \<or> c = CHR ''E'' then
                  (let (neg, ds) = scan_sign r in
                   if ds \<noteq> [] \<and> list_all is_digit ds then Some (if neg then - dec_val ds else dec_val ds)
                   else None)
                else None)"

definition pow10 :: "int \<Rightarrow> rat" where
  "pow10 e = (if 0 \<le> e then 10 ^ nat e else 1 / 10 ^ nat (- e))"

definition ParseFloat :: "gostr \<Rightarrow> flt option" where
  "ParseFloat s =
     (let (neg, body) = scan_sign s; low = ToLower body in
      if low = ''inf'' \<or> low = ''infinity'' then Some (Infty neg)
      else if low = ''nan'' then (if body = s then Some NaN else None)
      else
        let ip = takeWhile is_digit body; r1 = dropWhile is_digit body;
            (fp, r2) = (case r1 of c # r \<Rightarrow> if c = CHR ''.'' then (takeWhile is_digit r, dropWhile is_digit r)
                                       else ([], r1) | [] \<Rightarrow> ([], []))
        in if ip @ fp = [] then None
           else case scan_exp r2 of
             None \<Rightarrow> None
           | Some e \<Rightarrow>
               let x = of_int (dec_val (ip @ fp)) * pow10 (e - int (length fp));
                   v = fl (if neg then - x else x)
               in (case v of Fin _ \<Rightarrow> Some v | _ \<Rightarrow> None))"

record modelMetrics =
  mm_CacheUsagePct :: flt
  mm_RequestsRunning :: int
  mm_RequestsWaiting :: int
  mm_HasCacheUsage :: bool

definition no_metrics :: modelMetrics where
  "no_metrics = \<lparr> mm_CacheUsagePct = Fin 0, mm_RequestsRunning = 0, mm_RequestsWaiting = 0,
                  mm_HasCacheUsage = False \<rparr>"

text \<open>\<open>splitMetricLine\<close>: name and value of a sample line.\<close>

definition splitMetricLine :: "gostr \<Rightarrow> (gostr \<times> gostr) option" where
  "splitMetricLine line =
     (if HasPrefix line ''#'' then None
      else case IndexAny line [CHR ''{'', CHR '' '', CHR 0x09] of
        None \<Rightarrow> None
      | Some i \<Rightarrow>
          if i = 0 then None
          else
            let name = take i line; rest = drop i line;
                rest1 = (if HasPrefix rest ''{''
                         then (case Index rest ''}'' of None \<Rightarrow> None | Some e \<Rightarrow> Some (drop (e + 1) rest))
                         else Some rest)
            in (case rest1 of
                  None \<Rightarrow> None
                | Some r \<Rightarrow>
                    let r' = TrimSpace r in
                    if r' = [] then None
                    else Some (name, case IndexAny r' [CHR '' '', CHR 0x09] of None \<Rightarrow> r' | Some sp \<Rightarrow> take sp r')))"

definition normalizeMetricName :: "gostr \<Rightarrow> gostr" where
  "normalizeMetricName name =
     (if HasPrefix name ''vllm:'' then drop 5 name
      else if HasPrefix name ''vllm_'' then drop 5 name else name)"

definition parse_line :: "gostr \<Rightarrow> modelMetrics \<Rightarrow> modelMetrics" where
  "parse_line raw m =
     (let line = TrimSpace raw in
      if line = [] \<or> HasPrefix line ''#'' then m
      else case splitMetricLine line of
        None \<Rightarrow> m
      | Some (name, value) \<Rightarrow>
          let key = normalizeMetricName name in
          if key = ''gpu_cache_usage_perc'' then
            (case ParseFloat value of
               None \<Rightarrow> m
             | Some v \<Rightarrow> m\<lparr> mm_CacheUsagePct := (if v \<le> Fin 1 then v * Fin 100 else v),
                            mm_HasCacheUsage := True \<rparr>)
          else if key = ''num_requests_running'' then
            (case ParseFloat value of None \<Rightarrow> m | Some n \<Rightarrow> m\<lparr> mm_RequestsRunning := to_i64 n \<rparr>)
          else if key = ''num_requests_waiting'' then
            (case ParseFloat value of None \<Rightarrow> m | Some n \<Rightarrow> m\<lparr> mm_RequestsWaiting := to_i64 n \<rparr>)
          else m)"

definition parsePrometheusMetrics :: "gostr \<Rightarrow> modelMetrics" where
  "parsePrometheusMetrics body = fold parse_line (scan_lines 1048576 body) no_metrics"

subsection \<open>State of the controller\<close>

record Config =
  cf_Enabled :: bool
  cf_HardCachePct :: flt
  cf_SoftCachePct :: flt
  cf_MaxQueuePerGB :: int
  cf_PollInterval :: duration
  cf_EMAAlpha :: flt
  cf_CalmDuration :: duration
  cf_StressMargin :: flt
  cf_MinHardCachePct :: flt

record HostBudget =
  hb_TotalVRAMBytes :: int
  hb_TotalRAMBytes :: int
  hb_CPUCores :: int

datatype reason =
  Disabled | NoTelemetry | StaleTelemetry | CacheOver flt flt | QueueOver int int | AdmitOk

record Decision =
  dc_Allow :: bool
  dc_Reason :: reason
  dc_RetryAfter :: duration

record modelState =
  ms_lastSample :: modelMetrics
  ms_cacheUsageEMA :: flt
  ms_hardThresholdPct :: flt
  ms_calmSince :: time
  ms_updatedAt :: time
  ms_maxQueueDepth :: int

type_synonym model_states = "gostr \<rightharpoonup> modelState"

record Controller =
  ct_cfg :: Config
  ct_budget :: HostBudget
  ct_clients :: bool
  ct_states :: model_states
  ct_cancel :: bool
  ct_done :: bool

definition withDefaults :: "Config \<Rightarrow> Config" where
  "withDefaults c = c\<lparr>
     cf_HardCachePct := (if feq (cf_HardCachePct c) 0 then Fin 95 else cf_HardCachePct c),
     cf_SoftCachePct := (if feq (cf_SoftCachePct c) 0 then Fin 80 else cf_SoftCachePct c),
     cf_MaxQueuePerGB := (if cf_MaxQueuePerGB c = 0 then 4 else cf_MaxQueuePerGB c),
     cf_PollInterval := (if cf_PollInterval c = 0 then 5 * second else cf_PollInterval c),
     cf_EMAAlpha := (if feq (cf_EMAAlpha c) 0 then flit (1 / 5) else cf_EMAAlpha c),
     cf_CalmDuration := (if cf_CalmDuration c = 0 then 5 * minute else cf_CalmDuration c),
     cf_StressMargin := (if feq (cf_StressMargin c) 0 then Fin 10 else cf_StressMargin c),
     cf_MinHardCachePct := (if feq (cf_MinHardCachePct c) 0 then Fin 60 else cf_MinHardCachePct c) \<rparr>"

definition New :: "Config \<Rightarrow> HostBudget \<Rightarrow> bool \<Rightarrow> Controller" where
  "New cfg budget clients =
     \<lparr> ct_cfg = withDefaults cfg, ct_budget = budget, ct_clients = clients,
       ct_states = Map.empty, ct_cancel = False, ct_done = False \<rparr>"

text \<open>\<open>Start\<close> panics (\<open>None\<close>) when the poller runs, or when the \<open>done\<close> channel is closed again;
  \<open>Stop\<close> blocks for ever (\<open>None\<close>) on a controller that was never started. Once its context is
  cancelled the poller closes \<open>done\<close>.\<close>

definition Start :: "Controller \<Rightarrow> Controller option" where
  "Start c =
     (if ct_cancel c then None
      else if \<not> cf_Enabled (ct_cfg c) then (if ct_done c then None else Some (c\<lparr> ct_done := True \<rparr>))
      else if \<not> ct_clients c then (if ct_done c then None else Some (c\<lparr> ct_done := True \<rparr>))
      else Some (c\<lparr> ct_cancel := True \<rparr>))"

definition Stop :: "Controller \<Rightarrow> Controller option" where
  "Stop c =
     (if ct_cancel c then Some (c\<lparr> ct_cancel := False, ct_done := True \<rparr>)
      else if ct_done c then Some c else None)"

subsection \<open>The decision\<close>

definition Allow :: "time \<Rightarrow> gostr \<Rightarrow> Controller \<Rightarrow> Decision" where
  "Allow now model c =
     (let admit = (\<lambda>why. \<lparr> dc_Allow = True, dc_Reason = why, dc_RetryAfter = 0 \<rparr>) in
      if \<not> cf_Enabled (ct_cfg c) then admit Disabled
      else case ct_states c model of
        None \<Rightarrow> admit NoTelemetry
      | Some st \<Rightarrow>
          if \<not> mm_HasCacheUsage (ms_lastSample st) then admit NoTelemetry
          else if i64 (3 * cf_PollInterval (ct_cfg c)) < time_sub now (ms_updatedAt st) then admit StaleTelemetry
          else if ms_hardThresholdPct st \<le> ms_cacheUsageEMA st then
            \<lparr> dc_Allow = False, dc_Reason = CacheOver (ms_cacheUsageEMA st) (ms_hardThresholdPct st),
              dc_RetryAfter = 5 * second \<rparr>
          else if 0 < ms_maxQueueDepth st \<and> ms_maxQueueDepth st \<le> mm_RequestsWaiting (ms_lastSample st) then
            \<lparr> dc_Allow = False,
              dc_Reason = QueueOver (mm_RequestsWaiting (ms_lastSample st)) (ms_maxQueueDepth st),
              dc_RetryAfter = 10 * second \<rparr>
          else admit AdmitOk)"

subsection \<open>Observations\<close>

definition computeQueueDepth :: "Config \<Rightarrow> HostBudget \<Rightarrow> int \<Rightarrow> int" where
  "computeQueueDepth cfg budget runningCount =
     (if hb_TotalVRAMBytes budget \<le> 0 \<or> runningCount \<le> 0 \<or> cf_MaxQueuePerGB cfg \<le> 0 then 0
      else
        let totalGB = of_i64 (hb_TotalVRAMBytes budget) / Fin 1073741824;
            perModelGB = totalGB / of_i64 runningCount;
            q = to_i64 (perModelGB * of_i64 (cf_MaxQueuePerGB cfg))
        in if q < 1 then 1 else q)"

definition adjustThreshold :: "Config \<Rightarrow> time \<Rightarrow> modelState \<Rightarrow> modelState" where
  "adjustThreshold cfg now st =
     (let stressBand = flit (9 / 10) * ms_hardThresholdPct st in
      if stressBand \<le> ms_cacheUsageEMA st then
        let newCap0 = ms_hardThresholdPct st - cf_StressMargin cfg;
            newCap = (if newCap0 < cf_MinHardCachePct cfg then cf_MinHardCachePct cfg else newCap0)
        in st\<lparr> ms_hardThresholdPct := (if newCap < ms_hardThresholdPct st then newCap
                                          else ms_hardThresholdPct st),
               ms_calmSince := zero_time \<rparr>
      else if ms_cacheUsageEMA st < cf_SoftCachePct cfg then
        let since = (if IsZero (ms_calmSince st) then now else ms_calmSince st) in
        if cf_CalmDuration cfg \<le> time_sub now since \<and> ms_hardThresholdPct st < cf_HardCachePct cfg then
          let raised = ms_hardThresholdPct st + cf_StressMargin cfg / Fin 2 in
          st\<lparr> ms_hardThresholdPct := (if cf_HardCachePct cfg < raised then cf_HardCachePct cfg else raised),
              ms_calmSince := now \<rparr>
        else st\<lparr> ms_calmSince := since \<rparr>
      else st\<lparr> ms_calmSince := zero_time \<rparr>)"

definition new_state :: "Config \<Rightarrow> modelState" where
  "new_state cfg = \<lparr> ms_lastSample = no_metrics, ms_cacheUsageEMA = Fin 0,
     ms_hardThresholdPct = cf_HardCachePct cfg, ms_calmSince = zero_time, ms_updatedAt = zero_time,
     ms_maxQueueDepth = 0 \<rparr>"

definition next_ema :: "flt \<Rightarrow> flt \<Rightarrow> flt \<Rightarrow> flt" where
  "next_ema alpha sample ema =
     (if feq ema 0 then sample else alpha * sample + (Fin 1 - alpha) * ema)"

definition observe_state :: "Config \<Rightarrow> HostBudget \<Rightarrow> modelMetrics \<Rightarrow> int \<Rightarrow> time \<Rightarrow> modelState \<Rightarrow> modelState" where
  "observe_state cfg budget sample runningCount now st =
     (let st1 = st\<lparr> ms_lastSample := sample, ms_updatedAt := now,
                    ms_maxQueueDepth := computeQueueDepth cfg budget runningCount \<rparr> in
      if \<not> mm_HasCacheUsage sample then st1
      else adjustThreshold cfg now
             (st1\<lparr> ms_cacheUsageEMA := next_ema (cf_EMAAlpha cfg) (mm_CacheUsagePct sample) (ms_cacheUsageEMA st1) \<rparr>))"

definition observe :: "gostr \<Rightarrow> modelMetrics \<Rightarrow> int \<Rightarrow> time \<Rightarrow> Controller \<Rightarrow> Controller" where
  "observe model sample runningCount now c =
     (let st = (case ct_states c model of Some st \<Rightarrow> st | None \<Rightarrow> new_state (ct_cfg c)) in
      c\<lparr> ct_states := (ct_states c)(model \<mapsto> observe_state (ct_cfg c) (ct_budget c) sample runningCount now st) \<rparr>)"

subsection \<open>The poll cycle\<close>

record runningModelEntry =
  rme_ModelName :: gostr
  rme_Status :: gostr

text \<open>The lister: the body decodes as an array, or else as an object with one.\<close>

definition List_models ::
    "(int \<times> gostr) option \<Rightarrow> (gostr \<Rightarrow> runningModelEntry list option) \<Rightarrow>
     (gostr \<Rightarrow> runningModelEntry list option) \<Rightarrow> gostr list option" where
  "List_models resp as_array as_object =
     (case resp of
        None \<Rightarrow> None
      | Some (status, body) \<Rightarrow>
          if status \<noteq> 200 then None
          else case (case as_array body of Some arr \<Rightarrow> Some arr | None \<Rightarrow> as_object body) of
            None \<Rightarrow> None
          | Some arr \<Rightarrow>
              Some (map rme_ModelName (filter (\<lambda>e. rme_ModelName e \<noteq> [] \<and> rme_Status e = ''running'') arr)))"

definition Fetch :: "(int \<times> gostr) option \<Rightarrow> gostr option" where
  "Fetch resp = (case resp of None \<Rightarrow> None | Some (status, body) \<Rightarrow> if status \<noteq> 200 then None else Some body)"

text \<open>One cycle; the \<open>i\<close>-th fetch yields \<open>fetch i\<close> and its observation reads the clock \<open>clock i\<close>.\<close>

primrec tick_loop :: "(nat \<Rightarrow> gostr option) \<Rightarrow> (nat \<Rightarrow> time) \<Rightarrow> int \<Rightarrow> nat \<Rightarrow> gostr list \<Rightarrow> Controller \<Rightarrow> Controller" where
  "tick_loop fetch clock n i [] c = c"
| "tick_loop fetch clock n i (m # ms) c =
     tick_loop fetch clock n (Suc i) ms
       (case fetch i of None \<Rightarrow> c
        | Some body \<Rightarrow> observe m (parsePrometheusMetrics body) n (clock i) c)"

definition tick :: "gostr list option \<Rightarrow> (nat \<Rightarrow> gostr option) \<Rightarrow> (nat \<Rightarrow> time) \<Rightarrow> Controller \<Rightarrow> Controller" where
  "tick models fetch clock c =
     (case models of None \<Rightarrow> c | Some ms \<Rightarrow> tick_loop fetch clock (int (length ms)) 0 ms c)"

subsection \<open>The moving average\<close>

text \<open>The float64 average stays between the bounds of its samples, up to a relative error of
  \<open>2^-40\<close> that does not grow with the number of samples.\<close>

lemma fl_le_rep: "x \<le> c \<Longrightarrow> rnd c = c \<Longrightarrow> \<bar>c\<bar> \<le> pow2 1023 \<Longrightarrow> fl x \<le> Fin c"
  by (rule fl_cases [of x]) (use rnd_mono [of x c] pow2_less [of 1023 1024] in auto)

lemma fl_ge_rep: "c \<le> x \<Longrightarrow> rnd c = c \<Longrightarrow> \<bar>c\<bar> \<le> pow2 1023 \<Longrightarrow> Fin c \<le> fl x"
  by (rule fl_cases [of x]) (use rnd_mono [of c x] pow2_less [of 1023 1024] in auto)

lemma small_le_pow2_1023: "\<bar>x\<bar> \<le> 2 ^ 60 \<Longrightarrow> \<bar>x\<bar> \<le> pow2 1023"
  using pow2_mono [of 60 1023] by (simp add: pow2_nat)

lemma rnd_up: "0 \<le> x \<Longrightarrow> rnd x \<le> x * (1 + 1 / 2 ^ 53) + 1 / 2 ^ 106"
  using rnd_err [of x] pow2_mono [of "- 1075" "- 106"] by (simp add: pow2_def algebra_simps)

lemma rnd_down: "0 \<le> x \<Longrightarrow> x * (1 - 1 / 2 ^ 53) - 1 / 2 ^ 106 \<le> rnd x"
  using rnd_err [of x] pow2_mono [of "- 1075" "- 106"] by (simp add: pow2_def algebra_simps)

lemma ema_up_gen:
  fixes a U e s :: rat
  assumes "0 \<le> a" "1 \<le> U" "s \<le> U" "0 \<le> e" "e \<le> U * d" "0 \<le> h" "0 \<le> t" "0 \<le> b"
    and "b \<le> (1 - a) * h + t" "p \<le> a * s * h + t" "q \<le> b * e * h + t" "r \<le> (p + q) * h + t"
    and fin: "(a * h + t + (((1 - a) * h + t) * d * h + t)) * h + t \<le> d"
  shows "r \<le> U * d"
proof -
  have tU: "t \<le> U * t" using mult_right_mono [OF assms(2,7)] by simp
  have "a * s * h \<le> a * U * h" using assms by (intro mult_right_mono mult_left_mono) auto
  then have p: "p \<le> U * (a * h + t)" using tU assms(10) by (simp add: algebra_simps)
  have "b * e \<le> ((1 - a) * h + t) * (U * d)"
    by (rule mult_mono) (use assms in auto)
  then have "b * e * h \<le> ((1 - a) * h + t) * (U * d) * h" by (rule mult_right_mono) fact
  then have "b * e * h + t \<le> ((1 - a) * h + t) * (U * d) * h + U * t" using tU by (rule add_mono)
  also have "\<dots> = U * (((1 - a) * h + t) * d * h + t)" by (simp add: algebra_simps)
  finally have q: "q \<le> U * (((1 - a) * h + t) * d * h + t)" using assms(11) by (rule order_trans [rotated])
  have "(p + q) * h \<le> (U * (a * h + t) + U * (((1 - a) * h + t) * d * h + t)) * h"
    by (rule mult_right_mono [OF add_mono [OF p q]]) fact
  then have "r \<le> (U * (a * h + t) + U * (((1 - a) * h + t) * d * h + t)) * h + U * t"
    using assms(12) tU by linarith
  also have "\<dots> = U * ((a * h + t + (((1 - a) * h + t) * d * h + t)) * h + t)" by (simp add: algebra_simps)
  also have "\<dots> \<le> U * d" by (rule mult_left_mono [OF fin]) (use assms(2) in simp)
  finally show ?thesis .
qed

lemma ema_down_gen:
  fixes a L e s :: rat
  assumes "0 \<le> a" "1 \<le> L" "L \<le> s" "L * d \<le> e" "0 \<le> d" "0 \<le> h" "0 \<le> t" "0 \<le> b"
    and "(1 - a) * h - t \<le> b" "a * s * h - t \<le> p" "b * e * h - t \<le> q" "(p + q) * h - t \<le> r"
    and fin: "d \<le> (a * h - t + (((1 - a) * h - t) * d * h - t)) * h - t"
  shows "L * d \<le> r"
proof -
  have tL: "t \<le> L * t" using mult_right_mono [OF assms(2,7)] by simp
  have "a * L * h \<le> a * s * h" using assms by (intro mult_right_mono mult_left_mono) auto
  then have p: "L * (a * h - t) \<le> p" using tL assms(10) by (simp add: algebra_simps)
  have Ld: "0 \<le> L * d" using assms(2,5) by simp
  have "((1 - a) * h - t) * (L * d) \<le> b * (L * d)" by (rule mult_right_mono [OF assms(9) Ld])
  also have "\<dots> \<le> b * e" by (rule mult_left_mono [OF assms(4,8)])
  finally have "((1 - a) * h - t) * (L * d) * h \<le> b * e * h" by (rule mult_right_mono) fact
  then have "((1 - a) * h - t) * (L * d) * h - L * t \<le> q" using assms(11) tL by linarith
  then have q: "L * (((1 - a) * h - t) * d * h - t) \<le> q" by (simp add: algebra_simps)
  have "(L * (a * h - t) + L * (((1 - a) * h - t) * d * h - t)) * h \<le> (p + q) * h"
    by (rule mult_right_mono [OF add_mono [OF p q]]) fact
  then have "(L * (a * h - t) + L * (((1 - a) * h - t) * d * h - t)) * h - L * t \<le> r"
    using assms(12) tL by linarith
  then have "L * ((a * h - t + (((1 - a) * h - t) * d * h - t)) * h - t) \<le> r" by (simp add: algebra_simps)
  moreover have "L * d \<le> L * ((a * h - t + (((1 - a) * h - t) * d * h - t)) * h - t)"
    by (rule mult_left_mono [OF fin]) (use assms(2) in simp)
  ultimately show ?thesis by linarith
qed

lemma ema_up_const: "(1 / 1024 :: rat) \<le> a \<Longrightarrow>
   (a * (1 + 1 / 2 ^ 53) + 1 / 2 ^ 106 + (((1 - a) * (1 + 1 / 2 ^ 53) + 1 / 2 ^ 106) * (1 + 1 / 2 ^ 40) * (1 + 1 / 2 ^ 53) + 1 / 2 ^ 106))
      * (1 + 1 / 2 ^ 53) + 1 / 2 ^ 106 \<le> 1 + 1 / 2 ^ 40"
  by (simp add: field_simps)

lemma ema_down_const: "(1 / 1024 :: rat) \<le> a \<Longrightarrow> 1 - 1 / 2 ^ 40 \<le>
   (a * (1 - 1 / 2 ^ 53) - 1 / 2 ^ 106 + (((1 - a) * (1 - 1 / 2 ^ 53) - 1 / 2 ^ 106) * (1 - 1 / 2 ^ 40) * (1 - 1 / 2 ^ 53) - 1 / 2 ^ 106))
      * (1 - 1 / 2 ^ 53) - 1 / 2 ^ 106"
  by (simp add: field_simps)

lemma next_ema_between:
  assumes "1 / 1024 \<le> a" "a \<le> 1" "0 \<le> L" "L = 0 \<or> 1 \<le> L" "1 \<le> U" "U \<le> 2 ^ 40"
    and "L \<le> s" "s \<le> U" "L * (1 - 1 / 2 ^ 40) \<le> e" "e \<le> U * (1 + 1 / 2 ^ 40)"
  shows "\<exists>e'. next_ema (Fin a) (Fin s) (Fin e) = Fin e' \<and>
      L * (1 - 1 / 2 ^ 40) \<le> e' \<and> e' \<le> U * (1 + 1 / 2 ^ 40)"
proof (cases "e = 0")
  case True
  have "L * (1 - 1 / 2 ^ 40) \<le> L" "U \<le> U * (1 + 1 / 2 ^ 40)" using assms(3,5) by (auto simp: field_simps)
  with assms(7,8) True show ?thesis by (auto simp: next_ema_def zero_one_flt)
next
  case False
  have e0: "0 \<le> e" using assms(3,9) mult_nonneg_nonneg [of L "1 - 1 / 2 ^ 40"] by simp
  have s0: "0 \<le> s" using assms(3,7) by simp
  have a0: "0 \<le> a" using assms(1) by simp
  have U1: "e \<le> 2 ^ 41" using assms(6,10) by simp
  define b where "b = rnd (1 - a)"
  have b: "0 \<le> b" "b \<le> 1"
    using rnd_nonneg [of "1 - a"] rnd_mono [of "1 - a" 1] rnd_of_int [of 1] a0 assms(2) by (simp_all add: b_def)
  have as: "0 \<le> a * s" "a * s \<le> 2 ^ 40"
    using mult_nonneg_nonneg [OF a0 s0] mult_mono [of a 1 s "2 ^ 40"] s0 assms(2,6,8) by simp_all
  have be: "0 \<le> b * e" "b * e \<le> 2 ^ 41"
    using mult_nonneg_nonneg [OF b(1) e0] mult_mono [OF b(2) U1 _ e0] by simp_all
  define p q where "p = rnd (a * s)" and "q = rnd (b * e)"
  have pq: "0 \<le> p" "0 \<le> q" unfolding p_def q_def using as(1) be(1) by (simp_all add: rnd_nonneg)
  note pu = rnd_up [OF as(1), folded p_def] rnd_down [OF as(1), folded p_def]
  note qu = rnd_up [OF be(1), folded q_def] rnd_down [OF be(1), folded q_def]
  have r2: "rnd (2 ^ n) = 2 ^ n" if "n \<le> 53" for n :: nat
    using rnd_of_int [of "2 ^ n"] power_increasing [OF that, of "2::int"] by simp
  have "p \<le> 2 ^ 40" "q \<le> 2 ^ 41"
    unfolding p_def q_def using rnd_mono [OF as(2)] rnd_mono [OF be(2)] r2 [of 40] r2 [of 41] by simp_all
  then have pq60: "p + q \<le> 2 ^ 60" by simp
  have "fl (1 - a) = Fin b" unfolding b_def
    by (rule fl_Fin, rule small_le_pow2_1023) (use a0 assms(2) in simp)
  moreover have "fl (a * s) = Fin p" unfolding p_def
    by (rule fl_Fin, rule small_le_pow2_1023) (use as in simp)
  moreover have "fl (b * e) = Fin q" unfolding q_def
    by (rule fl_Fin, rule small_le_pow2_1023) (use be in simp)
  moreover have "fl (p + q) = Fin (rnd (p + q))"
    by (rule fl_Fin, rule small_le_pow2_1023) (use pq pq60 in simp)
  ultimately have eq: "next_ema (Fin a) (Fin s) (Fin e) = Fin (rnd (p + q))"
    using False by (simp add: next_ema_def zero_one_flt minus_flt_def)
  have a1: "0 \<le> 1 - a" using assms(2) by simp
  note bu = rnd_up [OF a1, folded b_def] rnd_down [OF a1, folded b_def]
  have pq0: "0 \<le> p + q" using pq by simp
  have "rnd (p + q) \<le> U * (1 + 1 / 2 ^ 40)"
    by (rule ema_up_gen [OF a0 assms(5,8) e0 assms(10) _ _ b(1) bu(1) pu(1) qu(1) rnd_up [OF pq0]
          ema_up_const [OF assms(1)]]) simp_all
  moreover have "L * (1 - 1 / 2 ^ 40) \<le> rnd (p + q)"
  proof (cases "L = 0")
    case True
    then show ?thesis using pq0 by (simp add: rnd_nonneg)
  next
    case False
    then have L1: "1 \<le> L" using assms(4) by simp
    show ?thesis
      by (rule ema_down_gen [OF a0 L1 assms(7,9) _ _ _ b(1) bu(2) pu(2) qu(2) rnd_down [OF pq0]
          ema_down_const [OF assms(1)]]) simp_all
  qed
  ultimately show ?thesis using eq by blast
qed

subsection \<open>The dynamic threshold\<close>

definition config_ok :: "Config \<Rightarrow> rat \<Rightarrow> rat \<Rightarrow> bool" where
  "config_ok cfg mn H \<longleftrightarrow> cf_MinHardCachePct cfg = Fin mn \<and> cf_HardCachePct cfg = Fin H \<and>
     rnd mn = mn \<and> rnd H = H \<and> 0 \<le> mn \<and> mn \<le> H \<and> H \<le> 2 ^ 40 \<and>
     (\<exists>g. cf_StressMargin cfg = Fin g \<and> 0 \<le> g) \<and>
     (\<exists>a. cf_EMAAlpha cfg = Fin a \<and> 1 / 1024 \<le> a \<and> a \<le> 1)"

definition threshold_ok :: "rat \<Rightarrow> rat \<Rightarrow> modelState \<Rightarrow> bool" where
  "threshold_ok mn H st \<longleftrightarrow> (\<exists>h. ms_hardThresholdPct st = Fin h \<and> rnd h = h \<and> mn \<le> h \<and> h \<le> H)"

lemma fl_form: "fl x = Fin (rnd x) \<or> (\<exists>s. fl x = Infty s)"
  by (auto simp: fl_def Let_def)

lemma rat_pct_small: "0 \<le> h \<Longrightarrow> h \<le> (2 ^ 40 :: rat) \<Longrightarrow> \<bar>h\<bar> \<le> pow2 1023"
  by (rule small_le_pow2_1023) simp

lemma raise_ge:
  assumes "rnd h = h" "0 \<le> h" "h \<le> 2 ^ 40" "0 \<le> g"
  shows "Fin h \<le> Fin h + Fin g / Fin 2"
proof -
  have "Fin 0 \<le> fl (g / 2)" by (rule fl_ge_rep) (use assms in simp_all)
  then consider r where "fl (g / 2) = Fin r" "0 \<le> r" | "fl (g / 2) = Infty False"
    by (cases "fl (g / 2)") auto
  then show ?thesis
  proof cases
    case (1 r)
    have "Fin h \<le> fl (h + r)" by (rule fl_ge_rep) (use assms 1 rat_pct_small in auto)
    with 1 show ?thesis by simp
  qed simp
qed

lemma raise_form: "(\<exists>r. Fin h + Fin g / Fin 2 = Fin (rnd r)) \<or> (\<exists>s. Fin h + Fin g / Fin 2 = Infty s)"
  using fl_form [of "g / 2"]
proof
  assume "fl (g / 2) = Fin (rnd (g / 2))"
  then show ?thesis using fl_form [of "h + rnd (g / 2)"] by auto
qed auto

lemma adjust_threshold_ok:
  assumes "config_ok cfg mn H" "threshold_ok mn H st"
  shows "threshold_ok mn H (adjustThreshold cfg now st)"
proof -
  obtain g where c: "cf_MinHardCachePct cfg = Fin mn" "cf_HardCachePct cfg = Fin H"
      "rnd mn = mn" "rnd H = H" "0 \<le> mn" "mn \<le> H" "H \<le> 2 ^ 40" "cf_StressMargin cfg = Fin g" "0 \<le> g"
    using assms(1) by (auto simp: config_ok_def)
  obtain h where h: "ms_hardThresholdPct st = Fin h" "rnd h = h" "mn \<le> h" "h \<le> H"
    using assms(2) by (auto simp: threshold_ok_def)
  let ?n = "fl (h - g)"
  have n: "(if (if ?n < Fin mn then Fin mn else ?n) < Fin h then (if ?n < Fin mn then Fin mn else ?n) else Fin h) = Fin h' \<Longrightarrow>
      rnd h' = h' \<and> mn \<le> h' \<and> h' \<le> H" for h'
    using fl_form [of "h - g"] h c by (auto split: if_splits simp: not_less)
  have n': "\<exists>h'. (if (if ?n < Fin mn then Fin mn else ?n) < Fin h then (if ?n < Fin mn then Fin mn else ?n) else Fin h) = Fin h'"
    using fl_form [of "h - g"] by (auto split: if_splits)
  let ?r = "Fin h + Fin g / Fin 2"
  have r: "\<exists>h'. (if Fin H < ?r then Fin H else ?r) = Fin h' \<and> rnd h' = h' \<and> mn \<le> h' \<and> h' \<le> H"
    using raise_ge [of h g] raise_form [of h g] h c by (cases ?r) (auto split: if_splits)
  have minus: "Fin h - Fin g = ?n" by (simp add: minus_flt_def)
  show ?thesis
    unfolding adjustThreshold_def Let_def c(1,2,8) h(1) minus threshold_ok_def
    using n n' r h by (auto simp del: plus_flt.simps divide_flt.simps simp: h(1))
qed

lemma observe_threshold_ok:
  "config_ok cfg mn H \<Longrightarrow> threshold_ok mn H st \<Longrightarrow> threshold_ok mn H (observe_state cfg b s n now st)"
  using adjust_threshold_ok [of cfg mn H "(st\<lparr> ms_lastSample := s, ms_updatedAt := now,
     ms_maxQueueDepth := computeQueueDepth cfg b n, ms_cacheUsageEMA := next_ema (cf_EMAAlpha cfg) (mm_CacheUsagePct s) (ms_cacheUsageEMA st) \<rparr>)" now]
  by (auto simp: observe_state_def Let_def threshold_ok_def)

text \<open>The other fields an adjustment keeps.\<close>

lemma adjust_frame [frame_simps, simp]:
  "ms_lastSample (adjustThreshold cfg now st) = ms_lastSample st"
  "ms_cacheUsageEMA (adjustThreshold cfg now st) = ms_cacheUsageEMA st"
  "ms_updatedAt (adjustThreshold cfg now st) = ms_updatedAt st"
  "ms_maxQueueDepth (adjustThreshold cfg now st) = ms_maxQueueDepth st"
  by (simp_all add: adjustThreshold_def Let_def)

lemma observe_frame [frame_simps, simp]:
  "ms_lastSample (observe_state cfg b s n now st) = s"
  "ms_updatedAt (observe_state cfg b s n now st) = now"
  "ms_maxQueueDepth (observe_state cfg b s n now st) = computeQueueDepth cfg b n"
  "ms_cacheUsageEMA (observe_state cfg b s n now st) =
     (if mm_HasCacheUsage s then next_ema (cf_EMAAlpha cfg) (mm_CacheUsagePct s) (ms_cacheUsageEMA st)
      else ms_cacheUsageEMA st)"
  by (simp_all add: observe_state_def Let_def)

subsection \<open>Runs of observations\<close>

type_synonym observation = "gostr \<times> modelMetrics \<times> int \<times> time"

fun obs_run :: "observation list \<Rightarrow> Controller \<Rightarrow> Controller" where
  "obs_run [] c = c"
| "obs_run ((m, s, n, t) # es) c = obs_run es (observe m s n t c)"

lemma obs_run_append: "obs_run (es @ es') c = obs_run es' (obs_run es c)"
  by (induction es c rule: obs_run.induct) simp_all

lemma observe_fixed [simp]: "ct_cfg (observe m s n t c) = ct_cfg c" "ct_budget (observe m s n t c) = ct_budget c"
  by (simp_all add: observe_def Let_def)

lemma obs_run_fixed [simp]: "ct_cfg (obs_run es c) = ct_cfg c" "ct_budget (obs_run es c) = ct_budget c"
  by (induction es c rule: obs_run.induct) simp_all

lemma observe_states:
  "ct_states (observe m s n t c) = (ct_states c)(m \<mapsto> observe_state (ct_cfg c) (ct_budget c) s n t
     (case ct_states c m of Some st \<Rightarrow> st | None \<Rightarrow> new_state (ct_cfg c)))"
  by (simp add: observe_def Let_def)

text \<open>A property of a model's state that its own observations keep holds along every run.\<close>

lemma obs_run_inv:
  assumes "\<And>st s n t. P st \<Longrightarrow> (m, s, n, t) \<in> set es \<Longrightarrow> P (observe_state (ct_cfg c) (ct_budget c) s n t st)"
    and "P (new_state (ct_cfg c))" "\<And>st. ct_states c m = Some st \<Longrightarrow> P st"
    and "ct_states (obs_run es c) m = Some st"
  shows "P st"
  using assms
proof (induction es c arbitrary: st rule: obs_run.induct)
  case (2 m' s n t es c)
  let ?c = "observe m' s n t c"
  have a1: "P (observe_state (ct_cfg ?c) (ct_budget ?c) s n t st)" if "P st" "(m, s, n, t) \<in> set es" for st s n t
    using "2.prems"(1) that by simp
  have a2: "P (new_state (ct_cfg ?c))" using "2.prems"(2) by simp
  have a3: "P st'" if "ct_states ?c m = Some st'" for st'
  proof (cases "m' = m")
    case True
    then have "st' = observe_state (ct_cfg c) (ct_budget c) s n t
        (case ct_states c m of Some st \<Rightarrow> st | None \<Rightarrow> new_state (ct_cfg c))"
      using that by (simp add: observe_states)
    moreover have "P (case ct_states c m of Some st \<Rightarrow> st | None \<Rightarrow> new_state (ct_cfg c))"
      using "2.prems"(2,3) by (auto split: option.split)
    ultimately show ?thesis using "2.prems"(1) True by auto
  next
    case False
    then show ?thesis using that "2.prems"(3) by (simp add: observe_states)
  qed
  show ?case by (rule "2.IH" [OF a1 a2 a3]) (use "2.prems"(4) in simp_all)
qed simp

lemma obs_run_frame: "m \<notin> fst ` set es \<Longrightarrow> ct_states (obs_run es c) m = ct_states c m"
  by (induction es c rule: obs_run.induct) (auto simp: observe_states)

lemma tick_loop_obs:
  "\<exists>es. tick_loop fetch clock n i ms c = obs_run es c \<and> fst ` set es \<subseteq> set ms"
proof (induction ms arbitrary: i c)
  case Nil
  show ?case by (rule exI [of _ "[]"]) simp
next
  case (Cons m ms)
  show ?case
  proof (cases "fetch i")
    case None
    with Cons show ?thesis by fastforce
  next
    case (Some body)
    obtain es where "tick_loop fetch clock n (Suc i) ms (observe m (parsePrometheusMetrics body) n (clock i) c) =
        obs_run es (observe m (parsePrometheusMetrics body) n (clock i) c)" "fst ` set es \<subseteq> set ms"
      using Cons by blast
    then show ?thesis using Some
      by (intro exI [of _ "(m, parsePrometheusMetrics body, n, clock i) # es"]) auto
  qed
qed

subsection \<open>The decision follows the load\<close>

definition ema_in :: "rat \<Rightarrow> rat \<Rightarrow> modelState \<Rightarrow> bool" where
  "ema_in L U st \<longleftrightarrow> (\<exists>e. ms_cacheUsageEMA st = Fin e \<and> (e = 0 \<or> L * (1 - 1 / 2 ^ 40) \<le> e) \<and>
     0 \<le> e \<and> e \<le> U * (1 + 1 / 2 ^ 40))"

text \<open>Every cache-usage sample of the model lies between \<open>L\<close> and \<open>U\<close>.\<close>

definition load_between :: "rat \<Rightarrow> rat \<Rightarrow> gostr \<Rightarrow> observation list \<Rightarrow> bool" where
  "load_between L U m es \<longleftrightarrow> (\<forall>s n t. (m, s, n, t) \<in> set es \<longrightarrow> mm_HasCacheUsage s \<longrightarrow>
     (\<exists>x. mm_CacheUsagePct s = Fin x \<and> L \<le> x \<and> x \<le> U))"

lemma next_ema_step:
  assumes "1 / 1024 \<le> a" "a \<le> 1" "0 \<le> L" "L = 0 \<or> 1 \<le> L" "1 \<le> U" "U \<le> 2 ^ 40"
    and "L \<le> x" "x \<le> U" "e = 0 \<or> L * (1 - 1 / 2 ^ 40) \<le> e" "0 \<le> e" "e \<le> U * (1 + 1 / 2 ^ 40)"
  shows "\<exists>e'. next_ema (Fin a) (Fin x) (Fin e) = Fin e' \<and>
      L * (1 - 1 / 2 ^ 40) \<le> e' \<and> 0 \<le> e' \<and> e' \<le> U * (1 + 1 / 2 ^ 40)"
proof (cases "e = 0")
  case True
  have "L * (1 - 1 / 2 ^ 40) \<le> L" "U \<le> U * (1 + 1 / 2 ^ 40)" using assms(3,5) by (auto simp: field_simps)
  with True assms(3,7,8) show ?thesis by (auto simp: next_ema_def zero_one_flt)
next
  case False
  have "0 \<le> L * (1 - 1 / 2 ^ 40)" using mult_nonneg_nonneg [OF assms(3), of "1 - 1 / 2 ^ 40"] by simp
  with next_ema_between [OF assms(1-8) _ assms(11)] False assms(9) show ?thesis by (meson order_trans)
qed

lemma run_state:
  assumes "config_ok cfg mn H" "load_between L U m es" "0 \<le> L" "L = 0 \<or> 1 \<le> L" "1 \<le> U" "U \<le> 2 ^ 40"
    and "ct_cfg c = cfg" "ct_states c = Map.empty" "ct_states (obs_run es c) m = Some st"
  shows "threshold_ok mn H st \<and> ema_in L U st"
proof (rule obs_run_inv [where P = "\<lambda>st. threshold_ok mn H st \<and> ema_in L U st", OF _ _ _ assms(9)])
  obtain a where a: "cf_EMAAlpha cfg = Fin a" "1 / 1024 \<le> a" "a \<le> 1" using assms(1) by (auto simp: config_ok_def)
  fix st s n t
  assume st: "threshold_ok mn H st \<and> ema_in L U st" and ev: "(m, s, n, t) \<in> set es"
  obtain e where e: "ms_cacheUsageEMA st = Fin e" "e = 0 \<or> L * (1 - 1 / 2 ^ 40) \<le> e" "0 \<le> e" "e \<le> U * (1 + 1 / 2 ^ 40)"
    using st by (auto simp: ema_in_def)
  have "ema_in L U (observe_state cfg (ct_budget c) s n t st)"
  proof (cases "mm_HasCacheUsage s")
    case True
    then obtain x where x: "mm_CacheUsagePct s = Fin x" "L \<le> x" "x \<le> U"
      using assms(2) ev by (auto simp: load_between_def)
    from next_ema_step [OF a(2,3) assms(3-6) x(2,3) e(2-4)] show ?thesis
      using True a(1) x(1) e(1) by (auto simp: ema_in_def)
  next
    case False
    then show ?thesis using e by (auto simp: ema_in_def)
  qed
  with st observe_threshold_ok [OF assms(1)] show
    "threshold_ok mn H (observe_state (ct_cfg c) (ct_budget c) s n t st) \<and>
     ema_in L U (observe_state (ct_cfg c) (ct_budget c) s n t st)"
    by (simp add: assms(7))
next
  show "threshold_ok mn H (new_state (ct_cfg c)) \<and> ema_in L U (new_state (ct_cfg c))"
    using assms(1,5) by (auto simp: assms(7) config_ok_def threshold_ok_def ema_in_def new_state_def)
qed (simp add: assms(8))

lemma Allow_cases:
  "dc_Reason (Allow now m c) = CacheOver e h \<Longrightarrow>
     \<exists>st. ct_states c m = Some st \<and> ms_cacheUsageEMA st = e \<and> ms_hardThresholdPct st = h \<and> h \<le> e"
  by (auto simp: Allow_def Let_def split: option.splits if_splits)

text \<open>C34: The cache decision follows the load. Whatever the sequence of observations of all models:
  while every sample of a model stays at most \<open>U\<close>, with \<open>U\<close> below the floor of the dynamic threshold,
  no request for it is refused for cache usage; and while every sample stays at least \<open>L\<close>, with \<open>L\<close>
  above the configured ceiling, a request within three poll intervals of the last sample is refused
  with a retry hint of 5 s. The margin for the float64 average is a relative \<open>2^-40\<close>.\<close>

theorem admission_follows_load:
  assumes "config_ok (withDefaults cfg) mn H" "cf_Enabled cfg"
    and "load_between L U m es" "0 \<le> L" "L = 0 \<or> 1 \<le> L" "1 \<le> U" "U \<le> 2 ^ 40"
    and c_def: "c = obs_run es (New cfg budget clients)"
  shows "(U * (1 + 1 / 2 ^ 40) < mn \<longrightarrow> (\<forall>e h. dc_Reason (Allow now m c) \<noteq> CacheOver e h)) \<and>
    (\<forall>es1 s n t es2. es = es1 @ (m, s, n, t) # es2 \<and> m \<notin> fst ` set es2 \<and> mm_HasCacheUsage s \<and>
        time_sub now t \<le> i64 (3 * cf_PollInterval (withDefaults cfg)) \<and> H \<le> L * (1 - 1 / 2 ^ 40) \<longrightarrow>
        \<not> dc_Allow (Allow now m c) \<and> dc_RetryAfter (Allow now m c) = 5 * second)"
proof (intro conjI impI allI)
  let ?c0 = "New cfg budget clients" and ?cfg = "withDefaults cfg"
  have c0: "ct_cfg ?c0 = ?cfg" "ct_states ?c0 = Map.empty" by (simp_all add: New_def)
  have b0: "ct_budget ?c0 = budget" by (simp add: New_def)
  note run = run_state [OF assms(1,3-7) c0]
  {
    fix e h assume U: "U * (1 + 1 / 2 ^ 40) < mn"
    show "dc_Reason (Allow now m c) \<noteq> CacheOver e h"
    proof
      assume "dc_Reason (Allow now m c) = CacheOver e h"
      from Allow_cases [OF this] obtain st where "ct_states c m = Some st"
          "ms_cacheUsageEMA st = e" "ms_hardThresholdPct st = h" "h \<le> e" by blast
      with run [of st] U show False by (auto simp: c_def threshold_ok_def ema_in_def)
    qed
  next
    fix es1 s n t es2
    assume h: "es = es1 @ (m, s, n, t) # es2 \<and> m \<notin> fst ` set es2 \<and> mm_HasCacheUsage s \<and>
        time_sub now t \<le> i64 (3 * cf_PollInterval (withDefaults cfg)) \<and> H \<le> L * (1 - 1 / 2 ^ 40)"
    let ?c1 = "obs_run es1 ?c0"
    let ?old = "case ct_states ?c1 m of Some st \<Rightarrow> st | None \<Rightarrow> new_state ?cfg"
    let ?st = "observe_state ?cfg budget s n t ?old"
    have c: "ct_states c m = Some ?st"
      using h by (simp add: c_def obs_run_append obs_run_frame observe_states c0 b0 split: option.split)
    have lb1: "load_between L U m es1" using assms(3) h by (auto simp: load_between_def)
    have e0: "ema_in L U ?old"
      using run_state [OF assms(1) lb1 assms(4-7) c0] assms(6)
      by (auto simp: ema_in_def new_state_def split: option.split)
    obtain a where a: "cf_EMAAlpha ?cfg = Fin a" "1 / 1024 \<le> a" "a \<le> 1" using assms(1) by (auto simp: config_ok_def)
    obtain x where x: "mm_CacheUsagePct s = Fin x" "L \<le> x" "x \<le> U"
      using assms(3) [unfolded load_between_def, rule_format, of s n t] h by auto
    obtain e0 where e0: "ms_cacheUsageEMA ?old = Fin e0" "e0 = 0 \<or> L * (1 - 1 / 2 ^ 40) \<le> e0" "0 \<le> e0"
        "e0 \<le> U * (1 + 1 / 2 ^ 40)"
      using e0 unfolding ema_in_def by blast
    obtain e where e: "ms_cacheUsageEMA ?st = Fin e" "L * (1 - 1 / 2 ^ 40) \<le> e"
      using next_ema_step [OF a(2,3) assms(4-7) x(2,3) e0(2-4)] conjunct1 [OF conjunct2 [OF conjunct2 [OF h]]]
      unfolding observe_frame a(1) x(1) e0(1) by auto
    obtain th where "ms_hardThresholdPct ?st = Fin th" "th \<le> H"
      using run [of ?st] c by (auto simp: c_def threshold_ok_def)
    then have "ms_hardThresholdPct ?st \<le> ms_cacheUsageEMA ?st" using e h by simp
    moreover have "cf_Enabled (ct_cfg c)" "ct_cfg c = ?cfg" using assms(2) by (simp_all add: c_def c0 withDefaults_def)
    ultimately have A: "Allow now m c = \<lparr> dc_Allow = False,
        dc_Reason = CacheOver (ms_cacheUsageEMA ?st) (ms_hardThresholdPct ?st), dc_RetryAfter = 5 * second \<rparr>"
      using c h by (simp add: Allow_def)
    show "\<not> dc_Allow (Allow now m c)" "dc_RetryAfter (Allow now m c) = 5 * second" by (simp_all add: A)
  }
qed

text \<open>The default thresholds with a weight of 1/4.\<close>

definition example_config :: Config where
  "example_config = \<lparr> cf_Enabled = True, cf_HardCachePct = Fin 95, cf_SoftCachePct = Fin 80, cf_MaxQueuePerGB = 4,
     cf_PollInterval = 5 * second, cf_EMAAlpha = Fin (1 / 4), cf_CalmDuration = 5 * minute,
     cf_StressMargin = Fin 10, cf_MinHardCachePct = Fin 60 \<rparr>"

lemma example_defaults [simp]: "withDefaults example_config = example_config"
  by (simp add: withDefaults_def example_config_def zero_one_flt)

lemma example_config_ok: "config_ok example_config 60 95"
proof -
  have "\<exists>a. Fin (1 / 4) = Fin a \<and> 1 / 1024 \<le> a \<and> a \<le> 1" by (rule exI [of _ "1 / 4"]) simp
  moreover have "\<exists>g. Fin 10 = Fin g \<and> 0 \<le> g" by simp
  ultimately show ?thesis
    using rnd_of_int [of 60] rnd_of_int [of 95] unfolding config_ok_def example_config_def by simp
qed

definition sample_at :: "flt \<Rightarrow> modelMetrics" where
  "sample_at x = no_metrics\<lparr> mm_CacheUsagePct := x, mm_HasCacheUsage := True \<rparr>"

lemma admission_follows_load_witness:
  "\<not> dc_Allow (Allow 9 [CHR ''m''] (obs_run [([CHR ''m''], sample_at (Fin 97), 1, 7)]
      (New example_config \<lparr> hb_TotalVRAMBytes = 0, hb_TotalRAMBytes = 0, hb_CPUCores = 1 \<rparr> True)))"
proof -
  let ?b = "\<lparr> hb_TotalVRAMBytes = 0, hb_TotalRAMBytes = 0, hb_CPUCores = 1 \<rparr>" and ?m = "[CHR ''m'']"
  have lb: "load_between 97 100 ?m [(?m, sample_at (Fin 97), 1, 7)]"
    by (simp add: load_between_def sample_at_def)
  have ok: "config_ok (withDefaults example_config) 60 95" using example_config_ok by simp
  have en: "cf_Enabled example_config" by (simp add: example_config_def)
  note T = conjunct2 [OF admission_follows_load [OF ok en lb _ _ _ _ refl, where now = 9 and budget = ?b and clients = True],
    rule_format, of "[]" "sample_at (Fin 97)" 1 7 "[]"]
  have "time_sub 9 7 \<le> i64 (3 * cf_PollInterval (withDefaults example_config))"
    unfolding example_defaults by (simp add: example_config_def is_i64_def)
  with T show ?thesis by (simp add: sample_at_def)
qed

subsection \<open>Relaxation\<close>

text \<open>Integer thresholds, with an even margin: the default configuration.\<close>

definition config_int :: "Config \<Rightarrow> int \<Rightarrow> int \<Rightarrow> int \<Rightarrow> bool" where
  "config_int cfg mn H k \<longleftrightarrow> cf_MinHardCachePct cfg = Fin (of_int mn) \<and> cf_HardCachePct cfg = Fin (of_int H) \<and>
     cf_StressMargin cfg = Fin (of_int (2 * k)) \<and> 0 \<le> mn \<and> mn \<le> H \<and> H \<le> 2 ^ 40 \<and> 0 < k \<and> k \<le> 2 ^ 40"

definition threshold_int :: "int \<Rightarrow> int \<Rightarrow> modelState \<Rightarrow> bool" where
  "threshold_int mn H st \<longleftrightarrow> (\<exists>h. ms_hardThresholdPct st = Fin (of_int h) \<and> mn \<le> h \<and> h \<le> H)"

lemma flt_int_ops:
  "\<bar>a\<bar> \<le> 2 ^ 42 \<Longrightarrow> \<bar>b\<bar> \<le> 2 ^ 42 \<Longrightarrow> Fin (of_int a) + Fin (of_int b) = Fin (of_int (a + b))"
  "\<bar>a\<bar> \<le> 2 ^ 42 \<Longrightarrow> \<bar>b\<bar> \<le> 2 ^ 42 \<Longrightarrow> Fin (of_int a) - Fin (of_int b) = Fin (of_int (a - b))"
  "\<bar>a\<bar> \<le> 2 ^ 42 \<Longrightarrow> Fin (of_int (2 * a)) / Fin 2 = Fin (of_int a)"
  using fl_of_int [of "a + b"] fl_of_int [of "a - b"] fl_of_int [of a] by (simp_all add: minus_flt_def)

text \<open>One calm observation: the average is below the soft limit and below the stress band.\<close>

definition calm :: "Config \<Rightarrow> modelState \<Rightarrow> flt \<Rightarrow> bool" where
  "calm cfg st e \<longleftrightarrow> \<not> flit (9 / 10) * ms_hardThresholdPct st \<le> e \<and> e < cf_SoftCachePct cfg"

lemma adjust_calm:
  assumes "config_int cfg mn H k" "ms_hardThresholdPct st = Fin (of_int h)" "mn \<le> h" "h \<le> H"
    and "calm cfg st (ms_cacheUsageEMA st)"
  shows "ms_hardThresholdPct (adjustThreshold cfg now st) =
      (if cf_CalmDuration cfg \<le> time_sub now (if IsZero (ms_calmSince st) then now else ms_calmSince st)
       then Fin (of_int (min H (h + k))) else Fin (of_int h))"
    "ms_calmSince (adjustThreshold cfg now st) =
      (if IsZero (ms_calmSince st) then now
       else if cf_CalmDuration cfg \<le> time_sub now (ms_calmSince st) \<and> h < H then now else ms_calmSince st)"
proof -
  have c: "cf_HardCachePct cfg = Fin (of_int H)" "cf_StressMargin cfg = Fin (of_int (2 * k))" "0 < k" "k \<le> 2 ^ 40"
      "0 \<le> mn" "H \<le> 2 ^ 40" using assms(1) by (auto simp: config_int_def)
  have r: "Fin (of_int h) + Fin (of_int (2 * k)) / Fin 2 = Fin (of_int (h + k))"
    using flt_int_ops(1) [of h k] flt_int_ops(3) [of k] c assms(3,4) by simp
  have n: "\<not> flit (9 / 10) * Fin (of_int h) \<le> ms_cacheUsageEMA st" "ms_cacheUsageEMA st < cf_SoftCachePct cfg"
    using assms(2,5) by (simp_all add: calm_def)
  show "ms_hardThresholdPct (adjustThreshold cfg now st) =
      (if cf_CalmDuration cfg \<le> time_sub now (if IsZero (ms_calmSince st) then now else ms_calmSince st)
       then Fin (of_int (min H (h + k))) else Fin (of_int h))"
    using n assms(2-4) c(3) unfolding adjustThreshold_def Let_def assms(2) c(1,2) r
    by (auto simp: min_def assms(2) simp flip: of_int_add)
  show "ms_calmSince (adjustThreshold cfg now st) =
      (if IsZero (ms_calmSince st) then now
       else if cf_CalmDuration cfg \<le> time_sub now (ms_calmSince st) \<and> h < H then now else ms_calmSince st)"
    using n unfolding adjustThreshold_def Let_def assms(2) c(1,2) r by auto
qed

text \<open>A run of calm observations of one model, each at least the calm duration after the one before.\<close>

fun calm_run :: "Config \<Rightarrow> HostBudget \<Rightarrow> time \<Rightarrow> (modelMetrics \<times> int \<times> time) list \<Rightarrow> modelState \<Rightarrow> bool" where
  "calm_run cfg b t0 [] st \<longleftrightarrow> True"
| "calm_run cfg b t0 ((s, n, t) # es) st \<longleftrightarrow>
     mm_HasCacheUsage s \<and> t0 + cf_CalmDuration cfg \<le> t \<and> t \<noteq> zero_time \<and>
     calm cfg st (next_ema (cf_EMAAlpha cfg) (mm_CacheUsagePct s) (ms_cacheUsageEMA st)) \<and>
     calm_run cfg b t es (observe_state cfg b s n t st)"

lemma observe_calm:
  assumes "config_int cfg mn H k" "ms_hardThresholdPct st = Fin (of_int h)" "mn \<le> h" "h \<le> H"
    and "mm_HasCacheUsage s" "calm cfg st (next_ema (cf_EMAAlpha cfg) (mm_CacheUsagePct s) (ms_cacheUsageEMA st))"
  shows "ms_hardThresholdPct (observe_state cfg b s n now st) =
      (if cf_CalmDuration cfg \<le> time_sub now (if IsZero (ms_calmSince st) then now else ms_calmSince st)
       then Fin (of_int (min H (h + k))) else Fin (of_int h))"
    "ms_calmSince (observe_state cfg b s n now st) =
      (if IsZero (ms_calmSince st) then now
       else if cf_CalmDuration cfg \<le> time_sub now (ms_calmSince st) \<and> h < H then now else ms_calmSince st)"
  using adjust_calm [OF assms(1), of "st\<lparr> ms_lastSample := s, ms_updatedAt := now,
     ms_maxQueueDepth := computeQueueDepth cfg b n, ms_cacheUsageEMA := next_ema (cf_EMAAlpha cfg) (mm_CacheUsagePct s) (ms_cacheUsageEMA st) \<rparr>" h now] assms(2-6)
  by (simp_all add: observe_state_def calm_def)

text \<open>Once the calm timer runs, every further observation raises the threshold by half the margin.\<close>

lemma time_sub_ge: "t0 + d \<le> t \<Longrightarrow> d < 2 ^ 63 \<Longrightarrow> s \<le> t0 \<Longrightarrow> d \<le> time_sub t s"
  by (simp add: time_sub_def)

lemma calm_rise:
  assumes "config_int cfg mn H k" "0 < cf_CalmDuration cfg" "cf_CalmDuration cfg < 2 ^ 63"
    and "calm_run cfg b t0 es st" "\<not> IsZero (ms_calmSince st)" "ms_calmSince st \<le> t0"
    and "ms_hardThresholdPct st = Fin (of_int h)" "mn \<le> h" "h \<le> H"
  shows "ms_hardThresholdPct (fold (\<lambda>(s, n, t). observe_state cfg b s n t) es st) =
     Fin (of_int (min H (h + k * int (length es))))"
  using assms(4-9)
proof (induction es arbitrary: st t0 h)
  case (Cons e es)
  obtain s n t where e: "e = (s, n, t)" by (cases e)
  note c = Cons.prems(1) [unfolded e calm_run.simps]
  have k: "0 < k" using assms(1) by (simp add: config_int_def)
  let ?st' = "observe_state cfg b s n t st"
  note o = observe_calm [OF assms(1) Cons.prems(4-6) conjunct1 [OF c], of b n t]
  have cd: "cf_CalmDuration cfg \<le> time_sub t (ms_calmSince st)"
    using c Cons.prems(3) assms(3) by (intro time_sub_ge [of t0]) auto
  have h': "ms_hardThresholdPct ?st' = Fin (of_int (min H (h + k)))"
    using o(1) c cd Cons.prems(2) by simp
  have z: "\<not> IsZero (ms_calmSince ?st')" "ms_calmSince ?st' \<le> t"
    using o(2) c cd Cons.prems(2,3) assms(2) by (auto simp: IsZero_def)
  have "ms_hardThresholdPct (fold (\<lambda>(s, n, t). observe_state cfg b s n t) es ?st') =
      Fin (of_int (min H (min H (h + k) + k * int (length es))))"
    by (rule Cons.IH [OF _ z h']) (use c k Cons.prems(5,6) in auto)
  moreover have "min H (min H (h + k) + k * int (length es)) = min H (h + k * int (length (e # es)))"
  proof -
    have "0 \<le> k * int (length es)" by (rule mult_nonneg_nonneg) (use k in simp_all)
    moreover have "k * int (length (e # es)) = k + k * int (length es)" by (simp add: algebra_simps)
    ultimately show ?thesis using k by linarith
  qed
  ultimately show ?case by (simp add: e)
qed simp

text \<open>The breaker relaxes. From any state with a threshold between the floor and the ceiling, calm
  observations (average below the soft limit and the stress band), each at least the calm duration
  after the one before, bring the threshold back to the configured ceiling after at most one
  observation to start the timer and one per half margin of the distance; and it never exceeds it.\<close>

theorem admission_relaxes:
  assumes "config_int cfg mn H k" "0 < cf_CalmDuration cfg" "cf_CalmDuration cfg < 2 ^ 63"
    and "ms_hardThresholdPct st = Fin (of_int h)" "mn \<le> h" "h \<le> H" "ms_calmSince st \<le> t0"
    and "calm_run cfg b t0 es st" "H - h \<le> k * (int (length es) - 1)"
  shows "ms_hardThresholdPct (fold (\<lambda>(s, n, t). observe_state cfg b s n t) es st) = cf_HardCachePct cfg"
proof (cases es)
  case Nil
  have "0 < k" using assms(1) by (simp add: config_int_def)
  with Nil assms(6,9) show ?thesis by simp
next
  case (Cons e es')
  obtain s n t where e: "e = (s, n, t)" by (cases e)
  note c = assms(8) [unfolded Cons e calm_run.simps]
  have k: "0 < k" "cf_HardCachePct cfg = Fin (of_int H)" using assms(1) by (simp_all add: config_int_def)
  let ?st' = "observe_state cfg b s n t st"
  note o = observe_calm [OF assms(1,4-6) conjunct1 [OF c], of b n t]
  have z: "\<not> IsZero (ms_calmSince ?st')" "ms_calmSince ?st' \<le> t"
    using o(2) c assms(2,7) by (auto simp: IsZero_def)
  obtain h' where h': "ms_hardThresholdPct ?st' = Fin (of_int h')" "h \<le> h'" "h' \<le> H"
    using o(1) c assms(6) k(1) by (cases "cf_CalmDuration cfg \<le> time_sub t (if IsZero (ms_calmSince st) then t else ms_calmSince st)") auto
  have "ms_hardThresholdPct (fold (\<lambda>(s, n, t). observe_state cfg b s n t) es' ?st') =
      Fin (of_int (min H (h' + k * int (length es'))))"
    by (rule calm_rise [OF assms(1-3) _ z h'(1)]) (use c h' assms(5) in auto)
  moreover have "min H (h' + k * int (length es')) = H"
    using assms(9) h'(2) Cons by (simp add: min_def)
  ultimately show ?thesis by (simp add: Cons e k)
qed

text \<open>From the floor of 60 the default ceiling of 95 is back after eight calm observations.\<close>

definition stressed_state :: modelState where
  "stressed_state = (new_state example_config)\<lparr> ms_hardThresholdPct := Fin 60, ms_cacheUsageEMA := Fin 8 \<rparr>"

definition idle_samples :: "(modelMetrics \<times> int \<times> time) list" where
  "idle_samples = map (\<lambda>t. (sample_at (Fin 8), 1, t)) (map (\<lambda>i. i * (5 * minute)) [1, 2, 3, 4, 5, 6, 7, 8])"

lemma idle_ema: "next_ema (Fin (1 / 4)) (Fin 8) (Fin 8) = Fin 8"
proof -
  have "rnd (3 / 4) = 3 / 4" using rnd_rep [of 3 "- 2"] by (simp add: pow2_def)
  then have "fl (3 / 4) = Fin (3 / 4)" using fl_Fin [OF small_le_pow2_1023, of "3 / 4"] by simp
  then show ?thesis
    using fl_of_int [of 2] fl_of_int [of 6] fl_of_int [of 8] by (simp add: next_ema_def zero_one_flt minus_flt_def)
qed

lemma band_above:
  assumes "60 \<le> h" "h \<le> 95"
  shows "\<not> flit (9 / 10) * Fin h \<le> Fin 8"
proof -
  have n: "flit (9 / 10) = Fin (rnd (9 / 10))" unfolding flit_def by (rule fl_Fin, rule small_le_pow2_1023) simp
  have b: "1 / 2 \<le> rnd (9 / 10)" "rnd (9 / 10) \<le> 1"
    using rnd_mono [of "1 / 2" "9 / 10"] rnd_rep [of 1 "- 1"] rnd_mono [of "9 / 10" 1] rnd_of_int [of 1]
    by (simp_all add: pow2_def)
  have "30 \<le> rnd (9 / 10) * h" using mult_mono [OF b(1), of 60 h] assms(1) b(1) by simp
  moreover have "rnd 30 = 30" using rnd_of_int [of 30] by simp
  ultimately have "Fin 30 \<le> fl (rnd (9 / 10) * h)"
    by (intro fl_ge_rep) (use small_le_pow2_1023 [of 30] in simp_all)
  then show ?thesis unfolding n by (cases "fl (rnd (9 / 10) * h)") auto
qed

lemma idle_run:
  assumes "ms_cacheUsageEMA st = Fin 8" "threshold_ok 60 95 st"
    and "successively (\<lambda>a b. a + 5 * minute \<le> b) (t0 # ts)" "zero_time \<notin> set ts"
  shows "calm_run example_config b t0 (map (\<lambda>t. (sample_at (Fin 8), 1, t)) ts) st"
  using assms
proof (induction ts arbitrary: st t0)
  case (Cons t ts)
  obtain h where h: "ms_hardThresholdPct st = Fin h" "60 \<le> h" "h \<le> 95"
    using Cons.prems(2) by (auto simp: threshold_ok_def)
  have c: "cf_EMAAlpha example_config = Fin (1 / 4)" "cf_SoftCachePct example_config = Fin 80"
      "cf_CalmDuration example_config = 5 * minute" by (simp_all add: example_config_def)
  have s: "mm_HasCacheUsage (sample_at (Fin 8))" "mm_CacheUsagePct (sample_at (Fin 8)) = Fin 8"
    by (simp_all add: sample_at_def)
  let ?st = "observe_state example_config b (sample_at (Fin 8)) 1 t st"
  have "ms_cacheUsageEMA ?st = Fin 8" unfolding observe_frame c(1) s(2) Cons.prems(1) idle_ema by simp
  moreover have "threshold_ok 60 95 ?st"
    by (rule observe_threshold_ok [OF example_config_ok Cons.prems(2)])
  ultimately have "calm_run example_config b t (map (\<lambda>t. (sample_at (Fin 8), 1, t)) ts) ?st"
    by (rule Cons.IH) (use Cons.prems(3,4) in auto)
  moreover have "calm example_config st (Fin 8)" using band_above [OF h(2,3)] by (simp add: calm_def c(2) h(1))
  ultimately show ?case using Cons.prems(3,4) s(1) unfolding list.map calm_run.simps c s(2) Cons.prems(1) idle_ema by auto
qed simp

lemma admission_relaxes_witness:
  "ms_hardThresholdPct (fold (\<lambda>(s, n, t). observe_state example_config
      \<lparr> hb_TotalVRAMBytes = 0, hb_TotalRAMBytes = 0, hb_CPUCores = 1 \<rparr> s n t) idle_samples stressed_state) = Fin 95"
proof -
  let ?b = "\<lparr> hb_TotalVRAMBytes = 0, hb_TotalRAMBytes = 0, hb_CPUCores = 1 \<rparr> :: HostBudget"
  have c: "config_int example_config 60 95 5" by (simp add: config_int_def example_config_def)
  have "threshold_ok 60 95 stressed_state" using rnd_of_int [of 60] by (simp add: threshold_ok_def stressed_state_def)
  then have r: "calm_run example_config ?b 0 idle_samples stressed_state"
    unfolding idle_samples_def by (intro idle_run) (simp_all add: stressed_state_def zero_time_def)
  have l: "length idle_samples = 8" by (simp add: idle_samples_def)
  have d: "cf_HardCachePct example_config = Fin 95" "cf_CalmDuration example_config = 300000000000"
    by (simp_all add: example_config_def)
  show ?thesis
    unfolding d(1) [symmetric]
    by (rule admission_relaxes [OF c _ _ _ _ _ _ r, of 60]) (simp_all add: l d stressed_state_def new_state_def zero_time_def)
qed

lemma obs_run_dom: "ct_states c m \<noteq> None \<Longrightarrow> ct_states (obs_run es c) m \<noteq> None"
  by (induction es c rule: obs_run.induct) (auto simp: observe_states)

lemma obs_run_inv2:
  assumes "\<And>st s n t. P st \<Longrightarrow> P (observe_state (ct_cfg c) (ct_budget c) s n t st)"
    and "\<exists>st. ct_states c m = Some st \<and> P st" "ct_states (obs_run es c) m = Some st"
  shows "P st"
  using assms
proof (induction es c rule: obs_run.induct)
  case (2 m' s n t es c)
  have "\<exists>st. ct_states (observe m' s n t c) m = Some st \<and> P st"
    using "2.prems"(1,2) by (auto simp: observe_states)
  with 2 show ?case by simp
qed simp

subsection \<open>Not a number\<close>

lemma next_ema_NaN: "next_ema a x NaN = NaN" "next_ema a NaN e = NaN"
  by (simp_all add: next_ema_def)

text \<open>One NaN sample disables the cache breaker of a model for good: whatever is observed afterwards,
  of this model and of others, the average stays NaN, and no request for the model is ever refused
  for its cache usage.\<close>

theorem nan_disables_breaker:
  assumes "mm_HasCacheUsage s" "mm_CacheUsagePct s = NaN"
  shows "(\<exists>st. ct_states (obs_run es (observe m s n t c)) m = Some st \<and> ms_cacheUsageEMA st = NaN) \<and>
     (\<forall>e h. dc_Reason (Allow now m (obs_run es (observe m s n t c))) \<noteq> CacheOver e h)"
proof -
  let ?c = "observe m s n t c"
  have nan: "ms_cacheUsageEMA st = NaN"
    if "ct_states (obs_run es' ?c) m = Some st" for st es'
  proof (rule obs_run_inv2 [where P = "\<lambda>st. ms_cacheUsageEMA st = NaN", OF _ _ that])
    show "\<exists>st. ct_states ?c m = Some st \<and> ms_cacheUsageEMA st = NaN"
      using assms by (simp add: observe_states next_ema_NaN)
  qed (simp add: next_ema_NaN)
  have some: "ct_states (obs_run es ?c) m \<noteq> None" by (rule obs_run_dom) (simp add: observe_states)
  then obtain st where st: "ct_states (obs_run es ?c) m = Some st" by blast
  have "dc_Reason (Allow now m (obs_run es ?c)) \<noteq> CacheOver e h" for e h
    using Allow_cases [of now m "obs_run es ?c" e h] st nan [OF st] by auto
  with st nan show ?thesis by blast
qed

text \<open>The parser does produce it.\<close>

lemma nan_disables_breaker_witness:
  "\<forall>e h. dc_Reason (Allow 9 ''m'' (obs_run [(''m'', sample_at (Fin 99), 1, 7), (''m'', sample_at (Fin 100), 1, 8)]
      (observe ''m'' (parsePrometheusMetrics (''vllm:gpu_cache_usage_perc NaN'' @ [CHR 0x0A])) 1 6
        (New example_config \<lparr> hb_TotalVRAMBytes = 0, hb_TotalRAMBytes = 0, hb_CPUCores = 1 \<rparr> True)))) \<noteq> CacheOver e h"
proof -
  define s where "s = parsePrometheusMetrics (''vllm:gpu_cache_usage_perc NaN'' @ [CHR 0x0A])"
  have "mm_HasCacheUsage s" "mm_CacheUsagePct s = NaN" unfolding s_def by code_simp+
  from nan_disables_breaker [OF this] show ?thesis unfolding s_def [symmetric] by blast
qed

end
