(* ===== verification/AuditTrail.thy ===== *)
theory AuditTrail
  imports GoTime FieldCrypto "HOL-Library.Multiset"
begin

text \<open>
  The audit trail (\<open>core/audit\<close>): the entries, the in-memory logger (\<open>logger.go\<close>), the rotated JSON
  lines files (\<open>jsonl.go\<close>), the SQLite store with encrypted columns (\<open>sqlite.go\<close>), the fan-out to
  several sinks (\<open>multi.go\<close>) and the retention pruner (\<open>retention.go\<close>). Clock readings, random bytes,
  the ciphers, the JSON encoder, gzip and the failure of each system call are arguments.
\<close>

subsection \<open>Entries\<close>

datatype AuditLevel = AuditLevelInfo | AuditLevelWarn | AuditLevelError

record AuditLog =
  al_Timestamp :: time
  al_EventType :: gostr
  al_Level :: AuditLevel
  al_User :: gostr
  al_Model :: gostr
  al_Method :: gostr
  al_Endpoint :: gostr
  al_RequestSize :: int
  al_ResponseSize :: int
  al_TokensUsed :: int
  al_TokensGenerated :: int
  al_DurationMS :: int
  al_StatusCode :: int
  al_ErrorMessage :: gostr
  al_IPAddress :: gostr
  al_UserAgent :: gostr
  al_CorrelationID :: gostr

definition empty_entry :: AuditLog where
  "empty_entry = \<lparr> al_Timestamp = zero_time, al_EventType = [], al_Level = AuditLevelInfo, al_User = [],
     al_Model = [], al_Method = [], al_Endpoint = [], al_RequestSize = 0, al_ResponseSize = 0,
     al_TokensUsed = 0, al_TokensGenerated = 0, al_DurationMS = 0, al_StatusCode = 0,
     al_ErrorMessage = [], al_IPAddress = [], al_UserAgent = [], al_CorrelationID = [] \<rparr>"

definition request_entry ::
    "time \<Rightarrow> gostr \<Rightarrow> gostr \<Rightarrow> gostr \<Rightarrow> gostr \<Rightarrow> gostr \<Rightarrow> gostr \<Rightarrow> gostr \<Rightarrow> int \<Rightarrow> AuditLog" where
  "request_entry now user model endpoint method ip ua cid sz =
     empty_entry\<lparr> al_Timestamp := now, al_EventType := ''request'', al_Level := AuditLevelInfo,
       al_User := user, al_Model := model, al_Method := method, al_Endpoint := endpoint,
       al_RequestSize := sz, al_IPAddress := ip, al_UserAgent := ua, al_CorrelationID := cid \<rparr>"

definition response_entry ::
    "time \<Rightarrow> gostr \<Rightarrow> gostr \<Rightarrow> gostr \<Rightarrow> gostr \<Rightarrow> int \<Rightarrow> int \<Rightarrow> int \<Rightarrow> int \<Rightarrow> int \<Rightarrow> AuditLog" where
  "response_entry now user model endpoint cid status sz used generated dur =
     empty_entry\<lparr> al_Timestamp := now, al_EventType := ''response'', al_Level := AuditLevelInfo,
       al_User := user, al_Model := model, al_Endpoint := endpoint, al_ResponseSize := sz,
       al_TokensUsed := used, al_TokensGenerated := generated, al_DurationMS := dur,
       al_StatusCode := status, al_CorrelationID := cid \<rparr>"

definition error_entry :: "time \<Rightarrow> gostr \<Rightarrow> gostr \<Rightarrow> gostr \<Rightarrow> gostr \<Rightarrow> int \<Rightarrow> gostr \<Rightarrow> AuditLog" where
  "error_entry now user endpoint cid msg status ip =
     empty_entry\<lparr> al_Timestamp := now, al_EventType := ''error'', al_Level := AuditLevelError,
       al_User := user, al_Endpoint := endpoint, al_ErrorMessage := msg, al_StatusCode := status,
       al_IPAddress := ip, al_CorrelationID := cid \<rparr>"

definition auth_entry :: "time \<Rightarrow> gostr \<Rightarrow> gostr \<Rightarrow> gostr \<Rightarrow> gostr \<Rightarrow> AuditLog" where
  "auth_entry now user endpoint ip reason =
     empty_entry\<lparr> al_Timestamp := now, al_EventType := ''auth_failure'', al_Level := AuditLevelWarn,
       al_User := user, al_Endpoint := endpoint, al_ErrorMessage := ''auth failed: '' @ reason,
       al_StatusCode := 401, al_IPAddress := ip \<rparr>"

definition stamp :: "time \<Rightarrow> AuditLog \<Rightarrow> AuditLog" where
  "stamp now e = (if IsZero (al_Timestamp e) then e\<lparr> al_Timestamp := now \<rparr> else e)"

subsection \<open>The in-memory logger\<close>

record Logger =
  lg_logs :: "AuditLog list"
  lg_maxLogs :: int

text \<open>A negative capacity makes \<open>make\<close> panic.\<close>

definition NewLogger :: "int \<Rightarrow> Logger option" where
  "NewLogger maxLogs = (if maxLogs < 0 then None else Some \<lparr> lg_logs = [], lg_maxLogs = maxLogs \<rparr>)"

definition trim :: "int \<Rightarrow> AuditLog list \<Rightarrow> AuditLog list" where
  "trim mx logs = (if mx < int (length logs) then drop (length logs - nat mx) logs else logs)"

definition Logger_Log :: "time \<Rightarrow> AuditLog \<Rightarrow> Logger \<Rightarrow> Logger" where
  "Logger_Log now entry l =
     l\<lparr> lg_logs := trim (lg_maxLogs l) (lg_logs l @ [stamp now entry]) \<rparr>"

definition last_logs :: "int \<Rightarrow> AuditLog list \<Rightarrow> AuditLog list" where
  "last_logs n logs =
     (let n' = (if n \<le> 0 \<or> int (length logs) < n then int (length logs) else n)
      in drop (length logs - nat n') logs)"

definition Logger_GetLogs :: "int \<Rightarrow> Logger \<Rightarrow> AuditLog list" where
  "Logger_GetLogs n l = last_logs n (lg_logs l)"

definition Logger_GetLogsByUser :: "gostr \<Rightarrow> Logger \<Rightarrow> AuditLog list" where
  "Logger_GetLogsByUser user l = filter (\<lambda>e. al_User e = user) (lg_logs l)"

definition Logger_GetLogsByModel :: "gostr \<Rightarrow> Logger \<Rightarrow> AuditLog list" where
  "Logger_GetLogsByModel model l = filter (\<lambda>e. al_Model e = model) (lg_logs l)"

definition Logger_GetLogsInTimeRange :: "time \<Rightarrow> time \<Rightarrow> Logger \<Rightarrow> AuditLog list" where
  "Logger_GetLogsInTimeRange start end' l = filter (\<lambda>e. start < al_Timestamp e \<and> al_Timestamp e < end') (lg_logs l)"

definition Logger_ClearLogs :: "Logger \<Rightarrow> Logger" where
  "Logger_ClearLogs l = l\<lparr> lg_logs := [] \<rparr>"

record Stats =
  ss_total_logs :: int
  ss_total_requests :: int
  ss_total_errors :: int
  ss_tokens_used :: int
  ss_tokens_generated :: int
  ss_duration_ms :: int
  ss_unique_users :: int
  ss_unique_models :: int

definition keys_of :: "(AuditLog \<Rightarrow> gostr) \<Rightarrow> AuditLog list \<Rightarrow> gostr list" where
  "keys_of f logs = remdups (filter (\<lambda>u. u \<noteq> []) (map f logs))"

definition stats_step :: "AuditLog \<Rightarrow> Stats \<Rightarrow> Stats" where
  "stats_step e s =
     (if al_EventType e = ''request'' then s\<lparr> ss_total_requests := ss_total_requests s + 1 \<rparr>
      else if al_EventType e = ''error'' then s\<lparr> ss_total_errors := ss_total_errors s + 1 \<rparr>
      else if al_EventType e = ''response'' then
        s\<lparr> ss_tokens_used := i64 (ss_tokens_used s + al_TokensUsed e),
           ss_tokens_generated := i64 (ss_tokens_generated s + al_TokensGenerated e),
           ss_duration_ms := i64 (ss_duration_ms s + al_DurationMS e) \<rparr>
      else s)"

definition no_stats :: Stats where
  "no_stats = \<lparr> ss_total_logs = 0, ss_total_requests = 0, ss_total_errors = 0, ss_tokens_used = 0,
     ss_tokens_generated = 0, ss_duration_ms = 0, ss_unique_users = 0, ss_unique_models = 0 \<rparr>"

definition Logger_GetStats :: "Logger \<Rightarrow> Stats" where
  "Logger_GetStats l =
     (let logs = lg_logs l in
      (fold stats_step logs no_stats)\<lparr> ss_total_logs := int (length logs),
         ss_unique_users := int (length (keys_of al_User logs)),
         ss_unique_models := int (length (keys_of al_Model logs)) \<rparr>)"

text \<open>Requests by user and by model: the counters of the two distributions.\<close>

definition user_count :: "(AuditLog \<Rightarrow> gostr) \<Rightarrow> Logger \<Rightarrow> gostr \<Rightarrow> int option" where
  "user_count f l k = (let n = length (filter (\<lambda>e. f e = k) (lg_logs l)) in if k = [] \<or> n = 0 then None else Some (int n))"

subsection \<open>Rotated JSON lines files\<close>

text \<open>\<open>jl_file\<close> is the current file with whether its handle is open; the encoder writes to it, so a
  record encoded while it is closed is lost. \<open>jl_pending\<close> lists the files whose compression runs in
  the background. The directory is given without a trailing slash.\<close>

record JSONLLogger =
  jl_dir :: gostr
  jl_file :: "(gostr \<times> bool) option"
  jl_day :: gostr
  jl_ring :: "AuditLog list"
  jl_ringMax :: int
  jl_pending :: "gostr list"

record jsonl_env =
  je_now :: time
  je_check :: time
  je_rotate :: time
  je_open_fails :: bool
  je_write_fails :: "nat option"

definition jsonl_path :: "gostr \<Rightarrow> gostr \<Rightarrow> gostr" where
  "jsonl_path dir day = dir @ ''/audit-'' @ day @ ''.jsonl''"

definition rotate :: "jsonl_env \<Rightarrow> JSONLLogger \<Rightarrow> disk \<Rightarrow> JSONLLogger \<times> disk \<times> bool" where
  "rotate env l fs =
     (let l1 = (case jl_file l of None \<Rightarrow> l
                | Some (p, _) \<Rightarrow> l\<lparr> jl_file := Some (p, False), jl_pending := jl_pending l @ [p] \<rparr>);
          day = Format_day (je_rotate env);
          path = jsonl_path (jl_dir l) day
      in if je_open_fails env then (l1, fs, False)
         else (l1\<lparr> jl_file := Some (path, True), jl_day := day \<rparr>,
               fs(path \<mapsto> (case fs path of Some c \<Rightarrow> c | None \<Rightarrow> [])), True))"

definition NewJSONLLogger :: "bool \<Rightarrow> jsonl_env \<Rightarrow> gostr \<Rightarrow> disk \<Rightarrow> (JSONLLogger \<times> disk) option" where
  "NewJSONLLogger mkdir_fails env dir fs =
     (if mkdir_fails then None
      else case rotate env \<lparr> jl_dir = dir, jl_file = None, jl_day = [], jl_ring = [], jl_ringMax = 1000,
                             jl_pending = [] \<rparr> fs of
        (l, fs', ok) \<Rightarrow> if ok then Some (l, fs') else None)"

text \<open>\<open>enc\<close> renders an entry as one line; a failing write leaves a prefix of it in the file.\<close>

definition encode_line :: "(AuditLog \<Rightarrow> gostr) \<Rightarrow> jsonl_env \<Rightarrow> AuditLog \<Rightarrow> JSONLLogger \<Rightarrow> disk \<Rightarrow> disk" where
  "encode_line enc env e l fs =
     (case jl_file l of
        Some (p, True) \<Rightarrow>
          fs(p \<mapsto> (case fs p of Some c \<Rightarrow> c | None \<Rightarrow> []) @
                  (case je_write_fails env of None \<Rightarrow> enc e | Some k \<Rightarrow> take k (enc e)))
      | _ \<Rightarrow> fs)"

definition JSONL_Log :: "(AuditLog \<Rightarrow> gostr) \<Rightarrow> jsonl_env \<Rightarrow> AuditLog \<Rightarrow> JSONLLogger \<Rightarrow> disk \<Rightarrow> JSONLLogger \<times> disk" where
  "JSONL_Log enc env entry l fs =
     (let e = stamp (je_now env) entry;
          (l1, fs1, ok) = (if Format_day (je_check env) \<noteq> jl_day l then rotate env l fs else (l, fs, True))
      in if \<not> ok then (l1, fs1)
         else (l1\<lparr> jl_ring := trim (jl_ringMax l1) (jl_ring l1 @ [e]) \<rparr>, encode_line enc env e l1 fs1))"

definition JSONL_Close :: "JSONLLogger \<Rightarrow> JSONLLogger" where
  "JSONL_Close l = l\<lparr> jl_file := None \<rparr>"

definition JSONL_GetLogs :: "int \<Rightarrow> JSONLLogger \<Rightarrow> AuditLog list" where
  "JSONL_GetLogs n l = last_logs n (jl_ring l)"

definition JSONL_GetLogsByUser :: "gostr \<Rightarrow> JSONLLogger \<Rightarrow> AuditLog list" where
  "JSONL_GetLogsByUser user l = filter (\<lambda>e. al_User e = user) (jl_ring l)"

definition JSONL_GetLogsByModel :: "gostr \<Rightarrow> JSONLLogger \<Rightarrow> AuditLog list" where
  "JSONL_GetLogsByModel model l = filter (\<lambda>e. al_Model e = model) (jl_ring l)"

definition JSONL_GetLogsInTimeRange :: "time \<Rightarrow> time \<Rightarrow> JSONLLogger \<Rightarrow> AuditLog list" where
  "JSONL_GetLogsInTimeRange start end' l = filter (\<lambda>e. start < al_Timestamp e \<and> al_Timestamp e < end') (jl_ring l)"

text \<open>Background compression: which step fails, if any, and how much a failing copy wrote.\<close>

datatype gzip_fault = NoFault | OpenSrc | CreateDst | CopyPart gostr | CloseGz gostr | RemoveSrc

definition gz_ext :: gostr where "gz_ext = ''.gz''"

definition gzipFile :: "(gostr \<Rightarrow> gostr) \<Rightarrow> gzip_fault \<Rightarrow> gostr \<Rightarrow> disk \<Rightarrow> disk" where
  "gzipFile gz fault src fs =
     (if HasSuffix src gz_ext then fs
      else case fs src of
        None \<Rightarrow> fs
      | Some data \<Rightarrow>
          (case fault of
             OpenSrc \<Rightarrow> fs
           | CreateDst \<Rightarrow> fs
           | CopyPart part \<Rightarrow> fs(src @ gz_ext \<mapsto> part)
           | CloseGz part \<Rightarrow> fs(src @ gz_ext \<mapsto> part)
           | RemoveSrc \<Rightarrow> fs(src @ gz_ext \<mapsto> gz data)
           | NoFault \<Rightarrow> fs(src @ gz_ext \<mapsto> gz data, src := None)))"

subsection \<open>The SQLite store\<close>

text \<open>The table in order of insertion, with the primary key of each row; the sensitive columns of
  the stored entries are ciphertexts.\<close>

record SQLiteLogger =
  sl_rows :: "(gostr \<times> AuditLog) list"
  sl_key :: gostr

record sqlite_env =
  qe_now :: time
  qe_nonce_ip :: "gostr option"
  qe_nonce_ua :: "gostr option"
  qe_nonce_err :: "gostr option"
  qe_id :: gostr
  qe_exec_fails :: bool

definition hex_encode :: "gostr \<Rightarrow> gostr" where
  "hex_encode bs = concat (map (\<lambda>c. [hex_char (byte c div 16), hex_char (byte c mod 16)]) bs)"

definition hex_digit_val :: "char \<Rightarrow> nat option" where
  "hex_digit_val c =
     (let n = byte c in if 48 \<le> n \<and> n \<le> 57 then Some (n - 48) else if 97 \<le> n \<and> n \<le> 102 then Some (n - 87)
      else if 65 \<le> n \<and> n \<le> 70 then Some (n - 55) else None)"

fun hex_decode :: "gostr \<Rightarrow> gostr option" where
  "hex_decode [] = Some []"
| "hex_decode [a] = None"
| "hex_decode (a # b # cs) =
     (case (hex_digit_val a, hex_digit_val b) of
        (Some x, Some y) \<Rightarrow> map_option (\<lambda>r. char_of (16 * x + y) # r) (hex_decode cs)
      | _ \<Rightarrow> None)"

text \<open>The salt lives in the \<open>config\<close> table; the four faults are a failing read, random source,
  insert, and none.\<close>

definition deriveKey ::
    "(gostr \<Rightarrow> gostr \<Rightarrow> nat \<Rightarrow> nat \<Rightarrow> gostr) \<Rightarrow> bool \<Rightarrow> gostr option \<Rightarrow> bool \<Rightarrow> gostr \<Rightarrow> disk \<Rightarrow> disk \<times> gostr option" where
  "deriveKey pbkdf2 read_fails rand store_fails password config =
     (let k = ''pbkdf2_salt'';
          key = (\<lambda>salt. map_option (\<lambda>bs. pbkdf2 password bs 100000 32) (hex_decode salt))
      in if read_fails then (config, None)
         else case config k of
           Some salt \<Rightarrow> (config, key salt)
         | None \<Rightarrow>
             (case rand of
                None \<Rightarrow> (config, None)
              | Some bs \<Rightarrow> if store_fails then (config, None)
                           else (config(k \<mapsto> hex_encode bs), key (hex_encode bs))))"

text \<open>The logger on a database with the given rows; \<open>None\<close> when opening it, its schema or its key fails.\<close>

definition NewSQLiteLogger ::
    "(gostr \<Rightarrow> gostr \<Rightarrow> nat \<Rightarrow> nat \<Rightarrow> gostr) \<Rightarrow> bool \<Rightarrow> bool \<Rightarrow> bool \<Rightarrow> gostr option \<Rightarrow> bool \<Rightarrow> gostr \<Rightarrow>
     (gostr \<times> AuditLog) list \<Rightarrow> disk \<Rightarrow> disk \<times> SQLiteLogger option" where
  "NewSQLiteLogger pbkdf2 open_fails schema_fails read_fails rand store_fails password rows config =
     (if open_fails \<or> schema_fails then (config, None)
      else case deriveKey pbkdf2 read_fails rand store_fails password config of
        (config', None) \<Rightarrow> (config', None)
      | (config', Some key) \<Rightarrow> (config', Some \<lparr> sl_rows = rows, sl_key = key \<rparr>))"

definition col_encrypt :: "aead_seal \<Rightarrow> gostr option \<Rightarrow> gostr \<Rightarrow> gostr \<Rightarrow> gostr option" where
  "col_encrypt seal nonce key plaintext =
     (if plaintext = [] then Some []
      else if length key \<notin> {16, 24, 32} then None
      else map_option (\<lambda>n. b64_encode StdEncoding (n @ seal key n plaintext)) nonce)"

definition col_decrypt :: "aead_open \<Rightarrow> gostr \<Rightarrow> gostr \<Rightarrow> gostr" where
  "col_decrypt opn key ct =
     (if ct = [] then []
      else case b64_decode StdEncoding ct of
        None \<Rightarrow> []
      | Some bs \<Rightarrow>
          if length key \<notin> {16, 24, 32} then []
          else if length bs < 12 then []
          else case opn key (take 12 bs) (drop 12 bs) of None \<Rightarrow> [] | Some p \<Rightarrow> p)"

definition or_empty :: "gostr option \<Rightarrow> gostr" where
  "or_empty x = (case x of None \<Rightarrow> [] | Some v \<Rightarrow> v)"

definition seal_entry :: "aead_seal \<Rightarrow> sqlite_env \<Rightarrow> gostr \<Rightarrow> AuditLog \<Rightarrow> AuditLog" where
  "seal_entry seal env key e = e\<lparr>
     al_IPAddress := or_empty (col_encrypt seal (qe_nonce_ip env) key (al_IPAddress e)),
     al_UserAgent := or_empty (col_encrypt seal (qe_nonce_ua env) key (al_UserAgent e)),
     al_ErrorMessage := or_empty (col_encrypt seal (qe_nonce_err env) key (al_ErrorMessage e)) \<rparr>"

definition SQLite_Log :: "aead_seal \<Rightarrow> sqlite_env \<Rightarrow> AuditLog \<Rightarrow> SQLiteLogger \<Rightarrow> SQLiteLogger" where
  "SQLite_Log seal env entry l =
     (let e = stamp (qe_now env) entry; row = (hex_encode (qe_id env), seal_entry seal env (sl_key l) e)
      in if qe_exec_fails env \<or> fst row \<in> set (map fst (sl_rows l)) then l
         else l\<lparr> sl_rows := sl_rows l @ [row] \<rparr>)"

definition scanLogs :: "aead_open \<Rightarrow> gostr \<Rightarrow> AuditLog list \<Rightarrow> AuditLog list" where
  "scanLogs opn key rows = map (\<lambda>e. e\<lparr>
     al_ErrorMessage := col_decrypt opn key (al_ErrorMessage e),
     al_IPAddress := col_decrypt opn key (al_IPAddress e),
     al_UserAgent := col_decrypt opn key (al_UserAgent e) \<rparr>) rows"

text \<open>\<open>ORDER BY timestamp DESC\<close>, walking the timestamp index backwards; a negative limit is none.\<close>

definition order_desc :: "AuditLog list \<Rightarrow> AuditLog list" where
  "order_desc es = rev (sort_key al_Timestamp es)"

definition SQLite_query :: "aead_open \<Rightarrow> bool \<Rightarrow> (AuditLog \<Rightarrow> bool) \<Rightarrow> SQLiteLogger \<Rightarrow> AuditLog list" where
  "SQLite_query opn fails P l =
     (if fails then [] else scanLogs opn (sl_key l) (order_desc (filter P (map snd (sl_rows l)))))"

definition SQLite_GetLogs :: "aead_open \<Rightarrow> bool \<Rightarrow> int \<Rightarrow> SQLiteLogger \<Rightarrow> AuditLog list" where
  "SQLite_GetLogs opn fails n l =
     (let rows = SQLite_query opn fails (\<lambda>_. True) l in if n < 0 then rows else take (nat n) rows)"

definition SQLite_GetLogsByUser :: "aead_open \<Rightarrow> bool \<Rightarrow> gostr \<Rightarrow> SQLiteLogger \<Rightarrow> AuditLog list" where
  "SQLite_GetLogsByUser opn fails user l = SQLite_query opn fails (\<lambda>e. al_User e = user) l"

definition SQLite_GetLogsByModel :: "aead_open \<Rightarrow> bool \<Rightarrow> gostr \<Rightarrow> SQLiteLogger \<Rightarrow> AuditLog list" where
  "SQLite_GetLogsByModel opn fails model l = SQLite_query opn fails (\<lambda>e. al_Model e = model) l"

definition SQLite_GetLogsInTimeRange :: "aead_open \<Rightarrow> bool \<Rightarrow> time \<Rightarrow> time \<Rightarrow> SQLiteLogger \<Rightarrow> AuditLog list" where
  "SQLite_GetLogsInTimeRange opn fails start end' l =
     SQLite_query opn fails (\<lambda>e. start \<le> al_Timestamp e \<and> al_Timestamp e \<le> end') l"

definition sum_responses :: "(AuditLog \<Rightarrow> int) \<Rightarrow> AuditLog list \<Rightarrow> int" where
  "sum_responses f es = sum_list (map f (filter (\<lambda>e. al_EventType e = ''response'') es))"

definition SQLite_GetStats :: "SQLiteLogger \<Rightarrow> Stats" where
  "SQLite_GetStats l =
     (let es = map snd (sl_rows l) in
      no_stats\<lparr> ss_total_logs := int (length es),
        ss_total_requests := int (length (filter (\<lambda>e. al_EventType e = ''request'') es)),
        ss_total_errors := int (length (filter (\<lambda>e. al_EventType e = ''error'') es)),
        ss_tokens_used := sum_responses al_TokensUsed es,
        ss_tokens_generated := sum_responses al_TokensGenerated es,
        ss_unique_users := int (length (remdups (map al_User es))),
        ss_unique_models := int (length (remdups (map al_Model es))) \<rparr>)"

subsection \<open>Retention\<close>

record Pruner =
  pr_retention :: duration
  pr_interval :: duration
  pr_stopped :: bool

definition NewPruner :: "duration \<Rightarrow> duration \<Rightarrow> Pruner" where
  "NewPruner retention interval =
     \<lparr> pr_retention = retention, pr_interval = (if interval < minute then hour else interval), pr_stopped = False \<rparr>"

definition Pruner_Start :: "Pruner \<Rightarrow> bool" where
  "Pruner_Start p \<longleftrightarrow> 0 < pr_retention p"

definition Pruner_Stop :: "Pruner \<Rightarrow> Pruner" where
  "Pruner_Stop p = p\<lparr> pr_stopped := True \<rparr>"

text \<open>The rows deleted and the table left, or \<open>None\<close> when the statement fails.\<close>

definition PruneOnce :: "bool \<Rightarrow> time \<Rightarrow> Pruner \<Rightarrow> SQLiteLogger \<Rightarrow> (int \<times> SQLiteLogger) option" where
  "PruneOnce fails now p l =
     (if pr_retention p \<le> 0 then Some (0, l)
      else if fails then None
      else
        let cutoff = now - pr_retention p;
            old = filter (\<lambda>(_, e). al_Timestamp e < cutoff) (sl_rows l)
        in Some (int (length old), l\<lparr> sl_rows := filter (\<lambda>(_, e). \<not> al_Timestamp e < cutoff) (sl_rows l) \<rparr>))"

subsection \<open>Sinks\<close>

text \<open>The calls of the \<open>AuditLogger\<close> interface that write; every implementation turns one into the
  same entry, stamped with its own clock reading.\<close>

datatype audit_call =
  CallLog AuditLog
| CallRequest gostr gostr gostr gostr gostr gostr gostr int
| CallResponse gostr gostr gostr gostr int int int int int
| CallError gostr gostr gostr gostr int gostr
| CallAuthFailure gostr gostr gostr gostr

fun entry_of :: "time \<Rightarrow> audit_call \<Rightarrow> AuditLog" where
  "entry_of now (CallLog e) = e"
| "entry_of now (CallRequest user model endpoint method ip ua cid sz) =
     request_entry now user model endpoint method ip ua cid sz"
| "entry_of now (CallResponse user model endpoint cid status sz used generated dur) =
     response_entry now user model endpoint cid status sz used generated dur"
| "entry_of now (CallError user endpoint cid msg status ip) = error_entry now user endpoint cid msg status ip"
| "entry_of now (CallAuthFailure user endpoint ip reason) = auth_entry now user endpoint ip reason"

datatype sink = Mem Logger | Jsonl JSONLLogger | Sql SQLiteLogger | MultiSink "sink list"

record log_env =
  lv_call :: time
  lv_mem :: time
  lv_jsonl :: jsonl_env
  lv_sql :: sqlite_env

text \<open>Each sink below a fan-out sees its own environment, addressed by the path of its positions.\<close>

fun sink_call ::
    "(AuditLog \<Rightarrow> gostr) \<Rightarrow> aead_seal \<Rightarrow> (nat list \<Rightarrow> log_env) \<Rightarrow> audit_call \<Rightarrow> sink \<Rightarrow> disk \<Rightarrow> sink \<times> disk"
and sinks_call ::
    "(AuditLog \<Rightarrow> gostr) \<Rightarrow> aead_seal \<Rightarrow> (nat list \<Rightarrow> log_env) \<Rightarrow> audit_call \<Rightarrow> nat \<Rightarrow> sink list \<Rightarrow> disk \<Rightarrow> sink list \<times> disk"
where
  "sink_call enc seal env c (Mem l) fs =
     (Mem (Logger_Log (lv_mem (env [])) (entry_of (lv_call (env [])) c) l), fs)"
| "sink_call enc seal env c (Jsonl l) fs =
     (case JSONL_Log enc (lv_jsonl (env [])) (entry_of (lv_call (env [])) c) l fs of (l', fs') \<Rightarrow> (Jsonl l', fs'))"
| "sink_call enc seal env c (Sql l) fs =
     (Sql (SQLite_Log seal (lv_sql (env [])) (entry_of (lv_call (env [])) c) l), fs)"
| "sink_call enc seal env c (MultiSink ss) fs =
     (case sinks_call enc seal env c 0 ss fs of (ss', fs') \<Rightarrow> (MultiSink ss', fs'))"
| "sinks_call enc seal env c i [] fs = ([], fs)"
| "sinks_call enc seal env c i (s # ss) fs =
     (case sink_call enc seal (\<lambda>p. env (i # p)) c s fs of
        (s', fs') \<Rightarrow> (case sinks_call enc seal env c (Suc i) ss fs' of (ss', fs'') \<Rightarrow> (s' # ss', fs'')))"

fun sink_GetLogsByUser :: "aead_open \<Rightarrow> bool \<Rightarrow> gostr \<Rightarrow> sink \<Rightarrow> AuditLog list" where
  "sink_GetLogsByUser opn fails user (Mem l) = Logger_GetLogsByUser user l"
| "sink_GetLogsByUser opn fails user (Jsonl l) = JSONL_GetLogsByUser user l"
| "sink_GetLogsByUser opn fails user (Sql l) = SQLite_GetLogsByUser opn fails user l"
| "sink_GetLogsByUser opn fails user (MultiSink []) = []"
| "sink_GetLogsByUser opn fails user (MultiSink (s # ss)) = sink_GetLogsByUser opn fails user s"

fun sink_GetLogs :: "aead_open \<Rightarrow> bool \<Rightarrow> int \<Rightarrow> sink \<Rightarrow> AuditLog list" where
  "sink_GetLogs opn fails n (Mem l) = Logger_GetLogs n l"
| "sink_GetLogs opn fails n (Jsonl l) = JSONL_GetLogs n l"
| "sink_GetLogs opn fails n (Sql l) = SQLite_GetLogs opn fails n l"
| "sink_GetLogs opn fails n (MultiSink []) = []"
| "sink_GetLogs opn fails n (MultiSink (s # ss)) = sink_GetLogs opn fails n s"

subsection \<open>What a sink promises\<close>

text \<open>Entries up to the clock reading of the sink.\<close>

definition untimed :: "AuditLog \<Rightarrow> AuditLog" where
  "untimed e = e\<lparr> al_Timestamp := 0 \<rparr>"

definition event_of :: "audit_call \<Rightarrow> AuditLog" where
  "event_of c = untimed (entry_of 0 c)"

definition keep :: "int option \<Rightarrow> 'a list \<Rightarrow> 'a list" where
  "keep room xs = (case room of None \<Rightarrow> xs | Some n \<Rightarrow> take_last (nat n) xs)"

lemma untimed_stamp [simp]: "untimed (stamp t e) = untimed e"
  by (simp add: untimed_def stamp_def)

lemma untimed_entry [simp]: "untimed (entry_of t c) = event_of c"
  by (cases c)
    (simp_all add: event_of_def untimed_def request_entry_def response_entry_def error_entry_def auth_entry_def)

lemma untimed_user [simp]: "al_User (untimed e) = al_User e"
  by (simp add: untimed_def)

lemma trim_take_last: "trim mx xs = take_last (nat mx) xs"
  by (auto simp: trim_def take_last_def)

lemma keep_keep: "keep room (keep room xs @ [x]) = keep room (xs @ [x])"
  by (simp add: keep_def take_last_take_last_snoc split: option.split)

lemma map_take_last: "map f (take_last n xs) = take_last n (map f xs)"
  by (simp add: take_last_def drop_map)

locale audit_sink =
  fixes put :: "'env \<Rightarrow> audit_call \<Rightarrow> 's \<Rightarrow> 's"
    and kept :: "'s \<Rightarrow> AuditLog list"
    and room :: "'s \<Rightarrow> int option"
    and good :: "'env \<Rightarrow> 's \<Rightarrow> bool"
    and by_user :: "gostr \<Rightarrow> 's \<Rightarrow> AuditLog list"
  assumes room_put: "room (put e c s) = room s"
    and kept_put: "good e s \<Longrightarrow>
      map untimed (kept (put e c s)) = keep (room s) (map untimed (kept s) @ [event_of c])"
    and by_user_kept: "mset (by_user u s) = mset (filter (\<lambda>e. al_User e = u) (kept s))"
begin

definition run :: "('env \<times> audit_call) list \<Rightarrow> 's \<Rightarrow> 's" where
  "run evs s = fold (\<lambda>(e, c). put e c) evs s"

fun good_run :: "('env \<times> audit_call) list \<Rightarrow> 's \<Rightarrow> bool" where
  "good_run [] s \<longleftrightarrow> True"
| "good_run ((e, c) # evs) s \<longleftrightarrow> good e s \<and> good_run evs (put e c s)"

lemma run_simps [simp]: "run [] s = s" "run ((e, c) # evs) s = run evs (put e c s)"
  by (simp_all add: run_def)

lemma run_kept:
  "good_run evs s \<Longrightarrow> keep (room s) (map untimed (kept s)) = map untimed (kept s) \<Longrightarrow>
     map untimed (kept (run evs s)) = keep (room s) (map untimed (kept s) @ map (event_of \<circ> snd) evs)"
proof (induction evs arbitrary: s rule: rev_induct)
  case (snoc ev evs)
  obtain e c where ev: "ev = (e, c)" by (cases ev)
  have room: "room (run evs s) = room s" for evs s
    by (induction evs arbitrary: s) (auto simp: room_put)
  have g: "good_run evs s" "good e (run evs s)"
    using snoc.prems(1) unfolding ev by (induction evs arbitrary: s) auto
  have "map untimed (kept (put e c (run evs s))) = keep (room s) (map untimed (kept (run evs s)) @ [event_of c])"
    using kept_put [OF g(2)] room by simp
  also have "\<dots> = keep (room s) (keep (room s) (map untimed (kept s) @ map (event_of \<circ> snd) evs) @ [event_of c])"
    unfolding snoc.IH [OF g(1) snoc.prems(2)] ..
  finally show ?case by (simp add: ev run_def keep_keep comp_def)
qed simp

text \<open>While the sink has room, a user's events are exactly what it reports.\<close>

lemma run_by_user:
  assumes "good_run evs s" "kept s = []" "\<And>n. room s = Some n \<Longrightarrow> int (length evs) \<le> n"
  shows "mset (map untimed (by_user u (run evs s))) =
     mset (filter (\<lambda>e. al_User e = u) (map (event_of \<circ> snd) evs))"
proof -
  have "map untimed (kept (run evs s)) = keep (room s) (map (event_of \<circ> snd) evs)"
    using run_kept [OF assms(1)] assms(2) by (simp add: keep_def take_last_def split: option.split)
  also have "\<dots> = map (event_of \<circ> snd) evs"
    using assms(3) by (cases "room s") (auto simp: keep_def take_last_def nat_le_iff)
  finally have k: "map untimed (kept (run evs s)) = map (event_of \<circ> snd) evs" .
  have "mset (map untimed (by_user u (run evs s))) = image_mset untimed (mset (by_user u (run evs s)))" by simp
  also have "\<dots> = mset (map untimed (filter (\<lambda>e. al_User e = u) (kept (run evs s))))" by (simp add: by_user_kept)
  also have "map untimed (filter (\<lambda>e. al_User e = u) (kept (run evs s))) =
      filter (\<lambda>e. al_User e = u) (map untimed (kept (run evs s)))" by (simp add: filter_map comp_def)
  finally show ?thesis using k by simp
qed

end

subsection \<open>The three sinks\<close>

text \<open>A call reads the clock to build the entry; each sink then takes its own environment.\<close>

definition mem_write :: "time \<times> time \<Rightarrow> audit_call \<Rightarrow> Logger \<Rightarrow> Logger" where
  "mem_write e c l = Logger_Log (snd e) (entry_of (fst e) c) l"

definition jsonl_write :: "(AuditLog \<Rightarrow> gostr) \<Rightarrow> time \<times> jsonl_env \<Rightarrow> audit_call \<Rightarrow> JSONLLogger \<times> disk \<Rightarrow> JSONLLogger \<times> disk" where
  "jsonl_write enc e c s = JSONL_Log enc (snd e) (entry_of (fst e) c) (fst s) (snd s)"

definition sql_write :: "aead_seal \<Rightarrow> time \<times> sqlite_env \<Rightarrow> audit_call \<Rightarrow> SQLiteLogger \<Rightarrow> SQLiteLogger" where
  "sql_write seal e c l = SQLite_Log seal (snd e) (entry_of (fst e) c) l"

text \<open>A good environment for the store: its insert works, the row's key is new, the nonces are
  there, the key has 32 bytes and the cipher opens its own seals.\<close>

definition sql_good :: "aead_seal \<Rightarrow> aead_open \<Rightarrow> time \<times> sqlite_env \<Rightarrow> SQLiteLogger \<Rightarrow> bool" where
  "sql_good seal opn e l \<longleftrightarrow> (\<forall>k n p. opn k n (seal k n p) = Some p) \<and> length (sl_key l) = 32 \<and>
     \<not> qe_exec_fails (snd e) \<and> hex_encode (qe_id (snd e)) \<notin> set (map fst (sl_rows l)) \<and>
     (\<forall>n \<in> {qe_nonce_ip (snd e), qe_nonce_ua (snd e), qe_nonce_err (snd e)}. \<exists>b. n = Some b \<and> length b = 12)"

lemma b64_encode_nonempty: "b64_encode e (b @ x) = [] \<Longrightarrow> length b = 12 \<Longrightarrow> False"
  by (cases "(e, b @ x)" rule: b64_encode.cases) auto

lemma col_roundtrip:
  assumes "\<And>k n p. opn k n (seal k n p) = Some p" "length key = 32" "nonce = Some b" "length b = 12"
  shows "col_decrypt opn key (or_empty (col_encrypt seal nonce key v)) = v"
  using assms b64_encode_nonempty by (auto simp: col_encrypt_def col_decrypt_def or_empty_def)

lemma seal_entry_roundtrip:
  assumes "sql_good seal opn e l"
  shows "scanLogs opn (sl_key l) [seal_entry seal (snd e) (sl_key l) x] = [x]"
proof -
  have r: "col_decrypt opn (sl_key l) (or_empty (col_encrypt seal n (sl_key l) v)) = v"
    if "n \<in> {qe_nonce_ip (snd e), qe_nonce_ua (snd e), qe_nonce_err (snd e)}" for n v
  proof -
    from assms that obtain b where "n = Some b" "length b = 12" unfolding sql_good_def by blast
    then show ?thesis using assms by (intro col_roundtrip) (auto simp: sql_good_def)
  qed
  show ?thesis by (simp add: scanLogs_def seal_entry_def r)
qed

lemma scanLogs_append: "scanLogs opn key (xs @ ys) = scanLogs opn key xs @ scanLogs opn key ys"
  by (simp add: scanLogs_def)

lemma mset_order_desc [simp]: "mset (order_desc es) = mset es"
  by (simp add: order_desc_def)

lemma scanLogs_filter_user:
  "scanLogs opn key (filter (\<lambda>e. al_User e = u) es) = filter (\<lambda>e. al_User e = u) (scanLogs opn key es)"
  by (induction es) (auto simp: scanLogs_def)

lemma mset_scanLogs: "mset es = mset es' \<Longrightarrow> mset (scanLogs opn key es) = mset (scanLogs opn key es')"
  by (simp add: scanLogs_def)

interpretation mem: audit_sink mem_write lg_logs "\<lambda>l. Some (lg_maxLogs l)" "\<lambda>e l. True" Logger_GetLogsByUser
proof
  fix e c s u
  show "map untimed (lg_logs (mem_write e c s)) = keep (Some (lg_maxLogs s)) (map untimed (lg_logs s) @ [event_of c])"
    by (simp add: mem_write_def Logger_Log_def trim_take_last keep_def map_take_last)
qed (simp_all add: mem_write_def Logger_Log_def Logger_GetLogsByUser_def)

interpretation jsonl: audit_sink "jsonl_write enc" "\<lambda>s. jl_ring (fst s)" "\<lambda>s. Some (jl_ringMax (fst s))"
  "\<lambda>e s. \<not> je_open_fails (snd e)" "\<lambda>u s. JSONL_GetLogsByUser u (fst s)" for enc
proof
  fix e :: "time \<times> jsonl_env" and c s u
  have r: "jl_ring (fst (rotate (snd e) (fst s) (snd s))) = jl_ring (fst s)"
    "jl_ringMax (fst (rotate (snd e) (fst s) (snd s))) = jl_ringMax (fst s)"
    "snd (snd (rotate (snd e) (fst s) (snd s))) \<longleftrightarrow> \<not> je_open_fails (snd e)"
    by (auto simp: rotate_def Let_def split: option.split)
  show "Some (jl_ringMax (fst (jsonl_write enc e c s))) = Some (jl_ringMax (fst s))"
    using r by (auto simp: jsonl_write_def JSONL_Log_def Let_def split: prod.splits)
  show "map untimed (jl_ring (fst (jsonl_write enc e c s))) =
      keep (Some (jl_ringMax (fst s))) (map untimed (jl_ring (fst s)) @ [event_of c])"
    if "\<not> je_open_fails (snd e)"
    using r that
    by (auto simp: jsonl_write_def JSONL_Log_def Let_def trim_take_last keep_def map_take_last split: prod.splits)
qed (simp add: JSONL_GetLogsByUser_def)

interpretation sqls: audit_sink "sql_write seal" "\<lambda>l. scanLogs opn (sl_key l) (map snd (sl_rows l))" "\<lambda>l. None"
  "sql_good seal opn" "SQLite_GetLogsByUser opn False" for seal opn
proof
  fix e c s u
  show "map untimed (scanLogs opn (sl_key (sql_write seal e c s)) (map snd (sl_rows (sql_write seal e c s)))) =
      keep None (map untimed (scanLogs opn (sl_key s) (map snd (sl_rows s))) @ [event_of c])" if "sql_good seal opn e s"
    using seal_entry_roundtrip [OF that] that
    by (auto simp: sql_write_def SQLite_Log_def Let_def sql_good_def keep_def scanLogs_append)
  show "mset (SQLite_GetLogsByUser opn False u s) =
      mset (filter (\<lambda>e. al_User e = u) (scanLogs opn (sl_key s) (map snd (sl_rows s))))"
    unfolding SQLite_GetLogsByUser_def SQLite_query_def
    by (simp add: mset_scanLogs [OF mset_order_desc] scanLogs_filter_user)
qed simp

subsection \<open>No event is lost\<close>

fun mem_run :: "((time \<times> time) \<times> audit_call) list \<Rightarrow> Logger \<Rightarrow> Logger" where
  "mem_run [] l = l"
| "mem_run ((e, c) # evs) l = mem_run evs (mem_write e c l)"

fun jsonl_run :: "(AuditLog \<Rightarrow> gostr) \<Rightarrow> ((time \<times> jsonl_env) \<times> audit_call) list \<Rightarrow> JSONLLogger \<times> disk \<Rightarrow> JSONLLogger \<times> disk" where
  "jsonl_run enc [] s = s"
| "jsonl_run enc ((e, c) # evs) s = jsonl_run enc evs (jsonl_write enc e c s)"

fun sql_run :: "aead_seal \<Rightarrow> ((time \<times> sqlite_env) \<times> audit_call) list \<Rightarrow> SQLiteLogger \<Rightarrow> SQLiteLogger" where
  "sql_run seal [] l = l"
| "sql_run seal ((e, c) # evs) l = sql_run seal evs (sql_write seal e c l)"

fun sql_all_good :: "aead_seal \<Rightarrow> aead_open \<Rightarrow> ((time \<times> sqlite_env) \<times> audit_call) list \<Rightarrow> SQLiteLogger \<Rightarrow> bool" where
  "sql_all_good seal opn [] l \<longleftrightarrow> True"
| "sql_all_good seal opn ((e, c) # evs) l \<longleftrightarrow> sql_good seal opn e l \<and> sql_all_good seal opn evs (sql_write seal e c l)"

lemma mem_run_eq: "mem_run evs l = mem.run evs l"
  by (induction evs l rule: mem_run.induct) simp_all

lemma jsonl_run_eq: "jsonl_run enc evs s = jsonl.run enc evs s"
  by (induction enc evs s rule: jsonl_run.induct) simp_all

lemma sql_run_eq: "sql_run seal evs l = sqls.run seal evs l"
  by (induction seal evs l rule: sql_run.induct) simp_all

lemma mem_good_run: "mem.good_run evs l"
  by (induction evs l rule: mem_run.induct) simp_all

lemma jsonl_good_run: "jsonl.good_run enc evs s \<longleftrightarrow> list_all (\<lambda>(e, c). \<not> je_open_fails (snd e)) evs"
  by (induction enc evs s rule: jsonl_run.induct) auto

lemma sql_good_run: "sqls.good_run seal opn evs l \<longleftrightarrow> sql_all_good seal opn evs l"
  by (induction seal opn evs l rule: sql_all_good.induct) simp_all

lemmas runs_eq = mem_run_eq jsonl_run_eq sql_run_eq mem_good_run jsonl_good_run sql_good_run

text \<open>The events of a user among the calls.\<close>

definition user_events :: "gostr \<Rightarrow> ('e \<times> audit_call) list \<Rightarrow> AuditLog list" where
  "user_events u evs = filter (\<lambda>e. al_User e = u) (map (event_of \<circ> snd) evs)"

text \<open>Every sink reports every event of a user, with its fields intact, as long as it has room and
  its environment does not fail: the memory logger its last \<open>maxLogs\<close> entries, the JSON lines logger
  its ring of 1000, and SQLite all of them through encryption and decryption of the sensitive columns,
  whatever is logged for other users in between.\<close>

theorem sinks_report_all:
  assumes "NewLogger m = Some l" "int (length em) \<le> m"
    and "NewJSONLLogger False env dir fs = Some (j, fs')" "list_all (\<lambda>(e, c). \<not> je_open_fails (snd e)) ej" "length ej \<le> 1000"
    and "sql_all_good seal opn eq q" "sl_rows q = []"
  shows "mset (map untimed (Logger_GetLogsByUser u (mem_run em l))) = mset (user_events u em) \<and>
     mset (map untimed (JSONL_GetLogsByUser u (fst (jsonl_run enc ej (j, fs'))))) = mset (user_events u ej) \<and>
     mset (map untimed (SQLite_GetLogsByUser opn False u (sql_run seal eq q))) = mset (user_events u eq)"
proof (intro conjI)
  have l: "lg_logs l = []" "lg_maxLogs l = m" using assms(1) by (auto simp: NewLogger_def split: if_splits)
  show "mset (map untimed (Logger_GetLogsByUser u (mem_run em l))) = mset (user_events u em)"
    unfolding runs_eq user_events_def
    by (rule mem.run_by_user [OF runs_eq(4)]) (use l assms(2) in auto)
  have j: "jl_ring j = []" "jl_ringMax j = 1000"
    using assms(3) by (auto simp: NewJSONLLogger_def rotate_def Let_def split: if_splits)
  show "mset (map untimed (JSONL_GetLogsByUser u (fst (jsonl_run enc ej (j, fs'))))) = mset (user_events u ej)"
    unfolding runs_eq user_events_def
    by (rule jsonl.run_by_user) (use j assms(4,5) runs_eq(5) in auto)
  show "mset (map untimed (SQLite_GetLogsByUser opn False u (sql_run seal eq q))) = mset (user_events u eq)"
    unfolding runs_eq user_events_def
    by (rule sqls.run_by_user [where opn = opn]) (use assms(6,7) runs_eq(6) in \<open>auto simp: scanLogs_def\<close>)
qed

subsection \<open>The fan-out\<close>

text \<open>What a leaf does to its own state does not depend on the disk: a run of calls on one sink.\<close>

fun sink_run ::
    "(AuditLog \<Rightarrow> gostr) \<Rightarrow> aead_seal \<Rightarrow> ((nat list \<Rightarrow> log_env) \<times> audit_call) list \<Rightarrow> sink \<Rightarrow> disk \<Rightarrow> sink \<times> disk" where
  "sink_run enc seal [] s fs = (s, fs)"
| "sink_run enc seal ((env, c) # evs) s fs =
     (case sink_call enc seal env c s fs of (s', fs') \<Rightarrow> sink_run enc seal evs s' fs')"

definition below :: "nat \<Rightarrow> ((nat list \<Rightarrow> log_env) \<times> audit_call) list \<Rightarrow> ((nat list \<Rightarrow> log_env) \<times> audit_call) list" where
  "below j evs = map (\<lambda>(env, c). (\<lambda>p. env (j # p), c)) evs"

lemma rotate_disk: "fst (rotate env l fs) = fst (rotate env l fs')" "snd (snd (rotate env l fs)) = snd (snd (rotate env l fs'))"
  by (simp_all add: rotate_def Let_def)

lemma jsonl_disk: "fst (JSONL_Log enc env e l fs) = fst (JSONL_Log enc env e l fs')"
  using rotate_disk [of env l fs fs']
  by (cases "rotate env l fs"; cases "rotate env l fs'") (auto simp: JSONL_Log_def Let_def)

lemma sink_call_disk:
  "fst (sink_call enc seal env c s fs) = fst (sink_call enc seal env c s fs')"
  "fst (sinks_call enc seal env c i ss fs) = fst (sinks_call enc seal env c i ss fs')"
proof (induction enc seal env c s fs and enc seal env c i ss fs arbitrary: fs' and fs' rule: sink_call_sinks_call.induct)
  case (2 enc seal env c l fs)
  then show ?case using jsonl_disk [of enc "lv_jsonl (env [])" "entry_of (lv_call (env [])) c" l fs fs'] by (auto split: prod.split)
next
  case (4 enc seal env c ss fs)
  then show ?case by (auto split: prod.split) (metis fst_conv)
next
  case (6 enc seal env c i s ss fs)
  show ?case
    using "6.IH"(1) [of fs'] "6.IH"(2) by (auto split: prod.split) (metis fst_conv)
qed auto

lemma sinks_call_nth:
  "length (fst (sinks_call enc seal env c i ss fs)) = length ss"
  "j < length ss \<Longrightarrow> fst (sinks_call enc seal env c i ss fs) ! j = fst (sink_call enc seal (\<lambda>p. env ((i + j) # p)) c (ss ! j) fs')"
proof (induction ss arbitrary: i j fs)
  case (Cons s ss)
  {
    case 1
    then show ?case using Cons.IH(1) by (auto split: prod.split) (metis fst_conv)
  next
    case 2
    obtain s' fs1 where s: "sink_call enc seal (\<lambda>p. env (i # p)) c s fs = (s', fs1)" by (cases "sink_call enc seal (\<lambda>p. env (i # p)) c s fs")
    obtain ss' fs2 where ss: "sinks_call enc seal env c (Suc i) ss fs1 = (ss', fs2)" by (cases "sinks_call enc seal env c (Suc i) ss fs1")
    show ?case
    proof (cases j)
      case 0
      then show ?thesis using s ss sink_call_disk(1) [of enc seal "\<lambda>p. env (i # p)" c s fs fs'] by simp
    next
      case (Suc k)
      then show ?thesis using 2 s ss Cons.IH(2) [of k "Suc i" fs1] by simp
    qed
  }
qed simp_all

lemma sink_run_disk: "fst (sink_run enc seal evs s fs) = fst (sink_run enc seal evs s fs')"
proof (induction evs arbitrary: s fs fs')
  case (Cons ev evs)
  obtain env c where ev: "ev = (env, c)" by (cases ev)
  show ?case using sink_call_disk(1) [of enc seal env c s fs fs'] Cons.IH by (auto simp: ev split: prod.split)
qed simp


end
