(* ===== verification/Archive.thy ===== *)
theory Archive
  imports AuditTrail
begin

text \<open>
  The rotated JSON lines archive (\<open>core/audit/jsonl.go\<close>) as a system: calls of the logger interleaved
  with the compressions it starts in the background, over the content of the disk.
\<close>

subsection \<open>Steps\<close>

text \<open>The JSON lines logger, its disk, and the record of what was written: day and line of every
  entry, in order. \<open>as_now\<close> is the last clock reading.\<close>

record archive =
  as_log :: JSONLLogger
  as_disk :: disk
  as_written :: "(gostr \<times> gostr) list"
  as_now :: time

text \<open>A step is a call without a fault, at readings that do not go back, or a background
  compression, which may fail anywhere.\<close>

inductive archive_step :: "(AuditLog \<Rightarrow> gostr) \<Rightarrow> (gostr \<Rightarrow> gostr) \<Rightarrow> archive \<Rightarrow> archive \<Rightarrow> bool" for enc gz where
  append: "\<lbrakk> as_now s \<le> je_check env; je_check env \<le> je_rotate env; 0 \<le> Year (je_check env); 0 \<le> Year (je_rotate env);
      \<not> je_open_fails env; je_write_fails env = None;
      JSONL_Log enc env e (as_log s) (as_disk s) = (l', fs') \<rbrakk> \<Longrightarrow>
    archive_step enc gz s \<lparr> as_log = l', as_disk = fs',
      as_written = as_written s @ [(jl_day l', enc (stamp (je_now env) e))], as_now = je_rotate env \<rparr>"
| compress: "p \<in> set (jl_pending (as_log s)) \<Longrightarrow>
    archive_step enc gz s (s\<lparr> as_log := (as_log s)\<lparr> jl_pending := remove1 p (jl_pending (as_log s)) \<rparr>,
      as_disk := gzipFile gz fault p (as_disk s) \<rparr>)"

text \<open>The content of a day's file, plain or compressed.\<close>

definition day_content :: "(gostr \<Rightarrow> gostr) \<Rightarrow> gostr \<Rightarrow> disk \<Rightarrow> gostr \<Rightarrow> gostr" where
  "day_content gunzip dir fs d =
     (case fs (jsonl_path dir d) of Some c \<Rightarrow> c
      | None \<Rightarrow> (case fs (jsonl_path dir d @ gz_ext) of Some z \<Rightarrow> gunzip z | None \<Rightarrow> []))"

definition written_on :: "gostr \<Rightarrow> (gostr \<times> gostr) list \<Rightarrow> gostr" where
  "written_on d ws = concat (map snd (filter (\<lambda>w. fst w = d) ws))"

lemma written_on_append: "written_on d (ws @ [(d', x)]) = written_on d ws @ (if d' = d then x else [])"
  by (simp add: written_on_def)

lemma jsonl_path_inj [simp]: "jsonl_path dir d = jsonl_path dir d' \<longleftrightarrow> d = d'"
  by (simp add: jsonl_path_def)

lemma last_jsonl_path: "last (jsonl_path dir d) = CHR ''l''"
  by (simp add: jsonl_path_def)

lemma gz_ext_last [simp]: "gz_ext \<noteq> []" "last gz_ext = CHR ''z''"
  by (simp_all add: gz_ext_def)

lemma jsonl_path_gz [simp]: "jsonl_path dir d \<noteq> jsonl_path dir' d' @ gz_ext" "jsonl_path dir' d' @ gz_ext \<noteq> jsonl_path dir d"
proof -
  have "last (jsonl_path dir d) \<noteq> last (jsonl_path dir' d' @ gz_ext)"
    unfolding last_jsonl_path last_appendR [OF gz_ext_last(1)] gz_ext_last(2) by simp
  then show "jsonl_path dir d \<noteq> jsonl_path dir' d' @ gz_ext" "jsonl_path dir' d' @ gz_ext \<noteq> jsonl_path dir d" by metis+
qed

lemma jsonl_path_not_gz [simp]: "\<not> HasSuffix (jsonl_path dir d) gz_ext"
proof
  assume "HasSuffix (jsonl_path dir d) gz_ext"
  then have "drop (length (jsonl_path dir d) - length gz_ext) (jsonl_path dir d) = gz_ext" by (simp add: HasSuffix_def)
  then have "last (jsonl_path dir d) = last gz_ext" by (metis gz_ext_last(1) last_drop length_drop length_greater_0_conv zero_less_diff)
  then show False unfolding last_jsonl_path gz_ext_last(2) by simp
qed

text \<open>Compressing one day's file keeps the content of every day, whatever fails, as long as that
  file is there.\<close>

lemma gzip_content:
  assumes "\<And>x. gunzip (gz x) = x"
  shows "day_content gunzip dir (gzipFile gz fault (jsonl_path dir d') fs) d = day_content gunzip dir fs d"
  using assms by (auto simp: gzipFile_def day_content_def split: option.splits gzip_fault.splits)

text \<open>What holds in every reachable state: today's file is open, every file in the queue belongs to
  an earlier day, and each day's content is what was written on it.\<close>

definition archive_ok :: "(gostr \<Rightarrow> gostr) \<Rightarrow> gostr \<Rightarrow> archive \<Rightarrow> bool" where
  "archive_ok gunzip dir s \<longleftrightarrow> jl_dir (as_log s) = dir \<and>
     (\<exists>t. jl_day (as_log s) = Format_day t \<and> 0 \<le> Year t \<and> t \<le> as_now s \<and>
        jl_file (as_log s) = Some (jsonl_path dir (Format_day t), True) \<and>
        as_disk s (jsonl_path dir (Format_day t)) \<noteq> None \<and>
        (\<forall>p \<in> set (jl_pending (as_log s)). \<exists>t'. p = jsonl_path dir (Format_day t') \<and> 0 \<le> Year t' \<and> day_of t' < day_of t) \<and>
        (\<forall>d. as_disk s (jsonl_path dir d) \<noteq> None \<or> as_disk s (jsonl_path dir d @ gz_ext) \<noteq> None \<longrightarrow>
           (\<exists>t'. d = Format_day t' \<and> 0 \<le> Year t' \<and> day_of t' \<le> day_of t))) \<and>
     (\<forall>d. day_content gunzip dir (as_disk s) d = written_on d (as_written s))"

lemma gzip_dom:
  "gzipFile gz fault (jsonl_path dir d') fs (jsonl_path dir d) \<noteq> None \<or>
   gzipFile gz fault (jsonl_path dir d') fs (jsonl_path dir d @ gz_ext) \<noteq> None \<Longrightarrow>
   fs (jsonl_path dir d) \<noteq> None \<or> fs (jsonl_path dir d @ gz_ext) \<noteq> None"
  by (auto simp: gzipFile_def split: option.splits gzip_fault.splits if_splits)

lemma gzip_other: "d \<noteq> d' \<Longrightarrow> gzipFile gz fault (jsonl_path dir d') fs (jsonl_path dir d) = fs (jsonl_path dir d)"
  by (auto simp: gzipFile_def split: option.splits gzip_fault.splits)

lemma archive_compress:
  assumes "archive_ok gunzip dir s" "\<And>x. gunzip (gz x) = x" "p \<in> set (jl_pending (as_log s))"
  shows "archive_ok gunzip dir (s\<lparr> as_log := (as_log s)\<lparr> jl_pending := remove1 p (jl_pending (as_log s)) \<rparr>,
      as_disk := gzipFile gz fault p (as_disk s) \<rparr>)"
proof -
  obtain t where t: "jl_day (as_log s) = Format_day t" "0 \<le> Year t" "t \<le> as_now s"
      "jl_file (as_log s) = Some (jsonl_path dir (Format_day t), True)"
      "as_disk s (jsonl_path dir (Format_day t)) \<noteq> None"
      "\<forall>p \<in> set (jl_pending (as_log s)). \<exists>t'. p = jsonl_path dir (Format_day t') \<and> 0 \<le> Year t' \<and> day_of t' < day_of t"
      "\<forall>d. as_disk s (jsonl_path dir d) \<noteq> None \<or> as_disk s (jsonl_path dir d @ gz_ext) \<noteq> None \<longrightarrow>
           (\<exists>t'. d = Format_day t' \<and> 0 \<le> Year t' \<and> day_of t' \<le> day_of t)"
    using assms(1) by (auto simp: archive_ok_def)
  obtain t' where p: "p = jsonl_path dir (Format_day t')" "0 \<le> Year t'" "day_of t' < day_of t" using t(6) assms(3) by blast
  have ne: "Format_day t \<noteq> Format_day t'" using Format_day_inj [OF t(2) p(2)] p(3) by auto
  let ?fs = "gzipFile gz fault p (as_disk s)"
  have "?fs (jsonl_path dir (Format_day t)) \<noteq> None" using gzip_other [OF ne] t(5) unfolding p(1) by simp
  moreover have "\<exists>t'. d = Format_day t' \<and> 0 \<le> Year t' \<and> day_of t' \<le> day_of t"
    if "?fs (jsonl_path dir d) \<noteq> None \<or> ?fs (jsonl_path dir d @ gz_ext) \<noteq> None" for d
    using gzip_dom [OF that [unfolded p(1)]] t(7) by blast
  moreover have "day_content gunzip dir ?fs d = written_on d (as_written s)" for d
    using assms(1) gzip_content [of gunzip gz, OF assms(2)] unfolding p(1) archive_ok_def by simp
  moreover have "\<forall>q \<in> set (remove1 p (jl_pending (as_log s))). \<exists>t'. q = jsonl_path dir (Format_day t') \<and> 0 \<le> Year t' \<and> day_of t' < day_of t"
    using t(6) notin_set_remove1 by metis
  moreover have "jl_dir (as_log s) = dir" using assms(1) by (simp add: archive_ok_def)
  ultimately show ?thesis
    unfolding archive_ok_def using t(1-4) by (intro conjI exI [of _ t]) simp_all
qed

lemma day_content_upd:
  "day_content gunzip dir (fs(jsonl_path dir d' \<mapsto> c)) d = (if d = d' then c else day_content gunzip dir fs d)"
  by (auto simp: day_content_def split: option.split)

lemma archive_append:
  assumes "archive_ok gunzip dir s"
    and "as_now s \<le> je_check env" "je_check env \<le> je_rotate env" "0 \<le> Year (je_check env)" "0 \<le> Year (je_rotate env)"
    and "\<not> je_open_fails env" "je_write_fails env = None"
    and "JSONL_Log enc env e (as_log s) (as_disk s) = (l', fs')"
  shows "archive_ok gunzip dir \<lparr> as_log = l', as_disk = fs',
      as_written = as_written s @ [(jl_day l', enc (stamp (je_now env) e))], as_now = je_rotate env \<rparr>"
proof -
  let ?l = "as_log s" and ?x = "enc (stamp (je_now env) e)"
  obtain t where t: "jl_day ?l = Format_day t" "0 \<le> Year t" "t \<le> as_now s"
      "jl_file ?l = Some (jsonl_path dir (Format_day t), True)"
      "as_disk s (jsonl_path dir (Format_day t)) \<noteq> None"
      "\<forall>p \<in> set (jl_pending ?l). \<exists>t'. p = jsonl_path dir (Format_day t') \<and> 0 \<le> Year t' \<and> day_of t' < day_of t"
      "\<forall>d. as_disk s (jsonl_path dir d) \<noteq> None \<or> as_disk s (jsonl_path dir d @ gz_ext) \<noteq> None \<longrightarrow>
           (\<exists>t'. d = Format_day t' \<and> 0 \<le> Year t' \<and> day_of t' \<le> day_of t)"
    and dir: "jl_dir ?l = dir" and cont: "\<And>d. day_content gunzip dir (as_disk s) d = written_on d (as_written s)"
    using assms(1) by (auto simp: archive_ok_def)
  show ?thesis
  proof (cases "Format_day (je_check env) = jl_day ?l")
    case True
    obtain c where c: "as_disk s (jsonl_path dir (Format_day t)) = Some c" using t(5) by blast
    have l': "l' = ?l\<lparr> jl_ring := trim (jl_ringMax ?l) (jl_ring ?l @ [stamp (je_now env) e]) \<rparr>"
        "fs' = (as_disk s)(jsonl_path dir (Format_day t) \<mapsto> c @ ?x)"
      using assms(7,8) True by (auto simp: JSONL_Log_def encode_line_def Let_def t(4) c)
    have "day_content gunzip dir fs' d = written_on d (as_written s @ [(Format_day t, ?x)])" for d
      using cont [of d] cont [of "Format_day t"] c
      by (simp add: l'(2) day_content_upd written_on_append) (simp add: day_content_def)
    moreover have "\<exists>t'. d = Format_day t' \<and> 0 \<le> Year t' \<and> day_of t' \<le> day_of t"
      if "fs' (jsonl_path dir d) \<noteq> None \<or> fs' (jsonl_path dir d @ gz_ext) \<noteq> None" for d
      using that t(7) c by (auto simp: l'(2) split: if_splits)
    moreover have "t \<le> je_rotate env" using t(3) assms(2,3) by linarith
    ultimately show ?thesis using t(1,2,4,6) dir l' by (auto simp: archive_ok_def)
  next
    case False
    let ?r = "je_rotate env"
    have "day_of t \<le> day_of (je_check env)" by (rule day_of_mono) (use t(3) assms(2) in linarith)
    moreover have "day_of t \<noteq> day_of (je_check env)"
      using False Format_day_inj [OF t(2) assms(4)] by (simp add: t(1))
    ultimately have lt: "day_of t < day_of ?r" using day_of_mono [OF assms(3)] by linarith
    have new: "as_disk s (jsonl_path dir (Format_day ?r)) = None" "as_disk s (jsonl_path dir (Format_day ?r) @ gz_ext) = None"
      using t(7) Format_day_inj [OF assms(5)] lt by (metis leD)+
    have l': "l' = ?l\<lparr> jl_file := Some (jsonl_path dir (Format_day ?r), True),
          jl_pending := jl_pending ?l @ [jsonl_path dir (Format_day t)], jl_day := Format_day ?r,
          jl_ring := trim (jl_ringMax ?l) (jl_ring ?l @ [stamp (je_now env) e]) \<rparr>"
        "fs' = (as_disk s)(jsonl_path dir (Format_day ?r) \<mapsto> ?x)"
      using assms(6,7,8) False by (auto simp: JSONL_Log_def rotate_def Let_def encode_line_def t(4) dir new)
    have "day_content gunzip dir fs' d = written_on d (as_written s @ [(Format_day ?r, ?x)])" for d
      using cont [of d] cont [of "Format_day ?r"] new
      by (simp add: l'(2) day_content_upd written_on_append) (simp add: day_content_def)
    moreover have "\<exists>t'. d = Format_day t' \<and> 0 \<le> Year t' \<and> day_of t' \<le> day_of ?r"
      if "fs' (jsonl_path dir d) \<noteq> None \<or> fs' (jsonl_path dir d @ gz_ext) \<noteq> None" for d
    proof (cases "d = Format_day ?r")
      case False
      with that have "as_disk s (jsonl_path dir d) \<noteq> None \<or> as_disk s (jsonl_path dir d @ gz_ext) \<noteq> None"
        by (auto simp: l'(2))
      with t(7) lt show ?thesis by (meson less_imp_le order_trans)
    qed (use assms(5) in auto)
    moreover have "\<exists>t'. p = jsonl_path dir (Format_day t') \<and> 0 \<le> Year t' \<and> day_of t' < day_of ?r"
      if "p \<in> set (jl_pending l')" for p
      using that t(2,6) lt by (auto simp: l'(1) intro: less_trans)
    moreover have "jl_day l' = Format_day ?r" "jl_file l' = Some (jsonl_path dir (Format_day ?r), True)"
        "jl_dir l' = dir" "fs' (jsonl_path dir (Format_day ?r)) \<noteq> None"
      using dir by (simp_all add: l')
    ultimately show ?thesis
      unfolding archive_ok_def using assms(5) by (intro conjI exI [of _ ?r]) simp_all
  qed
qed

text \<open>C36: The archive loses nothing: on a fresh directory, after any sequence of calls without a write
  error at clock readings that do not go back, and whenever and however far the background
  compressions of rotated files get (failing at any step), the file of each day, plain or compressed,
  holds exactly the records written on that day, in order.\<close>

theorem archive_loses_nothing:
  assumes "NewJSONLLogger False env0 dir Map.empty = Some (l, fs)" "0 \<le> Year (je_rotate env0)"
    and "(archive_step enc gz)\<^sup>*\<^sup>* \<lparr> as_log = l, as_disk = fs, as_written = [], as_now = je_rotate env0 \<rparr> s"
    and "\<And>x. gunzip (gz x) = x"
  shows "day_content gunzip dir (as_disk s) d = written_on d (as_written s)"
proof -
  have "archive_ok gunzip dir s"
    using assms(3)
  proof (induction rule: rtranclp_induct)
    case base
    have l: "l = \<lparr> jl_dir = dir, jl_file = Some (jsonl_path dir (Format_day (je_rotate env0)), True),
         jl_day = Format_day (je_rotate env0), jl_ring = [], jl_ringMax = 1000, jl_pending = [] \<rparr>"
        "fs = Map.empty(jsonl_path dir (Format_day (je_rotate env0)) \<mapsto> [])"
      using assms(1) by (auto simp: NewJSONLLogger_def rotate_def Let_def split: if_splits)
    have "day_content gunzip dir fs d = []" for d by (simp add: l day_content_def)
    then show ?case using assms(2) unfolding archive_ok_def by (auto simp: l written_on_def split: if_splits)
  next
    case (step s1 s2)
    from step(2) show ?case
    proof cases
      case (append env e l' fs')
      then show ?thesis using archive_append [OF step(3)] by simp
    next
      case (compress p fault)
      then show ?thesis using archive_compress [of gunzip dir s1 gz p fault, OF step(3) assms(4)] by simp
    qed
  qed
  then show ?thesis by (simp add: archive_ok_def)
qed

definition example_call :: "gostr \<Rightarrow> audit_call" where
  "example_call u = CallError u ''/v1'' ''c1'' ''denied'' 403 ''10.0.0.1''"

definition example_store :: SQLiteLogger where
  "example_store = \<lparr> sl_rows = [], sl_key = replicate 32 (CHR ''k'') \<rparr>"

definition example_sql_env :: "gostr \<Rightarrow> sqlite_env" where
  "example_sql_env i = \<lparr> qe_now = 5, qe_nonce_ip = Some (replicate 12 (CHR ''a'')),
     qe_nonce_ua = Some (replicate 12 (CHR ''b'')), qe_nonce_err = Some (replicate 12 (CHR ''c'')),
     qe_id = i, qe_exec_fails = False \<rparr>"

definition example_jsonl_env :: jsonl_env where
  "example_jsonl_env = \<lparr> je_now = 5, je_check = 5, je_rotate = 5, je_open_fails = False, je_write_fails = None \<rparr>"

definition xor_seal :: aead_seal where "xor_seal k n p = rev p"
definition xor_open :: aead_open where "xor_open k n c = Some (rev c)"

lemma example_good:
  "sql_all_good xor_seal xor_open
     [((4, example_sql_env ''1''), example_call ''u''), ((4, example_sql_env ''2''), example_call ''v'')] example_store"
proof -
  have "hex_encode ''2'' \<notin> {hex_encode ''1''}" by code_simp
  then show ?thesis
    by (simp add: sql_good_def example_sql_env_def example_store_def xor_seal_def xor_open_def sql_write_def SQLite_Log_def)
qed

lemma sinks_report_all_witness:
  "size (SQLite_GetLogsByUser xor_open False ''u'' (sql_run xor_seal
     [((4, example_sql_env ''1''), example_call ''u''), ((4, example_sql_env ''2''), example_call ''v'')] example_store)) = 1 \<and>
   size (Logger_GetLogsByUser ''u'' (mem_run [((4, 5), example_call ''u''), ((4, 5), example_call ''v'')]
     \<lparr> lg_logs = [], lg_maxLogs = 2 \<rparr>)) = 1"
proof -
  let ?c = "[example_call ''u'', example_call ''v'']"
  let ?em = "[((4, 5), example_call ''u''), ((4, 5), example_call ''v'')] :: ((time \<times> time) \<times> audit_call) list"
  let ?eq = "[((4, example_sql_env ''1''), example_call ''u''), ((4, example_sql_env ''2''), example_call ''v'')] :: ((time \<times> sqlite_env) \<times> audit_call) list"
  obtain j fs where j: "NewJSONLLogger False example_jsonl_env ''d'' Map.empty = Some (j, fs)"
    by (simp add: NewJSONLLogger_def rotate_def Let_def example_jsonl_env_def)
  have u: "al_User (event_of (example_call u)) = u" for u
    by (simp add: event_of_def example_call_def error_entry_def)
  have "NewLogger 2 = Some \<lparr> lg_logs = [], lg_maxLogs = 2 \<rparr>" by (simp add: NewLogger_def)
  note T = sinks_report_all [OF this _ j _ _ example_good, of ?em "[]" "''u''"]
  have T1: "mset (map untimed (Logger_GetLogsByUser ''u'' (mem_run ?em \<lparr> lg_logs = [], lg_maxLogs = 2 \<rparr>))) = mset (user_events ''u'' ?em)"
    by (rule conjunct1 [OF T]) (simp_all add: example_store_def)
  have T2: "mset (map untimed (SQLite_GetLogsByUser xor_open False ''u'' (sql_run xor_seal ?eq example_store))) = mset (user_events ''u'' ?eq)"
    by (rule conjunct2 [OF conjunct2 [OF T]]) (simp_all add: example_store_def)
  note T1 T2
  moreover have "size (user_events ''u'' ?em) = 1" "size (user_events ''u'' ?eq) = 1" by (simp_all add: user_events_def u)
  ultimately show ?thesis by (metis length_map size_mset)
qed


definition may_env :: "time \<Rightarrow> jsonl_env" where
  "may_env t = \<lparr> je_now = t, je_check = t, je_rotate = t, je_open_fails = False, je_write_fails = None \<rparr>"

definition zip1 :: "gostr \<Rightarrow> gostr" where "zip1 x = CHR ''z'' # x"

text \<open>One record on 1 May, one on 2 May, and the first file compressed.\<close>

lemma archive_loses_nothing_witness:
  "\<exists>s l fs. NewJSONLLogger False (may_env (Date 2026 5 1)) ''d'' Map.empty = Some (l, fs) \<and>
     (archive_step al_User zip1)\<^sup>*\<^sup>* \<lparr> as_log = l, as_disk = fs, as_written = [], as_now = Date 2026 5 1 \<rparr> s \<and>
     length (as_written s) = 2 \<and> as_disk s (jsonl_path ''d'' (Format_day (Date 2026 5 1))) = None \<and>
     day_content tl ''d'' (as_disk s) (Format_day (Date 2026 5 1)) = written_on (Format_day (Date 2026 5 1)) (as_written s)"
proof -
  define t1 t2 dir e where "t1 = Date 2026 5 1" and "t2 = Date 2026 5 2" and "dir = ''d''" and "e = event_of (example_call ''u'')"
  have y: "0 \<le> Year t1" "0 \<le> Year t2" "t1 \<le> t2" "day_of t1 \<noteq> day_of t2" unfolding t1_def t2_def by code_simp+
  define d1 d2 where "d1 = Format_day t1" and "d2 = Format_day t2"
  have ne: "d1 \<noteq> d2" using Format_day_inj [OF y(1,2)] y(4) by (simp add: d1_def d2_def)
  have m: "je_check (may_env t) = t" "je_rotate (may_env t) = t" "je_now (may_env t) = t" "\<not> je_open_fails (may_env t)" "je_write_fails (may_env t) = None" for t
    by (simp_all add: may_env_def)
  obtain l fs where l: "NewJSONLLogger False (may_env t1) dir Map.empty = Some (l, fs)" "jl_day l = d1" "jl_pending l = []"
      "jl_file l = Some (jsonl_path dir d1, True)" "jl_dir l = dir"
    by (auto simp: NewJSONLLogger_def rotate_def Let_def m d1_def)
  obtain l1 fs1 where l1: "JSONL_Log al_User (may_env t1) e l fs = (l1, fs1)" "jl_day l1 = d1" "jl_pending l1 = []"
      "jl_file l1 = Some (jsonl_path dir d1, True)" "jl_dir l1 = dir" "fs1 (jsonl_path dir d1) \<noteq> None"
    using l by (auto simp: JSONL_Log_def Let_def m d1_def encode_line_def)
  obtain l2 fs2 where l2: "JSONL_Log al_User (may_env t2) e l1 fs1 = (l2, fs2)" "jl_day l2 = d2" "jl_pending l2 = [jsonl_path dir d1]"
      "fs2 (jsonl_path dir d1) \<noteq> None"
    using l1 ne by (auto simp: JSONL_Log_def rotate_def Let_def m d1_def d2_def encode_line_def)
  define s0 where "s0 = \<lparr> as_log = l, as_disk = fs, as_written = [], as_now = t1 \<rparr>"
  define s1 where "s1 = \<lparr> as_log = l1, as_disk = fs1, as_written = as_written s0 @ [(jl_day l1, al_User (stamp (je_now (may_env t1)) e))], as_now = je_rotate (may_env t1) \<rparr>"
  define s2 where "s2 = \<lparr> as_log = l2, as_disk = fs2, as_written = as_written s1 @ [(jl_day l2, al_User (stamp (je_now (may_env t2)) e))], as_now = je_rotate (may_env t2) \<rparr>"
  define s3 where "s3 = s2\<lparr> as_log := (as_log s2)\<lparr> jl_pending := remove1 (jsonl_path dir d1) (jl_pending (as_log s2)) \<rparr>,
      as_disk := gzipFile zip1 NoFault (jsonl_path dir d1) (as_disk s2) \<rparr>"
  have st1: "archive_step al_User zip1 s0 s1"
    unfolding s1_def by (rule archive_step.append) (use y l1(1) in \<open>simp_all add: m s0_def\<close>)
  have st2: "archive_step al_User zip1 s1 s2"
    unfolding s2_def by (rule archive_step.append) (use y l2(1) in \<open>simp_all add: m s1_def\<close>)
  have st3: "archive_step al_User zip1 s2 s3"
    unfolding s3_def by (rule archive_step.compress) (simp add: s2_def l2(3))
  have r: "(archive_step al_User zip1)\<^sup>*\<^sup>* s0 s3"
    using st1 st2 st3 by (meson rtranclp.rtrancl_into_rtrancl rtranclp.rtrancl_refl)
  have u: "tl (zip1 x) = x" for x by (simp add: zip1_def)
  have "day_content tl dir (as_disk s3) d1 = written_on d1 (as_written s3)"
    by (rule archive_loses_nothing [where enc = al_User and gz = zip1 and gunzip = tl and l = l and fs = fs and ?env0.0 = "may_env t1"])
       (use l(1) y r u in \<open>simp_all add: m s0_def\<close>)
  moreover have "as_disk s3 (jsonl_path dir d1) = None"
    using l2(4) by (auto simp: s3_def s2_def gzipFile_def)
  moreover have "length (as_written s3) = 2" by (simp add: s3_def s2_def s1_def s0_def)
  ultimately show ?thesis
    using l(1) r unfolding s0_def t1_def [symmetric] dir_def [symmetric] d1_def [symmetric] by blast
qed

end
