(* ===== verification/Metrics.thy ===== *)
theory Metrics
  imports Float64 GoHttp
begin

text \<open>
  The Prometheus collectors of the gateway (\<open>core/gateway/metrics.go\<close>): counters and gauges as
  integers, labelled counters as functions of their labels, and the latency histogram as the
  observations of each model. Adding a negative number to a counter panics, as the client library
  documents: \<open>Inl\<close> with what had been recorded before.
\<close>

record GatewayMetrics =
  gm_requestsTotal :: int
  gm_activeRequests :: int
  gm_tokensInputTotal :: int
  gm_tokensOutputTotal :: int
  gm_authFailuresTotal :: int
  gm_accessDeniedTotal :: int
  gm_rateLimitHitsTotal :: int
  gm_tokenQuotaExceededTotal :: int
  gm_admissionShedTotal :: int
  gm_requestsByStatus :: "gostr \<Rightarrow> int"
  gm_requestsByMethod :: "gostr \<Rightarrow> int"
  gm_requestsByUserModel :: "gostr \<times> gostr \<Rightarrow> int"
  gm_tokensByUserModel :: "gostr \<times> gostr \<times> gostr \<Rightarrow> int"
  gm_accessDeniedByUser :: "gostr \<Rightarrow> int"
  gm_authFailuresByReason :: "gostr \<Rightarrow> int"
  gm_admissionShedByModel :: "gostr \<Rightarrow> int"
  gm_requestDuration :: "gostr \<Rightarrow> flt list"

definition NewGatewayMetrics :: GatewayMetrics where
  "NewGatewayMetrics = \<lparr> gm_requestsTotal = 0, gm_activeRequests = 0, gm_tokensInputTotal = 0,
     gm_tokensOutputTotal = 0, gm_authFailuresTotal = 0, gm_accessDeniedTotal = 0,
     gm_rateLimitHitsTotal = 0, gm_tokenQuotaExceededTotal = 0, gm_admissionShedTotal = 0,
     gm_requestsByStatus = (\<lambda>_. 0), gm_requestsByMethod = (\<lambda>_. 0), gm_requestsByUserModel = (\<lambda>_. 0),
     gm_tokensByUserModel = (\<lambda>_. 0), gm_accessDeniedByUser = (\<lambda>_. 0), gm_authFailuresByReason = (\<lambda>_. 0),
     gm_admissionShedByModel = (\<lambda>_. 0), gm_requestDuration = (\<lambda>_. []) \<rparr>"

definition bump :: "'a \<Rightarrow> ('a \<Rightarrow> int) \<Rightarrow> 'a \<Rightarrow> int" where
  "bump l f = f(l := f l + 1)"

definition RecordRequest :: "GatewayMetrics \<Rightarrow> GatewayMetrics" where
  "RecordRequest m = m\<lparr> gm_requestsTotal := gm_requestsTotal m + 1,
                        gm_activeRequests := gm_activeRequests m + 1 \<rparr>"

definition RecordRequestComplete :: "int \<Rightarrow> gostr \<Rightarrow> gostr \<Rightarrow> gostr \<Rightarrow> GatewayMetrics \<Rightarrow> GatewayMetrics" where
  "RecordRequestComplete statusCode method userID modelName m =
     m\<lparr> gm_activeRequests := gm_activeRequests m - 1,
        gm_requestsByStatus := bump (StatusText statusCode) (gm_requestsByStatus m),
        gm_requestsByMethod := bump method (gm_requestsByMethod m),
        gm_requestsByUserModel := (if userID \<noteq> [] \<and> modelName \<noteq> []
          then bump (userID, modelName) (gm_requestsByUserModel m) else gm_requestsByUserModel m) \<rparr>"

definition RecordLatency :: "gostr \<Rightarrow> int \<Rightarrow> GatewayMetrics \<Rightarrow> GatewayMetrics" where
  "RecordLatency modelName latencyMs m =
     (if modelName = [] then m
      else m\<lparr> gm_requestDuration := (gm_requestDuration m)
                (modelName := gm_requestDuration m modelName @ [of_i64 latencyMs / Fin 1000]) \<rparr>)"

definition RecordTokens ::
    "gostr \<Rightarrow> gostr \<Rightarrow> int \<Rightarrow> int \<Rightarrow> GatewayMetrics \<Rightarrow> GatewayMetrics + GatewayMetrics" where
  "RecordTokens userID modelName inputTokens outputTokens m =
     (if inputTokens < 0 then Inl m
      else
        let m1 = m\<lparr> gm_tokensInputTotal := gm_tokensInputTotal m + inputTokens \<rparr> in
        if outputTokens < 0 then Inl m1
        else
          let m2 = m1\<lparr> gm_tokensOutputTotal := gm_tokensOutputTotal m1 + outputTokens \<rparr>;
              t = gm_tokensByUserModel m2
          in Inr (if userID \<noteq> [] \<and> modelName \<noteq> [] then
             m2\<lparr> gm_tokensByUserModel :=
               t((userID, modelName, ''input'') := t (userID, modelName, ''input'') + inputTokens,
                 (userID, modelName, ''output'') := t (userID, modelName, ''output'') + outputTokens) \<rparr>
           else m2))"

definition RecordAuthFailure :: "gostr \<Rightarrow> GatewayMetrics \<Rightarrow> GatewayMetrics" where
  "RecordAuthFailure reason m = m\<lparr> gm_authFailuresTotal := gm_authFailuresTotal m + 1,
     gm_authFailuresByReason := bump reason (gm_authFailuresByReason m) \<rparr>"

definition RecordAccessDenied :: "gostr \<Rightarrow> GatewayMetrics \<Rightarrow> GatewayMetrics" where
  "RecordAccessDenied userID m = m\<lparr> gm_accessDeniedTotal := gm_accessDeniedTotal m + 1,
     gm_accessDeniedByUser := (if userID \<noteq> [] then bump userID (gm_accessDeniedByUser m)
                               else gm_accessDeniedByUser m) \<rparr>"

definition RecordRateLimitHit :: "GatewayMetrics \<Rightarrow> GatewayMetrics" where
  "RecordRateLimitHit m = m\<lparr> gm_rateLimitHitsTotal := gm_rateLimitHitsTotal m + 1 \<rparr>"

definition RecordTokenQuotaExceeded :: "GatewayMetrics \<Rightarrow> GatewayMetrics" where
  "RecordTokenQuotaExceeded m = m\<lparr> gm_tokenQuotaExceededTotal := gm_tokenQuotaExceededTotal m + 1 \<rparr>"

definition RecordAdmissionShed :: "gostr \<Rightarrow> GatewayMetrics \<Rightarrow> GatewayMetrics" where
  "RecordAdmissionShed modelName m = m\<lparr> gm_admissionShedTotal := gm_admissionShedTotal m + 1,
     gm_admissionShedByModel := (if modelName \<noteq> [] then bump modelName (gm_admissionShedByModel m)
                                 else gm_admissionShedByModel m) \<rparr>"

lemmas record_simps = RecordRequest_def RecordRequestComplete_def RecordLatency_def RecordAuthFailure_def
  RecordAccessDenied_def RecordRateLimitHit_def RecordTokenQuotaExceeded_def RecordAdmissionShed_def

lemma active_simps [frame_simps]:
  "gm_activeRequests (RecordRequest m) = gm_activeRequests m + 1"
  "gm_activeRequests (RecordRequestComplete s mt u mo m) = gm_activeRequests m - 1"
  "gm_activeRequests (RecordLatency mo l m) = gm_activeRequests m"
  "gm_activeRequests (RecordAuthFailure r m) = gm_activeRequests m"
  "gm_activeRequests (RecordAccessDenied u m) = gm_activeRequests m"
  "gm_activeRequests (RecordRateLimitHit m) = gm_activeRequests m"
  "gm_activeRequests (RecordTokenQuotaExceeded m) = gm_activeRequests m"
  "gm_activeRequests (RecordAdmissionShed mo m) = gm_activeRequests m"
  "RecordTokens u mo i o' m = Inr m' \<Longrightarrow> gm_activeRequests m' = gm_activeRequests m"
  by (auto simp: record_simps RecordTokens_def Let_def split: if_splits)

lemma requests_simps [frame_simps]:
  "gm_requestsTotal (RecordRequest m) = gm_requestsTotal m + 1"
  "gm_requestsTotal (RecordRequestComplete s mt u mo m) = gm_requestsTotal m"
  "gm_requestsTotal (RecordLatency mo l m) = gm_requestsTotal m"
  "gm_requestsTotal (RecordAuthFailure r m) = gm_requestsTotal m"
  "gm_requestsTotal (RecordAccessDenied u m) = gm_requestsTotal m"
  "gm_requestsTotal (RecordRateLimitHit m) = gm_requestsTotal m"
  "gm_requestsTotal (RecordTokenQuotaExceeded m) = gm_requestsTotal m"
  "gm_requestsTotal (RecordAdmissionShed mo m) = gm_requestsTotal m"
  "RecordTokens u mo i o' m = Inr m' \<Longrightarrow> gm_requestsTotal m' = gm_requestsTotal m"
  by (auto simp: record_simps RecordTokens_def Let_def split: if_splits)

text \<open>Every rejection counter only grows.\<close>

lemma denied_mono:
  "gm_accessDeniedByUser m u \<le> gm_accessDeniedByUser (RecordAccessDenied v m) u"
  by (simp add: record_simps bump_def)

end
