(* ===== verification/GoForm.thy ===== *)
theory GoForm
  imports GoHttp Base64
begin

text \<open>
  What the HTTP handlers share: the \<open>%q\<close> verb and the hand-written JSON bodies, URL query values
  (\<open>url.ParseQuery\<close>), request cookies (\<open>Request.Cookie\<close>), and \<open>http.Redirect\<close> to an absolute URL.
\<close>

subsection \<open>Formatting\<close>

text \<open>\<open>%q\<close> on printable ASCII, the usual escapes and other control bytes; bytes from 128 up are taken
  to be part of printable UTF-8.\<close>

definition quote_char :: "char \<Rightarrow> gostr" where
  "quote_char c =
     (let n = (of_char c :: nat); bs = CHR 0x5C in
      if n = 34 then [bs, CHR 0x22] else if n = 92 then [bs, bs]
      else if n = 7 then [bs, CHR ''a''] else if n = 8 then [bs, CHR ''b''] else if n = 12 then [bs, CHR ''f'']
      else if n = 10 then [bs, CHR ''n''] else if n = 13 then [bs, CHR ''r''] else if n = 9 then [bs, CHR ''t'']
      else if n = 11 then [bs, CHR ''v'']
      else if n < 32 \<or> n = 127 then [bs, CHR ''x'', hex_char (n div 16), hex_char (n mod 16)]
      else [c])"

definition go_quote :: "gostr \<Rightarrow> gostr" where
  "go_quote s = CHR 0x22 # concat (map quote_char s) @ [CHR 0x22]"

text \<open>JSON bodies of the error answers: \<open>json_field k v\<close> is \<open>"k":"v"\<close> without escaping, as \<open>%s\<close> writes it.\<close>

definition dq :: gostr where "dq = [CHR 0x22]"

definition json_key :: "gostr \<Rightarrow> gostr" where "json_key k = dq @ k @ dq @ '':''"

definition json_plain :: "gostr \<Rightarrow> gostr \<Rightarrow> gostr" where "json_plain k v = json_key k @ dq @ v @ dq"

definition json_quoted :: "gostr \<Rightarrow> gostr \<Rightarrow> gostr" where "json_quoted k v = json_key k @ go_quote v"

definition json_obj :: "gostr list \<Rightarrow> gostr" where "json_obj kvs = ''{'' @ Join '','' kvs @ ''}''"

definition json_header :: header where
  "json_header = HSet Map.empty ''Content-Type'' ''application/json''"

definition bearer_prefix :: gostr where "bearer_prefix = ''Bearer ''"

subsection \<open>Query values\<close>

definition hex_nibble :: "char \<Rightarrow> nat option" where
  "hex_nibble c = (let n = (of_char c :: nat) in
     if 48 \<le> n \<and> n \<le> 57 then Some (n - 48)
     else if 97 \<le> n \<and> n \<le> 102 then Some (n - 87)
     else if 65 \<le> n \<and> n \<le> 70 then Some (n - 55) else None)"

fun QueryUnescape :: "gostr \<Rightarrow> gostr option" where
  "QueryUnescape [] = Some []"
| "QueryUnescape (c # cs) =
     (if c = CHR ''%'' then
        (case cs of
           x # y # r \<Rightarrow>
             (case (hex_nibble x, hex_nibble y) of
                (Some p, Some q) \<Rightarrow> map_option (\<lambda>t. char_of (16 * p + q) # t) (QueryUnescape r)
              | _ \<Rightarrow> None)
         | _ \<Rightarrow> None)
      else map_option (\<lambda>t. (if c = CHR ''+'' then CHR '' '' else c) # t) (QueryUnescape cs))"

text \<open>\<open>strings.Cut\<close> at a byte.\<close>

definition Cut :: "char \<Rightarrow> gostr \<Rightarrow> gostr \<times> gostr" where
  "Cut c s = (takeWhile (\<lambda>x. x \<noteq> c) s, drop 1 (dropWhile (\<lambda>x. x \<noteq> c) s))"

definition query_pair :: "gostr \<Rightarrow> (gostr \<times> gostr) option" where
  "query_pair p =
     (if CHR '';'' \<in> set p \<or> p = [] then None
      else let (k, v) = Cut (CHR ''='') p in
        case (QueryUnescape k, QueryUnescape v) of (Some k', Some v') \<Rightarrow> Some (k', v') | _ \<Rightarrow> None)"

definition QueryGet :: "request \<Rightarrow> gostr \<Rightarrow> gostr" where
  "QueryGet r k =
     (case map_of (List.map_filter query_pair (Split (CHR ''&'') (u_RawQuery (r_URL r)))) k of
        Some v \<Rightarrow> v | None \<Rightarrow> [])"

subsection \<open>Cookies\<close>

definition cookie_byte :: "char \<Rightarrow> bool" where
  "cookie_byte c \<longleftrightarrow> (let n = (of_char c :: nat) in 32 \<le> n \<and> n < 127 \<and> n \<noteq> 34 \<and> n \<noteq> 59 \<and> n \<noteq> 92)"

definition cookie_value :: "gostr \<Rightarrow> gostr option" where
  "cookie_value v =
     (let w = (if 1 < length v \<and> hd v = CHR 0x22 \<and> last v = CHR 0x22 then butlast (tl v) else v)
      in if list_all cookie_byte w then Some w else None)"

text \<open>\<open>None\<close>: \<open>ErrNoCookie\<close>.\<close>

definition read_cookie :: "gostr \<Rightarrow> gostr \<Rightarrow> gostr option" where
  "read_cookie name part0 =
     (let part = TrimSpace part0; (k, v) = Cut (CHR ''='') part; k' = TrimSpace k in
      if part = [] \<or> k' = [] \<or> \<not> list_all is_token_char k' \<or> k' \<noteq> name then None else cookie_value v)"

definition Cookie :: "request \<Rightarrow> gostr \<Rightarrow> gostr option" where
  "Cookie r name =
     (case r_Header r ''Cookie'' of
        None \<Rightarrow> None
      | Some lines \<Rightarrow>
          (case List.map_filter (read_cookie name) (concat (map (Split (CHR '';'')) lines)) of
             [] \<Rightarrow> None | v # _ \<Rightarrow> Some v))"

text \<open>A cookie the handler sets.\<close>

record set_cookie =
  co_Name :: gostr
  co_Value :: gostr
  co_Path :: gostr
  co_HttpOnly :: bool
  co_Secure :: bool
  co_SameSiteLax :: bool
  co_MaxAge :: int
  co_Expires :: time

subsection \<open>Redirects\<close>

definition html_escape_char :: "char \<Rightarrow> gostr" where
  "html_escape_char c = (if c = CHR ''&'' then ''&amp;'' else if c = CHR ''<'' then ''&lt;''
     else if c = CHR ''>'' then ''&gt;'' else if c = CHR 0x22 then ''&#34;''
     else if c = CHR 0x27 then ''&#39;'' else [c])"

definition http_Redirect :: "request \<Rightarrow> gostr \<Rightarrow> int \<Rightarrow> response" where
  "http_Redirect r target code =
     (let h = HSet Map.empty ''Location'' target in
      \<lparr> w_Header = (if r_Method r = ''GET'' \<or> r_Method r = ''HEAD''
                    then HSet h ''Content-Type'' ''text/html; charset=utf-8'' else h),
        w_Status = code,
        w_Body = (if r_Method r = ''GET''
                  then ''<a href='' @ dq @ concat (map html_escape_char target) @ dq @ ''>'' @ StatusText code @ ''</a>.'' @
                       [CHR 0x0A, CHR 0x0A]
                  else []) \<rparr>)"

end
