(* ===== verification/Gateway.thy ===== *)
theory Gateway
  imports Router RateLimiter Metrics AuditTrail GoForm
begin

text \<open>
  The request path of the gateway (\<open>core/gateway/proxy.go\<close>): the handler \<open>ServeHTTP\<close> with its gates in
  order, the director of the reverse proxy, the model list, the Prometheus targets and the per-model
  metrics. The authentication provider, the access controller, the quota manager and the admission
  controller are the interfaces the gateway is configured with; the reverse proxy's exchange with the
  backend, JSON decoding and encoding, and clock readings are arguments.
\<close>

subsection \<open>The gateway and its interfaces\<close>

record AccessController =
  ac_CanAccess :: "gostr \<Rightarrow> gostr \<Rightarrow> bool"
  ac_IsSourceIPAllowed :: "(gostr \<Rightarrow> gostr \<Rightarrow> bool) option"

text \<open>The quota manager over a backend state \<open>'q\<close>: the check yields an error text.\<close>

record 'q QuotaManager =
  qm_CheckQuota :: "'q \<Rightarrow> gostr \<Rightarrow> gostr option"
  qm_Record :: "gostr \<Rightarrow> int \<Rightarrow> int \<Rightarrow> 'q \<Rightarrow> 'q"

record decision =
  de_Allow :: bool
  de_Reason :: gostr
  de_RetryAfter :: duration

record 'q Gateway =
  gw_targetURL :: url
  gw_authProvider :: "(gostr \<Rightarrow> gostr + gostr) option"
  gw_accessController :: "AccessController option"
  gw_quotaManager :: "'q QuotaManager option"
  gw_modelRouter :: "ModelRouter option"
  gw_admissionCtrl :: "(gostr \<Rightarrow> decision) option"
  gw_requestsPerMin :: flt
  gw_APIKeyHeader :: gostr

text \<open>What the handler changes: quota counters, rate limiter, metrics, and the calls to the audit
  logger in order.\<close>

record 'q gw_state =
  gs_quota :: 'q
  gs_limiter :: RateLimiter
  gs_metrics :: "GatewayMetrics option"
  gs_audit :: "audit_call list"

text \<open>The environment of one request: the correlation id, how much of the body the first read
  returns, whether reading the whole body fails, the two clock readings of the rate limiter, the
  JSON decoders (the \<open>model\<close> field, the token usage), \<open>url.Parse\<close>, the backend behind the reverse proxy,
  the elapsed milliseconds; for the listings the iteration order of the registry, the Unix time, the
  JSON encoders and the exchange with a backend's \<open>/metrics\<close>.\<close>

datatype scrape = BadURL | Unreachable | Scraped int gostr gostr

record modelEntry =
  me_ID :: gostr
  me_Object :: gostr
  me_Created :: int
  me_OwnedBy :: gostr
  me_Capability :: gostr
  me_Endpoints :: "gostr list"

record sdTarget =
  sd_Targets :: "gostr list"
  sd_Labels :: "gostr \<rightharpoonup> gostr"

record gw_env =
  ge_correlationID :: gostr
  ge_peek :: nat
  ge_read_error :: "gostr option"
  ge_create :: time
  ge_now :: time
  ge_json_model :: "gostr \<Rightarrow> gostr option"
  ge_json_usage :: "gostr \<Rightarrow> (int \<times> int) option"
  ge_parse_url :: "gostr \<Rightarrow> url option"
  ge_backend :: "request \<Rightarrow> response"
  ge_duration :: int
  ge_order :: "gostr list"
  ge_unix :: int
  ge_enc_models :: "modelEntry list \<Rightarrow> gostr"
  ge_enc_targets :: "sdTarget list \<Rightarrow> gostr"
  ge_scrape :: "gostr \<Rightarrow> scrape"

subsection \<open>Construction\<close>

record 'q GatewayConfig =
  gc_TargetURL :: gostr
  gc_AuthProvider :: "(gostr \<Rightarrow> gostr + gostr) option"
  gc_AccessController :: "AccessController option"
  gc_QuotaManager :: "'q QuotaManager option"
  gc_ModelRouter :: "ModelRouter option"
  gc_AdmissionCtrl :: "(gostr \<Rightarrow> decision) option"
  gc_RequestsPerMin :: flt
  gc_APIKeyHeader :: gostr

definition NewGateway :: "(gostr \<Rightarrow> url option) \<Rightarrow> 'q GatewayConfig \<Rightarrow> 'q Gateway option" where
  "NewGateway parse config =
     (case parse (gc_TargetURL config) of
        None \<Rightarrow> None
      | Some target \<Rightarrow> Some
          \<lparr> gw_targetURL = target, gw_authProvider = gc_AuthProvider config,
            gw_accessController = gc_AccessController config, gw_quotaManager = gc_QuotaManager config,
            gw_modelRouter = gc_ModelRouter config, gw_admissionCtrl = gc_AdmissionCtrl config,
            gw_requestsPerMin = gc_RequestsPerMin config,
            gw_APIKeyHeader = (if gc_APIKeyHeader config = [] then ''X-API-Key'' else gc_APIKeyHeader config) \<rparr>)"

subsection \<open>The director\<close>

text \<open>\<open>None\<close> is the panic on a nil URL when a backend's URL does not parse.\<close>

definition director_target :: "(gostr \<Rightarrow> url option) \<Rightarrow> 'q Gateway \<Rightarrow> url \<Rightarrow> (url \<times> url) option" where
  "director_target parse gw u =
     (case gw_modelRouter gw of
        None \<Rightarrow> Some (gw_targetURL gw, u)
      | Some router \<Rightarrow>
          let modelName = extractModelNameFromPath (u_Path u) in
          if modelName = [] then Some (gw_targetURL gw, u)
          else
            let u' = u\<lparr> u_Path := stripModelPrefixFromPath (u_Path u) modelName, u_RawPath := [] \<rparr> in
            (case GetBackend router modelName of
               None \<Rightarrow> Some (gw_targetURL gw, u')
             | Some backend \<Rightarrow> map_option (\<lambda>t. (t, u')) (parse (mb_URL backend))))"

definition director :: "(gostr \<Rightarrow> url option) \<Rightarrow> 'q Gateway \<Rightarrow> request \<Rightarrow> request option" where
  "director parse gw req =
     (case director_target parse gw (r_URL req) of
        None \<Rightarrow> None
      | Some (t, u) \<Rightarrow>
          let u' = u\<lparr> u_Scheme := u_Scheme t, u_Host := u_Host t,
                     u_Path := singleJoiningSlash (u_Path t) (u_Path u),
                     u_RawQuery := (if u_RawQuery t = [] \<or> u_RawQuery u = []
                                    then u_RawQuery t @ u_RawQuery u
                                    else u_RawQuery t @ ''&'' @ u_RawQuery u) \<rparr>;
              req1 = req\<lparr> r_URL := u', r_Header := HDel (r_Header req) (gw_APIKeyHeader gw) \<rparr>;
              clientIP = getClientIP req1;
              h1 = (if clientIP \<noteq> [] then HSet (r_Header req1) ''X-Forwarded-For'' clientIP else r_Header req1);
              h2 = HSet h1 ''X-Forwarded-Proto'' ''http'';
              h3 = (if HGet h2 ''X-Forwarded-Host'' = [] then HSet h2 ''X-Forwarded-Host'' (r_Host req1) else h2)
          in Some (req1\<lparr> r_Header := h3 \<rparr>))"

subsection \<open>Reading the request\<close>

definition extractModelName :: "gw_env \<Rightarrow> request \<Rightarrow> gostr" where
  "extractModelName env r =
     (let name = extractModelNameFromPath (u_Path (r_URL r)) in
      if name \<noteq> [] then name
      else if r_Method r = ''POST'' \<or> r_Method r = ''PUT'' then
        (case r_Body r of
           None \<Rightarrow> ''unknown''
         | Some body \<Rightarrow>
             (case ge_json_model env (take (min 512 (ge_peek env)) body) of
                Some m \<Rightarrow> if m \<noteq> [] then m else ''unknown''
              | None \<Rightarrow> ''unknown''))
      else ''unknown'')"

definition request_key :: "'q Gateway \<Rightarrow> request \<Rightarrow> gostr" where
  "request_key gw r =
     (let key = HGet (r_Header r) (gw_APIKeyHeader gw); auth = HGet (r_Header r) ''Authorization'' in
      if key = [] \<and> HasPrefix auth bearer_prefix then TrimPrefix auth bearer_prefix else key)"

subsection \<open>Token usage of a response\<close>

definition try_usage :: "(gostr \<Rightarrow> (int \<times> int) option) \<Rightarrow> gostr \<Rightarrow> (int \<times> int) option" where
  "try_usage parse b =
     (case parse b of None \<Rightarrow> None | Some (p, c) \<Rightarrow> if p = 0 \<and> c = 0 then None else Some (p, c))"

definition sse_payload :: "gostr \<Rightarrow> gostr option" where
  "sse_payload raw =
     (let line = TrimSpace raw in
      if \<not> HasPrefix line ''data:'' then None
      else let payload = TrimSpace (TrimPrefix line ''data:'') in
        if payload = ''[DONE]'' then None else Some payload)"

fun sse_usage :: "(gostr \<Rightarrow> (int \<times> int) option) \<Rightarrow> gostr list \<Rightarrow> int \<times> int" where
  "sse_usage parse [] = (0, 0)"
| "sse_usage parse (l # ls) =
     (case sse_payload l of
        None \<Rightarrow> sse_usage parse ls
      | Some payload \<Rightarrow> (case try_usage parse payload of Some u \<Rightarrow> u | None \<Rightarrow> sse_usage parse ls))"

definition parseTokenUsage :: "(gostr \<Rightarrow> (int \<times> int) option) \<Rightarrow> gostr \<Rightarrow> gostr \<Rightarrow> int \<times> int" where
  "parseTokenUsage parse body contentType =
     (if Contains contentType ''text/event-stream'' then sse_usage parse (rev (Split (CHR 0x0A) body))
      else case try_usage parse body of Some u \<Rightarrow> u | None \<Rightarrow> (0, 0))"

subsection \<open>Gateway-level endpoints\<close>

definition serveModelList :: "gw_env \<Rightarrow> 'q Gateway \<Rightarrow> ModelRouter \<Rightarrow> gostr \<Rightarrow> response" where
  "serveModelList env gw router userID =
     (let visible = (\<lambda>b. case gw_accessController gw of
            None \<Rightarrow> True
          | Some ac \<Rightarrow> userID = [] \<or> ac_CanAccess ac userID (mb_Name b));
          data = map (\<lambda>b. \<lparr> me_ID = mb_Name b, me_Object = ''model'', me_Created = ge_unix env,
                            me_OwnedBy = ''sovereignstack'', me_Capability = mb_Capability b,
                            me_Endpoints = mb_Endpoints b \<rparr>)
                   (filter visible (ListModels (ge_order env) router))
      in \<lparr> w_Header = json_header, w_Status = 200, w_Body = ge_enc_models env data \<rparr>)"

definition servePrometheusTargets :: "gw_env \<Rightarrow> ModelRouter \<Rightarrow> response" where
  "servePrometheusTargets env router =
     (let targets = map (\<lambda>b. \<lparr> sd_Targets = [''localhost:'' @ Itoa (mb_Port b)],
                               sd_Labels = [''job'' \<mapsto> ''model-metrics'', ''model'' \<mapsto> mb_Name b] \<rparr>)
                      (filter (\<lambda>b. mb_Port b \<noteq> 0) (ListModels (ge_order env) router))
      in \<lparr> w_Header = json_header, w_Status = 200, w_Body = ge_enc_targets env targets \<rparr>)"

definition serveModelMetrics :: "gw_env \<Rightarrow> ModelRouter \<Rightarrow> gostr \<Rightarrow> response" where
  "serveModelMetrics env router modelName =
     (case GetBackend router modelName of
        None \<Rightarrow> http_Error Map.empty (json_obj [json_plain ''error'' ''model not deployed'']) 404
      | Some backend \<Rightarrow>
          (case ge_scrape env (mb_URL backend @ ''/metrics'') of
             BadURL \<Rightarrow> http_Error Map.empty (json_obj [json_plain ''error'' ''internal error'']) 500
           | Unreachable \<Rightarrow> http_Error Map.empty (json_obj [json_plain ''error'' ''backend unreachable'']) 502
           | Scraped status ct body \<Rightarrow>
               \<lparr> w_Header = (if ct \<noteq> [] then HSet Map.empty ''Content-Type'' ct else Map.empty),
                 w_Status = status, w_Body = body \<rparr>))"

definition special_endpoint :: "gw_env \<Rightarrow> 'q Gateway \<Rightarrow> request \<Rightarrow> gostr \<Rightarrow> response option" where
  "special_endpoint env gw r userID =
     (case gw_modelRouter gw of
        None \<Rightarrow> None
      | Some router \<Rightarrow>
          let path = u_Path (r_URL r); name = extractModelNameFromPath path in
          if r_Method r \<noteq> ''GET'' then None
          else if path = ''/v1/models'' then Some (serveModelList env gw router userID)
          else if path = ''/api/v1/prometheus/targets'' then Some (servePrometheusTargets env router)
          else if name \<noteq> [] \<and> HasSuffix path ''/metrics'' then Some (serveModelMetrics env router name)
          else None)"

subsection \<open>The gates\<close>

text \<open>A gate answers the request (\<open>Inl\<close>) or lets it pass (\<open>Inr\<close>), with the state it leaves.\<close>

type_synonym 'q gate = "'q gw_state \<Rightarrow> (response \<times> 'q gw_state) + 'q gw_state"

definition on_metrics :: "(GatewayMetrics \<Rightarrow> GatewayMetrics) \<Rightarrow> 'q gw_state \<Rightarrow> 'q gw_state" where
  "on_metrics f st = st\<lparr> gs_metrics := map_option f (gs_metrics st) \<rparr>"

definition audit :: "audit_call \<Rightarrow> 'q gw_state \<Rightarrow> 'q gw_state" where
  "audit c st = st\<lparr> gs_audit := gs_audit st @ [c] \<rparr>"

definition audit_error :: "gw_env \<Rightarrow> request \<Rightarrow> gostr \<Rightarrow> gostr \<Rightarrow> int \<Rightarrow> 'q gw_state \<Rightarrow> 'q gw_state" where
  "audit_error env r userID msg status =
     audit (CallError userID (r_RequestURI r) (ge_correlationID env) msg status (getClientIP r))"

definition authenticate ::
    "'q Gateway \<Rightarrow> request \<Rightarrow> 'q gw_state \<Rightarrow> (response \<times> 'q gw_state) + gostr" where
  "authenticate gw r st =
     (let apiKey = request_key gw r in
      case gw_authProvider gw of
        None \<Rightarrow> Inr []
      | Some validate \<Rightarrow>
          if apiKey = [] then Inr []
          else (case validate apiKey of
              Inr userID \<Rightarrow> Inr userID
            | Inl err \<Rightarrow> Inl (http_Error Map.empty ''Unauthorized'' 401,
                on_metrics (RecordAuthFailure ''invalid_key'')
                  (audit (CallAuthFailure (take 8 apiKey @ ''...'') (r_RequestURI r) (getClientIP r) err) st))))"

definition ip_gate :: "gw_env \<Rightarrow> 'q Gateway \<Rightarrow> request \<Rightarrow> gostr \<Rightarrow> 'q gate" where
  "ip_gate env gw r userID st =
     (case Option.bind (gw_accessController gw) ac_IsSourceIPAllowed of
        None \<Rightarrow> Inr st
      | Some allowed \<Rightarrow>
          if userID = [] \<or> allowed userID (getClientIP r) then Inr st
          else Inl (http_Error Map.empty (json_obj [json_plain ''error'' ''source IP not allowed for this service account'']) 403,
            on_metrics (RecordAccessDenied userID)
              (audit_error env r userID (''source IP '' @ getClientIP r @ '' not in allowlist'') 403 st)))"

definition access_gate :: "gw_env \<Rightarrow> 'q Gateway \<Rightarrow> request \<Rightarrow> gostr \<Rightarrow> gostr \<Rightarrow> 'q gate" where
  "access_gate env gw r userID modelName st =
     (case gw_accessController gw of
        None \<Rightarrow> Inr st
      | Some ac \<Rightarrow>
          if userID = [] \<or> ac_CanAccess ac userID modelName then Inr st
          else Inl (http_Error Map.empty
              (json_obj [json_plain ''error'' ''access denied'', json_plain ''model'' modelName]) 403,
            on_metrics (RecordAccessDenied userID)
              (audit_error env r userID (''access denied to model: '' @ modelName) 403 st)))"

definition quota_gate :: "gw_env \<Rightarrow> 'q Gateway \<Rightarrow> request \<Rightarrow> gostr \<Rightarrow> 'q gate" where
  "quota_gate env gw r userID st =
     (case gw_quotaManager gw of
        None \<Rightarrow> Inr st
      | Some qm \<Rightarrow>
          if userID = [] then Inr st
          else (case qm_CheckQuota qm (gs_quota st) userID of
              None \<Rightarrow> Inr st
            | Some err \<Rightarrow> Inl (http_Error Map.empty
                (json_obj [json_plain ''error'' ''token_quota_exceeded'', json_plain ''detail'' err]) 429,
                on_metrics RecordTokenQuotaExceeded
                  (audit_error env r userID (''token quota exceeded: '' @ err) 429 st))))"

definition rate_gate :: "gw_env \<Rightarrow> 'q Gateway \<Rightarrow> request \<Rightarrow> gostr \<Rightarrow> 'q gate" where
  "rate_gate env gw r userID st =
     (if \<not> Fin 0 < gw_requestsPerMin gw then Inr st
      else
        let (ok, rl) = RateLimiter_Allow userID (gw_requestsPerMin gw) (ge_create env) (ge_now env) (gs_limiter st);
            st1 = st\<lparr> gs_limiter := rl \<rparr>
        in if ok then Inr st1
           else Inl (http_Error Map.empty ''Rate limit exceeded'' 429,
             on_metrics RecordRateLimitHit (audit_error env r userID ''rate limit exceeded'' 429 st1)))"

definition admission_gate :: "gw_env \<Rightarrow> 'q Gateway \<Rightarrow> request \<Rightarrow> gostr \<Rightarrow> gostr \<Rightarrow> 'q gate" where
  "admission_gate env gw r userID modelName st =
     (case gw_admissionCtrl gw of
        None \<Rightarrow> Inr st
      | Some allow \<Rightarrow>
          let d = allow modelName in
          if de_Allow d then Inr st
          else
            let h = (if 0 < de_RetryAfter d
                     then HSet Map.empty ''Retry-After'' (Itoa (quot (de_RetryAfter d) second)) else Map.empty)
            in Inl (http_Error h
                (json_obj [json_plain ''error'' ''service_unavailable'', json_quoted ''detail'' (de_Reason d)]) 503,
              on_metrics (RecordAdmissionShed modelName)
                (audit_error env r userID (''admission shed: '' @ de_Reason d) 503 st)))"

definition capability_gate :: "gw_env \<Rightarrow> 'q Gateway \<Rightarrow> request \<Rightarrow> gostr \<Rightarrow> 'q gate" where
  "capability_gate env gw r userID st =
     (case gw_modelRouter gw of
        None \<Rightarrow> Inr st
      | Some router \<Rightarrow>
          let routed = extractModelNameFromPath (u_Path (r_URL r)) in
          if routed = [] then Inr st
          else (case GetBackend router routed of
              Some b \<Rightarrow>
                let stripped = stripModelPrefixFromPath (u_Path (r_URL r)) routed in
                if IsPathSupported b stripped then Inr st
                else
                  let reason = ''model '' @ go_quote routed @ '' (capability '' @ go_quote (mb_Capability b) @
                        '') does not serve '' @ stripped @ ''; supported endpoints: '' @
                        Join '', '' (mb_Endpoints b);
                      h = HSet Map.empty ''X-Supported-Endpoints'' (Join '','' (mb_Endpoints b))
                  in Inl (http_Error h (json_obj
                       [json_plain ''error'' ''endpoint_not_supported_for_model'', json_quoted ''model'' routed,
                        json_quoted ''capability'' (mb_Capability b), json_quoted ''requested'' stripped,
                        json_key ''supported'' @ jsonStringArray (mb_Endpoints b)]) 404,
                     audit_error env r userID reason 404 st)
            | None \<Rightarrow>
                Inl (http_Error Map.empty
                    (json_obj [json_plain ''error'' ''model_not_deployed'', json_quoted ''model'' routed]) 404,
                  audit_error env r userID (''model '' @ go_quote routed @ '' not deployed'') 404 st)))"

definition body_gate :: "gw_env \<Rightarrow> request \<Rightarrow> gostr \<Rightarrow> 'q gate" where
  "body_gate env r userID st =
     (case (r_Body r, ge_read_error env) of
        (Some _, Some err) \<Rightarrow> Inl (http_Error Map.empty ''Bad Request'' 400,
          audit_error env r userID (''failed to read body: '' @ err) 400 st)
      | _ \<Rightarrow> Inr st)"

definition body_len :: "request \<Rightarrow> int" where
  "body_len r = (case r_Body r of None \<Rightarrow> 0 | Some b \<Rightarrow> int (length b))"

subsection \<open>The handler\<close>

fun run_gates :: "'q gate list \<Rightarrow> 'q gate" where
  "run_gates [] st = Inr st"
| "run_gates (g # gs) st = (case g st of Inl done \<Rightarrow> Inl done | Inr st' \<Rightarrow> run_gates gs st')"

definition gates :: "gw_env \<Rightarrow> 'q Gateway \<Rightarrow> request \<Rightarrow> gostr \<Rightarrow> gostr \<Rightarrow> 'q gate list" where
  "gates env gw r userID modelName =
     [ip_gate env gw r userID, access_gate env gw r userID modelName, quota_gate env gw r userID,
      rate_gate env gw r userID, admission_gate env gw r userID modelName, capability_gate env gw r userID,
      body_gate env r userID]"

text \<open>After the backend answered: metrics, quota, and the closing audit entry. \<open>None\<close> is a panic of the
  handler, with the state it had reached.\<close>

definition record_metrics ::
    "gw_env \<Rightarrow> request \<Rightarrow> gostr \<Rightarrow> gostr \<Rightarrow> int \<Rightarrow> int \<Rightarrow> int \<Rightarrow> GatewayMetrics \<Rightarrow>
      GatewayMetrics + GatewayMetrics" where
  "record_metrics env r userID modelName status i o' m =
     (let m1 = RecordLatency modelName (ge_duration env) (RecordRequestComplete status (r_Method r) userID modelName m)
      in if 0 < i \<or> 0 < o' then RecordTokens userID modelName i o' m1 else Inr m1)"

definition finish ::
    "gw_env \<Rightarrow> 'q Gateway \<Rightarrow> request \<Rightarrow> gostr \<Rightarrow> gostr \<Rightarrow> response \<Rightarrow> 'q gw_state \<Rightarrow> response option \<times> 'q gw_state" where
  "finish env gw r userID modelName resp st =
     (let (i, o') = parseTokenUsage (ge_json_usage env) (w_Body resp) (HGet (w_Header resp) ''Content-Type'');
          metrics = (case gs_metrics st of None \<Rightarrow> Inr None
                     | Some m \<Rightarrow> map_sum Some Some (record_metrics env r userID modelName (w_Status resp) i o' m))
      in case metrics of
           Inl ms \<Rightarrow> (None, st\<lparr> gs_metrics := ms \<rparr>)
         | Inr ms \<Rightarrow>
             let st1 = st\<lparr> gs_metrics := ms \<rparr>;
                 st2 = (case gw_quotaManager gw of
                          None \<Rightarrow> st1
                        | Some qm \<Rightarrow> if 0 < i \<or> 0 < o' then st1\<lparr> gs_quota := qm_Record qm userID i o' (gs_quota st1) \<rparr>
                                    else st1)
             in (Some resp,
                 if w_Status resp < 400 then
                   audit (CallResponse userID modelName (r_RequestURI r) (ge_correlationID env) (w_Status resp)
                            (int (length (w_Body resp))) i o' (ge_duration env)) st2
                 else audit_error env r userID (''backend returned '' @ Itoa (w_Status resp)) (w_Status resp) st2))"

definition forward ::
    "gw_env \<Rightarrow> 'q Gateway \<Rightarrow> request \<Rightarrow> gostr \<Rightarrow> gostr \<Rightarrow> 'q gw_state \<Rightarrow> response option \<times> 'q gw_state" where
  "forward env gw r userID modelName st =
     (let st1 = audit (CallRequest userID modelName (r_RequestURI r) (r_Method r) (getClientIP r)
                         (HGet (r_Header r) ''User-Agent'') (ge_correlationID env) (body_len r)) st
      in case director (ge_parse_url env) gw r of
           None \<Rightarrow> (None, st1)
         | Some out \<Rightarrow> finish env gw r userID modelName (ge_backend env out) st1)"

definition ServeHTTP :: "gw_env \<Rightarrow> 'q Gateway \<Rightarrow> request \<Rightarrow> 'q gw_state \<Rightarrow> response option \<times> 'q gw_state" where
  "ServeHTTP env gw r st =
     (let st1 = on_metrics RecordRequest st in
      case authenticate gw r st1 of
        Inl (resp, st2) \<Rightarrow> (Some resp, st2)
      | Inr userID \<Rightarrow>
          (case special_endpoint env gw r userID of
             Some resp \<Rightarrow> (Some resp, st1)
           | None \<Rightarrow>
               let modelName = extractModelName env r in
               (case run_gates (gates env gw r userID modelName) st1 of
                  Inl (resp, st2) \<Rightarrow> (Some resp, st2)
                | Inr st2 \<Rightarrow> forward env gw r userID modelName st2)))"

subsection \<open>What the gates check and keep\<close>

text \<open>The conditions a user's request has to meet, gate by gate; the state is the one at the gate.\<close>

definition ip_ok :: "'q Gateway \<Rightarrow> request \<Rightarrow> gostr \<Rightarrow> bool" where
  "ip_ok gw r u \<longleftrightarrow> u = [] \<or>
     (\<forall>ac allowed. gw_accessController gw = Some ac \<and> ac_IsSourceIPAllowed ac = Some allowed \<longrightarrow> allowed u (getClientIP r))"

definition access_ok :: "'q Gateway \<Rightarrow> gostr \<Rightarrow> gostr \<Rightarrow> bool" where
  "access_ok gw u m \<longleftrightarrow> u = [] \<or> (\<forall>ac. gw_accessController gw = Some ac \<longrightarrow> ac_CanAccess ac u m)"

definition quota_ok :: "'q Gateway \<Rightarrow> gostr \<Rightarrow> 'q \<Rightarrow> bool" where
  "quota_ok gw u q \<longleftrightarrow> u = [] \<or> (\<forall>qm. gw_quotaManager gw = Some qm \<longrightarrow> qm_CheckQuota qm q u = None)"

definition rate_limiter :: "gw_env \<Rightarrow> 'q Gateway \<Rightarrow> gostr \<Rightarrow> RateLimiter \<Rightarrow> bool \<times> RateLimiter" where
  "rate_limiter env gw u rl =
     (if Fin 0 < gw_requestsPerMin gw
      then RateLimiter_Allow u (gw_requestsPerMin gw) (ge_create env) (ge_now env) rl else (True, rl))"

definition admission_ok :: "'q Gateway \<Rightarrow> gostr \<Rightarrow> bool" where
  "admission_ok gw m \<longleftrightarrow> (\<forall>allow. gw_admissionCtrl gw = Some allow \<longrightarrow> de_Allow (allow m))"

definition routable :: "'q Gateway \<Rightarrow> request \<Rightarrow> bool" where
  "routable gw r \<longleftrightarrow> (\<forall>router. gw_modelRouter gw = Some router \<longrightarrow>
     (let name = extractModelNameFromPath (u_Path (r_URL r)) in name = [] \<or>
       (\<exists>b. GetBackend router name = Some b \<and>
            IsPathSupported b (stripModelPrefixFromPath (u_Path (r_URL r)) name))))"

definition body_ok :: "gw_env \<Rightarrow> request \<Rightarrow> bool" where
  "body_ok env r \<longleftrightarrow> r_Body r = None \<or> ge_read_error env = None"

lemma on_metrics_frame [simp]:
  "gs_audit (on_metrics f st) = gs_audit st" "gs_quota (on_metrics f st) = gs_quota st"
  "gs_limiter (on_metrics f st) = gs_limiter st" "gs_metrics (on_metrics f st) = map_option f (gs_metrics st)"
  by (simp_all add: on_metrics_def)

lemma audit_frame [simp]:
  "gs_audit (audit c st) = gs_audit st @ [c]" "gs_quota (audit c st) = gs_quota st"
  "gs_limiter (audit c st) = gs_limiter st" "gs_metrics (audit c st) = gs_metrics st"
  by (simp_all add: audit_def)

text \<open>The gates that pass, with the state they leave.\<close>

lemma gate_pass:
  "ip_gate env gw r u st = Inr st' \<longleftrightarrow> ip_ok gw r u \<and> st' = st"
  "access_gate env gw r u m st = Inr st' \<longleftrightarrow> access_ok gw u m \<and> st' = st"
  "quota_gate env gw r u st = Inr st' \<longleftrightarrow> quota_ok gw u (gs_quota st) \<and> st' = st"
  "rate_gate env gw r u st = Inr st' \<longleftrightarrow> fst (rate_limiter env gw u (gs_limiter st)) \<and>
     st' = st\<lparr> gs_limiter := snd (rate_limiter env gw u (gs_limiter st)) \<rparr>"
  "admission_gate env gw r u m st = Inr st' \<longleftrightarrow> admission_ok gw m \<and> st' = st"
  "capability_gate env gw r u st = Inr st' \<longleftrightarrow> routable gw r \<and> st' = st"
  "body_gate env r u st = Inr st' \<longleftrightarrow> body_ok env r \<and> st' = st"
  by (auto simp: ip_gate_def ip_ok_def access_gate_def access_ok_def quota_gate_def quota_ok_def
      rate_gate_def rate_limiter_def admission_gate_def admission_ok_def capability_gate_def routable_def
      body_gate_def body_ok_def Let_def split: option.splits prod.splits bind_splits)

text \<open>A gate that answers leaves one audit entry, and metrics that count the same requests.\<close>

definition denied :: "gw_env \<Rightarrow> request \<Rightarrow> gostr \<Rightarrow> 'q gw_state \<Rightarrow> response \<Rightarrow> 'q gw_state \<Rightarrow> bool" where
  "denied env r u st resp st' \<longleftrightarrow> gs_quota st' = gs_quota st \<and> 400 \<le> w_Status resp \<and>
     (\<exists>msg. gs_audit st' = gs_audit st @
        [CallError u (r_RequestURI r) (ge_correlationID env) msg (w_Status resp) (getClientIP r)]) \<and>
     map_option gm_activeRequests (gs_metrics st') = map_option gm_activeRequests (gs_metrics st) \<and>
     map_option gm_requestsTotal (gs_metrics st') = map_option gm_requestsTotal (gs_metrics st)"

lemma audit_error_frame [simp]:
  "gs_audit (audit_error env r u msg s st) = gs_audit st @ [CallError u (r_RequestURI r) (ge_correlationID env) msg s (getClientIP r)]"
  "gs_quota (audit_error env r u msg s st) = gs_quota st" "gs_limiter (audit_error env r u msg s st) = gs_limiter st"
  "gs_metrics (audit_error env r u msg s st) = gs_metrics st"
  by (simp_all add: audit_error_def)

lemma gate_deny:
  "ip_gate env gw r u st = Inl (resp, st') \<Longrightarrow> denied env r u st resp st'"
  "access_gate env gw r u m st = Inl (resp, st') \<Longrightarrow> denied env r u st resp st'"
  "quota_gate env gw r u st = Inl (resp, st') \<Longrightarrow> denied env r u st resp st'"
  "rate_gate env gw r u st = Inl (resp, st') \<Longrightarrow> denied env r u st resp st'"
  "admission_gate env gw r u m st = Inl (resp, st') \<Longrightarrow> denied env r u st resp st'"
  "capability_gate env gw r u st = Inl (resp, st') \<Longrightarrow> denied env r u st resp st'"
  "body_gate env r u st = Inl (resp, st') \<Longrightarrow> denied env r u st resp st'"
  by (auto simp: ip_gate_def access_gate_def quota_gate_def rate_gate_def admission_gate_def capability_gate_def
      body_gate_def denied_def Let_def option.map_comp comp_def active_simps requests_simps
      split: option.splits prod.splits if_splits)

subsection \<open>The whole request\<close>

definition admissible :: "gw_env \<Rightarrow> 'q Gateway \<Rightarrow> request \<Rightarrow> gostr \<Rightarrow> 'q gw_state \<Rightarrow> bool" where
  "admissible env gw r u st \<longleftrightarrow> ip_ok gw r u \<and> access_ok gw u (extractModelName env r) \<and> quota_ok gw u (gs_quota st) \<and>
     fst (rate_limiter env gw u (gs_limiter st)) \<and> admission_ok gw (extractModelName env r) \<and> routable gw r \<and> body_ok env r"

lemma run_gates_Inr:
  "run_gates (g # gs) st = Inr st' \<longleftrightarrow> (\<exists>st1. g st = Inr st1 \<and> run_gates gs st1 = Inr st')"
  by (auto split: sum.splits)

lemma gates_pass:
  "run_gates (gates env gw r u (extractModelName env r)) st = Inr st' \<longleftrightarrow>
     admissible env gw r u st \<and> st' = st\<lparr> gs_limiter := snd (rate_limiter env gw u (gs_limiter st)) \<rparr>"
  unfolding gates_def run_gates_Inr gate_pass admissible_def by auto

text \<open>The gate that answers sees the quota, audit and metrics of the start.\<close>

definition quiet :: "'q gate \<Rightarrow> bool" where
  "quiet g \<longleftrightarrow> (\<forall>st st'. g st = Inr st' \<longrightarrow> gs_quota st' = gs_quota st \<and> gs_audit st' = gs_audit st \<and> gs_metrics st' = gs_metrics st)"

lemma denied_trans:
  "gs_quota st1 = gs_quota st \<Longrightarrow> gs_audit st1 = gs_audit st \<Longrightarrow> gs_metrics st1 = gs_metrics st \<Longrightarrow>
     denied env r u st1 resp st' \<Longrightarrow> denied env r u st resp st'"
  by (simp add: denied_def)

definition denies :: "gw_env \<Rightarrow> request \<Rightarrow> gostr \<Rightarrow> 'q gate \<Rightarrow> bool" where
  "denies env r u g \<longleftrightarrow> (\<forall>st resp st'. g st = Inl (resp, st') \<longrightarrow> denied env r u st resp st')"

lemma run_gates_deny:
  assumes "list_all quiet gs" "list_all (denies env r u) gs" "run_gates gs st = Inl (resp, st')"
  shows "denied env r u st resp st'"
  using assms
proof (induction gs arbitrary: st)
  case (Cons g gs)
  show ?case
  proof (cases "g st")
    case (Inl d)
    with Cons.prems show ?thesis by (simp add: denies_def)
  next
    case (Inr st1)
    have "denied env r u st1 resp st'" by (rule Cons.IH) (use Cons.prems Inr in simp_all)
    moreover have "quiet g" using Cons.prems(1) by simp
    ultimately show ?thesis using Inr unfolding quiet_def by (metis denied_trans)
  qed
qed simp

lemma gates_deny:
  assumes "run_gates (gates env gw r u m) st = Inl (resp, st')"
  shows "denied env r u st resp st'"
proof (rule run_gates_deny [OF _ _ assms])
  show "list_all quiet (gates env gw r u m)" by (simp add: gates_def quiet_def gate_pass)
  show "list_all (denies env r u) (gates env gw r u m)"
    by (auto simp: gates_def denies_def intro: gate_deny)
qed

text \<open>What was appended to the audit trail.\<close>

definition new_audit :: "'q gw_state \<Rightarrow> 'q gw_state \<Rightarrow> audit_call list" where
  "new_audit st st' = drop (length (gs_audit st)) (gs_audit st')"

definition request_call :: "gw_env \<Rightarrow> request \<Rightarrow> gostr \<Rightarrow> gostr \<Rightarrow> audit_call" where
  "request_call env r u m = CallRequest u m (r_RequestURI r) (r_Method r) (getClientIP r)
     (HGet (r_Header r) ''User-Agent'') (ge_correlationID env) (body_len r)"

lemma new_audit_append: "gs_audit st' = gs_audit st @ cs \<Longrightarrow> new_audit st st' = cs"
  by (simp add: new_audit_def)

lemma on_metrics_new_audit [simp]: "new_audit (on_metrics f st) st' = new_audit st st'"
  by (simp add: new_audit_def)

lemma authenticate_deny:
  "authenticate gw r st = Inl (resp, st') \<Longrightarrow> w_Status resp = 401 \<and> gs_quota st' = gs_quota st \<and>
     (\<exists>err. gs_audit st' = gs_audit st @
        [CallAuthFailure (take 8 (request_key gw r) @ ''...'') (r_RequestURI r) (getClientIP r) err]) \<and>
     map_option gm_activeRequests (gs_metrics st') = map_option gm_activeRequests (gs_metrics st) \<and>
     map_option gm_requestsTotal (gs_metrics st') = map_option gm_requestsTotal (gs_metrics st)"
  by (auto simp: authenticate_def Let_def option.map_comp comp_def active_simps requests_simps split: option.splits if_splits sum.splits)

lemma authenticate_state:
  "(\<exists>resp st'. authenticate gw r st = Inl (resp, st')) \<or>
   (\<exists>u. authenticate gw r st = Inr u \<and> authenticate gw r st2 = Inr u)"
  by (auto simp: authenticate_def Let_def split: option.splits sum.splits)

lemma map_sum_Inr: "map_sum f g x = Inr y \<longleftrightarrow> (\<exists>z. x = Inr z \<and> y = g z)"
  by (cases x) auto

text \<open>The closing entry of a forwarded request.\<close>

lemma finish_audit:
  assumes "finish env gw r u m resp st = (a, st')"
  shows "(a = None \<and> gs_audit st' = gs_audit st) \<or> (a = Some resp \<and> (\<exists>c. gs_audit st' = gs_audit st @ [c] \<and>
     (if w_Status resp < 400 then \<exists>sz i o' d. c = CallResponse u m (r_RequestURI r) (ge_correlationID env) (w_Status resp) sz i o' d
      else \<exists>msg. c = CallError u (r_RequestURI r) (ge_correlationID env) msg (w_Status resp) (getClientIP r))) \<and>
     map_option gm_activeRequests (gs_metrics st') = map_option (\<lambda>g. gm_activeRequests g - 1) (gs_metrics st) \<and>
     map_option gm_requestsTotal (gs_metrics st') = map_option gm_requestsTotal (gs_metrics st))"
proof -
  obtain i o' where t: "parseTokenUsage (ge_json_usage env) (w_Body resp) (HGet (w_Header resp) ''Content-Type'') = (i, o')"
    by (cases "parseTokenUsage (ge_json_usage env) (w_Body resp) (HGet (w_Header resp) ''Content-Type'')")
  show ?thesis
  proof (cases "case gs_metrics st of None \<Rightarrow> Inr None
      | Some g \<Rightarrow> map_sum Some Some (record_metrics env r u m (w_Status resp) i o' g)")
    case (Inl ms)
    with assms show ?thesis unfolding finish_def t Let_def by auto
  next
    case (Inr ms)
    have "map_option gm_activeRequests ms = map_option (\<lambda>g. gm_activeRequests g - 1) (gs_metrics st)"
      "map_option gm_requestsTotal ms = map_option gm_requestsTotal (gs_metrics st)"
      using Inr by (auto simp: record_metrics_def Let_def active_simps requests_simps map_sum_Inr split: option.splits if_splits)
    with Inr assms show ?thesis unfolding finish_def t Let_def
      by (auto split: option.splits if_splits)
  qed
qed

lemma forward_shape:
  assumes "forward env gw r u m st = (a, st')"
  shows "\<exists>cs. gs_audit st' = gs_audit st @ request_call env r u m # cs \<and> length cs \<le> 1 \<and>
     (\<forall>c \<in> set cs. \<forall>u m. c \<noteq> request_call env r u m)"
proof (cases "director (ge_parse_url env) gw r")
  case None
  then show ?thesis using assms by (auto simp: forward_def request_call_def)
next
  case (Some out)
  let ?st1 = "audit (request_call env r u m) st"
  have f: "finish env gw r u m (ge_backend env out) ?st1 = (a, st')"
    using assms Some by (simp add: forward_def request_call_def)
  from finish_audit [OF f] show ?thesis by (auto simp: request_call_def split: if_splits)
qed

lemma serve_cases:
  obtains
    (auth) resp st' where "authenticate gw r (on_metrics RecordRequest st) = Inl (resp, st')"
      "ServeHTTP env gw r st = (Some resp, st')"
  | (special) u resp where "authenticate gw r (on_metrics RecordRequest st) = Inr u"
      "special_endpoint env gw r u = Some resp" "ServeHTTP env gw r st = (Some resp, on_metrics RecordRequest st)"
  | (denied) u resp st' where "authenticate gw r (on_metrics RecordRequest st) = Inr u"
      "special_endpoint env gw r u = None" "\<not> admissible env gw r u st"
      "denied env r u (on_metrics RecordRequest st) resp st'" "ServeHTTP env gw r st = (Some resp, st')"
  | (forwarded) u st1 where "authenticate gw r (on_metrics RecordRequest st) = Inr u"
      "special_endpoint env gw r u = None" "admissible env gw r u st"
      "gs_audit st1 = gs_audit st" "gs_quota st1 = gs_quota st" "gs_metrics st1 = map_option RecordRequest (gs_metrics st)"
      "ServeHTTP env gw r st = forward env gw r u (extractModelName env r) st1"
proof -
  let ?st = "on_metrics RecordRequest st"
  have adm: "admissible env gw r u ?st \<longleftrightarrow> admissible env gw r u st" for u by (simp add: admissible_def)
  show thesis
  proof (cases "authenticate gw r ?st")
    case (Inl d)
    obtain resp st' where "d = (resp, st')" by (cases d)
    with Inl auth show thesis by (simp add: ServeHTTP_def Let_def)
  next
    case (Inr u)
    show thesis
    proof (cases "special_endpoint env gw r u")
      case (Some resp)
      with Inr special show thesis by (simp add: ServeHTTP_def Let_def)
    next
      case None
      let ?m = "extractModelName env r"
      show thesis
      proof (cases "run_gates (gates env gw r u ?m) ?st")
        case (Inl d)
        obtain resp st' where d: "d = (resp, st')" by (cases d)
        have "\<not> admissible env gw r u ?st" using gates_pass [of env gw r u ?st] Inl by auto
        with denied [OF Inr None _ gates_deny [OF Inl [unfolded d]]] Inl Inr None d adm
        show thesis by (simp add: ServeHTTP_def Let_def)
      next
        case (Inr st1)
        have p: "admissible env gw r u ?st"
            "st1 = ?st\<lparr> gs_limiter := snd (rate_limiter env gw u (gs_limiter ?st)) \<rparr>"
          using Inr gates_pass [of env gw r u ?st st1] by auto
        show thesis
          by (rule forwarded [of u st1])
            (use p adm Inr \<open>authenticate gw r ?st = Inr u\<close> None in \<open>simp_all add: ServeHTTP_def Let_def\<close>)
      qed
    qed
  qed
qed

lemma forwarded_iff:
  "(\<exists>c \<in> set (new_audit st (snd (ServeHTTP env gw r st))). c = request_call env r u m) \<longleftrightarrow>
     authenticate gw r st = Inr u \<and> special_endpoint env gw r u = None \<and> m = extractModelName env r \<and>
     ip_ok gw r u \<and> access_ok gw u m \<and> quota_ok gw u (gs_quota st) \<and>
     fst (rate_limiter env gw u (gs_limiter st)) \<and> admission_ok gw m \<and> routable gw r \<and> body_ok env r"
proof -
  have au: "authenticate gw r st = Inr v \<longleftrightarrow> authenticate gw r (on_metrics RecordRequest st) = Inr v" for v
    by (auto simp: authenticate_def Let_def split: option.splits if_splits sum.splits)
  show ?thesis
  proof (cases rule: serve_cases [of gw r st env])
    case (auth resp st')
    obtain err where "gs_audit st' = gs_audit (on_metrics RecordRequest st) @
        [CallAuthFailure (take 8 (request_key gw r) @ ''...'') (r_RequestURI r) (getClientIP r) err]"
      using authenticate_deny [OF auth(1)] by blast
    then have "new_audit st st' = [CallAuthFailure (take 8 (request_key gw r) @ ''...'') (r_RequestURI r) (getClientIP r) err]"
      by (simp add: new_audit_append)
    then show ?thesis using auth au by (simp add: request_call_def)
  next
    case (special v resp)
    then show ?thesis using au by (auto simp: new_audit_def)
  next
    case (denied v resp st')
    obtain msg where "gs_audit st' = gs_audit (on_metrics RecordRequest st) @
        [CallError v (r_RequestURI r) (ge_correlationID env) msg (w_Status resp) (getClientIP r)]"
      using denied(4) unfolding denied_def by blast
    then have "new_audit st st' = [CallError v (r_RequestURI r) (ge_correlationID env) msg (w_Status resp) (getClientIP r)]"
      by (simp add: new_audit_append)
    then show ?thesis using denied au by (auto simp: request_call_def admissible_def)
  next
    case (forwarded v st1)
    obtain a st' where f: "forward env gw r v (extractModelName env r) st1 = (a, st')"
      by (cases "forward env gw r v (extractModelName env r) st1")
    obtain cs where cs: "gs_audit st' = gs_audit st1 @ request_call env r v (extractModelName env r) # cs"
        "\<forall>c \<in> set cs. \<forall>u m. c \<noteq> request_call env r u m"
      using forward_shape [OF f] by blast
    then have "new_audit st st' = request_call env r v (extractModelName env r) # cs"
      using forwarded(4) by (simp add: new_audit_append)
    then show ?thesis using forwarded au f cs(2) by (auto simp: admissible_def request_call_def)
  qed
qed

text \<open>C2: Only admitted requests reach the backend. In any state and environment, the handler hands a
  request over to the reverse proxy (and writes its request entry) exactly when the key, if there is
  one, authenticated a user, the request is not for a gateway endpoint, and the source address, the
  access list, the quota, the rate limit, the admission controller and the routing table all admit it
  and its body could be read; the entry then names the authenticated user and the requested model.\<close>

theorem only_admitted_forwarded:
  "(\<exists>c \<in> set (new_audit st (snd (ServeHTTP env gw r st))). c = request_call env r u m) \<longleftrightarrow>
     authenticate gw r st = Inr u \<and> special_endpoint env gw r u = None \<and> m = extractModelName env r \<and>
     ip_ok gw r u \<and> access_ok gw u m \<and> quota_ok gw u (gs_quota st) \<and>
     fst (rate_limiter env gw u (gs_limiter st)) \<and> admission_ok gw m \<and> routable gw r \<and> body_ok env r"
  by (rule forwarded_iff)

subsection \<open>Accounting\<close>

text \<open>The kinds of audit entries a request leaves.\<close>

definition is_closing :: "gostr \<Rightarrow> int \<Rightarrow> audit_call \<Rightarrow> bool" where
  "is_closing u status c \<longleftrightarrow>
     (if status < 400 then \<exists>m e cid sz i o' d. c = CallResponse u m e cid status sz i o' d
      else \<exists>e cid msg ip. c = CallError u e cid msg status ip)"

definition active :: "'q gw_state \<Rightarrow> int option" where
  "active st = map_option gm_activeRequests (gs_metrics st)"

definition total :: "'q gw_state \<Rightarrow> int option" where
  "total st = map_option gm_requestsTotal (gs_metrics st)"

text \<open>C3: Accounting of one request. It is counted once. A request refused by a gate leaves exactly one
  audit entry, with the status the client got; a forwarded one leaves its request entry and one closing
  entry with the status of the backend; only gateway endpoints leave none. The gauge of active requests
  goes back to where it was only for forwarded requests: every refused request and every request for a
  gateway endpoint leaves it one higher for ever.\<close>

theorem request_accounting:
  assumes "ServeHTTP env gw r st = (Some resp, st')"
  shows "total st' = map_option (\<lambda>n. n + 1) (total st) \<and>
    ((\<exists>u m c. new_audit st st' = [request_call env r u m, c] \<and> is_closing u (w_Status resp) c \<and> active st' = active st) \<or>
     (active st' = map_option (\<lambda>n. n + 1) (active st) \<and>
      ((\<exists>u c. new_audit st st' = [c] \<and> 400 \<le> w_Status resp \<and> is_closing u (w_Status resp) c) \<or>
       (\<exists>k ip err. new_audit st st' = [CallAuthFailure k (r_RequestURI r) ip err] \<and> w_Status resp = 401) \<or>
       (new_audit st st' = [] \<and> (\<exists>u. special_endpoint env gw r u = Some resp)))))"
proof (cases rule: serve_cases [of gw r st env])
  case (auth resp' st1)
  then have e: "resp' = resp" "st1 = st'" using assms by simp_all
  from authenticate_deny [OF auth(1)] e obtain err where a: "w_Status resp = 401"
      "gs_audit st' = gs_audit st @ [CallAuthFailure (take 8 (request_key gw r) @ ''...'') (r_RequestURI r) (getClientIP r) err]"
      "map_option gm_activeRequests (gs_metrics st') = map_option gm_activeRequests (map_option RecordRequest (gs_metrics st))"
      "map_option gm_requestsTotal (gs_metrics st') = map_option gm_requestsTotal (map_option RecordRequest (gs_metrics st))"
    by auto
  from new_audit_append [OF a(2)] a show ?thesis
    by (auto simp: active_def total_def option.map_comp comp_def active_simps requests_simps)
next
  case (special u resp')
  with assms show ?thesis
    by (auto simp: active_def total_def new_audit_def option.map_comp comp_def active_simps requests_simps)
next
  case (denied u resp' st1)
  then have e: "resp' = resp" "st1 = st'" using assms by simp_all
  from denied(4) e obtain msg where a: "400 \<le> w_Status resp"
      "gs_audit st' = gs_audit st @ [CallError u (r_RequestURI r) (ge_correlationID env) msg (w_Status resp) (getClientIP r)]"
      "map_option gm_activeRequests (gs_metrics st') = map_option gm_activeRequests (map_option RecordRequest (gs_metrics st))"
      "map_option gm_requestsTotal (gs_metrics st') = map_option gm_requestsTotal (map_option RecordRequest (gs_metrics st))"
    by (auto simp: denied_def)
  from new_audit_append [OF a(2)] a show ?thesis
    by (auto simp: active_def total_def is_closing_def option.map_comp comp_def active_simps requests_simps)
next
  case (forwarded u st1)
  let ?m = "extractModelName env r"
  have f: "forward env gw r u ?m st1 = (Some resp, st')" using assms forwarded(7) by simp
  then obtain out where out: "director (ge_parse_url env) gw r = Some out"
    by (cases "director (ge_parse_url env) gw r") (simp_all add: forward_def)
  let ?st2 = "audit (request_call env r u ?m) st1"
  have fin: "finish env gw r u ?m (ge_backend env out) ?st2 = (Some resp, st')"
    using f out by (simp add: forward_def request_call_def)
  from finish_audit [OF fin] obtain c where c: "resp = ge_backend env out" "gs_audit st' = gs_audit ?st2 @ [c]"
      "if w_Status resp < 400 then \<exists>sz i o' d. c = CallResponse u ?m (r_RequestURI r) (ge_correlationID env) (w_Status resp) sz i o' d
       else \<exists>msg. c = CallError u (r_RequestURI r) (ge_correlationID env) msg (w_Status resp) (getClientIP r)"
      "map_option gm_activeRequests (gs_metrics st') = map_option (\<lambda>g. gm_activeRequests g - 1) (gs_metrics st1)"
      "map_option gm_requestsTotal (gs_metrics st') = map_option gm_requestsTotal (gs_metrics st1)"
    by auto
  have "new_audit st st' = [request_call env r u ?m, c]"
    by (rule new_audit_append) (use c(2) forwarded(4) in simp)
  moreover have "is_closing u (w_Status resp) c" using c(3) by (auto simp: is_closing_def split: if_splits)
  ultimately show ?thesis using c(4,5) forwarded(6)
    by (auto simp: active_def total_def option.map_comp comp_def active_simps requests_simps)
qed

subsection \<open>Requests without a key\<close>

text \<open>C5: A request without a key bypasses every user-level control. Whatever authentication provider,
  access controller (allowlist included) and quota manager the gateway is configured with, a request
  that carries no key is forwarded as user \<open>""\<close> as soon as the shared rate limit, the admission
  controller and the routing table admit it.\<close>

theorem missing_key_bypass:
  assumes "request_key gw r = []" "special_endpoint env gw r [] = None"
    and "fst (rate_limiter env gw [] (gs_limiter st))" "admission_ok gw (extractModelName env r)" "routable gw r" "body_ok env r"
  shows "request_call env r [] (extractModelName env r) \<in> set (new_audit st (snd (ServeHTTP env gw r st)))"
proof -
  have "authenticate gw r (on_metrics RecordRequest st) = Inr []"
    using assms(1) by (simp add: authenticate_def split: option.split)
  moreover have "admissible env gw r [] st"
    using assms by (simp add: admissible_def ip_ok_def access_ok_def quota_ok_def)
  ultimately show ?thesis
  proof (cases rule: serve_cases [of gw r st env])
    case (forwarded u st1)
    with \<open>authenticate gw r (on_metrics RecordRequest st) = Inr []\<close> have u: "u = []" by simp
    obtain a st' where f: "forward env gw r [] (extractModelName env r) st1 = (a, st')"
      by (cases "forward env gw r [] (extractModelName env r) st1")
    obtain cs where "gs_audit st' = gs_audit st1 @ request_call env r [] (extractModelName env r) # cs"
      using forward_shape [OF f] by blast
    then have "new_audit st st' = request_call env r [] (extractModelName env r) # cs"
      using forwarded(4) by (simp add: new_audit_append)
    then show ?thesis using forwarded f u by simp
  qed (use assms(2) in auto)
qed

subsection \<open>A gateway that denies everybody, and a request without a key\<close>

definition deny_all :: "unit Gateway" where
  "deny_all = \<lparr> gw_targetURL = \<lparr> u_Scheme = ''http'', u_Host = ''vllm'', u_Path = [], u_RawPath = [], u_RawQuery = [] \<rparr>,
     gw_authProvider = Some (\<lambda>_. Inl ''invalid''),
     gw_accessController = Some \<lparr> ac_CanAccess = (\<lambda>_ _. False), ac_IsSourceIPAllowed = Some (\<lambda>_ _. False) \<rparr>,
     gw_quotaManager = Some \<lparr> qm_CheckQuota = (\<lambda>_ _. Some ''exhausted''), qm_Record = (\<lambda>_ _ _ q. q) \<rparr>,
     gw_modelRouter = None, gw_admissionCtrl = None, gw_requestsPerMin = Fin 0, gw_APIKeyHeader = ''X-API-Key'' \<rparr>"

definition keyless :: request where
  "keyless = \<lparr> r_Method = ''GET'', r_URL = \<lparr> u_Scheme = [], u_Host = [], u_Path = ''/v1/version'', u_RawPath = [], u_RawQuery = [] \<rparr>,
     r_Host = ''gw'', r_RequestURI = ''/v1/version'', r_RemoteAddr = ''1.2.3.4:5'', r_Header = Map.empty, r_Body = None \<rparr>"

definition plain_env :: gw_env where
  "plain_env = \<lparr> ge_correlationID = ''1'', ge_peek = 512, ge_read_error = None, ge_create = 0, ge_now = 0,
     ge_json_model = (\<lambda>_. None), ge_json_usage = (\<lambda>_. None), ge_parse_url = (\<lambda>_. None),
     ge_backend = (\<lambda>_. \<lparr> w_Header = Map.empty, w_Status = 200, w_Body = ''ok'' \<rparr>), ge_duration = 1, ge_order = [],
     ge_unix = 0, ge_enc_models = (\<lambda>_. []), ge_enc_targets = (\<lambda>_. []), ge_scrape = (\<lambda>_. BadURL) \<rparr>"

definition fresh_state :: "unit gw_state" where
  "fresh_state = \<lparr> gs_quota = (), gs_limiter = Map.empty, gs_metrics = Some NewGatewayMetrics, gs_audit = [] \<rparr>"

theorem missing_key_bypass_witness:
  "request_call plain_env keyless [] (extractModelName plain_env keyless)
     \<in> set (new_audit fresh_state (snd (ServeHTTP plain_env deny_all keyless fresh_state)))"
proof (rule missing_key_bypass)
  show "request_key deny_all keyless = []"
    by (simp add: request_key_def deny_all_def keyless_def bearer_prefix_def HasPrefix_def)
  show "special_endpoint plain_env deny_all keyless [] = None"
    by (simp add: special_endpoint_def deny_all_def)
  show "fst (rate_limiter plain_env deny_all [] (gs_limiter fresh_state))"
    by (simp add: rate_limiter_def deny_all_def)
  show "admission_ok deny_all (extractModelName plain_env keyless)" by (simp add: admission_ok_def deny_all_def)
  show "routable deny_all keyless" by (simp add: routable_def deny_all_def)
  show "body_ok plain_env keyless" by (simp add: body_ok_def keyless_def)
qed

lemma keyless_answer:
  "fst (ServeHTTP plain_env deny_all keyless fresh_state) =
     Some \<lparr> w_Header = Map.empty, w_Status = 200, w_Body = ''ok'' \<rparr>"
proof -
  have a: "authenticate deny_all keyless st = Inr []" for st
    by (simp add: authenticate_def request_key_def deny_all_def keyless_def bearer_prefix_def HasPrefix_def)
  have s: "special_endpoint plain_env deny_all keyless [] = None" by (simp add: special_endpoint_def deny_all_def)
  have "admissible plain_env deny_all keyless [] (on_metrics RecordRequest fresh_state)"
    by (simp add: admissible_def ip_ok_def access_ok_def quota_ok_def rate_limiter_def admission_ok_def routable_def
        body_ok_def deny_all_def keyless_def)
  with gates_pass obtain st1 where
    g: "run_gates (gates plain_env deny_all keyless [] (extractModelName plain_env keyless)) (on_metrics RecordRequest fresh_state) = Inr st1"
    by blast
  have t: "parseTokenUsage (ge_json_usage plain_env) (w_Body (ge_backend plain_env out)) c = (0, 0)" for out c
  proof -
    have "sse_usage (\<lambda>_. None) ls = (0, 0)" for ls by (induction ls) (simp_all add: try_usage_def split: option.split)
    then show ?thesis by (simp add: parseTokenUsage_def plain_env_def try_usage_def)
  qed
  have d: "director (ge_parse_url plain_env) deny_all keyless \<noteq> None"
    by (simp add: director_def director_target_def deny_all_def Let_def)
  then obtain out where "director (ge_parse_url plain_env) deny_all keyless = Some out" by blast
  then show ?thesis
    by (simp add: ServeHTTP_def Let_def a s g forward_def finish_def t record_metrics_def split: option.split)
      (simp add: plain_env_def)
qed

theorem request_accounting_witness:
  "total (snd (ServeHTTP plain_env deny_all keyless fresh_state)) = Some 1"
proof -
  have "ServeHTTP plain_env deny_all keyless fresh_state =
      (Some \<lparr> w_Header = Map.empty, w_Status = 200, w_Body = ''ok'' \<rparr>, snd (ServeHTTP plain_env deny_all keyless fresh_state))"
    using keyless_answer by (simp add: prod_eq_iff)
  from request_accounting [OF this] show ?thesis by (simp add: total_def fresh_state_def NewGatewayMetrics_def)
qed

subsection \<open>Refusals\<close>

lemma gate_status:
  "ip_gate env gw r u st = Inl (resp, st') \<Longrightarrow> \<not> ip_ok gw r u \<and> w_Status resp = 403 \<and> gs_limiter st' = gs_limiter st"
  "access_gate env gw r u m st = Inl (resp, st') \<Longrightarrow>
     \<not> access_ok gw u m \<and> w_Status resp = 403 \<and> gs_limiter st' = gs_limiter st"
  "quota_gate env gw r u st = Inl (resp, st') \<Longrightarrow>
     \<not> quota_ok gw u (gs_quota st) \<and> w_Status resp = 429 \<and> gs_limiter st' = gs_limiter st"
  "rate_gate env gw r u st = Inl (resp, st') \<Longrightarrow> \<not> fst (rate_limiter env gw u (gs_limiter st)) \<and>
     w_Status resp = 429 \<and> gs_limiter st' = snd (rate_limiter env gw u (gs_limiter st))"
  "admission_gate env gw r u m st = Inl (resp, st') \<Longrightarrow>
     \<not> admission_ok gw m \<and> w_Status resp = 503 \<and> gs_limiter st' = gs_limiter st"
  "capability_gate env gw r u st = Inl (resp, st') \<Longrightarrow>
     \<not> routable gw r \<and> w_Status resp = 404 \<and> gs_limiter st' = gs_limiter st"
  "body_gate env r u st = Inl (resp, st') \<Longrightarrow>
     \<not> body_ok env r \<and> w_Status resp = 400 \<and> gs_limiter st' = gs_limiter st"
  by (auto simp: ip_gate_def ip_ok_def access_gate_def access_ok_def quota_gate_def quota_ok_def rate_gate_def
      rate_limiter_def admission_gate_def admission_ok_def capability_gate_def routable_def body_gate_def body_ok_def Let_def
      split: option.splits prod.splits if_splits bind_splits)

text \<open>The first condition that fails decides the answer.\<close>

definition refusal :: "gw_env \<Rightarrow> 'q Gateway \<Rightarrow> request \<Rightarrow> gostr \<Rightarrow> 'q gw_state \<Rightarrow> int" where
  "refusal env gw r u st =
     (if \<not> ip_ok gw r u \<or> \<not> access_ok gw u (extractModelName env r) then 403
      else if \<not> quota_ok gw u (gs_quota st) \<or> \<not> fst (rate_limiter env gw u (gs_limiter st)) then 429
      else if \<not> admission_ok gw (extractModelName env r) then 503
      else if \<not> routable gw r then 404 else 400)"

definition charged_limiter :: "gw_env \<Rightarrow> 'q Gateway \<Rightarrow> request \<Rightarrow> gostr \<Rightarrow> 'q gw_state \<Rightarrow> RateLimiter" where
  "charged_limiter env gw r u st =
     (if ip_ok gw r u \<and> access_ok gw u (extractModelName env r) \<and> quota_ok gw u (gs_quota st)
      then snd (rate_limiter env gw u (gs_limiter st)) else gs_limiter st)"

lemma run_gates_Inl_cons:
  "run_gates (g # gs) st = Inl d \<longleftrightarrow> g st = Inl d \<or> (\<exists>st1. g st = Inr st1 \<and> run_gates gs st1 = Inl d)"
  by (auto split: sum.splits)

lemma gates_refusal:
  assumes "run_gates (gates env gw r u (extractModelName env r)) st = Inl (resp, st')"
  shows "w_Status resp = refusal env gw r u st \<and> gs_limiter st' = charged_limiter env gw r u st"
  using assms unfolding gates_def run_gates_Inl_cons gate_pass refusal_def charged_limiter_def
  by (elim disjE exE conjE) (auto dest: gate_status)

text \<open>C8: The answer to a refused request. A request that authenticated and is not admissible is answered
  with the status of the first condition it fails, in the order source address and access list (403),
  quota and rate limit (429), admission (503), routing table (404), body (400); nothing is charged to
  its quota, and a token of its rate limit is spent exactly when it had passed address, access list and
  quota.\<close>

theorem refused_request:
  assumes "authenticate gw r st = Inr u" "special_endpoint env gw r u = None" "\<not> admissible env gw r u st"
  shows "\<exists>resp st'. ServeHTTP env gw r st = (Some resp, st') \<and> w_Status resp = refusal env gw r u st \<and>
    gs_quota st' = gs_quota st \<and> gs_limiter st' = charged_limiter env gw r u st"
proof -
  let ?st = "on_metrics RecordRequest st"
  have au: "authenticate gw r ?st = Inr u"
    using assms(1) by (auto simp: authenticate_def Let_def split: option.splits if_splits sum.splits)
  have "\<not> admissible env gw r u ?st" using assms(3) by (simp add: admissible_def)
  then obtain resp st' where d: "run_gates (gates env gw r u (extractModelName env r)) ?st = Inl (resp, st')"
    using gates_pass [of env gw r u ?st] by (cases "run_gates (gates env gw r u (extractModelName env r)) ?st") auto
  have "refusal env gw r u ?st = refusal env gw r u st" "charged_limiter env gw r u ?st = charged_limiter env gw r u st"
    by (simp_all add: refusal_def charged_limiter_def)
  moreover have "gs_quota st' = gs_quota st" using gates_deny [OF d] by (simp add: denied_def)
  moreover have "ServeHTTP env gw r st = (Some resp, st')" by (simp add: ServeHTTP_def Let_def au assms(2) d)
  ultimately show ?thesis using gates_refusal [OF d] by simp
qed

subsection \<open>Where a request goes\<close>

definition forwarded_headers :: "gostr list" where
  "forwarded_headers = [''X-Forwarded-For'', ''X-Forwarded-Proto'', ''X-Forwarded-Host'']"

lemma canonical_forwarded:
  "CanonicalHeaderKey ''X-Forwarded-For'' = ''X-Forwarded-For''"
  "CanonicalHeaderKey ''X-Forwarded-Proto'' = ''X-Forwarded-Proto''"
  "CanonicalHeaderKey ''X-Forwarded-Host'' = ''X-Forwarded-Host''"
  by code_simp+

text \<open>C10: The director sends a request for a registered model to that model's backend. With a routing
  table, a path naming a registered model and a backend URL that parses, the request goes out with the
  scheme and host of that URL and the path with the model directive removed; method and body are
  unchanged, the API key header is dropped, and every other header apart from the three forwarding
  ones is passed on as it came (a bearer key in \<open>Authorization\<close> too).\<close>

theorem director_routes:
  assumes "gw_modelRouter gw = Some router" "extractModelNameFromPath (u_Path (r_URL req)) = name" "name \<noteq> []"
    "GetBackend router name = Some b" "parse (mb_URL b) = Some t"
  shows "\<exists>out. director parse gw req = Some out \<and> u_Scheme (r_URL out) = u_Scheme t \<and> u_Host (r_URL out) = u_Host t \<and>
    u_Path (r_URL out) = singleJoiningSlash (u_Path t) (stripModelPrefixFromPath (u_Path (r_URL req)) name) \<and>
    u_RawPath (r_URL out) = [] \<and> r_Method out = r_Method req \<and> r_Body out = r_Body req \<and>
    (\<forall>h. CanonicalHeaderKey h \<notin> set forwarded_headers \<longrightarrow>
       HGet (r_Header out) h =
         (if CanonicalHeaderKey h = CanonicalHeaderKey (gw_APIKeyHeader gw) then [] else HGet (r_Header req) h))"
proof -
  have "director_target parse gw (r_URL req) = Some (t, (r_URL req)
      \<lparr> u_Path := stripModelPrefixFromPath (u_Path (r_URL req)) name, u_RawPath := [] \<rparr>)"
    using assms by (simp add: director_target_def Let_def)
  then show ?thesis
    by (simp add: director_def Let_def HGet_HSet HGet_HDel canonical_forwarded forwarded_headers_def)
qed

text \<open>A user of the gateway above presents a key the gateway knows.\<close>

definition know_all :: "unit Gateway" where
  "know_all = deny_all\<lparr> gw_authProvider := Some (\<lambda>_. Inr ''u'') \<rparr>"

definition with_key :: request where
  "with_key = keyless\<lparr> r_Header := [''X-Api-Key'' \<mapsto> [''k'']] \<rparr>"

theorem refused_request_witness:
  "\<exists>resp st'. ServeHTTP plain_env know_all with_key fresh_state = (Some resp, st') \<and> w_Status resp = 403 \<and>
     gs_limiter st' = gs_limiter fresh_state"
proof -
  have c: "CanonicalHeaderKey ''X-API-Key'' = ''X-Api-Key''" by code_simp
  have k: "request_key know_all with_key = ''k''"
    by (simp add: request_key_def know_all_def with_key_def deny_all_def HGet_def c)
  have a: "authenticate know_all with_key fresh_state = Inr ''u''"
    by (simp add: authenticate_def k) (simp add: know_all_def)
  have s: "special_endpoint plain_env know_all with_key ''u'' = None"
    by (simp add: special_endpoint_def know_all_def deny_all_def)
  have n: "\<not> ip_ok know_all with_key ''u''"
    by (simp add: ip_ok_def know_all_def deny_all_def)
  then have "\<not> admissible plain_env know_all with_key ''u'' fresh_state" by (simp add: admissible_def)
  from refused_request [OF a s this] show ?thesis using n by (simp add: refusal_def charged_limiter_def)
qed

definition llama_backend :: ModelBackend where
  "llama_backend = \<lparr> mb_Name = ''llama'', mb_URL = ''http://localhost:9'', mb_Port = 9, mb_Type = ''vllm'', mb_Status = ''running'',
     mb_Capability = ''generative'', mb_Endpoints = [] \<rparr>"

definition routed_gateway :: "unit Gateway" where
  "routed_gateway = know_all\<lparr> gw_modelRouter := Some \<lparr> rt_registry = [''llama'' \<mapsto> llama_backend],
     rt_managementURL = [], rt_done = False, rt_loop = False \<rparr> \<rparr>"

definition llama_request :: request where
  "llama_request = with_key\<lparr> r_URL := (r_URL with_key)\<lparr> u_Path := ''/models/llama/v1/chat'' \<rparr> \<rparr>"

theorem director_routes_witness:
  "\<exists>out. director (\<lambda>_. Some (gw_targetURL deny_all)) routed_gateway llama_request = Some out \<and>
     u_Host (r_URL out) = ''vllm'' \<and> u_Path (r_URL out) = ''/v1/chat'' \<and> HGet (r_Header out) ''X-API-Key'' = []"
proof -
  have e: "extractModelNameFromPath ''/models/llama/v1/chat'' = ''llama''" by code_simp
  have p: "u_Path (r_URL llama_request) = ''/models/llama/v1/chat''" by (simp add: llama_request_def)
  have h: "u_Host (gw_targetURL deny_all) = ''vllm''" "u_Path (gw_targetURL deny_all) = []" by (simp_all add: deny_all_def)
  have j: "singleJoiningSlash [] (stripModelPrefixFromPath ''/models/llama/v1/chat'' ''llama'') = ''/v1/chat''" by code_simp
  have c: "CanonicalHeaderKey ''X-API-Key'' \<notin> set forwarded_headers" by code_simp
  have k: "gw_APIKeyHeader routed_gateway = ''X-API-Key''" by (simp add: routed_gateway_def know_all_def deny_all_def)
  have "GetBackend \<lparr> rt_registry = [''llama'' \<mapsto> llama_backend], rt_managementURL = [], rt_done = False, rt_loop = False \<rparr>
      (extractModelNameFromPath (u_Path (r_URL llama_request))) = Some llama_backend"
    by (simp add: GetBackend_def p e)
  from director_routes [of routed_gateway _ llama_request, OF _ refl _ this, of "\<lambda>_. Some (gw_targetURL deny_all)" "gw_targetURL deny_all"]
  obtain out where out: "director (\<lambda>_. Some (gw_targetURL deny_all)) routed_gateway llama_request = Some out"
      "u_Host (r_URL out) = ''vllm''" "u_Path (r_URL out) = ''/v1/chat''"
      "\<And>h. CanonicalHeaderKey h \<notin> set forwarded_headers \<Longrightarrow> HGet (r_Header out) h =
         (if CanonicalHeaderKey h = CanonicalHeaderKey ''X-API-Key'' then [] else HGet (r_Header llama_request) h)"
    by (auto simp: routed_gateway_def p e h j k [unfolded routed_gateway_def])
  have "HGet (r_Header out) ''X-API-Key'' = []" using out(4) [OF c] by simp
  with out show ?thesis by blast
qed

subsection \<open>Token usage\<close>

text \<open>The usages a stream reports, in order.\<close>

definition stream_usages :: "(gostr \<Rightarrow> (int \<times> int) option) \<Rightarrow> gostr list \<Rightarrow> (int \<times> int) list" where
  "stream_usages parse ls = List.map_filter (\<lambda>l. Option.bind (sse_payload l) (try_usage parse)) ls"

lemma sse_usage_first:
  "sse_usage parse ls = (case stream_usages parse ls of [] \<Rightarrow> (0, 0) | u # _ \<Rightarrow> u)"
  by (induction ls) (auto simp: stream_usages_def map_filter_simps split: option.splits)

lemma map_filter_rev: "List.map_filter f (rev xs) = rev (List.map_filter f xs)"
  by (induction xs) (auto simp: List.map_filter_def)

text \<open>The usage charged for a streamed answer is that of the last event of the stream that reports
  one, and zero when none does; \<open>[DONE]\<close>, malformed events and events reporting no tokens are skipped.\<close>

theorem stream_usage_last:
  "Contains ct ''text/event-stream'' \<Longrightarrow> parseTokenUsage parse body ct =
     (if stream_usages parse (Split (CHR 0x0A) body) = [] then (0, 0)
      else last (stream_usages parse (Split (CHR 0x0A) body)))"
  by (simp add: parseTokenUsage_def sse_usage_first stream_usages_def map_filter_rev)
    (cases "rev (List.map_filter (\<lambda>l. Option.bind (sse_payload l) (try_usage parse)) (Split (CHR 0x0A) body))",
     auto simp: last_rev [symmetric] rev_eq_Cons_iff split: list.split)

theorem stream_usage_last_witness:
  "parseTokenUsage (\<lambda>b. if b = ''a'' then Some (1, 2) else if b = ''b'' then Some (3, 4) else None)
     (''data: a'' @ [CHR 0x0A] @ ''data: b'' @ [CHR 0x0A] @ ''data: [DONE]'') ''text/event-stream'' = (3, 4)"
  using stream_usage_last [of "''text/event-stream''"
      "\<lambda>b. if b = ''a'' then Some (1, 2) else if b = ''b'' then Some (3, 4) else None"
      "''data: a'' @ [CHR 0x0A] @ ''data: b'' @ [CHR 0x0A] @ ''data: [DONE]''"]
  by code_simp

end
