(* ===== verification/Policy.thy ===== *)
theory Policy
  imports KeyStore GoForm
begin

text \<open>
  The policy service (\<open>core/management/policy\<close>): the user API over the key store, admin
  authentication by key, named tokens or OIDC session, and the OIDC sign-in. HMAC-SHA256 is the one of
  \<open>prims\<close>; the OAuth code exchange and the verification of ID tokens, the JSON codec, the texts of the
  key store's errors, random bytes, clock readings and map iteration orders are the fields of
  \<open>policy_env\<close>.
\<close>

subsection \<open>State\<close>

record oidcSession =
  os_subject :: gostr
  os_role :: gostr
  os_expires :: time

record OIDCConfig =
  oc_IssuerURL :: gostr
  oc_ClientID :: gostr
  oc_ClientSecret :: gostr
  oc_RedirectURL :: gostr
  oc_AdminClaim :: gostr
  oc_SessionTTL :: duration
  oc_SessionSecret :: gostr

record OIDC =
  oi_cfg :: OIDCConfig
  oi_sessions :: "gostr \<rightharpoonup> oidcSession"
  oi_states :: "gostr \<rightharpoonup> time"

text \<open>The service with the disk of its key store and, in order, what the audit hook was called with.
  The named admins are the entries of the map.\<close>

record Service =
  sv_Store :: KeyStore
  sv_disk :: disk
  sv_AdminKey :: gostr
  sv_NamedAdmins :: "(gostr \<times> gostr) list"
  sv_hook :: bool
  sv_audited :: "(gostr \<times> gostr) list"
  sv_oidc :: "OIDC option"

text \<open>The environment of one request. \<open>pe_now i\<close> is the clock at the \<open>i\<close>-th reading, \<open>pe_admins i\<close> the
  iteration order of the named admins at the \<open>i\<close>-th authentication.\<close>

record policy_env =
  pe_prims :: prims
  pe_save :: save_env
  pe_now :: "nat \<Rightarrow> time"
  pe_admins :: "nat \<Rightarrow> gostr list"
  pe_users :: "gostr list"
  pe_error :: "key_error \<Rightarrow> gostr"
  pe_dec_quota :: "gostr \<Rightarrow> gostr + int \<times> int"
  pe_enc_users :: "UserProfile list \<Rightarrow> gostr"
  pe_enc_user :: "UserProfile \<Rightarrow> gostr"
  pe_enc_map :: "(gostr \<times> gostr) list \<Rightarrow> gostr"
  pe_enc_quota :: "int \<Rightarrow> int \<Rightarrow> gostr"
  pe_enc_access :: "gostr \<Rightarrow> gostr \<Rightarrow> bool \<Rightarrow> gostr"
  pe_random :: gostr
  pe_authURL :: "gostr \<Rightarrow> gostr"
  pe_exchange :: "gostr \<Rightarrow> gostr + gostr"
  pe_verify :: "gostr \<Rightarrow> gostr + gostr \<times> (gostr \<rightharpoonup> gostr)"
  pe_enc_session :: "gostr \<Rightarrow> gostr \<Rightarrow> time \<Rightarrow> gostr"

definition policy_New :: "KeyStore \<Rightarrow> disk \<Rightarrow> gostr \<Rightarrow> Service" where
  "policy_New store d adminKey = \<lparr> sv_Store = store, sv_disk = d, sv_AdminKey = adminKey, sv_NamedAdmins = [],
     sv_hook = False, sv_audited = [], sv_oidc = None \<rparr>"

subsection \<open>Signed sessions\<close>

type_synonym hmac = "gostr \<Rightarrow> gostr \<Rightarrow> gostr"

definition signSession :: "hmac \<Rightarrow> gostr \<Rightarrow> gostr \<Rightarrow> gostr" where
  "signSession mac sid secret = sid @ ''.'' @ b64_encode RawURLEncoding (mac secret sid)"

definition verifySession :: "hmac \<Rightarrow> gostr \<Rightarrow> gostr \<Rightarrow> gostr option" where
  "verifySession mac v secret =
     (case LastIndexByte v (CHR ''.'') of
        None \<Rightarrow> None
      | Some dot \<Rightarrow>
          let sid = take dot v; sig = drop (Suc dot) v in
          (case b64_decode RawURLEncoding sig of
             None \<Rightarrow> None
           | Some expected \<Rightarrow> if mac secret sid = expected then Some sid else None))"

definition randB64 :: "gostr \<Rightarrow> gostr" where
  "randB64 b = b64_encode RawURLEncoding b"

definition session_cookie :: gostr where "session_cookie = ''sovstack_session''"

definition admin_role :: gostr where "admin_role = ''admin''"

text \<open>The session id a request's cookie proves, if any.\<close>

definition cookie_sid :: "hmac \<Rightarrow> OIDC \<Rightarrow> request \<Rightarrow> gostr option" where
  "cookie_sid mac oi r =
     (case Cookie r session_cookie of
        None \<Rightarrow> None
      | Some v \<Rightarrow> verifySession mac v (oc_SessionSecret (oi_cfg oi)))"

subsection \<open>Admin authentication\<close>

definition actorFromOIDCSession :: "hmac \<Rightarrow> time \<Rightarrow> request \<Rightarrow> Service \<Rightarrow> gostr" where
  "actorFromOIDCSession mac now r s =
     (case sv_oidc s of
        None \<Rightarrow> []
      | Some oi \<Rightarrow>
          (case cookie_sid mac oi r of
             None \<Rightarrow> []
           | Some sid \<Rightarrow>
               (case oi_sessions oi sid of
                  None \<Rightarrow> []
                | Some sess \<Rightarrow>
                    if os_role sess \<noteq> admin_role then []
                    else if os_expires sess < now then []
                    else os_subject sess)))"

fun named_admin :: "gostr \<Rightarrow> (gostr \<times> gostr) list \<Rightarrow> gostr list \<Rightarrow> gostr option" where
  "named_admin token admins [] = None"
| "named_admin token admins (name # ns) =
     (case map_of admins name of
        None \<Rightarrow> named_admin token admins ns
      | Some expected \<Rightarrow>
          if expected \<noteq> [] \<and> token = expected then Some name else named_admin token admins ns)"

definition authenticateAdmin :: "hmac \<Rightarrow> gostr list \<Rightarrow> time \<Rightarrow> request \<Rightarrow> Service \<Rightarrow> gostr" where
  "authenticateAdmin mac order now r s =
     (let auth = HGet (r_Header r) ''Authorization'' in
      if \<not> HasPrefix auth bearer_prefix then actorFromOIDCSession mac now r s
      else
        let token = drop (length bearer_prefix) auth in
        if sv_AdminKey s \<noteq> [] \<and> token = sv_AdminKey s then admin_role
        else (case named_admin token (sv_NamedAdmins s) order of
            Some name \<Rightarrow> name
          | None \<Rightarrow> actorFromOIDCSession mac now r s))"

text \<open>The actor of the \<open>i\<close>-th authentication of a request.\<close>

definition actor_at :: "policy_env \<Rightarrow> nat \<Rightarrow> request \<Rightarrow> Service \<Rightarrow> gostr" where
  "actor_at env i r s = authenticateAdmin (p_hmac (pe_prims env)) (pe_admins env i) (pe_now env i) r s"

definition unprotected :: "Service \<Rightarrow> bool" where
  "unprotected s \<longleftrightarrow> sv_AdminKey s = [] \<and> sv_NamedAdmins s = [] \<and> sv_oidc s = None"

definition checkAdminAuth :: "policy_env \<Rightarrow> request \<Rightarrow> Service \<Rightarrow> bool" where
  "checkAdminAuth env r s \<longleftrightarrow> unprotected s \<or> actor_at env 0 r s \<noteq> []"

definition audit_action :: "gostr \<Rightarrow> gostr \<Rightarrow> Service \<Rightarrow> Service" where
  "audit_action actor action s =
     (if \<not> sv_hook s then s
      else s\<lparr> sv_audited := sv_audited s @ [(if actor = [] then ''unknown'' else actor, action)] \<rparr>)"

subsection \<open>The user API\<close>

definition json_error :: "gostr \<Rightarrow> int \<Rightarrow> response" where
  "json_error msg code = http_Error json_header (json_obj [json_plain ''error'' msg]) code"

definition json_error_quoted :: "gostr \<Rightarrow> int \<Rightarrow> response" where
  "json_error_quoted msg code = http_Error json_header (json_obj [json_quoted ''error'' msg]) code"

definition json_ok :: "gostr \<Rightarrow> response" where
  "json_ok body = \<lparr> w_Header = json_header, w_Status = 200, w_Body = body \<rparr>"

text \<open>What a mutation of the key store leaves: an error keeps the changed memory.\<close>

definition mutate ::
    "policy_env \<Rightarrow> request \<Rightarrow> gostr \<Rightarrow> (KeyStore \<Rightarrow> disk \<Rightarrow> op_result) \<Rightarrow> gostr \<Rightarrow> gostr \<Rightarrow> Service \<Rightarrow> response \<times> Service" where
  "mutate env r actor f action body s =
     (let (ks, d, err) = f (sv_Store s) (sv_disk s); s1 = s\<lparr> sv_Store := ks, sv_disk := d \<rparr> in
      case err of
        Some e \<Rightarrow> (json_error_quoted (pe_error env e) 400, s1)
      | None \<Rightarrow> (json_ok body, audit_action actor action s1))"

definition handleModels :: "policy_env \<Rightarrow> request \<Rightarrow> gostr \<Rightarrow> gostr \<Rightarrow> Service \<Rightarrow> response \<times> Service" where
  "handleModels env r userID model s =
     (if \<not> checkAdminAuth env r s then (json_error ''unauthorized'' 401, s)
      else
        let actor = actor_at env 1 r s in
        if r_Method r = ''POST'' then
          mutate env r actor (GrantModelAccess (pe_prims env) (pe_save env) userID model)
            (''grant_model user='' @ userID @ '' model='' @ model)
            (pe_enc_map env [(''status'', ''ok''), (''action'', ''granted''), (''model'', model)]) s
        else if r_Method r = ''DELETE'' then
          mutate env r actor (RevokeModelAccess (pe_prims env) (pe_save env) userID model)
            (''revoke_model user='' @ userID @ '' model='' @ model)
            (pe_enc_map env [(''status'', ''ok''), (''action'', ''revoked''), (''model'', model)]) s
        else (json_error ''method not allowed'' 405, s))"

definition handleQuota :: "policy_env \<Rightarrow> request \<Rightarrow> gostr \<Rightarrow> Service \<Rightarrow> response \<times> Service" where
  "handleQuota env r userID s =
     (if r_Method r \<noteq> ''PATCH'' then (json_error ''method not allowed'' 405, s)
      else if \<not> checkAdminAuth env r s then (json_error ''unauthorized'' 401, s)
      else case pe_dec_quota env (case r_Body r of Some b \<Rightarrow> b | None \<Rightarrow> []) of
        Inl e \<Rightarrow> (json_error_quoted e 400, s)
      | Inr (daily, monthly) \<Rightarrow>
          mutate env r (actor_at env 1 r s) (SetQuota (pe_prims env) (pe_save env) userID daily monthly)
            (''set_quota user='' @ userID @ '' daily='' @ Itoa daily @ '' monthly='' @ Itoa monthly)
            (pe_enc_quota env daily monthly) s)"

definition handleList :: "policy_env \<Rightarrow> request \<Rightarrow> Service \<Rightarrow> response" where
  "handleList env r s =
     (if r_Method r \<noteq> ''GET'' then json_error ''method not allowed'' 405
      else if \<not> checkAdminAuth env r s then json_error ''unauthorized'' 401
      else json_ok (pe_enc_users env (ListUsers (pe_users env) (sv_Store s))))"

definition handleUsers :: "policy_env \<Rightarrow> request \<Rightarrow> Service \<Rightarrow> response \<times> Service" where
  "handleUsers env r s =
     (let parts = Split (CHR ''/'') (u_Path (r_URL r)) in
      if length parts < 4 then (json_error ''invalid path'' 400, s)
      else if length parts = 4 \<or> (length parts = 5 \<and> parts ! 4 = []) then (handleList env r s, s)
      else
        let userID = parts ! 4 in
        case GetByID userID (sv_Store s) of
          None \<Rightarrow> (json_error ''user not found'' 404, s)
        | Some user \<Rightarrow>
            if 7 \<le> length parts \<and> parts ! 5 = ''models'' then handleModels env r userID (parts ! 6) s
            else if 6 \<le> length parts \<and> parts ! 5 = ''quota'' then handleQuota env r userID s
            else if r_Method r \<noteq> ''GET'' then (json_error ''method not allowed'' 405, s)
            else (json_ok (pe_enc_user env user), s))"

definition handleAccessCheck :: "policy_env \<Rightarrow> request \<Rightarrow> Service \<Rightarrow> response" where
  "handleAccessCheck env r s =
     (if r_Method r \<noteq> ''GET'' then json_error ''method not allowed'' 405
      else
        let user = QueryGet r ''user''; model = QueryGet r ''model'' in
        if user = [] \<or> model = [] then json_error ''user and model query params required'' 400
        else
          let allowed = KS_CanAccess user model (sv_Store s) in
          \<lparr> w_Header = json_header, w_Status = (if allowed then 200 else 403),
            w_Body = pe_enc_access env user model allowed \<rparr>)"

subsection \<open>OIDC sign-in\<close>

datatype oidc_error = OIDCIncomplete | OIDCRandom | OIDCDiscover

definition EnableOIDC ::
    "gostr option \<Rightarrow> bool \<Rightarrow> OIDCConfig \<Rightarrow> Service \<Rightarrow> Service \<times> oidc_error option" where
  "EnableOIDC rand discovered cfg s =
     (if oc_IssuerURL cfg = [] \<or> oc_ClientID cfg = [] \<or> oc_RedirectURL cfg = [] then (s, Some OIDCIncomplete)
      else
        let cfg1 = cfg\<lparr> oc_SessionTTL := (if oc_SessionTTL cfg = 0 then 8 * hour else oc_SessionTTL cfg),
                        oc_AdminClaim := (if oc_AdminClaim cfg = [] then ''role'' else oc_AdminClaim cfg) \<rparr>
        in case (if oc_SessionSecret cfg1 = [] then rand else Some (oc_SessionSecret cfg1)) of
             None \<Rightarrow> (s, Some OIDCRandom)
           | Some secret \<Rightarrow>
               if \<not> discovered then (s, Some OIDCDiscover)
               else (s\<lparr> sv_oidc := Some \<lparr> oi_cfg = cfg1\<lparr> oc_SessionSecret := secret \<rparr>,
                 oi_sessions = Map.empty, oi_states = Map.empty \<rparr> \<rparr>, None))"

definition oidc_off :: response where
  "oidc_off = http_Error Map.empty (json_obj [json_plain ''error'' ''oidc not configured'']) 503"

definition handleLogin :: "policy_env \<Rightarrow> request \<Rightarrow> Service \<Rightarrow> response \<times> Service" where
  "handleLogin env r s =
     (case sv_oidc s of
        None \<Rightarrow> (oidc_off, s)
      | Some oi \<Rightarrow>
          let state = randB64 (pe_random env) in
          (http_Redirect r (pe_authURL env state) 302,
           s\<lparr> sv_oidc := Some (oi\<lparr> oi_states := (oi_states oi)(state \<mapsto> pe_now env 0 + 10 * minute) \<rparr>) \<rparr>))"

definition plain_error :: "gostr \<Rightarrow> int \<Rightarrow> response" where
  "plain_error msg code = http_Error Map.empty (json_obj [json_plain ''error'' msg]) code"

text \<open>The sign-in after its state was accepted: subject and role, or the answer.\<close>

definition sign_in :: "policy_env \<Rightarrow> gostr \<Rightarrow> gostr \<Rightarrow> response + gostr \<times> gostr" where
  "sign_in env claim code =
     (if code = [] then Inl (plain_error ''missing code'' 400)
      else case pe_exchange env code of
        Inl e \<Rightarrow> Inl (plain_error (''oidc exchange: '' @ e) 502)
      | Inr rawID \<Rightarrow>
          if rawID = [] then Inl (plain_error ''no id_token in oidc response'' 502)
          else (case pe_verify env rawID of
              Inl e \<Rightarrow> Inl (plain_error (''id_token verify: '' @ e) 401)
            | Inr (subject, claims) \<Rightarrow>
                Inr (subject, case claims claim of Some role \<Rightarrow> role | None \<Rightarrow> [])))"

definition handleCallback :: "policy_env \<Rightarrow> request \<Rightarrow> Service \<Rightarrow> (response \<times> set_cookie option) \<times> Service" where
  "handleCallback env r s =
     (case sv_oidc s of
        None \<Rightarrow> ((oidc_off, None), s)
      | Some oi \<Rightarrow>
          let state = QueryGet r ''state''; expiry = oi_states oi state;
              oi1 = oi\<lparr> oi_states := (oi_states oi)(state := None) \<rparr>;
              s1 = s\<lparr> sv_oidc := Some oi1 \<rparr>
          in case expiry of
               None \<Rightarrow> ((plain_error ''invalid state'' 400, None), s1)
             | Some e \<Rightarrow>
                 if e < pe_now env 0 then ((plain_error ''invalid state'' 400, None), s1)
                 else (case sign_in env (oc_AdminClaim (oi_cfg oi)) (QueryGet r ''code'') of
                     Inl resp \<Rightarrow> ((resp, None), s1)
                   | Inr (subject, role) \<Rightarrow>
                       let cfg = oi_cfg oi; ttl = oc_SessionTTL cfg; sid = randB64 (pe_random env);
                           sess = \<lparr> os_subject = subject, os_role = role, os_expires = pe_now env 1 + ttl \<rparr>;
                           cookie = \<lparr> co_Name = session_cookie,
                             co_Value = signSession (p_hmac (pe_prims env)) sid (oc_SessionSecret cfg),
                             co_Path = ''/'', co_HttpOnly = True, co_Secure = True, co_SameSiteLax = True,
                             co_MaxAge = 0, co_Expires = pe_now env 2 + ttl \<rparr>
                       in ((\<lparr> w_Header = json_header, w_Status = 200,
                              w_Body = pe_enc_session env subject role (pe_now env 3 + ttl) \<rparr>, Some cookie),
                           s1\<lparr> sv_oidc := Some (oi1\<lparr> oi_sessions := (oi_sessions oi1)(sid \<mapsto> sess) \<rparr>) \<rparr>)))"

definition handleLogout :: "policy_env \<Rightarrow> request \<Rightarrow> Service \<Rightarrow> (response \<times> set_cookie option) \<times> Service" where
  "handleLogout env r s =
     (case sv_oidc s of
        None \<Rightarrow> ((oidc_off, None), s)
      | Some oi \<Rightarrow>
          let oi1 = (case cookie_sid (p_hmac (pe_prims env)) oi r of
                       None \<Rightarrow> oi
                     | Some sid \<Rightarrow> oi\<lparr> oi_sessions := (oi_sessions oi)(sid := None) \<rparr>);
              cookie = \<lparr> co_Name = session_cookie, co_Value = [], co_Path = ''/'', co_HttpOnly = False,
                co_Secure = False, co_SameSiteLax = False, co_MaxAge = -1, co_Expires = 0 \<rparr>
          in ((\<lparr> w_Header = Map.empty, w_Status = 204, w_Body = [] \<rparr>, Some cookie), s\<lparr> sv_oidc := Some oi1 \<rparr>))"

subsection \<open>Routing\<close>

text \<open>The routes \<open>Register\<close> attaches, by the handler the mux selects for a clean path.\<close>

datatype route = RUsers | RAccessCheck | RLogin | RCallback | RLogout

definition Register :: "gostr \<Rightarrow> route option" where
  "Register path =
     (if path = ''/api/v1/users'' \<or> HasPrefix path ''/api/v1/users/'' then Some RUsers
      else if path = ''/api/v1/access/check'' then Some RAccessCheck
      else if path = ''/api/v1/auth/login'' then Some RLogin
      else if path = ''/api/v1/auth/callback'' then Some RCallback
      else if path = ''/api/v1/auth/logout'' then Some RLogout
      else None)"

definition policy_handle :: "route \<Rightarrow> policy_env \<Rightarrow> request \<Rightarrow> Service \<Rightarrow> response \<times> Service" where
  "policy_handle h env r s =
     (case h of
        RUsers \<Rightarrow> handleUsers env r s
      | RAccessCheck \<Rightarrow> (handleAccessCheck env r s, s)
      | RLogin \<Rightarrow> handleLogin env r s
      | RCallback \<Rightarrow> map_prod fst id (handleCallback env r s)
      | RLogout \<Rightarrow> map_prod fst id (handleLogout env r s))"

subsection \<open>The signature of a session\<close>

text \<open>Session cookies round-trip and prove their session id. Signing a session id, whatever bytes it
  contains, and verifying the cookie under the same secret gives the id back; conversely a cookie that
  verifies consists of the id it proves, a dot and an encoding of the HMAC of that id.\<close>

theorem session_roundtrip:
  "verifySession mac (signSession mac sid secret) secret = Some sid \<and>
   (verifySession mac v secret = Some sid \<longleftrightarrow>
     (\<exists>sig. v = sid @ ''.'' @ sig \<and> CHR ''.'' \<notin> set sig \<and> b64_decode RawURLEncoding sig = Some (mac secret sid)))"
proof -
  let ?e = "b64_encode RawURLEncoding (mac secret sid)"
  have sound: "\<exists>sig. v = sid @ ''.'' @ sig \<and> CHR ''.'' \<notin> set sig \<and> b64_decode RawURLEncoding sig = Some (mac secret sid)"
    if "verifySession mac v secret = Some sid"
  proof -
    from that obtain i where i: "LastIndexByte v (CHR ''.'') = Some i"
      by (auto simp: verifySession_def split: option.splits)
    with that have t: "take i v = sid" "b64_decode RawURLEncoding (drop (Suc i) v) = Some (mac secret sid)"
      by (auto simp: verifySession_def Let_def split: option.splits if_splits)
    from LastIndexByte_SomeD [OF i] t show ?thesis by (intro exI [of _ "drop (Suc i) v"]) simp
  qed
  have complete: "verifySession mac (sid @ ''.'' @ sig) secret = Some sid"
    if "CHR ''.'' \<notin> set sig" "b64_decode RawURLEncoding sig = Some (mac secret sid)" for sig
    using that LastIndexByte_append [of "CHR ''.''" sig sid] by (simp add: verifySession_def)
  have "verifySession mac (signSession mac sid secret) secret = Some sid"
    unfolding signSession_def by (rule complete) (simp_all add: b64_encode_no_dot)
  with sound complete show ?thesis by blast
qed

subsection \<open>Who may change the key store\<close>

lemma mutate_frame:
  "sv_AdminKey (snd (mutate env r a f act body s)) = sv_AdminKey s"
  "sv_NamedAdmins (snd (mutate env r a f act body s)) = sv_NamedAdmins s"
  "sv_oidc (snd (mutate env r a f act body s)) = sv_oidc s"
  by (auto simp: mutate_def audit_action_def Let_def split: prod.splits option.splits)

text \<open>C15: Only an admin changes the key store or sees the list of users. On a service with an admin key,
  named admins or OIDC, a request to the user API whose credentials match none of them leaves store,
  file and audit trail as they were, and it is answered with an error unless it reads the profile of
  one user.\<close>

theorem policy_requires_admin:
  assumes "\<not> unprotected s" "actor_at env 0 r s = []"
  shows "snd (handleUsers env r s) = s \<and>
    (400 \<le> w_Status (fst (handleUsers env r s)) \<or>
     (\<exists>user. GetByID (Split (CHR ''/'') (u_Path (r_URL r)) ! 4) (sv_Store s) = Some user \<and>
        r_Method r = ''GET'' \<and> fst (handleUsers env r s) = json_ok (pe_enc_user env user)))"
proof -
  have "\<not> checkAdminAuth env r s" using assms by (simp add: checkAdminAuth_def)
  then show ?thesis
    by (simp add: handleUsers_def handleModels_def handleQuota_def handleList_def Let_def json_error_def split: option.split)
qed

lemma user_path_parts:
  assumes "CHR ''/'' \<notin> set u" "CHR ''/'' \<notin> set m"
  shows "Split (CHR ''/'') (''/api/v1/users/'' @ u @ ''/models/'' @ m) = ['''', ''api'', ''v1'', ''users'', u, ''models'', m]"
    and "Split (CHR ''/'') (''/api/v1/users/'' @ u @ ''/models/'' @ m @ ''/'' @ rest) =
      ['''', ''api'', ''v1'', ''users'', u, ''models'', m] @ Split (CHR ''/'') rest"
    and "Split (CHR ''/'') (''/api/v1/users/'' @ u @ ''/quota'') = ['''', ''api'', ''v1'', ''users'', u, ''quota'']"
  using assms Split_append [of "CHR ''/''" u "''models/'' @ m"] Split_append [of "CHR ''/''" u "''models/'' @ m @ ''/'' @ rest"]
    Split_append [of "CHR ''/''" m rest] Split_append [of "CHR ''/''" u "''quota''"]
  by simp_all

text \<open>The outcome of a mutation through the API, over the operation of the key store.\<close>

definition api_outcome ::
    "policy_env \<Rightarrow> request \<Rightarrow> (KeyStore \<Rightarrow> disk \<Rightarrow> op_result) \<Rightarrow> gostr \<Rightarrow> Service \<Rightarrow> response \<times> Service \<Rightarrow> bool" where
  "api_outcome env r f action s out \<longleftrightarrow>
     (let (ks, d, err) = f (sv_Store s) (sv_disk s); actor = actor_at env 1 r s in
      sv_Store (snd out) = ks \<and> sv_disk (snd out) = d \<and> w_Status (fst out) = (if err = None then 200 else 400) \<and>
      sv_audited (snd out) = sv_audited s @
        (if err = None \<and> sv_hook s then [(if actor = [] then ''unknown'' else actor, action)] else []))"

lemma mutate_outcome:
  "api_outcome env r f action s (mutate env r (actor_at env 1 r s) f action body s)"
  by (auto simp: api_outcome_def mutate_def audit_action_def json_ok_def json_error_quoted_def Let_def
      split: prod.splits option.splits)

text \<open>C16: The user API performs the operations of the key store, one audit entry each. For an existing
  user and an admitted admin, POST and DELETE on \<open>/api/v1/users/{id}/models/{model}\<close> grant and revoke,
  and PATCH on \<open>/api/v1/users/{id}/quota\<close> sets the limits of its body: the store and the file are those
  the operation leaves (also when it reports an error, answered with 400), and exactly the successful
  ones are audited, under the actor the request authenticates as. Path segments after the model are
  ignored: for a model name with a slash, its first segment is granted or revoked.\<close>

theorem policy_refines_store:
  assumes "GetByID u (sv_Store s) = Some user" "checkAdminAuth env r s"
    and "CHR ''/'' \<notin> set u" "CHR ''/'' \<notin> set m" "rest = [] \<or> hd rest = CHR ''/''"
  shows "(u_Path (r_URL r) = ''/api/v1/users/'' @ u @ ''/models/'' @ m @ rest \<longrightarrow>
      (r_Method r = ''POST'' \<longrightarrow> api_outcome env r (GrantModelAccess (pe_prims env) (pe_save env) u m)
         (''grant_model user='' @ u @ '' model='' @ m) s (handleUsers env r s)) \<and>
      (r_Method r = ''DELETE'' \<longrightarrow> api_outcome env r (RevokeModelAccess (pe_prims env) (pe_save env) u m)
         (''revoke_model user='' @ u @ '' model='' @ m) s (handleUsers env r s))) \<and>
    (u_Path (r_URL r) = ''/api/v1/users/'' @ u @ ''/quota'' \<and> r_Method r = ''PATCH'' \<and>
       pe_dec_quota env (case r_Body r of Some b \<Rightarrow> b | None \<Rightarrow> []) = Inr (daily, monthly) \<longrightarrow>
       api_outcome env r (SetQuota (pe_prims env) (pe_save env) u daily monthly)
         (''set_quota user='' @ u @ '' daily='' @ Itoa daily @ '' monthly='' @ Itoa monthly) s (handleUsers env r s))"
proof -
  have p: "\<exists>ps. Split (CHR ''/'') (''/api/v1/users/'' @ u @ ''/models/'' @ m @ rest) =
      ['''', ''api'', ''v1'', ''users'', u, ''models'', m] @ ps"
  proof (cases rest)
    case Nil
    then show ?thesis using user_path_parts(1) [OF assms(3,4)] by (intro exI [of _ "[]"]) (simp del: Split.simps)
  next
    case (Cons c cs)
    then show ?thesis using user_path_parts(2) [OF assms(3,4), of cs] assms(5)
      by (intro exI [of _ "Split (CHR ''/'') cs"]) (simp del: Split.simps)
  qed
  then obtain ps where ps: "Split (CHR ''/'') (''/api/v1/users/'' @ u @ ''/models/'' @ m @ rest) =
      ['''', ''api'', ''v1'', ''users'', u, ''models'', m] @ ps" by blast
  have post: "handleUsers env r s = handleModels env r u m s"
    if "u_Path (r_URL r) = ''/api/v1/users/'' @ u @ ''/models/'' @ m @ rest"
    unfolding handleUsers_def that ps Let_def using assms(1) by simp
  have quota: "handleUsers env r s = handleQuota env r u s"
    if "u_Path (r_URL r) = ''/api/v1/users/'' @ u @ ''/quota''"
    unfolding handleUsers_def that user_path_parts(3) [OF assms(3,4)] Let_def using assms(1) by simp
  show ?thesis
    using assms(2) by (auto simp: post quota handleModels_def handleQuota_def mutate_outcome [simplified] simp del: append.simps)
qed

subsection \<open>Sign-in and sessions over a run of the service\<close>

type_synonym policy_event = "route \<times> policy_env \<times> request"

fun policy_run :: "policy_event list \<Rightarrow> Service \<Rightarrow> Service" where
  "policy_run [] s = s"
| "policy_run ((h, env, r) # es) s = policy_run es (snd (policy_handle h env r s))"

lemma policy_run_append: "policy_run (es @ es') s = policy_run es' (policy_run es s)"
  by (induction es arbitrary: s) auto

text \<open>The state was handed out by a sign-in request of the run that no later callback used up.\<close>

definition issued :: "policy_event list \<Rightarrow> gostr \<Rightarrow> time \<Rightarrow> bool" where
  "issued es st e \<longleftrightarrow> (\<exists>pre env r post. es = pre @ (RLogin, env, r) # post \<and> st = randB64 (pe_random env) \<and>
     e = pe_now env 0 + 10 * minute \<and> (\<forall>(h, _, r') \<in> set post. h = RCallback \<longrightarrow> QueryGet r' ''state'' \<noteq> st))"

text \<open>The session stems from a callback of the run that presented an unexpired state handed out before
  and whose code was exchanged for a verified token of that subject and role; nobody who could prove
  the session signed it out since.\<close>

definition session_origin :: "OIDC \<Rightarrow> policy_event list \<Rightarrow> gostr \<Rightarrow> oidcSession \<Rightarrow> bool" where
  "session_origin oi es sid sess \<longleftrightarrow> (\<exists>pre env r post e. es = pre @ (RCallback, env, r) # post \<and>
     issued pre (QueryGet r ''state'') e \<and> pe_now env 0 \<le> e \<and>
     sign_in env (oc_AdminClaim (oi_cfg oi)) (QueryGet r ''code'') = Inr (os_subject sess, os_role sess) \<and>
     sid = randB64 (pe_random env) \<and> os_expires sess = pe_now env 1 + oc_SessionTTL (oi_cfg oi) \<and>
     (\<forall>(h, env', r') \<in> set post. h = RLogout \<longrightarrow> cookie_sid (p_hmac (pe_prims env')) oi r' \<noteq> Some sid))"

lemma issued_snoc:
  assumes "issued es st e" "h = RCallback \<Longrightarrow> QueryGet r ''state'' \<noteq> st"
  shows "issued (es @ [(h, env, r)]) st e"
proof -
  obtain pre env0 r0 post where *: "es = pre @ (RLogin, env0, r0) # post" "st = randB64 (pe_random env0)"
      "e = pe_now env0 0 + 10 * minute" "\<forall>(h, _, r') \<in> set post. h = RCallback \<longrightarrow> QueryGet r' ''state'' \<noteq> st"
    using assms(1) unfolding issued_def by blast
  show ?thesis unfolding issued_def
    by (rule exI [of _ pre], rule exI [of _ env0], rule exI [of _ r0], rule exI [of _ "post @ [(h, env, r)]"])
      (use * assms(2) in auto)
qed

lemma issued_new: "issued (es @ [(RLogin, env, r)]) (randB64 (pe_random env)) (pe_now env 0 + 10 * minute)"
  unfolding issued_def by (intro exI conjI) (rule refl, rule refl, rule refl, simp)

lemma session_origin_snoc:
  assumes "session_origin oi es sid sess"
    "h = RLogout \<Longrightarrow> cookie_sid (p_hmac (pe_prims env)) oi r \<noteq> Some sid"
  shows "session_origin oi (es @ [(h, env, r)]) sid sess"
proof -
  obtain pre env0 r0 post e where *: "es = pre @ (RCallback, env0, r0) # post" "issued pre (QueryGet r0 ''state'') e"
      "pe_now env0 0 \<le> e"
      "sign_in env0 (oc_AdminClaim (oi_cfg oi)) (QueryGet r0 ''code'') = Inr (os_subject sess, os_role sess)"
      "sid = randB64 (pe_random env0)" "os_expires sess = pe_now env0 1 + oc_SessionTTL (oi_cfg oi)"
      "\<forall>(h, env', r') \<in> set post. h = RLogout \<longrightarrow> cookie_sid (p_hmac (pe_prims env')) oi r' \<noteq> Some sid"
    using assms(1) unfolding session_origin_def by blast
  show ?thesis unfolding session_origin_def
    by (rule exI [of _ pre], rule exI [of _ env0], rule exI [of _ r0], rule exI [of _ "post @ [(h, env, r)]"],
        rule exI [of _ e]) (use * assms(2) in auto)
qed

text \<open>The invariant of a run.\<close>

definition sessions_ok :: "OIDC \<Rightarrow> policy_event list \<Rightarrow> Service \<Rightarrow> bool" where
  "sessions_ok oi0 es s \<longleftrightarrow> (\<exists>oi. sv_oidc s = Some oi \<and> oi_cfg oi = oi_cfg oi0 \<and>
     (\<forall>st e. oi_states oi st = Some e \<longrightarrow> issued es st e) \<and>
     (\<forall>sid sess. oi_sessions oi sid = Some sess \<longrightarrow> session_origin oi0 es sid sess))"

lemma cookie_sid_cfg: "oi_cfg oi = oi_cfg oi0 \<Longrightarrow> cookie_sid mac oi r = cookie_sid mac oi0 r"
  by (simp add: cookie_sid_def split: option.split)

lemma handleModels_oidc: "sv_oidc (snd (handleModels env r u m s)) = sv_oidc s"
  by (simp add: handleModels_def Let_def mutate_frame)

lemma handleQuota_oidc: "sv_oidc (snd (handleQuota env r u s)) = sv_oidc s"
  by (simp add: handleQuota_def Let_def mutate_frame split: sum.split prod.split)

lemma handleUsers_oidc: "sv_oidc (snd (handleUsers env r s)) = sv_oidc s"
  by (simp add: handleUsers_def Let_def handleModels_oidc handleQuota_oidc split: option.split)

lemma sessions_ok_same:
  assumes "sessions_ok oi0 es s" "sv_oidc s' = sv_oidc s" "h \<noteq> RCallback" "h \<noteq> RLogout"
  shows "sessions_ok oi0 (es @ [(h, env, r)]) s'"
  using assms unfolding sessions_ok_def by (metis issued_snoc session_origin_snoc)

lemma sessions_ok_login:
  assumes "sessions_ok oi0 es s"
  shows "sessions_ok oi0 (es @ [(RLogin, env, r)]) (snd (handleLogin env r s))"
proof -
  obtain oi where oi: "sv_oidc s = Some oi" "oi_cfg oi = oi_cfg oi0"
      "\<forall>st e. oi_states oi st = Some e \<longrightarrow> issued es st e"
      "\<forall>sid sess. oi_sessions oi sid = Some sess \<longrightarrow> session_origin oi0 es sid sess"
    using assms unfolding sessions_ok_def by blast
  have "issued (es @ [(RLogin, env, r)]) st e"
    if "((oi_states oi)(randB64 (pe_random env) \<mapsto> pe_now env 0 + 10 * minute)) st = Some e" for st e
    using that oi(3) issued_new issued_snoc [of es st e RLogin] by (auto split: if_splits)
  moreover have "session_origin oi0 (es @ [(RLogin, env, r)]) sid sess" if "oi_sessions oi sid = Some sess" for sid sess
    using that oi(4) session_origin_snoc [of oi0 es sid sess RLogin] by auto
  ultimately show ?thesis using oi(1,2) by (simp add: sessions_ok_def handleLogin_def Let_def)
qed

lemma sessions_ok_logout:
  assumes "sessions_ok oi0 es s"
  shows "sessions_ok oi0 (es @ [(RLogout, env, r)]) (snd (handleLogout env r s))"
proof -
  obtain oi where oi: "sv_oidc s = Some oi" "oi_cfg oi = oi_cfg oi0"
      "\<forall>st e. oi_states oi st = Some e \<longrightarrow> issued es st e"
      "\<forall>sid sess. oi_sessions oi sid = Some sess \<longrightarrow> session_origin oi0 es sid sess"
    using assms unfolding sessions_ok_def by blast
  have i: "issued (es @ [(RLogout, env, r)]) st e" if "oi_states oi st = Some e" for st e
    using that oi(3) issued_snoc [of es st e RLogout] by auto
  show ?thesis
  proof (cases "cookie_sid (p_hmac (pe_prims env)) oi0 r")
    case None
    then have "session_origin oi0 (es @ [(RLogout, env, r)]) sid sess" if "oi_sessions oi sid = Some sess" for sid sess
      using that oi(4) session_origin_snoc [of oi0 es sid sess RLogout env r] by auto
    with None i oi(1,2) show ?thesis
      by (simp add: sessions_ok_def handleLogout_def Let_def cookie_sid_cfg [OF oi(2)])
  next
    case (Some sid')
    then have "session_origin oi0 (es @ [(RLogout, env, r)]) sid sess"
      if "((oi_sessions oi)(sid' := None)) sid = Some sess" for sid sess
      using that oi(4) session_origin_snoc [of oi0 es sid sess RLogout env r] by (auto split: if_splits)
    with Some i oi(1,2) show ?thesis
      by (simp add: sessions_ok_def handleLogout_def Let_def cookie_sid_cfg [OF oi(2)])
  qed
qed

lemma sessions_ok_callback:
  assumes "sessions_ok oi0 es s"
  shows "sessions_ok oi0 (es @ [(RCallback, env, r)]) (snd (handleCallback env r s))"
proof -
  let ?st = "QueryGet r ''state''" and ?es = "es @ [(RCallback, env, r)]"
  obtain oi where oi: "sv_oidc s = Some oi" "oi_cfg oi = oi_cfg oi0"
      "\<forall>st e. oi_states oi st = Some e \<longrightarrow> issued es st e"
      "\<forall>sid sess. oi_sessions oi sid = Some sess \<longrightarrow> session_origin oi0 es sid sess"
    using assms unfolding sessions_ok_def by blast
  have i: "issued ?es st e" if "((oi_states oi)(?st := None)) st = Some e" for st e
    using that oi(3) issued_snoc [of es st e RCallback r] by (auto split: if_splits)
  have o: "session_origin oi0 ?es sid sess" if "oi_sessions oi sid = Some sess" for sid sess
    using that oi(4) session_origin_snoc [of oi0 es sid sess RCallback] by auto
  show ?thesis
  proof (cases "oi_states oi ?st")
    case None
    with i o oi(1,2) show ?thesis by (simp add: sessions_ok_def handleCallback_def Let_def)
  next
    case (Some e)
    show ?thesis
    proof (cases "e < pe_now env 0")
      case True
      with Some i o oi(1,2) show ?thesis by (simp add: sessions_ok_def handleCallback_def Let_def)
    next
      case False
      show ?thesis
      proof (cases "sign_in env (oc_AdminClaim (oi_cfg oi)) (QueryGet r ''code'')")
        case (Inl resp)
        with Some False i o oi(1,2) show ?thesis by (simp add: sessions_ok_def handleCallback_def Let_def)
      next
        case (Inr sr)
        obtain subject role where sr: "sr = (subject, role)" by (cases sr)
        let ?sid = "randB64 (pe_random env)"
        let ?sess = "\<lparr> os_subject = subject, os_role = role, os_expires = pe_now env 1 + oc_SessionTTL (oi_cfg oi) \<rparr>"
        have "session_origin oi0 ?es ?sid ?sess"
          unfolding session_origin_def
          by (rule exI [of _ es], rule exI [of _ env], rule exI [of _ r], rule exI [of _ "[]"], rule exI [of _ e])
            (use Some False Inr sr oi(2,3) in auto)
        then have "session_origin oi0 ?es sid sess" if "((oi_sessions oi)(?sid \<mapsto> ?sess)) sid = Some sess" for sid sess
          using that o by (auto split: if_splits)
        with Some False Inr sr i oi(1,2) show ?thesis by (simp add: sessions_ok_def handleCallback_def Let_def)
      qed
    qed
  qed
qed

lemma sessions_ok_step:
  assumes "sessions_ok oi0 es s"
  shows "sessions_ok oi0 (es @ [(h, env, r)]) (snd (policy_handle h env r s))"
proof (cases h)
  case RUsers
  then show ?thesis using assms sessions_ok_same handleUsers_oidc by (simp add: policy_handle_def)
next
  case RAccessCheck
  then show ?thesis using assms sessions_ok_same by (simp add: policy_handle_def)
qed (use assms sessions_ok_login sessions_ok_callback sessions_ok_logout in \<open>simp_all add: policy_handle_def\<close>)

lemma sessions_ok_run:
  assumes "sv_oidc s = Some oi" "oi_sessions oi = Map.empty" "oi_states oi = Map.empty"
  shows "sessions_ok oi es (policy_run es s)"
proof (induction es rule: rev_induct)
  case Nil
  then show ?case using assms by (simp add: sessions_ok_def)
next
  case (snoc x es)
  obtain h env r where x: "x = (h, env, r)" by (cases x)
  then show ?case using sessions_ok_step [OF snoc.IH, of h env r] by (simp add: policy_run_append)
qed

text \<open>C17: A session makes an admin only after a sign-in, and until it expires or is signed out. Whenever,
  after any run of a service whose OIDC was just enabled, a request without a bearer token
  authenticates as a non-empty actor, its cookie proves a session id that a callback of the run
  created: the callback presented, within ten minutes, a state a login of the run had handed out and no
  other callback had used, its code was exchanged for a verified ID token of that subject with the
  admin role in the configured claim, the session's lifetime has not passed, and no logout that could
  prove the session happened since.\<close>

theorem oidc_admin_session:
  assumes "sv_oidc s = Some oi" "oi_sessions oi = Map.empty" "oi_states oi = Map.empty"
    and "\<not> HasPrefix (HGet (r_Header r) ''Authorization'') bearer_prefix"
    and "authenticateAdmin mac order now r (policy_run es s) = actor" "actor \<noteq> []"
  shows "\<exists>sid sess. cookie_sid mac oi r = Some sid \<and> session_origin oi es sid sess \<and>
    os_subject sess = actor \<and> os_role sess = admin_role \<and> now \<le> os_expires sess"
proof -
  from sessions_ok_run [OF assms(1-3), of es] obtain oi1 where oi1: "sv_oidc (policy_run es s) = Some oi1"
      "oi_cfg oi1 = oi_cfg oi" "\<forall>sid sess. oi_sessions oi1 sid = Some sess \<longrightarrow> session_origin oi es sid sess"
    unfolding sessions_ok_def by blast
  have "actorFromOIDCSession mac now r (policy_run es s) = actor"
    using assms(4,5) by (simp add: authenticateAdmin_def Let_def)
  with assms(6) oi1(1) obtain sid sess where "cookie_sid mac oi1 r = Some sid" "oi_sessions oi1 sid = Some sess"
      "os_role sess = admin_role" "\<not> os_expires sess < now" "os_subject sess = actor"
    by (auto simp: actorFromOIDCSession_def split: option.splits if_splits)
  with oi1(3) cookie_sid_cfg [OF oi1(2), of mac r] show ?thesis
    by (intro exI [of _ sid] exI [of _ sess] conjI) simp_all
qed

subsection \<open>A service with one user, an admin key and OIDC\<close>

definition toy_policy_env :: "gostr \<Rightarrow> time \<Rightarrow> policy_env" where
  "toy_policy_env rand now = \<lparr> pe_prims = toy_prims\<lparr> p_hmac := (\<lambda>k m. k @ m) \<rparr>, pe_save = toy_env (\<lambda>_. False), pe_now = (\<lambda>_. now),
     pe_admins = (\<lambda>_. []), pe_users = [], pe_error = (\<lambda>_. ''error''), pe_dec_quota = (\<lambda>_. Inr (1, 2)),
     pe_enc_users = (\<lambda>_. []), pe_enc_user = (\<lambda>_. []), pe_enc_map = (\<lambda>_. []), pe_enc_quota = (\<lambda>_ _. []),
     pe_enc_access = (\<lambda>_ _ _. []), pe_random = rand, pe_authURL = (\<lambda>st. ''https://idp/?state='' @ st),
     pe_exchange = Inr, pe_verify = (\<lambda>id. Inr (id, [''role'' \<mapsto> ''admin''])), pe_enc_session = (\<lambda>_ _ _. []) \<rparr>"

definition toy_service :: Service where
  "toy_service = (policy_New (set_user ''u'' (toy_user ''u'' ''k'') toy_store) Map.empty ''secret'')\<lparr> sv_hook := True,
     sv_oidc := Some \<lparr> oi_cfg = \<lparr> oc_IssuerURL = ''i'', oc_ClientID = ''c'', oc_ClientSecret = ''s'', oc_RedirectURL = ''r'',
       oc_AdminClaim = ''role'', oc_SessionTTL = hour, oc_SessionSecret = ''x'' \<rparr>,
       oi_sessions = Map.empty, oi_states = Map.empty \<rparr> \<rparr>"

definition toy_request :: "gostr \<Rightarrow> gostr \<Rightarrow> gostr \<Rightarrow> header \<Rightarrow> request" where
  "toy_request mt path query h = \<lparr> r_Method = mt, r_URL = \<lparr> u_Scheme = [], u_Host = [], u_Path = path, u_RawPath = [],
     u_RawQuery = query \<rparr>, r_Host = [], r_RequestURI = path, r_RemoteAddr = [], r_Header = h, r_Body = None \<rparr>"

lemma toy_unprotected: "\<not> unprotected toy_service"
  by (simp add: unprotected_def toy_service_def policy_New_def)

theorem policy_requires_admin_witness:
  "snd (handleUsers (toy_policy_env [] 0) (toy_request ''DELETE'' ''/api/v1/users/u/models/llama'' [] Map.empty) toy_service) = toy_service"
proof -
  have "actor_at (toy_policy_env [] 0) 0 (toy_request ''DELETE'' ''/api/v1/users/u/models/llama'' [] Map.empty) toy_service = []"
    by code_simp
  from policy_requires_admin [OF toy_unprotected this] show ?thesis by blast
qed

theorem policy_refines_store_witness:
  "w_Status (fst (handleUsers (toy_policy_env [] 0)
     (toy_request ''POST'' ''/api/v1/users/u/models/qwen'' [] [''Authorization'' \<mapsto> [''Bearer secret'']]) toy_service)) =
   200"
proof -
  define r where "r = toy_request ''POST'' ''/api/v1/users/u/models/qwen'' [] [''Authorization'' \<mapsto> [''Bearer secret'']]"
  let ?env = "toy_policy_env [] 0"
  have u: "GetByID ''u'' (sv_Store toy_service) = Some (toy_user ''u'' ''k'')"
    by (simp add: toy_service_def policy_New_def GetByID_def set_user_def)
  have a: "actor_at ?env 0 r toy_service = admin_role" unfolding r_def by code_simp
  then have c: "checkAdminAuth ?env r toy_service" by (simp add: checkAdminAuth_def admin_role_def)
  have p: "u_Path (r_URL r) = ''/api/v1/users/'' @ ''u'' @ ''/models/'' @ ''qwen'' @ []" "r_Method r = ''POST''"
    by (simp_all add: r_def toy_request_def)
  have e: "pe_prims ?env = toy_prims\<lparr> p_hmac := (\<lambda>k m. k @ m) \<rparr>" "pe_save ?env = toy_env (\<lambda>_. False)"
    by (simp_all add: toy_policy_env_def)
  from policy_refines_store [OF u c, of "''qwen''" "[]"] p
  have "api_outcome ?env r (GrantModelAccess (pe_prims ?env) (pe_save ?env) ''u'' ''qwen'')
      (''grant_model user='' @ ''u'' @ '' model='' @ ''qwen'') toy_service (handleUsers ?env r toy_service)"
    by simp
  moreover have "snd (snd (GrantModelAccess (pe_prims ?env) (pe_save ?env) ''u'' ''qwen'' (sv_Store toy_service) (sv_disk toy_service))) = None"
    unfolding e by code_simp
  ultimately show ?thesis unfolding api_outcome_def r_def by (simp add: Let_def split: prod.splits)
qed

definition toy_sign_in :: "policy_event list" where
  "toy_sign_in =
     [(RLogin, toy_policy_env ''ab'' 0, toy_request ''GET'' ''/api/v1/auth/login'' [] Map.empty),
      (RCallback, toy_policy_env ''sid'' 5, toy_request ''GET'' ''/api/v1/auth/callback'' ''state=YWI&code=alice'' Map.empty)]"

theorem oidc_admin_session_witness:
  "\<exists>sess. session_origin (the (sv_oidc toy_service)) toy_sign_in (randB64 ''sid'') sess \<and> os_subject sess = ''alice''"
proof -
  define r where "r = toy_request ''GET'' ''/api/v1/users'' []
    [''Cookie'' \<mapsto> [''sovstack_session='' @ signSession (\<lambda>k m. k @ m) (randB64 ''sid'') ''x'']]"
  have o: "sv_oidc toy_service = Some (the (sv_oidc toy_service))"
    "oi_sessions (the (sv_oidc toy_service)) = Map.empty" "oi_states (the (sv_oidc toy_service)) = Map.empty"
    by (simp_all add: toy_service_def)
  have b: "\<not> HasPrefix (HGet (r_Header r) ''Authorization'') bearer_prefix"
    unfolding r_def by code_simp
  have a: "authenticateAdmin (\<lambda>k m. k @ m) [] 6 r (policy_run toy_sign_in toy_service) = ''alice''"
    unfolding r_def by code_simp
  have c: "cookie_sid (\<lambda>k m. k @ m) (the (sv_oidc toy_service)) r = Some (randB64 ''sid'')"
    unfolding r_def by code_simp
  from oidc_admin_session [OF o b a] c show ?thesis by auto
qed

end
