(* ===== verification/GoPath.thy ===== *)
theory GoPath
  imports GoStrings
begin

text \<open>
  \<open>path/filepath\<close> on Unix: lexical cleaning, joining, and the parts of a path.
\<close>

definition clean_step :: "bool \<Rightarrow> gostr list \<Rightarrow> gostr \<Rightarrow> gostr list" where
  "clean_step rooted stack c =
     (if c = [] \<or> c = ''.'' then stack
      else if c = ''..'' then
        (if stack \<noteq> [] \<and> hd stack \<noteq> ''..'' then tl stack
         else if rooted then stack else c # stack)
      else c # stack)"

definition Clean :: "gostr \<Rightarrow> gostr" where
  "Clean path =
     (let rooted = HasPrefix path ''/'';
          body = Join ''/'' (rev (foldl (clean_step rooted) [] (Split (CHR ''/'') path)))
      in if rooted then ''/'' @ body else if body = [] then ''.'' else body)"

definition Path_Join :: "gostr list \<Rightarrow> gostr" where
  "Path_Join elems =
     (let es = dropWhile (\<lambda>e. e = []) elems in if es = [] then [] else Clean (Join ''/'' es))"

definition Path_Dir :: "gostr \<Rightarrow> gostr" where
  "Path_Dir path =
     (case LastIndexByte path (CHR ''/'') of
        None \<Rightarrow> ''.'' | Some i \<Rightarrow> Clean (take (Suc i) path))"

definition Path_Base :: "gostr \<Rightarrow> gostr" where
  "Path_Base path =
     (if path = [] then ''.''
      else
        let p = rev (dropWhile (\<lambda>c. c = CHR ''/'') (rev path)) in
        if p = [] then ''/''
        else case LastIndexByte p (CHR ''/'') of None \<Rightarrow> p | Some i \<Rightarrow> drop (Suc i) p)"

definition Path_Ext :: "gostr \<Rightarrow> gostr" where
  "Path_Ext path =
     (let base = rev (takeWhile (\<lambda>c. c \<noteq> CHR ''/'') (rev path)) in
      case LastIndexByte base (CHR ''.'') of None \<Rightarrow> [] | Some i \<Rightarrow> drop i base)"

text \<open>A path lies in a directory tree.\<close>

definition under :: "gostr \<Rightarrow> gostr \<Rightarrow> bool" where
  "under d p \<longleftrightarrow> p = d \<or> HasPrefix p (d @ ''/'')"

text \<open>A plain name: one path element that cleaning keeps.\<close>

definition plain_name :: "gostr \<Rightarrow> bool" where
  "plain_name s \<longleftrightarrow> s \<noteq> [] \<and> s \<noteq> ''.'' \<and> s \<noteq> ''..'' \<and> CHR ''/'' \<notin> set s"

definition clean_dir :: "gostr \<Rightarrow> bool" where
  "clean_dir d \<longleftrightarrow> (\<exists>ds. ds \<noteq> [] \<and> (\<forall>x \<in> set ds. plain_name x) \<and> d = ''/'' @ Join ''/'' ds)"

lemma plain_names_step:
  "\<forall>x \<in> set ds. plain_name x \<Longrightarrow> foldl (clean_step r) st ds = rev ds @ st"
  by (induction ds arbitrary: st) (auto simp: clean_step_def plain_name_def)

lemma HasPrefix_Join_plain: "plain_name m \<Longrightarrow> \<not> HasPrefix m ''/''"
  by (cases m) (auto simp: plain_name_def)

text \<open>Joining plain names to a clean absolute directory appends them.\<close>

lemma join_plain:
  assumes "ds \<noteq> []" "\<forall>x \<in> set ds. plain_name x" "ms \<noteq> []" "\<forall>x \<in> set ms. plain_name x"
  shows "Path_Join [''/'' @ Join ''/'' ds, Join ''/'' ms] = ''/'' @ Join ''/'' (ds @ ms)"
proof -
  have j: "Join ''/'' (ds @ ms) = Join ''/'' ds @ ''/'' @ Join ''/'' ms" using assms(1,3)
  proof (induction ds)
    case (Cons x xs)
    then show ?case by (cases "xs = []") (simp_all add: Join_Cons)
  qed simp
  have s: "Split (CHR ''/'') (''/'' @ Join ''/'' (ds @ ms)) = [] # (ds @ ms)"
    using Split_append [of "CHR ''/''" "[]"] Split_Join [of "ds @ ms" "CHR ''/''"] assms by (auto simp: plain_name_def)
  have f: "foldl (clean_step True) [] ([] # (ds @ ms)) = rev (ds @ ms)"
    using plain_names_step [of "ds @ ms" True "[]"] assms(2,4) by (auto simp: clean_step_def)
  have n: "Join ''/'' ms \<noteq> []"
    using assms(3,4) by (cases ms; cases "tl ms") (auto simp: plain_name_def)
  have "Path_Join [''/'' @ Join ''/'' ds, Join ''/'' ms] = Clean (''/'' @ Join ''/'' (ds @ ms))"
    by (simp add: Path_Join_def j)
  also have "\<dots> = ''/'' @ Join ''/'' (rev (rev (ds @ ms)))"
    by (simp only: Clean_def s HasPrefix_append f Let_def if_True)
  finally show ?thesis by simp
qed

end
