(* ===== verification/Quantize.thy ===== *)
theory Quantize
  imports Float64 GoStrings
begin

text \<open>
  Model metadata (\<open>core/types.go\<close>) and the memory estimates of the quantizations
  (\<open>core/model/quantization.go\<close>), with Go's 64-bit arithmetic and truncating division, and the
  overhead computed in \<open>float64\<close>.
\<close>

subsection \<open>Metadata\<close>

definition QuantizationNone :: gostr where "QuantizationNone = ''none''"
definition QuantizationAWQ :: gostr where "QuantizationAWQ = ''awq''"
definition QuantizationGPTQ :: gostr where "QuantizationGPTQ = ''gptq''"
definition QuantizationINT8 :: gostr where "QuantizationINT8 = ''int8''"

definition HardwareGPUOnly :: gostr where "HardwareGPUOnly = ''gpu''"
definition HardwareCPUOptimized :: gostr where "HardwareCPUOptimized = ''cpu''"
definition HardwareBoth :: gostr where "HardwareBoth = ''both''"

lemmas quant_consts = QuantizationNone_def QuantizationAWQ_def QuantizationGPTQ_def QuantizationINT8_def
lemmas hardware_consts = HardwareGPUOnly_def HardwareCPUOptimized_def HardwareBoth_def

record ModelMetadata =
  md_Name :: gostr
  md_Repo :: gostr
  md_ParameterCount :: int
  md_DefaultQuantization :: gostr
  md_Size :: "gostr \<rightharpoonup> int"
  md_Description :: gostr
  md_Context :: int
  md_RequiredVRAM :: "gostr \<rightharpoonup> int"
  md_HardwareTarget :: gostr
  md_MinimumSystemRAM :: int

record QuantizationProfile =
  qp_Type :: gostr
  qp_VRAMRequired :: int
  qp_DataType :: gostr
  qp_Speed :: gostr
  qp_Quality :: gostr

record ModelFitAnalysis =
  fa_ModelName :: gostr
  fa_AvailableVRAM :: int
  fa_FittingQuantizations :: "gostr list"
  fa_RecommendedQuant :: gostr
  fa_RequiredVRAM :: "gostr \<rightharpoonup> int"
  fa_Notes :: gostr

subsection \<open>Estimates\<close>

record QuantizationCalculator =
  qc_availableVRAM :: int

definition NewQuantizationCalculator :: "int \<Rightarrow> QuantizationCalculator" where
  "NewQuantizationCalculator availableVRAMBytes = \<lparr> qc_availableVRAM = availableVRAMBytes \<rparr>"

definition calculateVRAM :: "int \<Rightarrow> int \<Rightarrow> int" where
  "calculateVRAM paramCount bitsPerParam =
     (let bytesPerParam = quot bitsPerParam 8;
          modelSize = i64 (paramCount * bytesPerParam);
          overhead = to_i64 (of_i64 modelSize * flit (15 / 100))
      in i64 (modelSize + overhead))"

definition vramForQuantization :: "int \<Rightarrow> gostr \<Rightarrow> int" where
  "vramForQuantization paramCount q =
     (if q = QuantizationNone then calculateVRAM paramCount 16
      else if q = QuantizationAWQ then calculateVRAM paramCount 4
      else if q = QuantizationGPTQ then calculateVRAM paramCount 4
      else if q = QuantizationINT8 then calculateVRAM paramCount 8
      else calculateVRAM paramCount 16)"

definition GetQuantizationProfiles :: "int \<Rightarrow> QuantizationProfile list" where
  "GetQuantizationProfiles paramCount =
     [\<lparr> qp_Type = QuantizationNone, qp_VRAMRequired = calculateVRAM paramCount 16, qp_DataType = ''fp16'',
        qp_Speed = ''fast'', qp_Quality = ''high'' \<rparr>,
      \<lparr> qp_Type = QuantizationAWQ, qp_VRAMRequired = calculateVRAM paramCount 4, qp_DataType = ''int4'',
        qp_Speed = ''medium'', qp_Quality = ''high'' \<rparr>,
      \<lparr> qp_Type = QuantizationGPTQ, qp_VRAMRequired = calculateVRAM paramCount 4, qp_DataType = ''int4'',
        qp_Speed = ''medium'', qp_Quality = ''medium'' \<rparr>,
      \<lparr> qp_Type = QuantizationINT8, qp_VRAMRequired = calculateVRAM paramCount 8, qp_DataType = ''int8'',
        qp_Speed = ''slow'', qp_Quality = ''medium'' \<rparr>]"

definition megabytes :: "int \<Rightarrow> int" where "megabytes n = quot n (1024 * 1024)"

definition priorityOrder :: "gostr list" where
  "priorityOrder = [QuantizationAWQ, QuantizationNone, QuantizationGPTQ, QuantizationINT8]"

definition SuggestQuantization :: "QuantizationCalculator \<Rightarrow> ModelMetadata \<Rightarrow> gostr + gostr" where
  "SuggestQuantization qc md =
     (let profiles = GetQuantizationProfiles (md_ParameterCount md);
          fitting = filter (\<lambda>p. qp_VRAMRequired p \<le> qc_availableVRAM qc) profiles
      in if fitting = [] then
           Inl (''model '' @ md_Name md @ '' ('' @ Itoa (md_ParameterCount md) @ '' params) requires '' @
             Itoa (megabytes (qp_VRAMRequired (hd profiles))) @ '' MB, but only '' @
             Itoa (megabytes (qc_availableVRAM qc)) @ '' MB VRAM available'')
         else
           (case filter (\<lambda>t. list_ex (\<lambda>p. qp_Type p = t) fitting) priorityOrder of
              t # _ \<Rightarrow> Inr t
            | [] \<Rightarrow> Inr (qp_Type (hd fitting))))"

definition CanFit :: "QuantizationCalculator \<Rightarrow> int \<Rightarrow> gostr \<Rightarrow> bool" where
  "CanFit qc paramCount q \<longleftrightarrow> vramForQuantization paramCount q \<le> qc_availableVRAM qc"

definition GetModelSize :: "int \<Rightarrow> gostr \<Rightarrow> int" where
  "GetModelSize paramCount q = vramForQuantization paramCount q"

definition check_mark :: gostr where "check_mark = [CHR 0xE2, CHR 0x9C, CHR 0x93]"

definition AnalyzeModelFit :: "QuantizationCalculator \<Rightarrow> ModelMetadata \<Rightarrow> ModelFitAnalysis" where
  "AnalyzeModelFit qc md =
     (let profiles = GetQuantizationProfiles (md_ParameterCount md);
          analysis = \<lparr> fa_ModelName = md_Name md, fa_AvailableVRAM = qc_availableVRAM qc,
            fa_FittingQuantizations = map qp_Type (filter (\<lambda>p. qp_VRAMRequired p \<le> qc_availableVRAM qc) profiles),
            fa_RecommendedQuant = [], fa_RequiredVRAM = foldl (\<lambda>m p. m(qp_Type p \<mapsto> qp_VRAMRequired p)) Map.empty profiles,
            fa_Notes = [] \<rparr>
      in if fa_FittingQuantizations analysis = [] then
           analysis\<lparr> fa_Notes := ''Model does not fit. Min required: '' @ Itoa (megabytes (qp_VRAMRequired (hd profiles))) @
             '' MB, available: '' @ Itoa (megabytes (qc_availableVRAM qc)) @ '' MB'' \<rparr>
         else
           let recommended = (case SuggestQuantization qc md of Inr q \<Rightarrow> q | Inl _ \<Rightarrow> []);
               required = (case fa_RequiredVRAM analysis recommended of Some v \<Rightarrow> v | None \<Rightarrow> 0)
           in analysis\<lparr> fa_RecommendedQuant := recommended,
                fa_Notes := check_mark @ '' Model fits with '' @ recommended @ '' quantization ('' @
                  Itoa (megabytes required) @ '' MB / '' @ Itoa (megabytes (qc_availableVRAM qc)) @ '' MB)'' \<rparr>)"

subsection \<open>Four bits per parameter\<close>

lemma pow2_1023_big: "(2 :: rat) ^ 62 \<le> pow2 1023"
proof -
  have "pow2 62 \<le> pow2 1023" by (rule pow2_mono) simp
  then show ?thesis by (simp add: pow2_nat)
qed

lemma flit_15: "flit (15 / 100) = Fin (rnd (15 / 100))"
  unfolding flit_def by (rule fl_Fin) (use pow2_1023_big in simp)

lemma calculateVRAM_0:
  assumes "quot bits 8 = 0"
  shows "calculateVRAM n bits = 0"
  using assms by (simp add: calculateVRAM_def flit_15 [simplified] of_i64_def)

lemma quot_bits [simp]: "quot 4 8 = 0" "quot 8 8 = 1" "quot 16 8 = 2"
  by (simp_all add: quot_def)

lemma calculateVRAM_4 [simp]: "calculateVRAM n 4 = 0"
  by (rule calculateVRAM_0) simp

text \<open>Four-bit quantizations are estimated at zero bytes. Half a byte per parameter is computed as
  \<open>4 / 8 = 0\<close>, so on a host with no memory at all AWQ is found to fit every model and is the quantization
  suggested for it; no model is ever refused.\<close>

theorem four_bits_fit_anywhere:
  assumes "0 \<le> qc_availableVRAM qc"
  shows "SuggestQuantization qc md = Inr QuantizationAWQ \<and> CanFit qc n QuantizationAWQ \<and> CanFit qc n QuantizationGPTQ \<and>
    fa_RecommendedQuant (AnalyzeModelFit qc md) = QuantizationAWQ \<and>
    fa_RequiredVRAM (AnalyzeModelFit qc md) QuantizationAWQ = Some 0"
proof -
  have s: "SuggestQuantization qc md = Inr QuantizationAWQ"
    using assms by (simp add: SuggestQuantization_def GetQuantizationProfiles_def priorityOrder_def Let_def)
  have f: "fa_FittingQuantizations (AnalyzeModelFit qc md) \<noteq> []"
    using assms by (simp add: AnalyzeModelFit_def GetQuantizationProfiles_def Let_def)
  show ?thesis
    using assms s
    by (simp add: CanFit_def vramForQuantization_def AnalyzeModelFit_def GetQuantizationProfiles_def Let_def)
      (simp add: quant_consts)
qed

lemma four_bits_fit_anywhere_witness:
  "SuggestQuantization (NewQuantizationCalculator 0)
     \<lparr> md_Name = ''llama'', md_Repo = [], md_ParameterCount = 70000000000, md_DefaultQuantization = ''none'', md_Size = Map.empty,
       md_Description = [], md_Context = 4096, md_RequiredVRAM = Map.empty, md_HardwareTarget = ''gpu'', md_MinimumSystemRAM = 0 \<rparr> =
   Inr ''awq''"
  using four_bits_fit_anywhere [of "NewQuantizationCalculator 0"
      "\<lparr> md_Name = ''llama'', md_Repo = [], md_ParameterCount = 70000000000, md_DefaultQuantization = ''none'', md_Size = Map.empty,
       md_Description = [], md_Context = 4096, md_RequiredVRAM = Map.empty, md_HardwareTarget = ''gpu'', md_MinimumSystemRAM = 0 \<rparr>" 0]
  by (simp add: NewQuantizationCalculator_def QuantizationAWQ_def)

subsection \<open>The estimate in bytes\<close>

lemma overhead_bounds:
  fixes s :: int
  assumes "0 \<le> s" "s \<le> 2 ^ 51"
  shows "\<bar>rnd (of_int s * rnd (15 / 100)) - of_int s * (15 / 100)\<bar> \<le> 1"
proof -
  define e :: rat where "e = pow2 (- 53)"
  define d :: rat where "d = pow2 (- 1075)"
  define r where "r = rnd (15 / 100)"
  define x :: rat where "x = of_int s"
  have e: "0 < e" "2 * d \<le> e"
    using pow2_mono [of "- 1075" "- 54"] pow2_Suc [of "- 54"] by (simp_all add: e_def d_def)
  have x0: "0 \<le> x" using assms(1) by (simp add: x_def)
  have "x \<le> of_int (2 ^ 51)" unfolding x_def using assms(2) by (simp only: of_int_le_iff)
  moreover have "of_int (2 ^ 51) * e = 1 / 4"
  proof -
    have "pow2 51 * pow2 (- 53) = pow2 (- 2)" using pow2_add [of 51 "- 53"] by simp
    moreover have "pow2 (- 2) = 1 / 4" using pow2_diff [of 0 2] by (simp add: pow2_nat)
    ultimately show ?thesis by (simp add: e_def pow2_nat)
  qed
  ultimately have xe: "x * e \<le> 1 / 4" using e(1) by (metis mult_right_mono less_imp_le)
  have e4: "e \<le> 1 / 4"
    using pow2_mono [of "- 53" "- 2"] pow2_diff [of 0 2] by (simp add: e_def pow2_nat)
  have r: "\<bar>r - 15 / 100\<bar> \<le> e"
    using rnd_err [of "15 / 100"] e unfolding r_def [symmetric] e_def [symmetric] d_def [symmetric] by simp
  have r1: "0 \<le> r" "r \<le> 1" using r e4 by (simp_all add: r_def rnd_nonneg abs_le_iff)
  have "\<bar>x * r - x * (15 / 100)\<bar> = \<bar>x * (r - 15 / 100)\<bar>" by (simp only: right_diff_distrib)
  also have "\<dots> = x * \<bar>r - 15 / 100\<bar>" using x0 by (simp only: abs_mult abs_of_nonneg)
  also have "\<dots> \<le> x * e" using r x0 by (rule mult_left_mono)
  finally have 1: "\<bar>x * r - x * (15 / 100)\<bar> \<le> 1 / 4" using xe by simp
  have "\<bar>rnd (x * r) - x * r\<bar> \<le> e * (x * r) + d"
    using rnd_err [of "x * r"] x0 r1 by (simp add: e_def d_def)
  also have "e * (x * r) \<le> e * x" using x0 r1 e(1) by (simp add: mult_left_le)
  finally have 2: "\<bar>rnd (x * r) - x * r\<bar> \<le> 1 / 2" using xe e(2) e4 by (simp add: mult.commute)
  have "\<bar>rnd (x * r) - x * (15 / 100)\<bar> \<le> 1" using 1 2 by linarith
  then show ?thesis by (simp add: x_def r_def)
qed

text \<open>The estimate of eight and sixteen bit quantizations is the size of the parameters and fifteen
  percent, to within two bytes, for every model of up to two petabytes: neither the 64-bit products nor
  the float64 overhead go astray.\<close>

theorem vram_estimate_bounds:
  assumes "bits = 8 \<or> bits = 16" "0 \<le> n" "n * (bits div 8) \<le> 2 ^ 51"
  shows "115 * (n * (bits div 8)) - 200 \<le> 100 * calculateVRAM n bits \<and>
    100 * calculateVRAM n bits \<le> 115 * (n * (bits div 8)) + 100"
proof -
  define s where "s = n * (bits div 8)"
  have s: "0 \<le> s" "s \<le> 2 ^ 51" using assms by (auto simp: s_def)
  have q: "n * quot bits 8 = s" using assms(1) by (auto simp: s_def)
  define y where "y = rnd (of_int s * rnd (15 / 100))"
  have b: "\<bar>y - of_int s * (15 / 100)\<bar> \<le> 1" using overhead_bounds [OF s] by (simp add: y_def)
  have y0: "0 \<le> y" unfolding y_def using s(1) by (intro rnd_nonneg mult_nonneg_nonneg) (simp_all add: rnd_nonneg)
  have si: "of_int s \<le> (2 ^ 51 :: rat)"
  proof -
    have "of_int s \<le> (of_int (2 ^ 51) :: rat)" using s(2) by (simp only: of_int_le_iff)
    then show ?thesis by simp
  qed
  have r1: "0 \<le> rnd (15 / 100)" "rnd (15 / 100) \<le> 1"
    using rnd_mono [of "15 / 100" 1] rnd_of_int [of 1] by (simp_all add: rnd_nonneg)
  have p: "\<bar>of_int s * rnd (15 / 100)\<bar> \<le> pow2 1023"
  proof -
    have "\<bar>of_int s * rnd (15 / 100)\<bar> \<le> of_int s * 1" using s(1) r1 by (simp add: abs_mult mult_left_le)
    then show ?thesis using si pow2_1023_big by simp
  qed
  have "of_i64 s * flit (15 / 100) = Fin y"
    using s p by (simp add: of_i64_small flit_15 [simplified] fl_Fin y_def)
  moreover have fl: "is_i64 \<lfloor>y\<rfloor>"
  proof -
    have "y \<le> of_int s * (15 / 100) + 1" using b by (simp add: abs_le_iff)
    then have "y < 2 ^ 62" using si by simp
    then have "\<lfloor>y\<rfloor> < 2 ^ 62" by (simp add: floor_less_iff)
    moreover have "0 \<le> \<lfloor>y\<rfloor>" using y0 by simp
    ultimately show ?thesis by (simp add: is_i64_def)
  qed
  ultimately have o: "to_i64 (of_i64 s * flit (15 / 100)) = \<lfloor>y\<rfloor>" using y0 by simp
  have f: "of_int \<lfloor>y\<rfloor> \<le> y" "y < of_int \<lfloor>y\<rfloor> + 1" using floor_correct [of y] by simp_all
  have lo: "15 * s - 200 \<le> 100 * \<lfloor>y\<rfloor>"
  proof -
    have "of_int (15 * s - 200) \<le> (of_int (100 * \<lfloor>y\<rfloor>) :: rat)" using b f by (simp add: abs_le_iff del: of_int_floor_le)
    then show ?thesis by (simp only: of_int_le_iff)
  qed
  have hi: "100 * \<lfloor>y\<rfloor> \<le> 15 * s + 100"
  proof -
    have "of_int (100 * \<lfloor>y\<rfloor>) \<le> (of_int (15 * s + 100) :: rat)" using b f by (simp add: abs_le_iff del: of_int_floor_le)
    then show ?thesis by (simp only: of_int_le_iff)
  qed
  have "calculateVRAM n bits = i64 (i64 s + to_i64 (of_i64 (i64 s) * flit (15 / 100)))"
    by (simp only: calculateVRAM_def Let_def q)
  also have "i64 s = s" using s by (intro i64_id) (simp add: is_i64_def)
  also have "i64 (s + to_i64 (of_i64 s * flit (15 / 100))) = s + \<lfloor>y\<rfloor>"
  proof -
    have "is_i64 (s + \<lfloor>y\<rfloor>)" using s lo hi y0 by (simp add: is_i64_def)
    then show ?thesis by (simp add: o [simplified])
  qed
  finally show ?thesis using lo hi by (simp add: s_def)
qed

lemma vram_estimate_bounds_witness:
  "100 * calculateVRAM 7000000000 16 \<le> 115 * 14000000000 + 100"
  using vram_estimate_bounds [of 16 7000000000] by simp

end
