(* ===== verification/Docker.thy ===== *)
theory Docker
  imports GoPath Quantize
begin

text \<open>
  The container layer (\<open>internal/docker\<close>): container names, the parsing of \<open>docker ps\<close>, the free-port
  search, and the two inference orchestrators. The docker command line is an argument: a function from
  the arguments of a command and the state of the world to its outcome and the next state of the world.
  The scripts and image contents the CPU orchestrator writes are not modelled; building the image is one
  fallible step.
\<close>

subsection \<open>Commands\<close>

text \<open>Success, standard output, and both outputs together.\<close>

record cmd_result =
  cr_ok :: bool
  cr_out :: gostr
  cr_combined :: gostr

type_synonym 'w docker = "gostr list \<Rightarrow> 'w \<Rightarrow> cmd_result \<times> 'w"

datatype docker_error =
  PermissionDenied | QueryFailed gostr | PanicShortID | BuildFailed | PullFailed gostr
| PathFailed | RunFailed gostr | NotReady gostr | NoContainer | StopFailed | RemoveFailed
| InspectFailed | NotRunning | LogsFailed

subsection \<open>Names\<close>

definition containerPrefix :: gostr where "containerPrefix = ''ss-''"

definition sanitized :: "gostr \<Rightarrow> gostr" where
  "sanitized modelName = ReplaceChar (CHR '' '') (CHR ''-'') (ReplaceChar (CHR ''/'') (CHR ''-'') modelName)"

definition GetContainerName :: "gostr \<Rightarrow> bool \<Rightarrow> gostr" where
  "GetContainerName modelName isGPU =
     containerPrefix @ (if isGPU then ''vllm'' else ''cpu'') @ ''-'' @ sanitized modelName"

subsection \<open>Running models\<close>

record RunningModel =
  rm_ModelName :: gostr
  rm_ContainerID :: gostr
  rm_Type :: gostr
  rm_Status :: gostr
  rm_Port :: int

definition getContainerPort :: "'w docker \<Rightarrow> gostr \<Rightarrow> 'w \<Rightarrow> int \<times> 'w" where
  "getContainerPort exec containerID w =
     (let (r, w1) = exec [''inspect'', ''-f'',
            ''{{range $p, $conf := .NetworkSettings.Ports}}{{(index $conf 0).HostPort}}{{end}}'', containerID] w
      in if \<not> cr_ok r then (0, w1)
         else
           let portStr = TrimSpace (cr_combined r) in
           (if portStr = [] then 0
            else case scan_int (- (2 ^ 63)) (2 ^ 63 - 1) portStr of Some (n, _) \<Rightarrow> n | None \<Rightarrow> 0, w1))"

definition delimiter :: gostr where "delimiter = ''|||''"

definition status_of :: "gostr \<Rightarrow> gostr" where
  "status_of s = (if Contains s ''Up'' then ''running'' else if Contains s ''Exited'' then ''exited'' else ''unknown'')"

text \<open>One line of the listing: engine type, model, container id and status of a managed container.\<close>

definition parse_ps_line :: "gostr \<Rightarrow> (gostr \<times> gostr \<times> gostr \<times> gostr) option" where
  "parse_ps_line raw =
     (let line = TrimSpace raw; parts = SplitS delimiter line in
      if line = [] \<or> length parts < 3 then None
      else
        let name = TrimSpace (parts ! 0); cid = TrimSpace (parts ! 1); st = TrimSpace (parts ! 2) in
        if \<not> HasPrefix name containerPrefix then None
        else
          let nameParts = Split (CHR ''-'') (TrimPrefix name containerPrefix) in
          if length nameParts < 2 then None
          else Some (hd nameParts, Join ''-'' (tl nameParts), cid, status_of st))"

fun collect_models ::
    "'w docker \<Rightarrow> gostr list \<Rightarrow> RunningModel list \<Rightarrow> 'w \<Rightarrow> (docker_error + RunningModel list) \<times> 'w" where
  "collect_models exec [] models w = (Inr models, w)"
| "collect_models exec (l # ls) models w =
     (case parse_ps_line l of
        None \<Rightarrow> collect_models exec ls models w
      | Some (ty, name, cid, st) \<Rightarrow>
          if length cid < 12 then (Inl PanicShortID, w)
          else
            let (port, w1) = getContainerPort exec (take 12 cid) w in
            collect_models exec ls
              (models @ [\<lparr> rm_ModelName = name, rm_ContainerID = cid, rm_Type = ty, rm_Status = st, rm_Port = port \<rparr>]) w1)"

definition ps_args :: "gostr list" where
  "ps_args = [''ps'', ''-a'', ''--format'', ''{{.Names}}|||{{.ID}}|||{{.Status}}'']"

definition GetRunningModels :: "'w docker \<Rightarrow> 'w \<Rightarrow> (docker_error + RunningModel list) \<times> 'w" where
  "GetRunningModels exec w =
     (let (r, w1) = exec ps_args w in
      if \<not> cr_ok r then
        (Inl (if Contains (cr_combined r) ''permission denied'' then PermissionDenied else QueryFailed (cr_combined r)), w1)
      else collect_models exec (Split (CHR 0x0A) (cr_combined r)) [] w1)"

subsection \<open>Ports\<close>

text \<open>\<open>free p\<close>: a listener can be opened on \<open>p\<close>.\<close>

definition findFreePort :: "(int \<Rightarrow> bool) \<Rightarrow> int \<Rightarrow> int" where
  "findFreePort free startPort =
     (case List.find free [startPort..startPort + 99] of Some p \<Rightarrow> p | None \<Rightarrow> startPort)"

subsection \<open>Orchestrators\<close>

record InferenceConfig =
  ic_ModelPath :: gostr
  ic_ModelName :: gostr
  ic_Quantization :: gostr
  ic_GPUIndices :: "int list"
  ic_ContextLength :: int
  ic_GPUMemoryUtilization :: gostr
  ic_TensorParallelSize :: int
  ic_Port :: int
  ic_RebuildImage :: bool

text \<open>The two engines with their container id; \<open>ic_GPUMemoryUtilization\<close> is the fraction as \<open>%.2f\<close>
  prints it.\<close>

datatype InferenceEngine = VLLMOrchestrator gostr | CPUInferenceOrchestrator gostr

fun engine_id :: "InferenceEngine \<Rightarrow> gostr" where
  "engine_id (VLLMOrchestrator c) = c"
| "engine_id (CPUInferenceOrchestrator c) = c"

fun with_id :: "InferenceEngine \<Rightarrow> gostr \<Rightarrow> InferenceEngine" where
  "with_id (VLLMOrchestrator _) c = VLLMOrchestrator c"
| "with_id (CPUInferenceOrchestrator _) c = CPUInferenceOrchestrator c"

definition NewInferenceEngine :: "bool \<Rightarrow> InferenceEngine" where
  "NewInferenceEngine hasGPU = (if hasGPU then VLLMOrchestrator [] else CPUInferenceOrchestrator [])"

definition buildCUDADevices :: "int list \<Rightarrow> gostr" where
  "buildCUDADevices is = (if is = [] then ''0'' else Join '','' (map Itoa is))"

definition buildGPUSpec :: "int list \<Rightarrow> gostr" where
  "buildGPUSpec is = (if is = [] then ''all'' else ''device='' @ Join '','' (map Itoa is))"

definition imageExists :: "'w docker \<Rightarrow> gostr \<Rightarrow> 'w \<Rightarrow> bool \<times> 'w" where
  "imageExists exec img w = (let (r, w1) = exec [''image'', ''inspect'', img] w in (cr_ok r, w1))"

definition pullImage :: "'w docker \<Rightarrow> gostr \<Rightarrow> 'w \<Rightarrow> docker_error option \<times> 'w" where
  "pullImage exec img w =
     (let (r, w1) = exec [''pull'', img] w in (if cr_ok r then None else Some (PullFailed (cr_combined r)), w1))"

definition inspect_running :: "'w docker \<Rightarrow> gostr \<Rightarrow> 'w \<Rightarrow> cmd_result \<times> 'w" where
  "inspect_running exec cid w = exec [''inspect'', ''-f'', ''{{.State.Running}}'', cid] w"

definition HealthCheck :: "'w docker \<Rightarrow> InferenceEngine \<Rightarrow> 'w \<Rightarrow> docker_error option \<times> 'w" where
  "HealthCheck exec e w =
     (if engine_id e = [] then (Some NoContainer, w)
      else
        let (r, w1) = inspect_running exec (engine_id e) w in
        (if \<not> cr_ok r then Some InspectFailed
         else if TrimSpace (cr_out r) = ''true'' then None else Some NotRunning, w1))"

definition IsRunning :: "'w docker \<Rightarrow> InferenceEngine \<Rightarrow> 'w \<Rightarrow> bool \<times> 'w" where
  "IsRunning exec e w =
     (if engine_id e = [] then (False, w)
      else let (r, w1) = inspect_running exec (engine_id e) w in (cr_ok r \<and> TrimSpace (cr_out r) = ''true'', w1))"

definition engine_Stop :: "'w docker \<Rightarrow> InferenceEngine \<Rightarrow> 'w \<Rightarrow> docker_error option \<times> 'w" where
  "engine_Stop exec e w =
     (if engine_id e = [] then (Some NoContainer, w)
      else let (r, w1) = exec [''stop'', engine_id e] w in (if cr_ok r then None else Some StopFailed, w1))"

definition engine_Remove :: "'w docker \<Rightarrow> InferenceEngine \<Rightarrow> 'w \<Rightarrow> docker_error option \<times> InferenceEngine \<times> 'w" where
  "engine_Remove exec e w =
     (if engine_id e = [] then (Some NoContainer, e, w)
      else
        let (r, w1) = exec [''rm'', engine_id e] w in
        if cr_ok r then (None, with_id e [], w1) else (Some RemoveFailed, e, w1))"

definition GetLogs :: "'w docker \<Rightarrow> InferenceEngine \<Rightarrow> int \<Rightarrow> 'w \<Rightarrow> (docker_error + gostr) \<times> 'w" where
  "GetLogs exec e tailLines w =
     (if engine_id e = [] then (Inl NoContainer, w)
      else
        let (r, w1) = exec [''logs'', ''--tail'', Itoa tailLines, engine_id e] w in
        (if cr_ok r then Inr (cr_combined r) else Inl LogsFailed, w1))"

text \<open>At most \<open>n\<close> health checks, a second apart.\<close>

fun wait_ready :: "'w docker \<Rightarrow> InferenceEngine \<Rightarrow> nat \<Rightarrow> 'w \<Rightarrow> bool \<times> 'w" where
  "wait_ready exec e 0 w = (False, w)"
| "wait_ready exec e (Suc n) w =
     (let (err, w1) = HealthCheck exec e w in if err = None then (True, w1) else wait_ready exec e n w1)"

text \<open>\<open>docker ps -q -f name=\<close> finds containers whose name contains the argument; the removal names the
  container itself.\<close>

definition remove_stale :: "'w docker \<Rightarrow> gostr \<Rightarrow> 'w \<Rightarrow> 'w" where
  "remove_stale exec name w =
     (let (r, w1) = exec [''ps'', ''-a'', ''-q'', ''-f'', ''name='' @ name] w in
      if cr_out r = [] then w1 else snd (exec [''rm'', ''-f'', name] w1))"

record start_env =
  st_free :: "int \<Rightarrow> bool"
  st_abs :: "gostr \<Rightarrow> gostr option"
  st_build_setup :: bool
  st_build_dir :: gostr

definition vllmImage :: gostr where "vllmImage = ''vllm/vllm-openai:latest''"
definition cpuImageName :: gostr where "cpuImageName = ''sovereignstack-cpu-inference:latest''"

definition vllm_args :: "InferenceConfig \<Rightarrow> int \<Rightarrow> gostr \<Rightarrow> gostr list" where
  "vllm_args cfg port dir =
     [''run'', ''-d'', ''--shm-size'', ''2g'', ''-p'', Itoa port @ '':8000'', ''-v'', dir @ '':/models'',
      ''--name'', GetContainerName (ic_ModelName cfg) True, ''--restart'', ''unless-stopped''] @
     (if ic_GPUIndices cfg = [] then []
      else [''--gpus'', buildGPUSpec (ic_GPUIndices cfg), ''-e'', ''CUDA_VISIBLE_DEVICES='' @ buildCUDADevices (ic_GPUIndices cfg),
        ''-e'', ''VLLM_GPU_MEMORY_UTILIZATION='' @ ic_GPUMemoryUtilization cfg,
        ''-e'', ''VLLM_TENSOR_PARALLEL_SIZE='' @ Itoa (ic_TensorParallelSize cfg)]) @
     [vllmImage, ''--model'', Path_Base (ic_ModelPath cfg), ''--host'', ''0.0.0.0'', ''--port'', ''8000''] @
     (if ic_GPUIndices cfg = [] then [''--device'', ''cpu''] else []) @
     (if ic_Quantization cfg \<noteq> QuantizationNone then [''--quantization'', ic_Quantization cfg] else []) @
     (if 0 < ic_ContextLength cfg then [''--max-model-len'', Itoa (ic_ContextLength cfg)] else [])"

definition cpu_args :: "InferenceConfig \<Rightarrow> int \<Rightarrow> gostr \<Rightarrow> gostr list" where
  "cpu_args cfg port dir =
     [''run'', ''-d'', ''--shm-size'', ''2g'', ''-p'', Itoa port @ '':8000'', ''-v'', dir @ '':/model'',
      ''-e'', ''MODEL_PATH=/model/'' @ Path_Base (ic_ModelPath cfg), ''-e'', ''HF_HOME=/model'',
      ''--name'', GetContainerName (ic_ModelName cfg) False, ''--restart'', ''unless-stopped'', cpuImageName]"

text \<open>Running the container and waiting for it, common to both; the CPU engine adds the container's logs
  to the error. A failed wait leaves the container running.\<close>

definition launch ::
    "'w docker \<Rightarrow> bool \<Rightarrow> (gostr \<Rightarrow> InferenceEngine) \<Rightarrow> gostr list \<Rightarrow> InferenceEngine \<Rightarrow> 'w \<Rightarrow> (docker_error + gostr) \<times> InferenceEngine \<times> 'w" where
  "launch exec with_logs mk args e w =
     (let (r, w1) = exec args w in
      if \<not> cr_ok r then (Inl (RunFailed (cr_combined r)), e, w1)
      else
        let cid = TrimSpace (cr_combined r); e1 = mk cid; (ready, w2) = wait_ready exec e1 30 w1 in
        if ready then (Inr cid, e1, w2)
        else if \<not> with_logs then (Inl (NotReady []), e1, w2)
        else
          let (logs, w3) = GetLogs exec e1 20 w2 in
          (Inl (NotReady (case logs of Inr l \<Rightarrow> l | Inl _ \<Rightarrow> [])), e1, w3))"

definition vllm_Start ::
    "'w docker \<Rightarrow> start_env \<Rightarrow> InferenceConfig \<Rightarrow> InferenceEngine \<Rightarrow> 'w \<Rightarrow> (docker_error + gostr) \<times> InferenceEngine \<times> 'w" where
  "vllm_Start exec env cfg e w =
     (let (exists, w1) = imageExists exec vllmImage w;
          (err, w2) = (if exists then (None, w1) else pullImage exec vllmImage w1)
      in case err of
           Some er \<Rightarrow> (Inl er, e, w2)
         | None \<Rightarrow>
             let w3 = remove_stale exec (GetContainerName (ic_ModelName cfg) True) w2;
                 port = findFreePort (st_free env) (ic_Port cfg)
             in case st_abs env (Path_Dir (ic_ModelPath cfg)) of
                  None \<Rightarrow> (Inl PathFailed, e, w3)
                | Some dir \<Rightarrow> launch exec False VLLMOrchestrator (vllm_args cfg port dir) e w3)"

text \<open>The image build: the files can be written (\<open>st_build_setup\<close>) and \<open>docker build\<close> succeeds.\<close>

definition buildImage :: "'w docker \<Rightarrow> start_env \<Rightarrow> 'w \<Rightarrow> docker_error option \<times> 'w" where
  "buildImage exec env w =
     (if \<not> st_build_setup env then (Some BuildFailed, w)
      else
        let (r, w1) = exec [''build'', ''-t'', cpuImageName, st_build_dir env] w in
        (if cr_ok r then None else Some BuildFailed, w1))"

definition cpu_Start ::
    "'w docker \<Rightarrow> start_env \<Rightarrow> InferenceConfig \<Rightarrow> InferenceEngine \<Rightarrow> 'w \<Rightarrow> (docker_error + gostr) \<times> InferenceEngine \<times> 'w" where
  "cpu_Start exec env cfg e w =
     (let (err, w2) =
            (if ic_RebuildImage cfg then buildImage exec env w
             else let (exists, w1) = imageExists exec cpuImageName w in
               if exists then (None, w1) else buildImage exec env w1)
      in case err of
           Some er \<Rightarrow> (Inl er, e, w2)
         | None \<Rightarrow>
             let w3 = remove_stale exec (GetContainerName (ic_ModelName cfg) False) w2;
                 port = findFreePort (st_free env) (ic_Port cfg)
             in case st_abs env (Path_Dir (ic_ModelPath cfg)) of
                  None \<Rightarrow> (Inl PathFailed, e, w3)
                | Some dir \<Rightarrow> launch exec True CPUInferenceOrchestrator (cpu_args cfg port dir) e w3)"

definition engine_Start ::
    "'w docker \<Rightarrow> start_env \<Rightarrow> InferenceConfig \<Rightarrow> InferenceEngine \<Rightarrow> 'w \<Rightarrow> (docker_error + gostr) \<times> InferenceEngine \<times> 'w" where
  "engine_Start exec env cfg e w =
     (case e of VLLMOrchestrator _ \<Rightarrow> vllm_Start exec env cfg e w | CPUInferenceOrchestrator _ \<Rightarrow> cpu_Start exec env cfg e w)"

subsection \<open>Listing\<close>

text \<open>What \<open>docker ps\<close> lists: containers the program named, and others.\<close>

datatype container = Managed gostr bool gostr gostr | Foreign gostr gostr gostr

fun ps_cells :: "container \<Rightarrow> gostr \<times> gostr \<times> gostr" where
  "ps_cells (Managed m gpu cid st) = (GetContainerName m gpu, cid, st)"
| "ps_cells (Foreign n cid st) = (n, cid, st)"

definition ps_line :: "container \<Rightarrow> gostr" where
  "ps_line c = (let (n, cid, st) = ps_cells c in n @ delimiter @ cid @ delimiter @ st)"

definition ps_cell :: "gostr \<Rightarrow> bool" where
  "ps_cell s \<longleftrightarrow> s \<noteq> [] \<and> CHR ''|'' \<notin> set s \<and> CHR 0x0A \<notin> set s \<and> \<not> is_space (hd s) \<and> \<not> is_space (last s)"

text \<open>Non-empty cells without the delimiter, ids of twelve characters at least, and no other
  container with the program's prefix.\<close>

fun container_ok :: "container \<Rightarrow> bool" where
  "container_ok (Managed m gpu cid st) \<longleftrightarrow> ps_cell (GetContainerName m gpu) \<and> ps_cell cid \<and> 12 \<le> length cid \<and> ps_cell st"
| "container_ok (Foreign n cid st) \<longleftrightarrow> ps_cell n \<and> \<not> HasPrefix n containerPrefix \<and> ps_cell cid \<and> ps_cell st"

fun managed_view :: "container \<Rightarrow> (gostr \<times> gostr \<times> gostr \<times> gostr) option" where
  "managed_view (Managed m gpu cid st) = Some (if gpu then ''vllm'' else ''cpu'', sanitized m, cid, status_of st)"
| "managed_view (Foreign n cid st) = None"

lemma Index_unique: "c \<notin> set a \<Longrightarrow> Index (a @ (c # sub) @ b) (c # sub) = Some (length a)"
  by (induction a) auto

lemma SplitS_append: "c \<notin> set a \<Longrightarrow> SplitS (c # sub) (a @ (c # sub) @ b) = a # SplitS (c # sub) b"
  by (subst SplitS.simps) (simp add: Index_unique [simplified])

lemma Index_absent: "c \<notin> set a \<Longrightarrow> Index a (c # sub) = None"
  by (induction a) auto

lemma SplitS_absent: "c \<notin> set a \<Longrightarrow> SplitS (c # sub) a = [a]"
  by (subst SplitS.simps) (simp add: Index_absent)

lemma delimiter_Cons: "delimiter = CHR ''|'' # ''||''"
  by (simp add: delimiter_def)

lemma split_ps:
  assumes "CHR ''|'' \<notin> set a" "CHR ''|'' \<notin> set b" "CHR ''|'' \<notin> set c"
  shows "SplitS delimiter (a @ delimiter @ b @ delimiter @ c) = [a, b, c]"
  using assms SplitS_append [of "CHR ''|''" a "''||''" "b @ delimiter @ c"]
    SplitS_append [of "CHR ''|''" b "''||''" c] SplitS_absent [of "CHR ''|''" c "''||''"]
  unfolding delimiter_Cons by simp

lemma ps_cell_trim: "ps_cell s \<Longrightarrow> TrimSpace s = s"
  by (rule TrimSpace_id) (auto simp: ps_cell_def)

lemma ps_line_trim:
  assumes "ps_cell n" "ps_cell st"
  shows "TrimSpace (n @ delimiter @ cid @ delimiter @ st) = n @ delimiter @ cid @ delimiter @ st"
  by (rule TrimSpace_id) (use assms in \<open>auto simp: ps_cell_def\<close>)

text \<open>A container name decodes to its engine type and the sanitized model name.\<close>

lemma decode_name:
  "HasPrefix (GetContainerName m gpu) containerPrefix \<and>
   Split (CHR ''-'') (TrimPrefix (GetContainerName m gpu) containerPrefix) =
     (if gpu then ''vllm'' else ''cpu'') # Split (CHR ''-'') (sanitized m)"
  using Split_append [of "CHR ''-''" "if gpu then ''vllm'' else ''cpu''" "sanitized m"]
  by (auto simp: GetContainerName_def)

lemma parse_ps_line:
  assumes "container_ok c"
  shows "parse_ps_line (ps_line c) = managed_view c"
proof (cases c)
  case (Managed m gpu cid st)
  let ?n = "GetContainerName m gpu"
  have ok: "ps_cell ?n" "ps_cell cid" "ps_cell st" using assms Managed by auto
  have s: "SplitS delimiter (?n @ delimiter @ cid @ delimiter @ st) = [?n, cid, st]"
    by (rule split_ps) (use ok in \<open>auto simp: ps_cell_def\<close>)
  have ne: "?n @ delimiter @ cid @ delimiter @ st \<noteq> []" using ok by (auto simp: ps_cell_def)
  have j: "Join ''-'' (Split (CHR ''-'') (sanitized m)) = sanitized m" by simp
  show ?thesis
    unfolding Managed ps_line_def ps_cells.simps Let_def prod.case parse_ps_line_def ps_line_trim [OF ok(1,3)] s
    using ne decode_name [of m gpu] j ok by (simp add: ps_cell_trim del: Join_Split)
next
  case (Foreign n cid st)
  have ok: "ps_cell n" "ps_cell cid" "ps_cell st" "\<not> HasPrefix n containerPrefix" using assms Foreign by auto
  have s: "SplitS delimiter (n @ delimiter @ cid @ delimiter @ st) = [n, cid, st]"
    by (rule split_ps) (use ok in \<open>auto simp: ps_cell_def\<close>)
  show ?thesis
    unfolding Foreign ps_line_def ps_cells.simps Let_def prod.case parse_ps_line_def ps_line_trim [OF ok(1,3)] s
    using ok by (simp add: ps_cell_trim)
qed

definition view :: "RunningModel \<Rightarrow> gostr \<times> gostr \<times> gostr \<times> gostr" where
  "view m = (rm_Type m, rm_ModelName m, rm_ContainerID m, rm_Status m)"

lemma managed_id: "container_ok c \<Longrightarrow> managed_view c = Some (ty, name, cid, st) \<Longrightarrow> 12 \<le> length cid"
  by (cases c) auto

lemma collect_listing:
  assumes "list_all container_ok cs"
  shows "\<exists>more. fst (collect_models exec (map ps_line cs @ [[]]) ms w) = Inr (ms @ more) \<and>
    map view more = List.map_filter managed_view cs"
  using assms
proof (induction cs arbitrary: ms w)
  case Nil
  have "parse_ps_line [] = None" by (simp add: parse_ps_line_def TrimSpace_def Let_def)
  then show ?case by simp
next
  case (Cons c cs)
  show ?case
  proof (cases "managed_view c")
    case None
    with Cons show ?thesis by (simp add: parse_ps_line)
  next
    case (Some v)
    obtain ty name cid st where v: "v = (ty, name, cid, st)" by (cases v)
    obtain port w1 where p: "getContainerPort exec (take 12 cid) w = (port, w1)" by fastforce
    have l: "\<not> length cid < 12" using managed_id [of c] Some v Cons.prems by fastforce
    let ?m = "\<lparr> rm_ModelName = name, rm_ContainerID = cid, rm_Type = ty, rm_Status = st, rm_Port = port \<rparr>"
    from Cons obtain more where
      "fst (collect_models exec (map ps_line cs @ [[]]) (ms @ [?m]) w1) = Inr ((ms @ [?m]) @ more)"
      "map view more = List.map_filter managed_view cs" by fastforce
    moreover have "view ?m = (ty, name, cid, st)" by (simp add: view_def)
    ultimately show ?thesis using Cons.prems Some v p l
      by (intro exI [of _ "?m # more"]) (simp add: parse_ps_line)
  qed
qed

lemma Split_lines:
  "list_all (\<lambda>l. CHR 0x0A \<notin> set l) ls \<Longrightarrow> Split (CHR 0x0A) (concat (map (\<lambda>l. l @ [CHR 0x0A]) ls)) = ls @ [[]]"
  by (induction ls) (simp_all add: Split_append [simplified])

lemma ps_line_newline: "container_ok c \<Longrightarrow> CHR 0x0A \<notin> set (ps_line c)"
  by (cases c) (auto simp: ps_line_def ps_cell_def delimiter_def)

lemma listing_decodes:
  assumes "exec ps_args w = (r, w1)" "cr_ok r" "list_all container_ok cs"
    and "cr_combined r = concat (map (\<lambda>c. ps_line c @ [CHR 0x0A]) cs)"
  shows "\<exists>ms w2. GetRunningModels exec w = (Inr ms, w2) \<and> map view ms = List.map_filter managed_view cs"
proof -
  have n: "list_all (\<lambda>l. CHR 0x0A \<notin> set l) (map ps_line cs)"
    using assms(3) by (auto simp: list_all_iff ps_line_newline)
  have s: "Split (CHR 0x0A) (cr_combined r) = map ps_line cs @ [[]]"
    using Split_lines [OF n] assms(4) by (simp add: comp_def)
  from collect_listing [OF assms(3), of exec "[]" w1] obtain ms where
    "fst (collect_models exec (map ps_line cs @ [[]]) [] w1) = Inr ms" "map view ms = List.map_filter managed_view cs"
    by auto
  then show ?thesis using assms(1,2) s
    by (cases "collect_models exec (map ps_line cs @ [[]]) [] w1") (simp add: GetRunningModels_def)
qed

lemma sanitized_no_slash: "CHR ''/'' \<notin> set (sanitized m)"
  by (auto simp: sanitized_def ReplaceChar_def)

text \<open>The listing of running models decodes the containers docker reports. When \<open>docker ps\<close> succeeds
  with one line per container, \<open>GetRunningModels\<close> returns, in order, exactly the containers the program
  named: engine type, container id and status, and the model name in which every slash and blank has
  become a dash; a model name that contains a slash is never listed.\<close>

theorem running_models_listing:
  assumes "exec ps_args w = (r, w1)" "cr_ok r" "list_all container_ok cs"
    and "cr_combined r = concat (map (\<lambda>c. ps_line c @ [CHR 0x0A]) cs)"
  shows "\<exists>ms. fst (GetRunningModels exec w) = Inr ms \<and> map view ms = List.map_filter managed_view cs \<and>
    (\<forall>m \<in> set ms. CHR ''/'' \<notin> set (rm_ModelName m))"
proof -
  from listing_decodes [of exec w, OF assms] obtain ms w2 where
    ms: "GetRunningModels exec w = (Inr ms, w2)" "map view ms = List.map_filter managed_view cs" by blast
  have "CHR ''/'' \<notin> set (rm_ModelName m)" if "m \<in> set ms" for m
  proof -
    from that have "view m \<in> set (List.map_filter managed_view cs)" unfolding ms(2) [symmetric] by simp
    then obtain c where "managed_view c = Some (view m)" by (auto simp: List.map_filter_def)
    then obtain m' where "sanitized m' = rm_ModelName m" by (cases c) (auto simp: view_def)
    with sanitized_no_slash [of m'] show ?thesis by simp
  qed
  with ms show ?thesis by simp
qed

text \<open>A docker that lists fixed containers and fails every other command.\<close>

definition fixed_docker :: "container list \<Rightarrow> unit docker" where
  "fixed_docker cs args w =
     (if args = ps_args
      then (\<lparr> cr_ok = True, cr_out = [], cr_combined = concat (map (\<lambda>c. ps_line c @ [CHR 0x0A]) cs) \<rparr>, w)
      else (\<lparr> cr_ok = False, cr_out = [], cr_combined = [] \<rparr>, w))"

lemma fixed_docker_ps:
  "fixed_docker cs ps_args w =
     (\<lparr> cr_ok = True, cr_out = [], cr_combined = concat (map (\<lambda>c. ps_line c @ [CHR 0x0A]) cs) \<rparr>, w)"
  by (simp add: fixed_docker_def)

definition two_containers :: "container list" where
  "two_containers = [Managed ''org/llama'' False ''0123456789abcdef'' ''Up 2 hours'', Foreign ''redis'' ''0123456789ab'' ''Up 1 day'']"

lemma two_containers_ok: "list_all container_ok two_containers"
  by code_simp

theorem running_models_listing_witness:
  "\<exists>ms. fst (GetRunningModels (fixed_docker two_containers) ()) = Inr ms \<and>
     map view ms = [(''cpu'', ''org-llama'', ''0123456789abcdef'', ''running'')]"
proof -
  have "List.map_filter managed_view two_containers = [(''cpu'', ''org-llama'', ''0123456789abcdef'', ''running'')]"
    by code_simp
  moreover obtain ms where "fst (GetRunningModels (fixed_docker two_containers) ()) = Inr ms"
      "map view ms = List.map_filter managed_view two_containers"
    using running_models_listing [of "fixed_docker two_containers" "()", OF fixed_docker_ps _ two_containers_ok] by auto
  ultimately show ?thesis by auto
qed

subsection \<open>The free port\<close>

text \<open>The port found is free when any of the hundred tried is.\<close>

lemma findFreePort_spec:
  "(\<exists>p. startPort \<le> p \<and> p < startPort + 100 \<and> free p) \<Longrightarrow>
     free (findFreePort free startPort) \<and> startPort \<le> findFreePort free startPort \<and> findFreePort free startPort < startPort + 100 \<and>
     (\<forall>q. startPort \<le> q \<and> q < findFreePort free startPort \<longrightarrow> \<not> free q)"
proof -
  assume "\<exists>p. startPort \<le> p \<and> p < startPort + 100 \<and> free p"
  then obtain p where p: "startPort \<le> p" "p < startPort + 100" "free p" by blast
  then have "List.find free [startPort..startPort + 99] \<noteq> None" unfolding find_None_iff by (auto intro!: exI [of _ p])
  then obtain q where q: "List.find free [startPort..startPort + 99] = Some q" by blast
  then obtain i where i: "i < length [startPort..startPort + 99]" "free q" "q = [startPort..startPort + 99] ! i"
      "\<And>j. j < i \<Longrightarrow> \<not> free ([startPort..startPort + 99] ! j)"
    by (auto simp: find_Some_iff)
  have qi: "q = startPort + int i" using i by simp
  have "\<not> free x" if "startPort \<le> x" "x < q" for x
    using i(4) [of "nat (x - startPort)"] i(1) that qi by simp
  then show ?thesis using q qi i(1,2) by (simp add: findFreePort_def)
qed

end
