(* ===== verification/ModelStore.thy ===== *)
theory ModelStore
  imports Quantize GoPath
begin

text \<open>
  Model files on disk: the manager (\<open>core/model/manager.go\<close>) with the validation of safetensors files,
  the cache manager (\<open>core/model/cache.go\<close>) and the verification of cached models
  (\<open>core/model/verify.go\<close>). The file system is a list of paths with their nodes; walking a directory
  visits the paths below it in the order of the list. Unreadable entries, which the walks skip, are
  absent from the list. The download, the JSON codec of the metadata file, failing system calls and clock readings are
  arguments; what is printed is not modelled.
\<close>

subsection \<open>File trees\<close>

datatype fnode = DirNode | FileNode gostr

type_synonym tree = "(gostr \<times> fnode) list"

definition is_dir :: "tree \<Rightarrow> gostr \<Rightarrow> bool" where
  "is_dir t p \<longleftrightarrow> map_of t p = Some DirNode"

definition files_under :: "tree \<Rightarrow> gostr \<Rightarrow> (gostr \<times> gostr) list" where
  "files_under t d = List.map_filter
     (\<lambda>(p, n). case n of FileNode c \<Rightarrow> if under d p then Some (p, c) else None | DirNode \<Rightarrow> None) t"

definition put :: "gostr \<Rightarrow> fnode \<Rightarrow> tree \<Rightarrow> tree" where
  "put p n t = filter (\<lambda>(q, _). q \<noteq> p) t @ [(p, n)]"

definition parents :: "gostr \<Rightarrow> gostr list" where
  "parents p = map (\<lambda>i. take i p) (filter (\<lambda>i. i = length p \<or> p ! i = CHR ''/'') [1..<length p + 1])"

definition mkdir_all :: "gostr \<Rightarrow> tree \<Rightarrow> tree" where
  "mkdir_all p t = foldl (\<lambda>t q. if is_dir t q then t else put q DirNode t) t (parents p)"

text \<open>\<open>os.RemoveAll\<close>, for a path other than the current directory.\<close>

definition remove_all :: "gostr \<Rightarrow> tree \<Rightarrow> tree" where
  "remove_all d t = filter (\<lambda>(q, _). \<not> under d q) t"

lemma files_under_mem: "(p, c) \<in> set (files_under t d) \<longleftrightarrow> (p, FileNode c) \<in> set t \<and> under d p"
  by (force simp: files_under_def List.map_filter_def split: fnode.splits if_splits)

subsection \<open>Safetensors files\<close>

datatype safetensors_error = TooSmall int | InvalidHeader int | Incomplete int

definition le64 :: "gostr \<Rightarrow> int" where
  "le64 bs = foldr (\<lambda>c n. int (of_char c) + 256 * n) bs 0"

definition validateSafetensorsFile :: "gostr \<Rightarrow> safetensors_error option" where
  "validateSafetensorsFile content =
     (let fileSize = int (length content) in
      if fileSize < 8 then Some (TooSmall fileSize)
      else
        let headerSize = le64 (take 8 content) in
        if headerSize = 0 \<or> 1024 * 1024 * 100 < headerSize then Some (InvalidHeader headerSize)
        else if fileSize < 8 + headerSize then Some (Incomplete (8 + headerSize))
        else None)"

subsection \<open>The manager\<close>

record ModelCache =
  mc_Name :: gostr
  mc_LocalPath :: gostr
  mc_Quantization :: gostr
  mc_Size :: int
  mc_Downloaded :: time
  mc_LastAccessed :: time
  mc_Checksum :: gostr

record Manager =
  mg_cacheDir :: gostr
  mg_models :: "gostr \<rightharpoonup> ModelCache"
  mg_modelsMeta :: "gostr \<rightharpoonup> ModelMetadata"

text \<open>\<open>loaded\<close>: the catalogue of the process, loaded once; a failed load leaves it empty.\<close>

definition NewManager :: "bool \<Rightarrow> (gostr \<rightharpoonup> ModelMetadata) option \<Rightarrow> gostr \<Rightarrow> tree \<Rightarrow> (Manager \<times> tree) option" where
  "NewManager mkdir_fails loaded cacheDir t =
     (if mkdir_fails then None
      else Some (\<lparr> mg_cacheDir = cacheDir, mg_models = Map.empty,
                   mg_modelsMeta = (case loaded of Some m \<Rightarrow> m | None \<Rightarrow> Map.empty) \<rparr>, mkdir_all cacheDir t))"

definition GetModel :: "gostr \<Rightarrow> Manager \<Rightarrow> ModelMetadata option" where
  "GetModel name m = mg_modelsMeta m name"

text \<open>\<open>entries\<close>: the names in the cache directory, whether each is a directory, and its modification time.\<close>

definition ListCachedModels :: "(gostr \<times> bool \<times> time) list option \<Rightarrow> Manager \<Rightarrow> ModelCache list option" where
  "ListCachedModels entries m =
     map_option (\<lambda>es. map (\<lambda>(n, _, t). \<lparr> mc_Name = n, mc_LocalPath = Path_Join [mg_cacheDir m, n], mc_Quantization = [],
         mc_Size = 0, mc_Downloaded = t, mc_LastAccessed = t, mc_Checksum = [] \<rparr>)
       (filter (\<lambda>(_, d, _). d) es)) entries"

datatype model_error =
  UnknownModel gostr | NotCached gostr | NoModelFiles gostr | Corrupt gostr safetensors_error gostr
| MkdirFailed | WriteFailed | RemoveFailed | NotInCache gostr | DownloadFailed gostr | SaveFailed

definition safetensors_ext :: gostr where "safetensors_ext = ''.safetensors''"
definition bin_ext :: gostr where "bin_ext = ''.bin''"

definition weight_path :: "gostr \<Rightarrow> bool" where
  "weight_path p \<longleftrightarrow> Path_Ext p = safetensors_ext \<or> Path_Ext p = bin_ext"

definition corrupt_file :: "gostr \<times> gostr \<Rightarrow> safetensors_error option" where
  "corrupt_file f = (if Path_Ext (fst f) = safetensors_ext then validateSafetensorsFile (snd f) else None)"

definition model_path :: "Manager \<Rightarrow> gostr \<Rightarrow> gostr" where
  "model_path m name = Path_Join [mg_cacheDir m, name]"

definition ValidateModel :: "Manager \<Rightarrow> tree \<Rightarrow> gostr \<Rightarrow> model_error option" where
  "ValidateModel m t name =
     (if GetModel name m = None then Some (UnknownModel name)
      else
        let localPath = model_path m name; fs = files_under t localPath in
        if \<not> is_dir t localPath then Some (NotCached name)
        else if \<not> list_ex (\<lambda>f. weight_path (fst f)) fs then Some (NoModelFiles name)
        else (case List.map_filter (\<lambda>f. map_option (\<lambda>e. Corrupt (Path_Base (fst f)) e name) (corrupt_file f)) fs of
            [] \<Rightarrow> None | e # _ \<Rightarrow> Some e))"

definition PullModel ::
    "bool \<Rightarrow> bool \<Rightarrow> time \<Rightarrow> time \<Rightarrow> gostr \<Rightarrow> Manager \<Rightarrow> tree \<Rightarrow> model_error option \<times> Manager \<times> tree" where
  "PullModel mkdir_fails write_fails now1 now2 name m t =
     (case GetModel name m of
        None \<Rightarrow> (Some (UnknownModel name), m, t)
      | Some md \<Rightarrow>
          let localPath = model_path m name in
          if mkdir_fails then (Some MkdirFailed, m, t)
          else
            let t1 = mkdir_all localPath t in
            if write_fails then (Some WriteFailed, m, t1)
            else (None, m\<lparr> mg_models := (mg_models m)(name \<mapsto>
                     \<lparr> mc_Name = name, mc_LocalPath = localPath, mc_Quantization = [],
                       mc_Size = (case md_Size md ''none'' of Some s \<Rightarrow> s | None \<Rightarrow> 0), mc_Downloaded = now1,
                       mc_LastAccessed = now2, mc_Checksum = [] \<rparr>) \<rparr>,
                   put (Path_Join [localPath, ''model_info.json'']) (FileNode ''{}'') t1))"

definition RemoveModel :: "bool \<Rightarrow> gostr \<Rightarrow> Manager \<Rightarrow> tree \<Rightarrow> model_error option \<times> Manager \<times> tree" where
  "RemoveModel remove_fails name m t =
     (if remove_fails then (Some RemoveFailed, m, t)
      else (None, m\<lparr> mg_models := (mg_models m)(name := None) \<rparr>, remove_all (model_path m name) t))"

definition GetModelPath :: "Manager \<Rightarrow> tree \<Rightarrow> gostr \<Rightarrow> model_error + gostr" where
  "GetModelPath m t name =
     (case ValidateModel m t name of Some e \<Rightarrow> Inl e | None \<Rightarrow> Inr (model_path m name))"

definition suitable :: "bool \<Rightarrow> int \<Rightarrow> ModelMetadata \<Rightarrow> bool" where
  "suitable hasGPU systemRAM md \<longleftrightarrow>
     (if hasGPU then md_HardwareTarget md = HardwareGPUOnly \<or> md_HardwareTarget md = HardwareBoth
      else (md_HardwareTarget md = HardwareCPUOptimized \<or> md_HardwareTarget md = HardwareBoth) \<and>
           md_MinimumSystemRAM md \<le> systemRAM)"

definition GetSuitableModels ::
    "gostr list \<Rightarrow> bool \<Rightarrow> int \<Rightarrow> Manager \<Rightarrow> ModelMetadata list \<times> ModelMetadata list" where
  "GetSuitableModels order hasGPU systemRAM m =
     (let mds = List.map_filter (mg_modelsMeta m) order in
      (filter (suitable hasGPU systemRAM) mds, filter (\<lambda>md. \<not> suitable hasGPU systemRAM md) mds))"

subsection \<open>The cache manager\<close>

record CacheMetadata =
  cd_Name :: gostr
  cd_Size :: int
  cd_Downloaded :: time
  cd_Path :: gostr

record CacheManager =
  cm_cacheDir :: gostr
  cm_metadataFile :: gostr
  cm_metadata :: "gostr \<rightharpoonup> CacheMetadata"

type_synonym metadata = "gostr \<rightharpoonup> CacheMetadata"

text \<open>The JSON codec of the metadata file, and a write that fails before or after truncating.\<close>

record cache_env =
  ce_marshal :: "metadata \<Rightarrow> gostr option"
  ce_unmarshal :: "gostr \<Rightarrow> metadata option"
  ce_write :: "gostr option"

definition loadMetadata :: "cache_env \<Rightarrow> CacheManager \<Rightarrow> tree \<Rightarrow> CacheManager \<times> bool" where
  "loadMetadata env cm t =
     (case map_of t (cm_metadataFile cm) of
        Some (FileNode data) \<Rightarrow>
          (case ce_unmarshal env data of Some md \<Rightarrow> (cm\<lparr> cm_metadata := md \<rparr>, True) | None \<Rightarrow> (cm, False))
      | _ \<Rightarrow> (cm, False))"

text \<open>\<open>ce_write = Some partial\<close>: the write of the metadata file failed and left \<open>partial\<close>.\<close>

definition saveMetadata :: "cache_env \<Rightarrow> CacheManager \<Rightarrow> tree \<Rightarrow> model_error option \<times> tree" where
  "saveMetadata env cm t =
     (case ce_marshal env (cm_metadata cm) of
        None \<Rightarrow> (Some SaveFailed, t)
      | Some data \<Rightarrow>
          (case ce_write env of
             Some partial \<Rightarrow> (Some SaveFailed, put (cm_metadataFile cm) (FileNode partial) t)
           | None \<Rightarrow> (None, put (cm_metadataFile cm) (FileNode data) t)))"

definition IsCached :: "gostr \<Rightarrow> CacheManager \<Rightarrow> bool" where
  "IsCached name cm \<longleftrightarrow> cm_metadata cm name \<noteq> None"

definition GetCachedModel :: "gostr \<Rightarrow> CacheManager \<Rightarrow> CacheMetadata option" where
  "GetCachedModel name cm = cm_metadata cm name"

definition getDirSize :: "tree \<Rightarrow> gostr \<Rightarrow> int" where
  "getDirSize t d = foldl (\<lambda>n (_, c). i64 (n + int (length c))) 0 (files_under t d)"

text \<open>\<open>download\<close> is the Hugging Face downloader on the tree with the model directory made.\<close>

definition DownloadModel ::
    "cache_env \<Rightarrow> bool \<Rightarrow> (tree \<Rightarrow> gostr option \<times> tree) \<Rightarrow> time \<Rightarrow> gostr \<Rightarrow> CacheManager \<Rightarrow> tree \<Rightarrow>
      model_error option \<times> CacheManager \<times> tree" where
  "DownloadModel env mkdir_fails download now name cm t =
     (let modelDir = Path_Join [cm_cacheDir cm, name] in
      if IsCached name cm \<and> list_ex (\<lambda>f. weight_path (fst f)) (files_under t modelDir) then (None, cm, t)
      else if mkdir_fails then (Some MkdirFailed, cm, t)
      else
        let (err, t1) = download (mkdir_all modelDir t); size0 = getDirSize t1 modelDir in
        if err \<noteq> None \<and> size0 = 0 then (map_option DownloadFailed err, cm, t1)
        else
          let cm1 = cm\<lparr> cm_metadata := (cm_metadata cm)(name \<mapsto>
                \<lparr> cd_Name = name, cd_Size = size0, cd_Downloaded = now, cd_Path = modelDir \<rparr>) \<rparr>;
              (e, t2) = saveMetadata env cm1 t1
          in (e, cm1, t2))"

definition ListCached :: "gostr list \<Rightarrow> CacheManager \<Rightarrow> CacheMetadata list" where
  "ListCached order cm = List.map_filter (cm_metadata cm) order"

definition VerifyCache :: "CacheManager \<Rightarrow> tree \<Rightarrow> gostr \<rightharpoonup> bool" where
  "VerifyCache cm t = (\<lambda>name. map_option (\<lambda>md. map_of t (cd_Path md) \<noteq> None) (cm_metadata cm name))"

definition RemoveFromCache ::
    "cache_env \<Rightarrow> bool \<Rightarrow> gostr \<Rightarrow> CacheManager \<Rightarrow> tree \<Rightarrow> model_error option \<times> CacheManager \<times> tree" where
  "RemoveFromCache env remove_fails name cm t =
     (case cm_metadata cm name of
        None \<Rightarrow> (Some (NotInCache name), cm, t)
      | Some md \<Rightarrow>
          if remove_fails then (Some RemoveFailed, cm, t)
          else
            let cm1 = cm\<lparr> cm_metadata := (cm_metadata cm)(name := None) \<rparr>;
                (e, t1) = saveMetadata env cm1 (remove_all (cd_Path md) t)
            in (e, cm1, t1))"

definition GetTotalCacheSize :: "gostr list \<Rightarrow> CacheManager \<Rightarrow> int" where
  "GetTotalCacheSize order cm = foldl (\<lambda>n md. i64 (n + cd_Size md)) 0 (ListCached order cm)"

subsection \<open>Verification of a cached model\<close>

record FileVerification =
  fv_Name :: gostr
  fv_Size :: int

datatype verify_warning = DirMissing | SizeMismatch int int | NoFiles

record VerificationResult =
  vr_ModelName :: gostr
  vr_IsValid :: bool
  vr_Status :: gostr
  vr_FileCount :: nat
  vr_TotalSize :: int
  vr_Files :: "FileVerification list"
  vr_Warnings :: "verify_warning list"
  vr_ReadyToDeploy :: bool

definition endsWithAny :: "gostr \<Rightarrow> gostr list \<Rightarrow> bool" where
  "endsWithAny s suffixes = list_ex (HasSuffix s) suffixes"

definition isModelFile :: "gostr \<Rightarrow> bool" where
  "isModelFile filename = endsWithAny filename [''.safetensors'', ''.bin'', ''.pt'', ''.pth'', ''.gguf'']"

definition VerifyModel :: "gostr \<Rightarrow> CacheManager \<Rightarrow> tree \<Rightarrow> VerificationResult" where
  "VerifyModel name cm t =
     (let base = \<lparr> vr_ModelName = name, vr_IsValid = False, vr_Status = ''not_cached'', vr_FileCount = 0, vr_TotalSize = 0,
            vr_Files = [], vr_Warnings = [], vr_ReadyToDeploy = False \<rparr>
      in case GetCachedModel name cm of
           None \<Rightarrow> base
         | Some md \<Rightarrow>
             let r = base\<lparr> vr_TotalSize := cd_Size md \<rparr> in
             if \<not> is_dir t (cd_Path md) then r\<lparr> vr_Status := ''missing'', vr_Warnings := [DirMissing] \<rparr>
             else
               let fs = filter (\<lambda>(p, _). isModelFile (Path_Base p)) (files_under t (cd_Path md));
                   total = foldl (\<lambda>n (_, c). i64 (n + int (length c))) 0 fs;
                   w1 = (if total \<noteq> cd_Size md then [SizeMismatch (cd_Size md) total] else []);
                   r1 = r\<lparr> vr_Status := ''verifying'', vr_FileCount := length fs,
                     vr_Files := map (\<lambda>(p, c). \<lparr> fv_Name = Path_Base p, fv_Size = int (length c) \<rparr>) fs, vr_Warnings := w1 \<rparr>
               in if fs \<noteq> [] then r1\<lparr> vr_IsValid := True, vr_Status := ''ready'', vr_ReadyToDeploy := True \<rparr>
                  else r1\<lparr> vr_Status := ''incomplete'', vr_Warnings := w1 @ [NoFiles] \<rparr>)"

definition VerifyAllModels :: "gostr list \<Rightarrow> CacheManager \<Rightarrow> tree \<Rightarrow> VerificationResult list" where
  "VerifyAllModels order cm t = map (\<lambda>md. VerifyModel (cd_Name md) cm t) (ListCached order cm)"

subsection \<open>Well-formed safetensors files\<close>

fun to_le :: "nat \<Rightarrow> int \<Rightarrow> gostr" where
  "to_le 0 n = []"
| "to_le (Suc k) n = char_of (nat (n mod 256)) # to_le k (n div 256)"

lemma length_to_le [simp]: "length (to_le k n) = k"
  by (induction k arbitrary: n) auto

lemma le64_Cons: "le64 (c # cs) = int (of_char c) + 256 * le64 cs"
  by (simp add: le64_def)

lemma le64_to_le: "le64 (to_le k n) = n mod 256 ^ k"
proof (induction k arbitrary: n)
  case 0
  then show ?case by (simp add: le64_def)
next
  case (Suc k)
  have "int (of_char (char_of (nat (n mod 256)) :: char)) = n mod 256"
  proof -
    have "nat (n mod 256) < 256" by (simp add: nat_less_iff)
    then have "(of_char (char_of (nat (n mod 256)) :: char) :: nat) = nat (n mod 256)" by simp
    then show ?thesis by simp
  qed
  moreover have "n mod 256 + 256 * (n div 256 mod 256 ^ k) = n mod (256 * 256 ^ k)"
    by (simp add: zmod_zmult2_eq)
  ultimately show ?case using Suc by (simp add: le64_Cons)
qed

lemma to_le_le64: "to_le (length bs) (le64 bs) = bs"
proof (induction bs)
  case (Cons c cs)
  have b: "int (of_char c) < 256" "0 \<le> int (of_char c)" by simp_all
  have m: "le64 (c # cs) mod 256 = int (of_char c)" "le64 (c # cs) div 256 = le64 cs"
    using b by (simp_all add: le64_Cons)
  show ?case unfolding list.size to_le.simps plus_nat.add_0 add_Suc_right m add_0_right by (simp add: m Cons)
qed simp

lemma le64_nonneg: "0 \<le> le64 bs"
  by (induction bs) (auto simp: le64_def)

text \<open>Eight bytes with the length of the header, a header of that length (at most 100 MB), tensors.\<close>

definition well_formed :: "gostr \<Rightarrow> bool" where
  "well_formed content \<longleftrightarrow> (\<exists>header tensors. content = to_le 8 (int (length header)) @ header @ tensors \<and>
     header \<noteq> [] \<and> length header \<le> 104857600)"

lemma validate_well_formed: "validateSafetensorsFile content = None \<longleftrightarrow> well_formed content"
proof
  assume "validateSafetensorsFile content = None"
  then have *: "8 \<le> length content" "le64 (take 8 content) \<noteq> 0" "le64 (take 8 content) \<le> 104857600"
      "8 + le64 (take 8 content) \<le> int (length content)"
    by (auto simp: validateSafetensorsFile_def Let_def split: if_splits)
  define n where "n = le64 (take 8 content)"
  have n: "0 < n" "n \<le> 104857600" "8 + n \<le> int (length content)"
    using * le64_nonneg [of "take 8 content"] by (auto simp: n_def)
  let ?h = "take (nat n) (drop 8 content)"
  have h: "int (length ?h) = n" using n by simp
  have t8: "length (take 8 content) = 8" using *(1) by simp
  have "to_le 8 (int (length ?h)) = take 8 content"
    unfolding h unfolding n_def using to_le_le64 [of "take 8 content"] by (simp only: t8)
  then have "content = to_le 8 (int (length ?h)) @ ?h @ drop (nat n) (drop 8 content)"
    by (metis append_take_drop_id)
  moreover have "?h \<noteq> []" "length ?h \<le> 104857600" using h n by auto
  ultimately show "well_formed content" unfolding well_formed_def by blast
next
  assume "well_formed content"
  then obtain header tensors where c: "content = to_le 8 (int (length header)) @ header @ tensors"
      "header \<noteq> []" "length header \<le> 104857600" unfolding well_formed_def by blast
  then have "le64 (take 8 content) = int (length header)" by (simp add: le64_to_le)
  then show "validateSafetensorsFile content = None" using c by (simp add: validateSafetensorsFile_def Let_def)
qed

text \<open>A model validates exactly when it can be served. The name is in the catalogue, its directory exists
  below the cache directory and holds at least one weight file, and every safetensors file in it is an
  eight-byte little-endian length, a non-empty header of that length of at most 100 MB, and tensors.\<close>

theorem validate_model_iff:
  "ValidateModel m t name = None \<longleftrightarrow>
     GetModel name m \<noteq> None \<and> is_dir t (model_path m name) \<and>
     (\<exists>p c. (p, FileNode c) \<in> set t \<and> under (model_path m name) p \<and> weight_path p) \<and>
     (\<forall>p c. (p, FileNode c) \<in> set t \<and> under (model_path m name) p \<and> Path_Ext p = safetensors_ext \<longrightarrow> well_formed c)"
proof -
  let ?fs = "files_under t (model_path m name)"
  let ?errs = "List.map_filter (\<lambda>f. map_option (\<lambda>e. Corrupt (Path_Base (fst f)) e name) (corrupt_file f)) ?fs"
  have e: "?errs = [] \<longleftrightarrow> (\<forall>f \<in> set ?fs. corrupt_file f = None)"
    by (auto simp: List.map_filter_def filter_empty_conv)
  have w: "list_ex (\<lambda>f. weight_path (fst f)) ?fs \<longleftrightarrow>
      (\<exists>p c. (p, FileNode c) \<in> set t \<and> under (model_path m name) p \<and> weight_path p)"
    by (simp add: list_ex_iff Bex_def split_paired_Ex files_under_mem conj_assoc)
  have c: "(\<forall>f \<in> set ?fs. corrupt_file f = None) \<longleftrightarrow>
      (\<forall>p c. (p, FileNode c) \<in> set t \<and> under (model_path m name) p \<and> Path_Ext p = safetensors_ext \<longrightarrow> well_formed c)"
    by (simp add: Ball_def split_paired_All files_under_mem corrupt_file_def validate_well_formed [symmetric] conj_ac) blast
  have "ValidateModel m t name = None \<longleftrightarrow> GetModel name m \<noteq> None \<and> is_dir t (model_path m name) \<and>
      list_ex (\<lambda>f. weight_path (fst f)) ?fs \<and> ?errs = []"
    unfolding ValidateModel_def Let_def by (cases ?errs) auto
  then show ?thesis unfolding e w c .
qed

subsection \<open>Removing models\<close>

lemma map_of_remove_all: "map_of (remove_all d t) q = (if under d q then None else map_of t q)"
  by (induction t) (auto simp: remove_all_def)

lemma under_refl [simp]: "under d d"
  by (simp add: under_def)

text \<open>Removing a model removes its own tree, if its name is a path of plain elements. Then exactly the
  entries below the model's directory disappear, and the model no longer validates. A name with a parent
  element is not checked: removing \<open>..\<close> removes the directory that holds the cache, with everything in it.\<close>

theorem remove_model_scope:
  assumes "mg_cacheDir m = ''/'' @ Join ''/'' (ds @ [d])" "\<forall>x \<in> set (ds @ [d]). plain_name x" "ds \<noteq> []"
    and "ms \<noteq> []" "\<forall>x \<in> set ms. plain_name x" "RemoveModel False (Join ''/'' ms) m t = (e, m', t')"
    and "RemoveModel False ''..'' m t = (e2, m2, t2)"
  shows "e = None \<and>
    (\<forall>q. map_of t' q = (if under (''/'' @ Join ''/'' (ds @ [d] @ ms)) q then None else map_of t q)) \<and>
    ValidateModel m' t' (Join ''/'' ms) \<noteq> None \<and>
    (\<forall>q. map_of t2 q = (if under (''/'' @ Join ''/'' ds) q then None else map_of t q))"
proof -
  have p: "model_path m (Join ''/'' ms) = ''/'' @ Join ''/'' (ds @ [d] @ ms)"
    using join_plain [of "ds @ [d]" ms] assms by (simp add: model_path_def)
  have s: "Split (CHR ''/'') (''/'' @ Join ''/'' (ds @ [d, ''..''])) = [] # (ds @ [d, ''..''])"
    using Split_append [of "CHR ''/''" "[]"] Split_Join [of "ds @ [d, ''..'']" "CHR ''/''"] assms(2) by (auto simp: plain_name_def)
  have j: "Join ''/'' (ds @ [d, ''..'']) = Join ''/'' (ds @ [d]) @ ''/..''" using assms(3)
  proof (induction ds)
    case (Cons x xs)
    then show ?case by (cases "xs = []") (simp_all add: Join_Cons)
  qed simp
  have f: "foldl (clean_step True) [] ([] # (ds @ [d, ''..''])) = rev ds"
    using plain_names_step [of "ds @ [d]" True "[]"] assms(2) by (auto simp: clean_step_def plain_name_def)
  have "model_path m ''..'' = Clean (''/'' @ Join ''/'' (ds @ [d, ''..'']))"
    by (simp add: model_path_def assms(1) Path_Join_def j)
  also have "\<dots> = ''/'' @ Join ''/'' (rev (rev ds))"
    by (simp only: Clean_def s HasPrefix_append f Let_def if_True)
  finally have p2: "model_path m ''..'' = ''/'' @ Join ''/'' ds" by simp
  have r: "e = None" "t' = remove_all (model_path m (Join ''/'' ms)) t" "model_path m' = model_path m"
      "t2 = remove_all (model_path m ''..'') t"
    using assms(6,7) by (auto simp: RemoveModel_def model_path_def)
  have "ValidateModel m' t' (Join ''/'' ms) \<noteq> None"
    by (simp add: ValidateModel_def Let_def r is_dir_def map_of_remove_all)
  then show ?thesis using r p p2 by (simp add: map_of_remove_all)
qed


definition toy_manager :: Manager where
  "toy_manager = \<lparr> mg_cacheDir = ''/srv/models'', mg_models = Map.empty, mg_modelsMeta = Map.empty \<rparr>"

definition toy_tree :: tree where
  "toy_tree = [(''/srv'', DirNode), (''/srv/keys.json'', FileNode ''k''), (''/srv/models'', DirNode), (''/srv/models/llama'', DirNode)]"

theorem remove_model_scope_witness:
  "map_of (snd (snd (RemoveModel False ''llama'' toy_manager toy_tree))) ''/srv/models/llama'' = None \<and>
   map_of (snd (snd (RemoveModel False ''..'' toy_manager toy_tree))) ''/srv/keys.json'' = None"
proof -
  obtain e m' t' e2 m2 t2 where r: "RemoveModel False ''llama'' toy_manager toy_tree = (e, m', t')"
      "RemoveModel False ''..'' toy_manager toy_tree = (e2, m2, t2)"
    by (cases "RemoveModel False ''llama'' toy_manager toy_tree"; cases "RemoveModel False ''..'' toy_manager toy_tree") auto
  have c: "mg_cacheDir toy_manager = ''/'' @ Join ''/'' ([''srv''] @ [''models''])" by (simp add: toy_manager_def)
  have pl: "\<forall>x \<in> set ([''srv''] @ [''models'']). plain_name x" "\<forall>x \<in> set [''llama'']. plain_name x" by (simp_all add: plain_name_def)
  have l: "Join ''/'' [''llama''] = ''llama''" by simp
  have u: "under (''/'' @ Join ''/'' ([''srv''] @ [''models''] @ [''llama''])) ''/srv/models/llama''"
    "under (''/'' @ Join ''/'' [''srv'']) ''/srv/keys.json''" by (simp_all add: under_def)
  from remove_model_scope [OF c pl(1) _ _ pl(2), unfolded l, OF _ _ r] u r show ?thesis by simp
qed

definition toy_metadata :: ModelMetadata where
  "toy_metadata = \<lparr> md_Name = ''llama'', md_Repo = ''llama'', md_ParameterCount = 7, md_DefaultQuantization = ''none'',
     md_Size = Map.empty, md_Description = [], md_Context = 4096, md_RequiredVRAM = Map.empty, md_HardwareTarget = ''cpu'',
     md_MinimumSystemRAM = 0 \<rparr>"

theorem validate_model_iff_witness:
  "ValidateModel (toy_manager\<lparr> mg_modelsMeta := [''llama'' \<mapsto> toy_metadata] \<rparr>)
     (toy_tree @ [(''/srv/models/llama/m.bin'', FileNode ''w'')]) ''llama'' = None"
proof -
  have p: "model_path (toy_manager\<lparr> mg_modelsMeta := [''llama'' \<mapsto> toy_metadata] \<rparr>) ''llama'' = ''/srv/models/llama''"
    unfolding model_path_def toy_manager_def by code_simp
  have x: "Path_Ext ''/srv/models/llama/m.bin'' = ''.bin''" "Path_Ext ''/srv/keys.json'' = ''.json''" by code_simp+
  have u: "under ''/srv/models/llama'' ''/srv/models/llama/m.bin''" "\<not> under ''/srv/models/llama'' ''/srv/keys.json''" by code_simp+
  show ?thesis unfolding validate_model_iff p
    by (simp add: GetModel_def is_dir_def toy_tree_def toy_manager_def)
      (use x u in \<open>auto simp: weight_path_def safetensors_ext_def bin_ext_def\<close>)
qed

end
