(* ===== verification/Hardware.thy ===== *)
theory Hardware
  imports GoStrings
begin

text \<open>
  Detection of the host's hardware (\<open>internal/hardware/hardware.go\<close>): parsing what \<open>nvidia-smi\<close>, \<open>nvcc\<close>
  and \<open>/proc/meminfo\<close> print. Whether a command or file is available, and its text, are arguments; the
  temperature, a \<open>float32\<close> nothing reads, is kept as the text of its column.
\<close>

record GPU =
  gp_Index :: int
  gp_Name :: gostr
  gp_VRAM :: int
  gp_VRAMAvailable :: int
  gp_Driver :: gostr
  gp_CUDACapability :: gostr
  gp_Temperature :: gostr

record SystemHardware =
  hw_GPUs :: "GPU list"
  hw_TotalVRAM :: int
  hw_TotalAvailable :: int
  hw_CPUCores :: int
  hw_SystemRAM :: int
  hw_CUDAInstalled :: bool
  hw_CUDAVersion :: gostr
  hw_DockerInstalled :: bool

definition parse_gpu :: "gostr \<Rightarrow> GPU option" where
  "parse_gpu raw =
     (let line = TrimSpace raw; parts = Split (CHR '','') line in
      if line = [] \<or> length parts < 7 then None
      else Some \<lparr> gp_Index = ParseInt_value (TrimSpace (parts ! 0)), gp_Name = TrimSpace (parts ! 1),
        gp_VRAM = i64 (ParseInt_value (TrimSpace (parts ! 2)) * (1024 * 1024)),
        gp_VRAMAvailable = i64 (ParseInt_value (TrimSpace (parts ! 3)) * (1024 * 1024)),
        gp_Driver = TrimSpace (parts ! 4), gp_CUDACapability = TrimSpace (parts ! 5),
        gp_Temperature = TrimSpace (parts ! 6) \<rparr>)"

text \<open>\<open>None\<close>: \<open>nvidia-smi\<close> failed.\<close>

definition DetectGPUs :: "gostr option \<Rightarrow> GPU list option" where
  "DetectGPUs smi = map_option (\<lambda>out. List.map_filter parse_gpu (scan_lines 65536 out)) smi"

definition meminfo_kb :: "gostr \<Rightarrow> int option" where
  "meminfo_kb line =
     (if HasPrefix line ''MemTotal:'' \<and> 2 \<le> length (Fields line) then Some (ParseInt_value (Fields line ! 1)) else None)"

text \<open>\<open>sysctl\<close>: what \<open>sysctl -n hw.memsize\<close> printed, on macOS only; \<open>sys\<close>: the memory of the Go runtime.\<close>

definition GetSystemRAM :: "gostr option \<Rightarrow> gostr option \<Rightarrow> int \<Rightarrow> int" where
  "GetSystemRAM meminfo sysctl sys =
     (case (case meminfo of None \<Rightarrow> [] | Some text \<Rightarrow> List.map_filter meminfo_kb (scan_lines 65536 text)) of
        kb # _ \<Rightarrow> i64 (kb * 1024)
      | [] \<Rightarrow>
          (case sysctl of
             None \<Rightarrow> sys
           | Some out \<Rightarrow>
               (case ParseInt (TrimSpace out) of Some n \<Rightarrow> if 0 < n then n else sys | None \<Rightarrow> sys)))"

definition CheckCUDA :: "gostr option \<Rightarrow> bool \<times> gostr" where
  "CheckCUDA nvcc =
     (case nvcc of
        None \<Rightarrow> (False, [])
      | Some out \<Rightarrow>
          (case List.map_filter (\<lambda>l. if Contains l ''release'' \<and> 3 \<le> length (Fields l) then Some (Fields l ! 2) else None)
                  (Split (CHR 0x0A) out) of
             v # _ \<Rightarrow> (True, v)
           | [] \<Rightarrow> (True, ''unknown'')))"

record hw_env =
  he_smi :: "gostr option"
  he_cores :: int
  he_meminfo :: "gostr option"
  he_sysctl :: "gostr option"
  he_sys :: int
  he_nvcc :: "gostr option"
  he_docker :: bool

definition GetSystemHardware :: "hw_env \<Rightarrow> SystemHardware" where
  "GetSystemHardware env =
     (let gpus = (case DetectGPUs (he_smi env) of Some gs \<Rightarrow> gs | None \<Rightarrow> []) in
      \<lparr> hw_GPUs = gpus, hw_TotalVRAM = foldl (\<lambda>n g. i64 (n + gp_VRAM g)) 0 gpus,
        hw_TotalAvailable = foldl (\<lambda>n g. i64 (n + gp_VRAMAvailable g)) 0 gpus,
        hw_CPUCores = he_cores env, hw_SystemRAM = GetSystemRAM (he_meminfo env) (he_sysctl env) (he_sys env),
        hw_CUDAInstalled = fst (CheckCUDA (he_nvcc env)), hw_CUDAVersion = snd (CheckCUDA (he_nvcc env)),
        hw_DockerInstalled = he_docker env \<rparr>)"

lemma detect_example:
  "map (\<lambda>g. (gp_Index g, gp_VRAM g)) (the (DetectGPUs (Some (''0, NVIDIA A100, 40960, 40000, 535.1, 8.0, 31'' @ [CHR 0x0A])))) =
     [(0, 42949672960)]"
  by code_simp

end
