(* ===== verification/Engine.thy ===== *)
theory Engine
  imports Docker ModelStore Hardware
begin

text \<open>
  The engine room (\<open>core/engine\<close>): deployment plans, deploying and stopping models, the running models
  and their file \<open>running_models.json\<close>. Docker is the command function of theory \<open>Docker\<close> with its world;
  the model tree, the JSON codec of the file, iteration orders and clock readings are arguments. The
  file is the last component of the state.
\<close>

subsection \<open>State\<close>

record ModelInstance =
  mi_ID :: gostr
  mi_ModelName :: gostr
  mi_Quantization :: gostr
  mi_ContainerID :: gostr
  mi_StartedAt :: time
  mi_GPUIndex :: int
  mi_VRAMUsed :: int
  mi_IsHealthy :: bool
  mi_LastHealthCheck :: time

record RunningModelRecord =
  rr_ModelName :: gostr
  rr_ContainerID :: gostr
  rr_Quantization :: gostr
  rr_StartedAt :: time
  rr_IsHealthy :: bool
  rr_LastHealthCheck :: time

record EngineConfig =
  ec_ModelCacheDir :: gostr
  ec_Port :: int
  ec_VRAMLimit :: int
  ec_GPUIndices :: "int list"
  ec_RebuildImage :: bool

type_synonym instances = "gostr \<rightharpoonup> ModelInstance"

record EngineRoom =
  er_hardware :: SystemHardware
  er_modelManager :: Manager
  er_engines :: "gostr \<rightharpoonup> InferenceEngine"
  er_runningModels :: instances
  er_quantCalc :: QuantizationCalculator
  er_config :: EngineConfig
  er_file :: "gostr option"

record engine_env =
  en_tree :: tree
  en_start :: start_env
  en_order :: "gostr list"
  en_marshal :: "RunningModelRecord list \<Rightarrow> gostr option"
  en_unmarshal :: "gostr \<Rightarrow> RunningModelRecord list option"
  en_write_fails :: bool
  en_now :: "nat \<Rightarrow> time"

subsection \<open>Persistence\<close>

definition record_of :: "ModelInstance \<Rightarrow> RunningModelRecord" where
  "record_of m = \<lparr> rr_ModelName = mi_ModelName m, rr_ContainerID = mi_ContainerID m, rr_Quantization = mi_Quantization m,
     rr_StartedAt = mi_StartedAt m, rr_IsHealthy = mi_IsHealthy m, rr_LastHealthCheck = mi_LastHealthCheck m \<rparr>"

definition instance_of :: "RunningModelRecord \<Rightarrow> ModelInstance" where
  "instance_of r = \<lparr> mi_ID = rr_ContainerID r, mi_ModelName = rr_ModelName r, mi_Quantization = rr_Quantization r,
     mi_ContainerID = rr_ContainerID r, mi_StartedAt = rr_StartedAt r, mi_GPUIndex = 0, mi_VRAMUsed = 0,
     mi_IsHealthy = rr_IsHealthy r, mi_LastHealthCheck = rr_LastHealthCheck r \<rparr>"

text \<open>The file afterwards; a failing write leaves an empty file.\<close>

definition saveRunningModels :: "engine_env \<Rightarrow> instances \<Rightarrow> gostr option \<Rightarrow> gostr option" where
  "saveRunningModels env models file =
     (case en_marshal env (map record_of (List.map_filter models (en_order env))) of
        None \<Rightarrow> file
      | Some data \<Rightarrow> if en_write_fails env then Some [] else Some data)"

definition loadRunningModels :: "(gostr \<Rightarrow> RunningModelRecord list option) \<Rightarrow> gostr option \<Rightarrow> instances" where
  "loadRunningModels dec file =
     (case Option.bind file dec of
        None \<Rightarrow> Map.empty
      | Some rs \<Rightarrow> foldl (\<lambda>m r. m(rr_ModelName r \<mapsto> instance_of r)) Map.empty rs)"

subsection \<open>Construction and plans\<close>

definition NewEngineRoom ::
    "engine_env \<Rightarrow> hw_env \<Rightarrow> bool \<Rightarrow> (gostr \<rightharpoonup> ModelMetadata) option \<Rightarrow> EngineConfig \<Rightarrow> gostr option \<Rightarrow> EngineRoom option" where
  "NewEngineRoom env henv mkdir_fails catalogue cfg file =
     (let hw = GetSystemHardware henv in
      case NewManager mkdir_fails catalogue (ec_ModelCacheDir cfg) (en_tree env) of
        None \<Rightarrow> None
      | Some (mgr, _) \<Rightarrow>
          let total = hw_TotalAvailable hw;
              avail = (if 0 < ec_VRAMLimit cfg \<and> ec_VRAMLimit cfg < total then ec_VRAMLimit cfg else total)
          in Some \<lparr> er_hardware = hw, er_modelManager = mgr, er_engines = Map.empty,
               er_runningModels = loadRunningModels (en_unmarshal env) file,
               er_quantCalc = NewQuantizationCalculator avail, er_config = cfg, er_file = file \<rparr>)"

record DeploymentPlan =
  dp_ModelName :: gostr
  dp_Quantization :: gostr
  dp_RequiredVRAM :: int
  dp_AvailableVRAM :: int
  dp_ContextLength :: int
  dp_EstimatedTokensPerSec :: int
  dp_GPUAssignment :: "int list"
  dp_Notes :: gostr

datatype engine_error =
  EngModel model_error | EngNoFit gostr | EngDoesNotFit int | EngRunning gostr gostr | EngStart docker_error
| EngQuery docker_error | EngNotRunning gostr | EngStop | EngPanic

text \<open>\<open>tokens\<close>: the \<open>float32\<close> estimate from the memory of the first GPU.\<close>

definition PlanDeployment :: "(int \<Rightarrow> int) \<Rightarrow> gostr \<Rightarrow> EngineRoom \<Rightarrow> engine_error + DeploymentPlan" where
  "PlanDeployment tokens name er =
     (case GetModel name (er_modelManager er) of
        None \<Rightarrow> Inl (EngModel (UnknownModel name))
      | Some md \<Rightarrow>
          let analysis = AnalyzeModelFit (er_quantCalc er) md; total = hw_TotalAvailable (er_hardware er) in
          if fa_FittingQuantizations analysis = [] then Inl (EngDoesNotFit (megabytes total))
          else Inr \<lparr> dp_ModelName = name, dp_Quantization = fa_RecommendedQuant analysis,
            dp_RequiredVRAM = (case fa_RequiredVRAM analysis (fa_RecommendedQuant analysis) of Some v \<Rightarrow> v | None \<Rightarrow> 0),
            dp_AvailableVRAM = total, dp_ContextLength = md_Context md,
            dp_EstimatedTokensPerSec = (case hw_GPUs (er_hardware er) of g # _ \<Rightarrow> tokens (gp_VRAM g) | [] \<Rightarrow> 0),
            dp_GPUAssignment = ec_GPUIndices (er_config er), dp_Notes = fa_Notes analysis \<rparr>)"

subsection \<open>Deploying\<close>

definition running_conflict :: "gostr \<Rightarrow> RunningModel list \<Rightarrow> RunningModel option" where
  "running_conflict name ms = List.find (\<lambda>m. rm_ModelName m = name \<and> rm_Status m = ''running'') ms"

definition inference_config :: "EngineRoom \<Rightarrow> ModelMetadata \<Rightarrow> gostr \<Rightarrow> gostr \<Rightarrow> gostr \<Rightarrow> InferenceConfig" where
  "inference_config er md name quant path =
     \<lparr> ic_ModelPath = path, ic_ModelName = name, ic_Quantization = quant, ic_GPUIndices = ec_GPUIndices (er_config er),
       ic_ContextLength = md_Context md, ic_GPUMemoryUtilization = ''0.90'',
       ic_TensorParallelSize = int (length (hw_GPUs (er_hardware er))), ic_Port = ec_Port (er_config er),
       ic_RebuildImage = ec_RebuildImage (er_config er) \<rparr>"

definition start_model ::
    "'w docker \<Rightarrow> engine_env \<Rightarrow> ModelMetadata \<Rightarrow> gostr \<Rightarrow> gostr \<Rightarrow> gostr \<Rightarrow> EngineRoom \<Rightarrow> 'w \<Rightarrow>
      engine_error option \<times> EngineRoom \<times> 'w" where
  "start_model exec env md name quant path er w =
     (case engine_Start exec (en_start env) (inference_config er md name quant path)
             (NewInferenceEngine (hw_GPUs (er_hardware er) \<noteq> [])) w of
        (Inl e, _, w1) \<Rightarrow> (Some (EngStart e), er, w1)
      | (Inr cid, engine, w1) \<Rightarrow>
          let inst = \<lparr> mi_ID = cid, mi_ModelName = name, mi_Quantization = quant, mi_ContainerID = cid,
                mi_StartedAt = en_now env 0, mi_GPUIndex = 0, mi_VRAMUsed = 0, mi_IsHealthy = False,
                mi_LastHealthCheck = en_now env 1 \<rparr>;
              models = (er_runningModels er)(name \<mapsto> inst)
          in (None, er\<lparr> er_engines := (er_engines er)(name \<mapsto> engine), er_runningModels := models,
                        er_file := saveRunningModels env models (er_file er) \<rparr>, w1))"

definition Deploy ::
    "'w docker \<Rightarrow> engine_env \<Rightarrow> gostr \<Rightarrow> gostr option \<Rightarrow> EngineRoom \<Rightarrow> 'w \<Rightarrow> engine_error option \<times> EngineRoom \<times> 'w" where
  "Deploy exec env name optionalQuant er w =
     (let mgr = er_modelManager er in
      case ValidateModel mgr (en_tree env) name of
        Some e \<Rightarrow> (Some (EngModel e), er, w)
      | None \<Rightarrow>
          (case GetModel name mgr of
             None \<Rightarrow> (Some (EngModel (UnknownModel name)), er, w)
           | Some md \<Rightarrow>
               (case (case optionalQuant of Some q \<Rightarrow> Inr q | None \<Rightarrow> SuggestQuantization (er_quantCalc er) md) of
                  Inl msg \<Rightarrow> (Some (EngNoFit msg), er, w)
                | Inr quant \<Rightarrow>
                    (case GetModelPath mgr (en_tree env) name of
                       Inl e \<Rightarrow> (Some (EngModel e), er, w)
                     | Inr path \<Rightarrow>
                         (case GetRunningModels exec w of
                            (Inl PanicShortID, w1) \<Rightarrow> (Some EngPanic, er, w1)
                          | (Inl _, w1) \<Rightarrow> start_model exec env md name quant path er w1
                          | (Inr ms, w1) \<Rightarrow>
                              (case running_conflict name ms of
                                 Some m \<Rightarrow> (Some (EngRunning name (take 12 (rm_ContainerID m))), er, w1)
                               | None \<Rightarrow> start_model exec env md name quant path er w1))))))"

text \<open>The background check: up to 45 attempts, a second apart.\<close>

definition mark_healthy :: "engine_env \<Rightarrow> gostr \<Rightarrow> EngineRoom \<Rightarrow> EngineRoom" where
  "mark_healthy env name er =
     (case er_runningModels er name of
        None \<Rightarrow> er
      | Some m \<Rightarrow>
          let models = (er_runningModels er)(name \<mapsto> m\<lparr> mi_IsHealthy := True, mi_LastHealthCheck := en_now env 0 \<rparr>)
          in er\<lparr> er_runningModels := models, er_file := saveRunningModels env models (er_file er) \<rparr>)"

definition backgroundHealthCheck ::
    "'w docker \<Rightarrow> engine_env \<Rightarrow> gostr \<Rightarrow> InferenceEngine \<Rightarrow> EngineRoom \<Rightarrow> 'w \<Rightarrow> EngineRoom \<times> 'w" where
  "backgroundHealthCheck exec env name engine er w =
     (let (ready, w1) = wait_ready exec engine 45 w in (if ready then mark_healthy env name er else er, w1))"

subsection \<open>Stopping and listing\<close>

definition StopModel :: "'w docker \<Rightarrow> gostr \<Rightarrow> EngineRoom \<Rightarrow> 'w \<Rightarrow> engine_error option \<times> EngineRoom \<times> 'w" where
  "StopModel exec name er w =
     (case GetRunningModels exec w of
        (Inl PanicShortID, w1) \<Rightarrow> (Some EngPanic, er, w1)
      | (Inl e, w1) \<Rightarrow> (Some (EngQuery e), er, w1)
      | (Inr ms, w1) \<Rightarrow>
          let cid = (case List.find (\<lambda>m. rm_ModelName m = name) ms of Some m \<Rightarrow> rm_ContainerID m | None \<Rightarrow> []) in
          if cid = [] then (Some (EngNotRunning name), er, w1)
          else
            let (r, w2) = exec [''stop'', cid] w1 in
            if \<not> cr_ok r then (Some EngStop, er, w2)
            else (None, er\<lparr> er_engines := (er_engines er)(name := None),
                            er_runningModels := (er_runningModels er)(name := None) \<rparr>,
                  snd (exec [''rm'', cid] w2)))"

text \<open>Two clock readings per listed container.\<close>

definition listed_instance :: "engine_env \<Rightarrow> RunningModel \<Rightarrow> ModelInstance" where
  "listed_instance env m = \<lparr> mi_ID = rm_ContainerID m, mi_ModelName = rm_ModelName m, mi_Quantization = [],
     mi_ContainerID = rm_ContainerID m, mi_StartedAt = en_now env 0, mi_GPUIndex = 0, mi_VRAMUsed = 0,
     mi_IsHealthy = True, mi_LastHealthCheck = en_now env 1 \<rparr>"

text \<open>\<open>None\<close>: the panic of the listing.\<close>

definition Engine_GetRunningModels :: "'w docker \<Rightarrow> engine_env \<Rightarrow> EngineRoom \<Rightarrow> 'w \<Rightarrow> instances option \<times> 'w" where
  "Engine_GetRunningModels exec env er w =
     (case GetRunningModels exec w of
        (Inl PanicShortID, w1) \<Rightarrow> (None, w1)
      | (Inl _, w1) \<Rightarrow> (Some (er_runningModels er), w1)
      | (Inr ms, w1) \<Rightarrow>
          (Some (foldl (\<lambda>m x. if rm_Status x = ''running'' then m(rm_ModelName x \<mapsto> listed_instance env x) else m)
                   Map.empty ms), w1))"

definition Engine_GetSuitableModels :: "gostr list \<Rightarrow> EngineRoom \<Rightarrow> ModelMetadata list \<times> ModelMetadata list" where
  "Engine_GetSuitableModels order er =
     GetSuitableModels order (hw_GPUs (er_hardware er) \<noteq> []) (hw_SystemRAM (er_hardware er)) (er_modelManager er)"

record EngineStatus =
  es_Timestamp :: time
  es_Hardware :: SystemHardware
  es_RunningModels :: instances
  es_ModelCacheDir :: gostr

definition Status :: "'w docker \<Rightarrow> engine_env \<Rightarrow> EngineRoom \<Rightarrow> 'w \<Rightarrow> EngineStatus option \<times> 'w" where
  "Status exec env er w =
     (let (ms, w1) = Engine_GetRunningModels exec env er w in
      (map_option (\<lambda>m. \<lparr> es_Timestamp = en_now env 2, es_Hardware = er_hardware er, es_RunningModels = m,
         es_ModelCacheDir = ec_ModelCacheDir (er_config er) \<rparr>) ms, w1))"

subsection \<open>Stopping by name\<close>

text \<open>The container id of the first listed container of a model.\<close>

fun find_managed :: "gostr \<Rightarrow> container list \<Rightarrow> gostr option" where
  "find_managed name [] = None"
| "find_managed name (c # cs) =
     (case managed_view c of
        Some (ty, n, cid, st) \<Rightarrow> if n = name then Some cid else find_managed name cs
      | None \<Rightarrow> find_managed name cs)"

lemma find_listed:
  "list_all container_ok cs \<Longrightarrow> map view ms = List.map_filter managed_view cs \<Longrightarrow>
   map_option rm_ContainerID (List.find (\<lambda>m. rm_ModelName m = name) ms) = find_managed name cs"
proof (induction cs arbitrary: ms)
  case (Cons c cs)
  show ?case
  proof (cases "managed_view c")
    case None
    with Cons show ?thesis by simp
  next
    case (Some v)
    with Cons.prems obtain m ms' where "ms = m # ms'" "view m = v" "map view ms' = List.map_filter managed_view cs"
      by (auto simp: Cons_eq_map_conv)
    with Some Cons show ?thesis by (auto simp: view_def)
  qed
qed simp

lemma find_managed_id: "list_all container_ok cs \<Longrightarrow> find_managed name cs = Some cid \<Longrightarrow> cid \<noteq> []"
proof (induction cs)
  case (Cons c cs)
  then show ?case by (cases c) (auto split: if_splits)
qed simp

lemma find_managed_slash: "CHR ''/'' \<in> set name \<Longrightarrow> find_managed name cs = None"
proof (induction cs)
  case (Cons c cs)
  then show ?case using sanitized_no_slash by (cases c) auto
qed simp

lemma running_conflict_slash:
  assumes "map view ms = List.map_filter managed_view cs" "CHR ''/'' \<in> set name"
  shows "running_conflict name ms = None"
proof -
  have "rm_ModelName m \<noteq> name" if "m \<in> set ms" for m
  proof -
    from that have "view m \<in> set (List.map_filter managed_view cs)" unfolding assms(1) [symmetric] by simp
    then obtain c where "managed_view c = Some (view m)" by (auto simp: List.map_filter_def)
    then obtain m' where "sanitized m' = rm_ModelName m" by (cases c) (auto simp: view_def)
    with sanitized_no_slash [of m'] assms(2) show ?thesis by auto
  qed
  then show ?thesis by (auto simp: running_conflict_def find_None_iff)
qed

text \<open>C30: A model is stopped by the name its container encodes. When docker lists its containers,
  \<open>StopModel\<close> stops the first one whose sanitized model name is the name given: when \<open>docker stop\<close>
  succeeds the container is removed and the model leaves the running models and engines, when it fails
  the state is as before; without such a container the model is reported as not running. A name with a
  slash (\<open>org/model\<close>) has no such container, even while its own container runs.\<close>

theorem stop_model:
  assumes "exec ps_args w = (r, w1)" "cr_ok r" "list_all container_ok cs"
    and "cr_combined r = concat (map (\<lambda>c. ps_line c @ [CHR 0x0A]) cs)"
  shows "(\<exists>w2. StopModel exec name er w =
      (case find_managed name cs of
         None \<Rightarrow> (Some (EngNotRunning name), er, w2)
       | Some cid \<Rightarrow>
           let (s, w3) = exec [''stop'', cid] w2 in
           if cr_ok s
           then (None, er\<lparr> er_engines := (er_engines er)(name := None),
                           er_runningModels := (er_runningModels er)(name := None) \<rparr>, snd (exec [''rm'', cid] w3))
           else (Some EngStop, er, w3))) \<and>
    (CHR ''/'' \<in> set name \<longrightarrow> find_managed name cs = None)"
    (is "(\<exists>w2. ?stopped w2) \<and> _")
proof -
  from listing_decodes [of exec w, OF assms] obtain ms w2 where
    ms: "GetRunningModels exec w = (Inr ms, w2)" "map view ms = List.map_filter managed_view cs" by blast
  have f: "map_option rm_ContainerID (List.find (\<lambda>m. rm_ModelName m = name) ms) = find_managed name cs"
    by (rule find_listed [OF assms(3) ms(2)])
  have "?stopped w2"
  proof (cases "List.find (\<lambda>m. rm_ModelName m = name) ms")
    case None
    with f have "find_managed name cs = None" by simp
    then show ?thesis using None ms by (simp add: StopModel_def)
  next
    case (Some m)
    with f have g: "find_managed name cs = Some (rm_ContainerID m)" by simp
    with find_managed_id [OF assms(3)] have "rm_ContainerID m \<noteq> []" by blast
    then show ?thesis unfolding g using Some ms by (simp add: StopModel_def Let_def split: prod.split)
  qed
  then show ?thesis using find_managed_slash by blast
qed

subsection \<open>The running-models file\<close>

definition er_ok :: "instances \<Rightarrow> bool" where
  "er_ok models \<longleftrightarrow> (\<forall>k m. models k = Some m \<longrightarrow> mi_ModelName m = k)"

text \<open>What a restart keeps of an instance.\<close>

definition survives :: "ModelInstance \<Rightarrow> ModelInstance" where
  "survives m = m\<lparr> mi_ID := mi_ContainerID m, mi_GPUIndex := 0, mi_VRAMUsed := 0 \<rparr>"

lemma instance_of_record: "instance_of (record_of m) = survives m"
  by (cases m) (simp add: instance_of_def record_of_def survives_def)

lemma load_fold:
  assumes "distinct ks" "\<And>k. k \<in> set ks \<Longrightarrow> models k \<noteq> None" "er_ok models"
  shows "foldl (\<lambda>m r. m(rr_ModelName r \<mapsto> instance_of r)) acc (map record_of (List.map_filter models ks)) =
    (\<lambda>k. if k \<in> set ks then map_option survives (models k) else acc k)"
  using assms(1,2)
proof (induction ks arbitrary: acc)
  case (Cons k ks)
  then obtain m where m: "models k = Some m" by fastforce
  with assms(3) have n: "rr_ModelName (record_of m) = k" by (simp add: er_ok_def record_of_def)
  have "foldl (\<lambda>m r. m(rr_ModelName r \<mapsto> instance_of r)) acc (map record_of (List.map_filter models (k # ks))) =
      (\<lambda>x. if x \<in> set ks then map_option survives (models x) else (acc(k \<mapsto> survives m)) x)"
    using Cons.IH [of "acc(k \<mapsto> survives m)"] Cons.prems m n by (simp add: instance_of_record del: fun_upd_apply)
  also have "\<dots> = (\<lambda>x. if x \<in> set (k # ks) then map_option survives (models x) else acc x)"
    using Cons.prems m by (auto simp: fun_eq_iff)
  finally show ?case .
qed simp

text \<open>The codec reads back the records of the models, and the order enumerates the models.\<close>

definition codec_ok :: "engine_env \<Rightarrow> instances \<Rightarrow> bool" where
  "codec_ok env models \<longleftrightarrow> \<not> en_write_fails env \<and>
     (let rs = map record_of (List.map_filter models (en_order env)) in
      case en_marshal env rs of None \<Rightarrow> False | Some d \<Rightarrow> en_unmarshal env d = Some rs)"

definition order_ok :: "engine_env \<Rightarrow> instances \<Rightarrow> bool" where
  "order_ok env models \<longleftrightarrow> distinct (en_order env) \<and> set (en_order env) = dom models"

lemma load_save:
  assumes "codec_ok env models" "order_ok env models" "er_ok models"
  shows "loadRunningModels (en_unmarshal env) (saveRunningModels env models file) = (\<lambda>k. map_option survives (models k))"
proof -
  let ?rs = "map record_of (List.map_filter models (en_order env))"
  from assms(1) obtain d where d: "en_marshal env ?rs = Some d" "en_unmarshal env d = Some ?rs" "\<not> en_write_fails env"
    by (auto simp: codec_ok_def Let_def split: option.splits)
  have "foldl (\<lambda>m r. m(rr_ModelName r \<mapsto> instance_of r)) Map.empty ?rs =
      (\<lambda>k. if k \<in> set (en_order env) then map_option survives (models k) else None)"
    by (rule load_fold) (use assms in \<open>auto simp: order_ok_def\<close>)
  also have "\<dots> = (\<lambda>k. map_option survives (models k))"
    using assms(2) by (auto simp: order_ok_def fun_eq_iff dom_def)
  finally show ?thesis using d by (simp add: loadRunningModels_def saveRunningModels_def)
qed


text \<open>What a successful deployment adds, and a failed one leaves.\<close>

definition deployed :: "engine_env \<Rightarrow> gostr \<Rightarrow> gostr \<Rightarrow> gostr \<Rightarrow> ModelInstance" where
  "deployed env name quant cid = \<lparr> mi_ID = cid, mi_ModelName = name, mi_Quantization = quant, mi_ContainerID = cid,
     mi_StartedAt = en_now env 0, mi_GPUIndex = 0, mi_VRAMUsed = 0, mi_IsHealthy = False, mi_LastHealthCheck = en_now env 1 \<rparr>"

lemma start_model_cases:
  "start_model exec env md name quant path er w = (e, er1, w1) \<Longrightarrow>
     (e \<noteq> None \<and> er1 = er) \<or>
     (e = None \<and> (\<exists>cid. er_runningModels er1 = (er_runningModels er)(name \<mapsto> deployed env name quant cid) \<and>
        er_file er1 = saveRunningModels env (er_runningModels er1) (er_file er)))"
  by (auto simp: start_model_def Let_def deployed_def split: prod.splits sum.splits)

lemma deploy_cases:
  "Deploy exec env name q er w = (e, er1, w1) \<Longrightarrow>
     (e \<noteq> None \<and> er1 = er) \<or>
     (e = None \<and> (\<exists>quant cid. er_runningModels er1 = (er_runningModels er)(name \<mapsto> deployed env name quant cid) \<and>
        er_file er1 = saveRunningModels env (er_runningModels er1) (er_file er)))"
  unfolding Deploy_def Let_def
  by (auto split: option.splits sum.splits prod.splits docker_error.splits dest!: start_model_cases)

lemma stop_file: "StopModel exec name er w = (e, er1, w1) \<Longrightarrow> er_file er1 = er_file er"
  by (auto simp: StopModel_def Let_def split: prod.splits sum.splits docker_error.splits if_splits)

lemma stop_removes: "StopModel exec name er w = (None, er1, w1) \<Longrightarrow>
    er_runningModels er1 = (er_runningModels er)(name := None)"
  by (auto simp: StopModel_def Let_def split: prod.splits sum.splits docker_error.splits if_splits)



text \<open>A docker with one container: \<open>run\<close> starts it, \<open>stop\<close> stops it, \<open>ps\<close> lists it while it runs.\<close>

definition one_docker :: "bool docker" where
  "one_docker args up =
     (let up1 = (if take 1 args = [''run''] then True else if take 1 args = [''stop''] then False else up);
          out = (if take 2 args = [''ps'', ''-a''] \<and> length args = 4 then (if up then ''ss-cpu-llama|||0123456789ab|||Up'' else [])
                 else if take 1 args = [''run''] then ''0123456789ab''
                 else if take 2 args = [''inspect'', ''-f''] \<and> args ! 2 = ''{{.State.Running}}'' then ''true'' else [])
      in (\<lparr> cr_ok = True, cr_out = out, cr_combined = out \<rparr>, up1))"

definition small_env :: engine_env where
  "small_env = \<lparr> en_tree = toy_tree @ [(''/srv/models/llama/m.bin'', FileNode ''w'')],
     en_start = \<lparr> st_free = (\<lambda>_. True), st_abs = Some, st_build_setup = True, st_build_dir = ''/tmp'' \<rparr>,
     en_order = [''llama''],
     en_marshal = (\<lambda>_. Some ''[]''),
     en_unmarshal = (\<lambda>_. Some [\<lparr> rr_ModelName = ''llama'', rr_ContainerID = ''0123456789ab'', rr_Quantization = ''awq'',
       rr_StartedAt = 0, rr_IsHealthy = False, rr_LastHealthCheck = 0 \<rparr>]),
     en_write_fails = False, en_now = (\<lambda>_. 0) \<rparr>"

definition no_hw :: hw_env where
  "no_hw = \<lparr> he_smi = None, he_cores = 4, he_meminfo = None, he_sysctl = None, he_sys = 0, he_nvcc = None, he_docker = True \<rparr>"

definition small_cfg :: EngineConfig where
  "small_cfg = \<lparr> ec_ModelCacheDir = ''/srv/models'', ec_Port = 8000, ec_VRAMLimit = 0, ec_GPUIndices = [], ec_RebuildImage = False \<rparr>"

definition small_room :: "gostr option \<Rightarrow> EngineRoom" where
  "small_room file = the (NewEngineRoom small_env no_hw False (Some [''llama'' \<mapsto> toy_metadata]) small_cfg file)"

definition small_deployed :: EngineRoom where
  "small_deployed = fst (snd (Deploy one_docker small_env ''llama'' None (small_room None) False))"

definition small_stopped :: EngineRoom where
  "small_stopped = fst (snd (StopModel one_docker ''llama'' small_deployed True))"

text \<open>The deployment and the stop are evaluated once; the three facts below are its parts.\<close>

lemma small_run:
  "case Deploy one_docker small_env ''llama'' None (small_room None) False of (e, er, w) \<Rightarrow>
     e = None \<and> w \<and> codec_ok small_env (er_runningModels er) \<and>
     (case StopModel one_docker ''llama'' er True of (e2, _, w2) \<Rightarrow> e2 = None \<and> \<not> w2)"
  by code_simp

lemma small_deploy: "Deploy one_docker small_env ''llama'' None (small_room None) False = (None, small_deployed, True)"
  using small_run unfolding small_deployed_def by (cases rule: prod_cases3) (auto split: prod.splits)

lemma small_codec: "codec_ok small_env (er_runningModels small_deployed)"
  using small_run unfolding small_deploy by simp

lemma small_stop: "StopModel one_docker ''llama'' small_deployed True = (None, small_stopped, False)"
proof -
  have "fst (StopModel one_docker ''llama'' small_deployed True) = None \<and>
     \<not> snd (snd (StopModel one_docker ''llama'' small_deployed True))"
    using small_run unfolding small_deploy by (simp split: prod.splits)
  then show ?thesis unfolding small_stopped_def by (simp add: prod_eq_iff)
qed

lemma small_room_models: "er_runningModels (small_room None) = Map.empty"
  by (simp add: small_room_def NewEngineRoom_def NewManager_def Let_def loadRunningModels_def)


theorem stop_model_witness:
  "\<exists>w2. StopModel (fixed_docker two_containers) ''org/llama'' (small_room None) () =
     (Some (EngNotRunning ''org/llama''), small_room None, w2)"
proof -
  have f: "find_managed ''org/llama'' two_containers = None" by code_simp
  from stop_model [of "fixed_docker two_containers" "()", OF fixed_docker_ps _ two_containers_ok, of "''org/llama''" "small_room None"]
  show ?thesis unfolding f by simp
qed


lemma deploy_world:
  "Deploy exec env name q er w = (e, er1, w1) \<Longrightarrow>
     (case e of Some (EngModel x) \<Rightarrow> w1 = w | Some (EngNoFit x) \<Rightarrow> w1 = w
      | Some (EngRunning n c) \<Rightarrow> w1 = snd (GetRunningModels exec w) | Some EngPanic \<Rightarrow> w1 = snd (GetRunningModels exec w)
      | Some (EngStart x) \<Rightarrow> True | Some x \<Rightarrow> False
      | None \<Rightarrow> ValidateModel (er_modelManager er) (en_tree env) name = None)"
  unfolding Deploy_def Let_def
  by (auto simp: start_model_def Let_def split: option.splits sum.splits prod.splits docker_error.splits)

text \<open>A deployment that fails leaves the engine room as it was, and a deployment of a model that is not
  valid, does not fit or already runs starts nothing. On every error the engines, the running models and
  the file are those from before; for an unknown, uncached or corrupt model and for one no quantization
  of which fits no docker command runs, for a running one only the listing does; and a deployment
  succeeds only for a model whose files validate.\<close>

theorem deploy_errors:
  assumes "Deploy exec env name q er w = (e, er1, w1)"
  shows "(case e of
       None \<Rightarrow> ValidateModel (er_modelManager er) (en_tree env) name = None \<and> er_runningModels er1 name \<noteq> None
     | Some err \<Rightarrow> er1 = er \<and>
         (case err of EngModel x \<Rightarrow> w1 = w | EngNoFit x \<Rightarrow> w1 = w | EngStart x \<Rightarrow> True
          | EngRunning n c \<Rightarrow> w1 = snd (GetRunningModels exec w) | EngPanic \<Rightarrow> w1 = snd (GetRunningModels exec w)
          | _ \<Rightarrow> False))"
  using deploy_world [OF assms] deploy_cases [OF assms] by (auto split: option.splits engine_error.splits)

theorem deploy_errors_witness:
  "Deploy one_docker small_env ''llama'' None (small_room None) True = (Some (EngRunning ''llama'' ''0123456789ab''), small_room None, True)"
proof -
  obtain e er1 w1 where d: "Deploy one_docker small_env ''llama'' None (small_room None) True = (e, er1, w1)"
    by (metis prod_cases3)
  have "fst (Deploy one_docker small_env ''llama'' None (small_room None) True) = Some (EngRunning ''llama'' ''0123456789ab'')"
    "snd (GetRunningModels one_docker True) = True" by code_simp+
  with deploy_errors [OF d] d show ?thesis by (simp only: fst_conv option.case engine_error.case simp_thms)
qed

end
