(* ===== verification/Configuration.thy ===== *)
theory Configuration
  imports Admission GoPath
begin

text \<open>
  The unified configuration (\<open>core/config/config.go\<close>). The loader walks the configuration struct by
  reflection, so a struct is modelled as reflection sees it: the list of its fields, each with its name,
  its \<open>yaml\<close> and \<open>env\<close> tags and its value. The struct types are the definitions named after them, which
  build such a list from the values of their fields (a map is a list of its entries); \<open>Defaults\<close> and \<open>Load\<close> work on them. Reading
  the file, the YAML decoder, the environment and the home directory are arguments.
\<close>

subsection \<open>Structs as reflection sees them\<close>

datatype gvalue =
  VString gostr | VInt int | VFloat flt | VBool bool | VStrings "gostr list" | VMap "(gostr \<times> gostr) list" | VStruct "gfield list"
and gfield = Field gostr gostr gostr gvalue

subsection \<open>The configuration types\<close>

definition LogConfig :: "gostr \<Rightarrow> gostr \<Rightarrow> gvalue" where
  "LogConfig format level = VStruct
     [Field ''Format'' ''format'' ''SOVSTACK_LOG_FORMAT'' (VString format),
      Field ''Level'' ''level'' ''SOVSTACK_LOG_LEVEL'' (VString level)]"

definition Cfg_AdmissionConfig :: "bool \<Rightarrow> flt \<Rightarrow> flt \<Rightarrow> flt \<Rightarrow> flt \<Rightarrow> int \<Rightarrow> int \<Rightarrow> flt \<Rightarrow> int \<Rightarrow> gvalue" where
  "Cfg_AdmissionConfig enabled hard soft minHard margin maxQueue poll alpha calmSecs = VStruct
     [Field ''Enabled'' ''enabled'' ''SOVSTACK_ADMISSION_ENABLED'' (VBool enabled),
      Field ''HardCachePct'' ''hard_cache_pct'' ''SOVSTACK_ADMISSION_HARD_CACHE_PCT'' (VFloat hard),
      Field ''SoftCachePct'' ''soft_cache_pct'' ''SOVSTACK_ADMISSION_SOFT_CACHE_PCT'' (VFloat soft),
      Field ''MinHardCachePct'' ''min_hard_cache_pct'' ''SOVSTACK_ADMISSION_MIN_HARD_CACHE_PCT'' (VFloat minHard),
      Field ''StressMargin'' ''stress_margin'' ''SOVSTACK_ADMISSION_STRESS_MARGIN'' (VFloat margin),
      Field ''MaxQueuePerGB'' ''max_queue_per_gb'' ''SOVSTACK_ADMISSION_MAX_QUEUE_PER_GB'' (VInt maxQueue),
      Field ''PollSeconds'' ''poll_seconds'' ''SOVSTACK_ADMISSION_POLL_SECONDS'' (VInt poll),
      Field ''EMAAlpha'' ''ema_alpha'' ''SOVSTACK_ADMISSION_EMA_ALPHA'' (VFloat alpha),
      Field ''CalmSeconds'' ''calm_seconds'' ''SOVSTACK_ADMISSION_CALM_SECONDS'' (VInt calmSecs)]"

definition Cfg_AuditConfig :: "gostr \<Rightarrow> gostr \<Rightarrow> int \<Rightarrow> gostr \<Rightarrow> gvalue" where
  "Cfg_AuditConfig jsonlDir mysqlDSN retentionDays shipperURL = VStruct
     [Field ''JSONLDir'' ''jsonl_dir'' ''SOVSTACK_AUDIT_JSONL_DIR'' (VString jsonlDir),
      Field ''MySQLDSN'' ''mysql_dsn'' ''SOVSTACK_AUDIT_MYSQL_DSN'' (VString mysqlDSN),
      Field ''RetentionDays'' ''retention_days'' ''SOVSTACK_AUDIT_RETENTION_DAYS'' (VInt retentionDays),
      Field ''ShipperURL'' ''shipper_url'' ''SOVSTACK_AUDIT_SHIPPER_URL'' (VString shipperURL)]"

definition QuotaRedisConfig :: "gostr \<Rightarrow> gostr \<Rightarrow> int \<Rightarrow> gostr \<Rightarrow> gvalue" where
  "QuotaRedisConfig addr password db keyPrefix = VStruct
     [Field ''Addr'' ''addr'' ''SOVSTACK_QUOTA_REDIS_ADDR'' (VString addr),
      Field ''Password'' ''password'' ''SOVSTACK_QUOTA_REDIS_PASSWORD'' (VString password),
      Field ''DB'' ''db'' ''SOVSTACK_QUOTA_REDIS_DB'' (VInt db),
      Field ''KeyPrefix'' ''key_prefix'' ''SOVSTACK_QUOTA_REDIS_KEY_PREFIX'' (VString keyPrefix)]"

definition Cfg_QuotaConfig :: "gostr \<Rightarrow> gostr \<Rightarrow> gvalue \<Rightarrow> gvalue" where
  "Cfg_QuotaConfig backend sqliteDB redis = VStruct
     [Field ''Backend'' ''backend'' ''SOVSTACK_QUOTA_BACKEND'' (VString backend),
      Field ''SQLiteDB'' ''sqlite_db'' ''SOVSTACK_QUOTA_SQLITE_DB'' (VString sqliteDB),
      Field ''Redis'' ''redis'' [] redis]"

definition Cfg_GatewayConfig ::
    "int \<Rightarrow> flt \<Rightarrow> gostr \<Rightarrow> gostr \<Rightarrow> gostr \<Rightarrow> gostr \<Rightarrow> gostr \<Rightarrow> gvalue \<Rightarrow> gvalue \<Rightarrow> gvalue \<Rightarrow> gvalue" where
  "Cfg_GatewayConfig port rateLimit apiKeyHeader backend discoveryURL keysFile auditDB audit quota admission = VStruct
     [Field ''Port'' ''port'' ''SOVSTACK_GATEWAY_PORT'' (VInt port),
      Field ''RateLimit'' ''rate_limit'' ''SOVSTACK_GATEWAY_RATE_LIMIT'' (VFloat rateLimit),
      Field ''APIKeyHeader'' ''api_key_header'' ''SOVSTACK_GATEWAY_API_KEY_HEADER'' (VString apiKeyHeader),
      Field ''Backend'' ''backend'' ''SOVSTACK_GATEWAY_BACKEND'' (VString backend),
      Field ''DiscoveryURL'' ''discovery_url'' ''SOVSTACK_GATEWAY_DISCOVERY_URL'' (VString discoveryURL),
      Field ''KeysFile'' ''keys_file'' ''SOVSTACK_KEYS_FILE'' (VString keysFile),
      Field ''AuditDB'' ''audit_db'' ''SOVSTACK_AUDIT_DB'' (VString auditDB),
      Field ''Audit'' ''audit'' [] audit,
      Field ''Quota'' ''quota'' [] quota,
      Field ''Admission'' ''admission'' [] admission]"

definition Cfg_OIDCConfig :: "gostr \<Rightarrow> gostr \<Rightarrow> gostr \<Rightarrow> gostr \<Rightarrow> gostr \<Rightarrow> gvalue" where
  "Cfg_OIDCConfig issuerURL clientID clientSecret redirectURL adminClaim = VStruct
     [Field ''IssuerURL'' ''issuer_url'' ''SOVSTACK_OIDC_ISSUER_URL'' (VString issuerURL),
      Field ''ClientID'' ''client_id'' ''SOVSTACK_OIDC_CLIENT_ID'' (VString clientID),
      Field ''ClientSecret'' ''client_secret'' ''SOVSTACK_OIDC_CLIENT_SECRET'' (VString clientSecret),
      Field ''RedirectURL'' ''redirect_url'' ''SOVSTACK_OIDC_REDIRECT_URL'' (VString redirectURL),
      Field ''AdminClaim'' ''admin_claim'' ''SOVSTACK_OIDC_ADMIN_CLAIM'' (VString adminClaim)]"

definition PolicyConfig :: "int \<Rightarrow> gostr \<Rightarrow> gostr \<Rightarrow> (gostr \<times> gostr) list \<Rightarrow> gvalue \<Rightarrow> gvalue" where
  "PolicyConfig port keysFile adminKey adminKeys oidc = VStruct
     [Field ''Port'' ''port'' ''SOVSTACK_POLICY_PORT'' (VInt port),
      Field ''KeysFile'' ''keys_file'' ''SOVSTACK_KEYS_FILE'' (VString keysFile),
      Field ''AdminKey'' ''admin_key'' ''SOVSTACK_ADMIN_KEY'' (VString adminKey),
      Field ''AdminKeys'' ''admin_keys'' [] (VMap adminKeys),
      Field ''OIDC'' ''oidc'' [] oidc]"

definition DatabaseConfig :: "gostr \<Rightarrow> int \<Rightarrow> gostr \<Rightarrow> gostr \<Rightarrow> gostr \<Rightarrow> gvalue" where
  "DatabaseConfig host port name user password = VStruct
     [Field ''Host'' ''host'' ''SOVSTACK_DB_HOST'' (VString host),
      Field ''Port'' ''port'' ''SOVSTACK_DB_PORT'' (VInt port),
      Field ''Name'' ''name'' ''SOVSTACK_DB_NAME'' (VString name),
      Field ''User'' ''user'' ''SOVSTACK_DB_USER'' (VString user),
      Field ''Password'' ''password'' ''SOVSTACK_DB_PASSWORD'' (VString password)]"

definition VisibilityConfig :: "int \<Rightarrow> gostr \<Rightarrow> gostr \<Rightarrow> gostr \<Rightarrow> gvalue \<Rightarrow> gvalue" where
  "VisibilityConfig port gatewayURL keysFile dbType db = VStruct
     [Field ''Port'' ''port'' ''SOVSTACK_VISIBILITY_PORT'' (VInt port),
      Field ''GatewayURL'' ''gateway_url'' ''SOVSTACK_VISIBILITY_GATEWAY_URL'' (VString gatewayURL),
      Field ''KeysFile'' ''keys_file'' ''SOVSTACK_KEYS_FILE'' (VString keysFile),
      Field ''DBType'' ''db_type'' ''SOVSTACK_VISIBILITY_DB_TYPE'' (VString dbType),
      Field ''DB'' ''db'' [] db]"

definition CORSConfig :: "gostr list \<Rightarrow> bool \<Rightarrow> gvalue" where
  "CORSConfig origins allowDevWildcard = VStruct
     [Field ''Origins'' ''origins'' [] (VStrings origins),
      Field ''AllowDevWildcard'' ''allow_dev_wildcard'' [] (VBool allowDevWildcard)]"

definition TLSConfig :: "gostr \<Rightarrow> gostr \<Rightarrow> gostr \<Rightarrow> bool \<Rightarrow> gvalue" where
  "TLSConfig certFile keyFile dir insecureHTTP = VStruct
     [Field ''CertFile'' ''cert_file'' ''SOVSTACK_TLS_CERT_FILE'' (VString certFile),
      Field ''KeyFile'' ''key_file'' ''SOVSTACK_TLS_KEY_FILE'' (VString keyFile),
      Field ''Dir'' ''dir'' ''SOVSTACK_TLS_DIR'' (VString dir),
      Field ''InsecureHTTP'' ''insecure_http'' ''SOVSTACK_INSECURE_HTTP'' (VBool insecureHTTP)]"

type_synonym config = "gfield list"

definition Cfg_Config :: "gvalue \<Rightarrow> gvalue \<Rightarrow> gvalue \<Rightarrow> gvalue \<Rightarrow> gvalue \<Rightarrow> gvalue \<Rightarrow> config" where
  "Cfg_Config lg gateway policy visibility cors tls =
     [Field ''Log'' ''log'' [] lg, Field ''Gateway'' ''gateway'' [] gateway, Field ''Policy'' ''policy'' [] policy,
      Field ''Visibility'' ''visibility'' [] visibility, Field ''CORS'' ''cors'' [] cors, Field ''TLS'' ''tls'' [] tls]"

definition Defaults :: config where
  "Defaults = Cfg_Config (LogConfig ''text'' ''info'')
     (Cfg_GatewayConfig 8001 (flit 100) ''X-API-Key'' ''http://localhost:8000'' ''http://localhost:8889'' [] ''./sovstack-audit.db''
        (Cfg_AuditConfig [] [] 0 [])
        (Cfg_QuotaConfig ''memory'' ''./sovstack-quota.db'' (QuotaRedisConfig ''localhost:6379'' [] 0 ''sovstack:quota:''))
        (Cfg_AdmissionConfig True (flit 95) (flit 80) (flit 60) (flit 10) 4 5 (flit (2 / 10)) 300))
     (PolicyConfig 8888 [] [] [] (Cfg_OIDCConfig [] [] [] [] []))
     (VisibilityConfig 9000 ''http://localhost:8001'' [] ''sqlite'' (DatabaseConfig ''localhost'' 3306 ''visibility'' ''visibility'' []))
     (CORSConfig [] False)
     (TLSConfig [] [] [] False)"

subsection \<open>Environment overrides\<close>

definition ParseBool :: "gostr \<Rightarrow> bool option" where
  "ParseBool s =
     (if s \<in> set [''1'', ''t'', ''T'', ''true'', ''TRUE'', ''True''] then Some True
      else if s \<in> set [''0'', ''f'', ''F'', ''false'', ''FALSE'', ''False''] then Some False else None)"

datatype config_error = ReadFailed gostr | MalformedYAML gostr | EnvInvalid gostr gostr | EnvKind gostr

type_synonym environment = "gostr \<rightharpoonup> gostr"

definition set_from_env :: "gostr \<Rightarrow> gostr \<Rightarrow> gvalue \<Rightarrow> config_error + gvalue" where
  "set_from_env envName envVal v =
     (case v of
        VString _ \<Rightarrow> Inr (VString envVal)
      | VInt _ \<Rightarrow> (case ParseInt envVal of Some n \<Rightarrow> Inr (VInt n) | None \<Rightarrow> Inl (EnvInvalid envName envVal))
      | VFloat _ \<Rightarrow> (case ParseFloat envVal of Some f \<Rightarrow> Inr (VFloat f) | None \<Rightarrow> Inl (EnvInvalid envName envVal))
      | VBool _ \<Rightarrow> (case ParseBool envVal of Some b \<Rightarrow> Inr (VBool b) | None \<Rightarrow> Inl (EnvInvalid envName envVal))
      | _ \<Rightarrow> Inl (EnvKind envName))"

definition apply_field :: "environment \<Rightarrow> gostr \<Rightarrow> gvalue \<Rightarrow> config_error + gvalue" where
  "apply_field env envName v =
     (if envName = [] then Inr v
      else case env envName of
          None \<Rightarrow> Inr v
        | Some envVal \<Rightarrow> if envVal = [] then Inr v else set_from_env envName envVal v)"

fun is_struct :: "gvalue \<Rightarrow> bool" where
  "is_struct (VStruct _) = True"
| "is_struct _ = False"

fun applyEnv :: "environment \<Rightarrow> gfield list \<Rightarrow> config_error + gfield list"
  and applyEnv_value :: "environment \<Rightarrow> gostr \<Rightarrow> gvalue \<Rightarrow> config_error + gvalue" where
  "applyEnv env [] = Inr []"
| "applyEnv env (Field n y e v # fs) =
     (case applyEnv_value env e v of
        Inl err \<Rightarrow> Inl err
      | Inr v' \<Rightarrow> (case applyEnv env fs of Inl err \<Rightarrow> Inl err | Inr fs' \<Rightarrow> Inr (Field n y e v' # fs')))"
| "applyEnv_value env e (VStruct gs) = (case applyEnv env gs of Inl err \<Rightarrow> Inl err | Inr gs' \<Rightarrow> Inr (VStruct gs'))"
| "applyEnv_value env e v = apply_field env e v"

subsection \<open>Loading\<close>

definition expandPath :: "gostr option \<Rightarrow> gostr \<Rightarrow> gostr" where
  "expandPath home p =
     (if HasPrefix p ''~/'' then (case home of Some h \<Rightarrow> Path_Join [h, drop 2 p] | None \<Rightarrow> p) else p)"

datatype file_read = FileData gostr | FileMissing | FileError

text \<open>\<open>yaml\<close> decodes a document into a configuration that already holds values.\<close>

definition load_file ::
    "(gostr \<Rightarrow> config \<Rightarrow> config option) \<Rightarrow> gostr option \<Rightarrow> (gostr \<Rightarrow> file_read) \<Rightarrow> gostr \<Rightarrow> config_error + config" where
  "load_file yaml home read path =
     (if path = [] then Inr Defaults
      else
        let expanded = expandPath home path in
        case read expanded of
          FileError \<Rightarrow> Inl (ReadFailed expanded)
        | FileMissing \<Rightarrow> Inr Defaults
        | FileData data \<Rightarrow> (case yaml data Defaults of None \<Rightarrow> Inl (MalformedYAML expanded) | Some c \<Rightarrow> Inr c))"

definition Load ::
    "(gostr \<Rightarrow> config \<Rightarrow> config option) \<Rightarrow> gostr option \<Rightarrow> (gostr \<Rightarrow> file_read) \<Rightarrow> environment \<Rightarrow> gostr \<Rightarrow> config_error + config" where
  "Load yaml home read env path =
     (case load_file yaml home read path of Inl err \<Rightarrow> Inl err | Inr c \<Rightarrow> applyEnv env c)"

subsection \<open>Reading a configuration\<close>

text \<open>The \<open>env\<close> tag and the value of the field at a path of Go field names.\<close>

fun leaf_at :: "gostr list \<Rightarrow> gfield list \<Rightarrow> (gostr \<times> gvalue) option"
  and leaf_value :: "gostr list \<Rightarrow> gostr \<Rightarrow> gvalue \<Rightarrow> (gostr \<times> gvalue) option" where
  "leaf_at p [] = None"
| "leaf_at p (Field n y e v # fs) =
     (case p of [] \<Rightarrow> None | k # ks \<Rightarrow> if k = n then leaf_value ks e v else leaf_at p fs)"
| "leaf_value p e (VStruct gs) = leaf_at p gs"
| "leaf_value p e v = (if p = [] then Some (e, v) else None)"

definition string_at :: "gostr list \<Rightarrow> config \<Rightarrow> gostr" where
  "string_at p c = (case leaf_at p c of Some (_, VString s) \<Rightarrow> s | _ \<Rightarrow> [])"

definition int_at :: "gostr list \<Rightarrow> config \<Rightarrow> int" where
  "int_at p c = (case leaf_at p c of Some (_, VInt n) \<Rightarrow> n | _ \<Rightarrow> 0)"

definition float_at :: "gostr list \<Rightarrow> config \<Rightarrow> flt" where
  "float_at p c = (case leaf_at p c of Some (_, VFloat f) \<Rightarrow> f | _ \<Rightarrow> flit 0)"

definition bool_at :: "gostr list \<Rightarrow> config \<Rightarrow> bool" where
  "bool_at p c = (case leaf_at p c of Some (_, VBool b) \<Rightarrow> b | _ \<Rightarrow> False)"

subsection \<open>Overriding field by field\<close>

lemma apply_field_leaf: "apply_field env e v = Inr v' \<Longrightarrow> \<not> is_struct v \<Longrightarrow> \<not> is_struct v'"
  by (auto simp: apply_field_def set_from_env_def split: option.splits if_splits gvalue.splits)

lemma leaf_value_leaf: "\<not> is_struct v \<Longrightarrow> leaf_value p e v = (if p = [] then Some (e, v) else None)"
  by (cases v) auto

definition overridden :: "environment \<Rightarrow> gostr \<times> gvalue \<Rightarrow> (gostr \<times> gvalue) option" where
  "overridden env l = (case apply_field env (fst l) (snd l) of Inr v \<Rightarrow> Some (fst l, v) | Inl _ \<Rightarrow> None)"

lemma overridden_leaf:
  assumes "apply_field env e v = Inr v'" "\<not> is_struct v"
  shows "leaf_value p e v' = Option.bind (leaf_value p e v) (overridden env)"
  using assms apply_field_leaf [OF assms] by (simp add: leaf_value_leaf overridden_def)

lemma applyEnv_leaf:
  "applyEnv env fs = Inr fs' \<Longrightarrow> leaf_at p fs' = Option.bind (leaf_at p fs) (overridden env)"
  "applyEnv_value env e v = Inr v' \<Longrightarrow> leaf_value p e v' = Option.bind (leaf_value p e v) (overridden env)"
proof (induction env fs and env e v arbitrary: p fs' and p v' rule: applyEnv_applyEnv_value.induct)
  case (2 env n y e v fs)
  from "2.prems" obtain v1 fs1 where h: "applyEnv_value env e v = Inr v1" "applyEnv env fs = Inr fs1"
      "fs' = Field n y e v1 # fs1" by (auto split: sum.splits)
  show ?case using "2.IH"(1) [OF h(1)] "2.IH"(2) [OF h(1) h(2)] h(3) by (cases p) auto
next
  case (3 env e gs)
  then show ?case by (auto split: sum.splits)
next
  case (1 env)
  then show ?case by auto
qed (simp_all only: applyEnv_value.simps, (erule overridden_leaf; simp)+)

text \<open>All fields with a value that is not a struct, in the order the walk meets them.\<close>

fun leaves :: "gfield list \<Rightarrow> (gostr \<times> gvalue) list" and value_leaves :: "gostr \<Rightarrow> gvalue \<Rightarrow> (gostr \<times> gvalue) list" where
  "leaves [] = []"
| "leaves (Field n y e v # fs) = value_leaves e v @ leaves fs"
| "value_leaves e (VStruct gs) = leaves gs"
| "value_leaves e v = [(e, v)]"

definition env_error :: "environment \<Rightarrow> gostr \<times> gvalue \<Rightarrow> config_error option" where
  "env_error env l = (case apply_field env (fst l) (snd l) of Inl err \<Rightarrow> Some err | Inr _ \<Rightarrow> None)"

definition first_error :: "environment \<Rightarrow> (gostr \<times> gvalue) list \<Rightarrow> config_error option" where
  "first_error env ls = (case List.map_filter (env_error env) ls of err # _ \<Rightarrow> Some err | [] \<Rightarrow> None)"

lemma first_error_simps [simp]:
  "first_error env [] = None"
  "first_error env (l # ls) = (case env_error env l of Some err \<Rightarrow> Some err | None \<Rightarrow> first_error env ls)"
  by (simp_all add: first_error_def split: option.split)

lemma first_error_append:
  "first_error env (ls @ ms) = (case first_error env ls of Some err \<Rightarrow> Some err | None \<Rightarrow> first_error env ms)"
  by (induction ls) (auto split: option.split)

definition error_of :: "config_error + 'a \<Rightarrow> config_error option" where
  "error_of r = (case r of Inl err \<Rightarrow> Some err | Inr _ \<Rightarrow> None)"

lemma applyEnv_error:
  "error_of (applyEnv env fs) = first_error env (leaves fs)"
  "error_of (applyEnv_value env e v) = first_error env (value_leaves e v)"
proof (induction env fs and env e v rule: applyEnv_applyEnv_value.induct)
  case (2 env n y e v fs)
  show ?case
  proof (cases "applyEnv_value env e v")
    case (Inl err)
    with "2.IH"(1) show ?thesis by (auto simp: error_of_def first_error_append split: option.splits)
  next
    case (Inr v')
    with "2.IH" show ?thesis by (auto simp: error_of_def first_error_append split: sum.splits option.splits)
  qed
qed (auto simp: error_of_def env_error_def split: sum.splits)

text \<open>The shape of a struct: names, tags and kinds.\<close>

fun shapes :: "gfield list \<Rightarrow> gfield list" and shape :: "gvalue \<Rightarrow> gvalue" where
  "shapes [] = []"
| "shapes (Field n y e v # fs) = Field n y e (shape v) # shapes fs"
| "shape (VString _) = VString []"
| "shape (VInt _) = VInt 0"
| "shape (VFloat _) = VFloat (Fin 0)"
| "shape (VBool _) = VBool False"
| "shape (VStrings _) = VStrings []"
| "shape (VMap _) = VMap []"
| "shape (VStruct gs) = VStruct (shapes gs)"

lemma apply_field_shape: "apply_field env e v = Inr v' \<Longrightarrow> shape v' = shape v"
  by (auto simp: apply_field_def set_from_env_def split: option.splits if_splits gvalue.splits)

lemma applyEnv_shape:
  "applyEnv env fs = Inr fs' \<Longrightarrow> shapes fs' = shapes fs"
  "applyEnv_value env e v = Inr v' \<Longrightarrow> shape v' = shape v"
  by (induction env fs and env e v arbitrary: fs' and v' rule: applyEnv_applyEnv_value.induct)
    (auto split: sum.splits dest: apply_field_shape)

lemma leaf_shape:
  "leaf_at p (shapes fs) = map_option (\<lambda>(e, v). (e, shape v)) (leaf_at p fs)"
  "leaf_value p e (shape v) = map_option (\<lambda>(e, v). (e, shape v)) (leaf_value p e v)"
proof (induction p fs and p e v rule: leaf_at_leaf_value.induct)
  case (2 p n y e v fs)
  then show ?case by (cases p) auto
qed auto


lemma overridden_eq:
  "overridden env (e, v) =
     (if e = [] \<or> env e = None \<or> env e = Some [] then Some (e, v)
      else case set_from_env e (the (env e)) v of Inr v' \<Rightarrow> Some (e, v') | Inl _ \<Rightarrow> None)"
  by (auto simp: overridden_def apply_field_def split: option.split sum.split)

lemma first_error_None: "first_error env ls = None \<longleftrightarrow> (\<forall>l \<in> set ls. env_error env l = None)"
  by (induction ls) (auto split: option.split)



definition keys_env :: environment where
  "keys_env = [''SOVSTACK_KEYS_FILE'' \<mapsto> ''/k'', ''SOVSTACK_GATEWAY_PORT'' \<mapsto> ''9001'', ''SOVSTACK_LOG_LEVEL'' \<mapsto> []]"

definition no_yaml :: "gostr \<Rightarrow> config \<Rightarrow> config option" where "no_yaml data c = None"

definition keys_cfg :: config where
  "keys_cfg = (case Load no_yaml None (\<lambda>_. FileMissing) keys_env ''/etc/s.yaml'' of Inr c \<Rightarrow> c | Inl _ \<Rightarrow> [])"

lemma keys_cfg: "Load no_yaml None (\<lambda>_. FileMissing) keys_env ''/etc/s.yaml'' = Inr keys_cfg"
proof -
  have "error_of (Load no_yaml None (\<lambda>_. FileMissing) keys_env ''/etc/s.yaml'') = None" by code_simp
  then show ?thesis by (auto simp: keys_cfg_def error_of_def split: sum.splits)
qed


definition keys_file :: gostr where "keys_file = ''SOVSTACK_KEYS_FILE''"



end
