(* ===== verification/Services.thy ===== *)
theory Services
  imports Docker Router GoForm
begin

text \<open>
  The services around the gateway: the routing of \<open>http.ServeMux\<close>, the health probes
  (\<open>core/health/health.go\<close>), the discovery service (\<open>core/management/discovery\<close>) and the metrics proxy
  (\<open>core/management/metricsproxy\<close>), with the routes their commands register (\<open>cmd/discovery.go\<close>,
  \<open>cmd/metrics_proxy.go\<close>). JSON encoders, error texts, readiness checks, clock readings and the exchange
  with a model's own \<open>/metrics\<close> are arguments; a handler that panics, whose connection \<open>net/http\<close> closes
  without a response, answers \<open>None\<close>.
\<close>

subsection \<open>Routing\<close>

definition mux_clean :: "gostr \<Rightarrow> gostr" where
  "mux_clean p =
     (if p = [] then ''/''
      else
        let q = (if hd p \<noteq> CHR ''/'' then CHR ''/'' # p else p); np = Clean q in
        if last q = CHR ''/'' \<and> np \<noteq> ''/'' then np @ ''/'' else np)"

datatype 'h routed = RedirectTo gostr | Handler 'h | NoHandler

text \<open>A pattern that ends in a slash matches the paths below it; the longest pattern wins.\<close>

definition subtree_match :: "(gostr \<times> 'h) list \<Rightarrow> gostr \<Rightarrow> 'h option" where
  "subtree_match pats p =
     (let ms = filter (\<lambda>(q, _). q \<noteq> [] \<and> last q = CHR ''/'' \<and> HasPrefix p q) pats in
      if ms = [] then None
      else map_option snd (List.find (\<lambda>(q, _). \<forall>(q', _) \<in> set ms. length q' \<le> length q) ms))"

definition mux_route :: "(gostr \<times> 'h) list \<Rightarrow> request \<Rightarrow> 'h routed" where
  "mux_route pats r =
     (let p = u_Path (r_URL r); c = (if r_Method r = ''CONNECT'' then p else mux_clean p) in
      case map_of pats c of
        None \<Rightarrow>
          if map_of pats (c @ ''/'') \<noteq> None then RedirectTo (c @ ''/'')
          else if c \<noteq> p then RedirectTo c
          else (case subtree_match pats c of Some h \<Rightarrow> Handler h | None \<Rightarrow> NoHandler)
      | Some h \<Rightarrow> if c \<noteq> p then RedirectTo c else Handler h)"

definition not_found :: response where
  "not_found = http_Error Map.empty ''404 page not found'' 404"

subsection \<open>Health probes\<close>

text \<open>A check as its outcome: the error text if it fails, and the milliseconds it took.\<close>

type_synonym check = "gostr option \<times> int"

record checkResult =
  ck_Status :: gostr
  ck_LatencyMS :: int
  ck_Error :: gostr

record health_response =
  he_Status :: gostr
  he_UptimeSec :: int
  he_Version :: gostr
  he_Checks :: "gostr \<rightharpoonup> checkResult"

record Checker =
  hc_checks :: "gostr \<rightharpoonup> check"
  hc_timeout :: duration
  hc_startTime :: time
  hc_version :: gostr

definition Health_New :: "time \<Rightarrow> Checker" where
  "Health_New now = \<lparr> hc_checks = Map.empty, hc_timeout = 3 * second, hc_startTime = now, hc_version = [] \<rparr>"

definition SetVersion :: "gostr \<Rightarrow> Checker \<Rightarrow> Checker" where
  "SetVersion v c = c\<lparr> hc_version := v \<rparr>"

definition SetTimeout :: "duration \<Rightarrow> Checker \<Rightarrow> Checker" where
  "SetTimeout d c = c\<lparr> hc_timeout := d \<rparr>"

definition Health_Register :: "gostr \<Rightarrow> check \<Rightarrow> Checker \<Rightarrow> Checker" where
  "Health_Register name ck c = c\<lparr> hc_checks := (hc_checks c)(name \<mapsto> ck) \<rparr>"

definition writeJSON :: "(health_response \<Rightarrow> gostr) \<Rightarrow> int \<Rightarrow> health_response \<Rightarrow> response" where
  "writeJSON enc code body =
     \<lparr> w_Header = HSet Map.empty ''Content-Type'' ''application/json'', w_Status = code, w_Body = enc body \<rparr>"

text \<open>\<open>uptime\<close>: the whole seconds since the start, computed by the caller.\<close>

definition LivenessHandler :: "(health_response \<Rightarrow> gostr) \<Rightarrow> int \<Rightarrow> Checker \<Rightarrow> response" where
  "LivenessHandler enc uptime c =
     writeJSON enc 200 \<lparr> he_Status = ''ok'', he_UptimeSec = uptime, he_Version = hc_version c, he_Checks = Map.empty \<rparr>"

definition check_result :: "check \<Rightarrow> checkResult" where
  "check_result ck =
     (case ck of
        (None, ms) \<Rightarrow> \<lparr> ck_Status = ''ok'', ck_LatencyMS = ms, ck_Error = [] \<rparr>
      | (Some err, ms) \<Rightarrow> \<lparr> ck_Status = ''fail'', ck_LatencyMS = ms, ck_Error = err \<rparr>)"

text \<open>\<open>names\<close>: the registered names in the order of the results' iteration.\<close>

definition ReadinessHandler :: "(health_response \<Rightarrow> gostr) \<Rightarrow> int \<Rightarrow> gostr list \<Rightarrow> Checker \<Rightarrow> response" where
  "ReadinessHandler enc uptime names c =
     (let results = (\<lambda>n. map_option check_result (hc_checks c n));
          failed = list_ex (\<lambda>n. case results n of Some r \<Rightarrow> ck_Status r \<noteq> ''ok'' | None \<Rightarrow> False) names
      in writeJSON enc (if failed then 503 else 200)
           \<lparr> he_Status = (if failed then ''unhealthy'' else ''ok''), he_UptimeSec = uptime, he_Version = hc_version c,
             he_Checks = results \<rparr>)"

text \<open>The error of an exchange with the URL, or its status.\<close>

definition HTTPCheck :: "gostr + int \<Rightarrow> gostr \<Rightarrow> gostr option" where
  "HTTPCheck exchange url =
     (case exchange of
        Inl err \<Rightarrow> Some err
      | Inr code \<Rightarrow> if code < 200 \<or> 300 \<le> code then Some (StatusText code @ '' from '' @ url) else None)"

subsection \<open>The discovery service\<close>

record ModelResponse =
  mr_Name :: gostr
  mr_ContainerID :: gostr
  mr_Type :: gostr
  mr_Status :: gostr
  mr_Port :: int
  mr_StartedAt :: gostr

record RunningModelsResponse =
  rmr_Version :: gostr
  rmr_Models :: "ModelResponse list"
  rmr_Count :: int

definition model_response :: "RunningModel \<Rightarrow> ModelResponse" where
  "model_response m =
     \<lparr> mr_Name = rm_ModelName m, mr_ContainerID = (if 12 < length (rm_ContainerID m) then take 12 (rm_ContainerID m) else rm_ContainerID m),
       mr_Type = rm_Type m, mr_Status = rm_Status m, mr_Port = rm_Port m, mr_StartedAt = [] \<rparr>"

definition error_body :: "gostr \<Rightarrow> gostr" where
  "error_body msg = json_obj [json_quoted ''error'' msg]"

definition running_response :: "RunningModel list \<Rightarrow> RunningModelsResponse" where
  "running_response ms = \<lparr> rmr_Version = ''1.0'', rmr_Models = map model_response ms, rmr_Count = int (length ms) \<rparr>"

definition handleRunningModels ::
    "(RunningModelsResponse \<Rightarrow> gostr) \<Rightarrow> (docker_error \<Rightarrow> gostr) \<Rightarrow> 'w docker \<Rightarrow> 'w \<Rightarrow> response option \<times> 'w" where
  "handleRunningModels enc msg exec w =
     (case GetRunningModels exec w of
        (Inl PanicShortID, w1) \<Rightarrow> (None, w1)
      | (Inl e, w1) \<Rightarrow> (Some (http_Error json_header (error_body (msg e)) 500), w1)
      | (Inr ms, w1) \<Rightarrow>
          (Some \<lparr> w_Header = json_header, w_Status = 200, w_Body = enc (running_response ms) \<rparr>, w1))"

text \<open>\<open>json\<close>: the encoding of the fixed status object.\<close>

definition handleHealth :: "gostr \<Rightarrow> response" where
  "handleHealth json = \<lparr> w_Header = json_header, w_Status = 200, w_Body = json \<rparr>"

datatype discovery_handler = D_Running | D_Health | D_Liveness | D_Readiness

definition discovery_routes :: "(gostr \<times> discovery_handler) list" where
  "discovery_routes =
     [(''/api/v1/models/running'', D_Running), (''/api/v1/health'', D_Health), (''/healthz'', D_Liveness), (''/readyz'', D_Readiness)]"

record discovery_env =
  de_enc :: "RunningModelsResponse \<Rightarrow> gostr"
  de_msg :: "docker_error \<Rightarrow> gostr"
  de_health_json :: gostr
  de_enc_probe :: "health_response \<Rightarrow> gostr"
  de_uptime :: int
  de_redirect :: "request \<Rightarrow> gostr \<Rightarrow> response"

definition runDiscovery :: "discovery_env \<Rightarrow> Checker \<Rightarrow> 'w docker \<Rightarrow> request \<Rightarrow> 'w \<Rightarrow> response option \<times> 'w" where
  "runDiscovery env hc exec r w =
     (case mux_route discovery_routes r of
        NoHandler \<Rightarrow> (Some not_found, w)
      | RedirectTo target \<Rightarrow> (Some (de_redirect env r target), w)
      | Handler D_Running \<Rightarrow> handleRunningModels (de_enc env) (de_msg env) exec w
      | Handler D_Health \<Rightarrow> (Some (handleHealth (de_health_json env)), w)
      | Handler D_Liveness \<Rightarrow> (Some (LivenessHandler (de_enc_probe env) (de_uptime env) hc), w)
      | Handler D_Readiness \<Rightarrow> (Some (ReadinessHandler (de_enc_probe env) (de_uptime env) [] hc), w))"

subsection \<open>The metrics proxy\<close>

text \<open>A resolver answers with a port and whether the model runs: \<open>DockerResolver\<close> from the listing, \<open>StaticResolver\<close>
  from a table.\<close>

type_synonym 'w port_resolver = "gostr \<Rightarrow> 'w \<Rightarrow> (docker_error + int \<times> bool) \<times> 'w"

definition StaticResolver :: "(gostr \<rightharpoonup> int) \<Rightarrow> 'w port_resolver" where
  "StaticResolver table name w = (Inr (case table name of Some port \<Rightarrow> (port, True) | None \<Rightarrow> (0, False)), w)"

definition ResolvePort :: "'w docker \<Rightarrow> 'w port_resolver" where
  "ResolvePort exec name w =
     (case GetRunningModels exec w of
        (Inl e, w1) \<Rightarrow> (Inl e, w1)
      | (Inr ms, w1) \<Rightarrow>
          (Inr (case List.find (\<lambda>m. rm_ModelName m = name \<and> rm_Status m = ''running'') ms of
             Some m \<Rightarrow> (rm_Port m, True) | None \<Rightarrow> (0, False)), w1))"

datatype upstream = UpBadRequest gostr | UpDown gostr | UpAnswer int gostr gostr

text \<open>The message embeds the name as \<open>%q\<close> inside a JSON string that is not escaped again.\<close>

definition model_message :: "gostr \<Rightarrow> gostr \<Rightarrow> gostr" where
  "model_message name suffix = json_obj [json_plain ''error'' (''model '' @ go_quote name @ suffix)]"

definition metrics_handle ::
    "(docker_error \<Rightarrow> gostr) \<Rightarrow> (gostr \<Rightarrow> upstream) \<Rightarrow> 'w port_resolver \<Rightarrow> request \<Rightarrow> 'w \<Rightarrow> response option \<times> 'w" where
  "metrics_handle msg get resolver r w =
     (let parts = Split (CHR ''/'') (TrimPrefix (u_Path (r_URL r)) ''/''); err = http_Error Map.empty in
      if length parts < 5 \<or> parts ! 4 \<noteq> ''metrics'' then
        (Some (err (json_obj [json_plain ''error'' ''unknown endpoint'']) 404), w)
      else if r_Method r \<noteq> ''GET'' then (Some (err (json_obj [json_plain ''error'' ''method not allowed'']) 405), w)
      else
        let name = parts ! 3 in
        case resolver name w of
          (Inl PanicShortID, w1) \<Rightarrow> (None, w1)
        | (Inl e, w1) \<Rightarrow> (Some (err (error_body (msg e)) 500), w1)
        | (Inr (port, up), w1) \<Rightarrow>
            (Some (if \<not> up then err (model_message name '' not running'') 404
             else if port = 0 then err (model_message name '' has no exposed port'') 503
             else (case get (''http://localhost:'' @ Itoa port @ ''/metrics'') of
                 UpBadRequest e \<Rightarrow> err (error_body e) 500
               | UpDown e \<Rightarrow> err (error_body e) 502
               | UpAnswer code ct body \<Rightarrow>
                   \<lparr> w_Header = HSet Map.empty ''Content-Type'' (if ct = [] then ''text/plain; version=0.0.4'' else ct),
                     w_Status = code, w_Body = body \<rparr>)), w1))"

datatype metrics_handler = M_Proxy | M_Liveness | M_Readiness

definition metrics_routes :: "(gostr \<times> metrics_handler) list" where
  "metrics_routes = [(''/api/v1/models/'', M_Proxy), (''/healthz'', M_Liveness), (''/readyz'', M_Readiness)]"

text \<open>The service of the command resolves through docker.\<close>

definition metrics_service :: "(docker_error \<Rightarrow> gostr) \<Rightarrow> (gostr \<Rightarrow> upstream) \<Rightarrow> 'w docker \<Rightarrow> request \<Rightarrow> 'w \<Rightarrow> response option \<times> 'w" where
  "metrics_service msg get exec = metrics_handle msg get (ResolvePort exec)"

text \<open>What the handler relies on: \<open>ports\<close> are the models that run, with their ports, wherever \<open>ready\<close>.\<close>

locale resolving =
  fixes resolver :: "'w port_resolver" and ready :: "'w \<Rightarrow> bool" and ports :: "'w \<Rightarrow> gostr \<rightharpoonup> int"
  assumes resolves: "ready w \<Longrightarrow> fst (resolver n w) = Inr (case ports w n of Some p \<Rightarrow> (p, True) | None \<Rightarrow> (0, False))"
begin

lemma handled:
  assumes "ready w" "r_Method r = ''GET''"
    and "Split (CHR ''/'') (TrimPrefix (u_Path (r_URL r)) ''/'') = a # b # c # n # ''metrics'' # rest"
  shows "\<exists>resp. fst (metrics_handle msg get resolver r w) = Some resp \<and>
    (case ports w n of
       None \<Rightarrow> w_Status resp = 404
     | Some p \<Rightarrow> if p = 0 then w_Status resp = 503
         else (case get (''http://localhost:'' @ Itoa p @ ''/metrics'') of
             UpBadRequest _ \<Rightarrow> w_Status resp = 500 | UpDown _ \<Rightarrow> w_Status resp = 502
           | UpAnswer code _ body \<Rightarrow> w_Status resp = code \<and> w_Body resp = body))"
proof -
  obtain w1 where "resolver n w = (Inr (case ports w n of Some p \<Rightarrow> (p, True) | None \<Rightarrow> (0, False)), w1)"
    using resolves [OF assms(1)] by (metis prod.collapse)
  with assms(2,3) show ?thesis
    by (auto simp: metrics_handle_def Let_def http_Error_def split: option.split upstream.split)
qed

end

interpretation static: resolving "StaticResolver table" "\<lambda>_. True" "\<lambda>_. table" for table
  by unfold_locales (simp add: StaticResolver_def)

definition docker_ports :: "'w docker \<Rightarrow> 'w \<Rightarrow> gostr \<rightharpoonup> int" where
  "docker_ports exec w n =
     (case fst (GetRunningModels exec w) of
        Inl _ \<Rightarrow> None
      | Inr ms \<Rightarrow> map_option rm_Port (List.find (\<lambda>m. rm_ModelName m = n \<and> rm_Status m = ''running'') ms))"

interpretation docker: resolving "ResolvePort exec" "\<lambda>w. \<exists>ms. fst (GetRunningModels exec w) = Inr ms" "docker_ports exec" for exec
  by unfold_locales (auto simp: ResolvePort_def docker_ports_def split: prod.split option.split)

subsection \<open>From docker to the routing table\<close>

definition get_request :: "gostr \<Rightarrow> request" where
  "get_request path = \<lparr> r_Method = ''GET'', r_URL = \<lparr> u_Scheme = [], u_Host = [], u_Path = path, u_RawPath = [], u_RawQuery = [] \<rparr>,
     r_Host = [], r_RequestURI = path, r_RemoteAddr = [], r_Header = Map.empty, r_Body = None \<rparr>"

definition discovery_get ::
    "(gostr \<Rightarrow> running_entry list option) \<Rightarrow> discovery_env \<Rightarrow> Checker \<Rightarrow> 'w docker \<Rightarrow> 'w \<Rightarrow> gostr \<Rightarrow> gostr \<Rightarrow> running_entry list http_result" where
  "discovery_get dec env hc exec w base url =
     (if \<not> HasPrefix url base then HttpErr
      else case fst (runDiscovery env hc exec (get_request (TrimPrefix url base)) w) of
          None \<Rightarrow> HttpErr | Some resp \<Rightarrow> HttpResp (w_Status resp) (dec (w_Body resp)))"

lemma running_route: "mux_route discovery_routes (get_request ''/api/v1/models/running'') = Handler D_Running"
  by code_simp

lemma set_map_filter: "set (List.map_filter f xs) = {y. \<exists>x \<in> set xs. f x = Some y}"
  by (induction xs) (auto split: option.split)

text \<open>Decoded entries agree with the models in name and status.\<close>

definition same_models :: "running_entry list \<Rightarrow> RunningModel list \<Rightarrow> bool" where
  "same_models es ms \<longleftrightarrow> map (\<lambda>e. (re_ModelName e, re_Status e)) es = map (\<lambda>m. (rm_ModelName m, rm_Status m)) ms"

lemma running_names: "re_ModelName ` set (running es) = fst ` {x \<in> set (map (\<lambda>e. (re_ModelName e, re_Status e)) es). snd x = ''running''}"
  by (force simp: running_def)

lemma running_listed:
  assumes "map view ms = List.map_filter managed_view cs"
  shows "rm_ModelName ` {m \<in> set ms. rm_Status m = ''running''} =
    {sanitized m |m gpu cid st. Managed m gpu cid st \<in> set cs \<and> status_of st = ''running''}" (is "?l = ?r")
proof -
  have "?l = {n. \<exists>ty cid. (ty, n, cid, ''running'') \<in> set (map view ms)}"
    by (force simp: view_def image_iff)
  also have "\<dots> = {n. \<exists>ty cid. \<exists>c \<in> set cs. managed_view c = Some (ty, n, cid, ''running'')}"
    unfolding assms by (simp add: set_map_filter)
  also have "\<dots> = ?r"
  proof (intro set_eqI iffI)
    fix n assume "n \<in> {n. \<exists>ty cid. \<exists>c \<in> set cs. managed_view c = Some (ty, n, cid, ''running'')}"
    then obtain ty cid c where c: "c \<in> set cs" "managed_view c = Some (ty, n, cid, ''running'')" by auto
    show "n \<in> ?r" using c by (cases c rule: container.exhaust) auto
  next
    fix n assume "n \<in> ?r"
    then obtain m gpu cid st where "Managed m gpu cid st \<in> set cs" "status_of st = ''running''" "n = sanitized m" by auto
    then show "n \<in> {n. \<exists>ty cid. \<exists>c \<in> set cs. managed_view c = Some (ty, n, cid, ''running'')}" by force
  qed
  finally show ?thesis .
qed

lemma listed_names:
  assumes "map view ms = List.map_filter managed_view cs" "same_models es ms"
  shows "re_ModelName ` set (running es) =
    {sanitized m |m gpu cid st. Managed m gpu cid st \<in> set cs \<and> status_of st = ''running''}"
  unfolding running_listed [OF assms(1), symmetric] running_names assms(2) [unfolded same_models_def] by force

text \<open>The metrics proxy serves the running containers and no others, under the same names.\<close>

lemma docker_ports_dom:
  assumes "fst (GetRunningModels exec w) = Inr ms" "map view ms = List.map_filter managed_view cs"
  shows "dom (docker_ports exec w) = {sanitized m |m gpu cid st. Managed m gpu cid st \<in> set cs \<and> status_of st = ''running''}"
proof -
  have "dom (docker_ports exec w) = rm_ModelName ` {m \<in> set ms. rm_Status m = ''running''}"
    using assms(1) by (force simp: docker_ports_def dom_def find_None_iff image_iff)
  then show ?thesis by (simp add: running_listed [OF assms(2)])
qed

theorem metrics_of_running:
  assumes "exec ps_args w = (r, w1)" "cr_ok r" "list_all container_ok cs"
    and "cr_combined r = concat (map (\<lambda>c. ps_line c @ [CHR 0x0A]) cs)"
    and "r_Method q = ''GET''" "Split (CHR ''/'') (TrimPrefix (u_Path (r_URL q)) ''/'') = [''api'', ''v1'', ''models'', n, ''metrics'']"
    and "\<nexists>m gpu cid st. Managed m gpu cid st \<in> set cs \<and> status_of st = ''running'' \<and> n = sanitized m"
  shows "\<exists>resp. fst (metrics_service msg get exec q w) = Some resp \<and> w_Status resp = 404"
proof -
  from listing_decodes [of exec w, OF assms(1-4)] obtain ms w2 where
    ms: "GetRunningModels exec w = (Inr ms, w2)" "map view ms = List.map_filter managed_view cs" by blast
  have "fst (GetRunningModels exec w) = Inr ms" using ms(1) by simp
  with docker_ports_dom [OF this ms(2)] assms(7) have "n \<notin> dom (docker_ports exec w)" by blast
  then have "docker_ports exec w n = None" by (simp add: domIff)
  with docker.handled [of exec w q, OF _ assms(5,6)] ms(1) show ?thesis by (auto simp: metrics_service_def)
qed

text \<open>C20: The routing table is what docker runs, under sanitized names. When docker lists its containers and
  the decoder reads back the names and statuses the discovery service encodes, a refresh of the router against the discovery
  service succeeds, and the names registered are exactly the sanitized model names of the running
  containers the program started. A model name with a slash has no backend, although its container runs:
  a request for \<open>/models/org/name\<close> is never routed to it.\<close>

theorem discovered_backends:
  assumes "exec ps_args w = (r, w1)" "cr_ok r" "list_all container_ok cs"
    and "cr_combined r = concat (map (\<lambda>c. ps_line c @ [CHR 0x0A]) cs)"
    and "\<And>ms. map view ms = List.map_filter managed_view cs \<Longrightarrow> \<exists>es. dec (de_enc env (running_response ms)) = Some es \<and> same_models es ms"
    and "TrimSuffix (rt_managementURL rt) ''/'' = base"
    and "refresh (discovery_get dec env hc exec w base) caps rt = (rt', e)"
  shows "e = None \<and>
    dom (rt_registry rt') = {sanitized m |m gpu cid st. Managed m gpu cid st \<in> set cs \<and> status_of st = ''running''} \<and>
    (\<forall>name. CHR ''/'' \<in> set name \<longrightarrow> GetBackend rt' name = None)"
proof -
  from listing_decodes [of exec w, OF assms(1-4)] obtain ms w2 where
    ms: "GetRunningModels exec w = (Inr ms, w2)" "map view ms = List.map_filter managed_view cs" by blast
  from assms(5) [OF ms(2)] obtain es where es: "dec (de_enc env (running_response ms)) = Some es" "same_models es ms" by blast
  have "discovery_get dec env hc exec w base (base @ ''/api/v1/models/running'') = HttpResp 200 (Some es)"
    using ms es(1) by (simp add: discovery_get_def runDiscovery_def running_route handleRunningModels_def)
  with assms(6,7) have r: "e = None" "rt_registry rt' = build_registry caps es Map.empty" by (auto simp: refresh_def)
  have d: "dom (rt_registry rt') = {sanitized m |m gpu cid st. Managed m gpu cid st \<in> set cs \<and> status_of st = ''running''}"
    unfolding r(2) build_registry_eq listed_names [OF ms(2) es(2), symmetric]
    by (simp add: dom_map_of_conv_image_fst image_image)
  have "GetBackend rt' name = None" if "CHR ''/'' \<in> set name" for name
  proof -
    have "name \<notin> dom (rt_registry rt')" unfolding d using sanitized_no_slash that by auto
    then show ?thesis by (auto simp: GetBackend_def)
  qed
  with r(1) d show ?thesis by simp
qed


definition toy_discovery :: discovery_env where
  "toy_discovery = \<lparr> de_enc = (\<lambda>_. ''[]''), de_msg = (\<lambda>_. []),
     de_health_json = [], de_enc_probe = (\<lambda>_. []), de_uptime = 0, de_redirect = (\<lambda>_ _. not_found) \<rparr>"

definition toy_dec :: "gostr \<Rightarrow> running_entry list option" where
  "toy_dec body = Some [\<lparr> re_ModelName = ''org-llama'', re_ContainerID = [], re_Type = [], re_Status = ''running'', re_Port = 8000 \<rparr>]"

theorem discovered_backends_witness:
  "dom (rt_registry (fst (refresh (discovery_get toy_dec toy_discovery (Health_New 0) (fixed_docker two_containers) () ''http://d'')
     (\<lambda>_. HttpErr) (NewModelRouter ''http://d'')))) = {''org-llama''}"
proof -
  let ?R = "refresh (discovery_get toy_dec toy_discovery (Health_New 0) (fixed_docker two_containers) () ''http://d'')
     (\<lambda>_. HttpErr) (NewModelRouter ''http://d'')"
  obtain rt e where R: "?R = (rt, e)" by fastforce
  have v: "List.map_filter managed_view two_containers = [(''cpu'', ''org-llama'', ''0123456789abcdef'', ''running'')]" by code_simp
  have dec: "\<exists>es. toy_dec (de_enc toy_discovery (running_response ms)) = Some es \<and> same_models es ms"
    if "map view ms = List.map_filter managed_view two_containers" for ms
    using that unfolding v by (auto simp: toy_dec_def same_models_def view_def Cons_eq_map_conv map_eq_Cons_conv)
  have base: "TrimSuffix (rt_managementURL (NewModelRouter ''http://d'')) ''/'' = ''http://d''" by code_simp
  have "dom (rt_registry rt) = {sanitized m |m gpu cid st. Managed m gpu cid st \<in> set two_containers \<and> status_of st = ''running''}"
    using discovered_backends [of "fixed_docker two_containers" "()" _ _ two_containers toy_dec toy_discovery, OF fixed_docker_ps _ two_containers_ok _ dec base R]
    by simp
  moreover have "sanitized ''org/llama'' = ''org-llama''" "status_of ''Up 2 hours'' = ''running''" by code_simp+
  ultimately show ?thesis unfolding R by (simp add: two_containers_def ex_bool_eq)
qed

subsection \<open>Probes\<close>

lemma readiness_ok:
  assumes "set names = dom (hc_checks c)"
  shows "w_Status (ReadinessHandler enc uptime names c) = (if \<forall>n ck. hc_checks c n = Some ck \<longrightarrow> fst ck = None then 200 else 503)"
proof -
  have "list_ex (\<lambda>n. case map_option check_result (hc_checks c n) of Some r \<Rightarrow> ck_Status r \<noteq> ''ok'' | None \<Rightarrow> False) names
      \<longleftrightarrow> \<not> (\<forall>n ck. hc_checks c n = Some ck \<longrightarrow> fst ck = None)"
    using assms by (force simp: list_ex_iff check_result_def dom_def split: option.splits prod.splits)
  then show ?thesis unfolding ReadinessHandler_def writeJSON_def Let_def by (simp only: response.simps if_not_P if_P simp_thms split: if_split) blast
qed

text \<open>The discovery service registers no check: it is ready whether or not docker answers.\<close>

lemma discovery_always_ready:
  "w_Status (ReadinessHandler enc uptime [] (Health_New now)) = 200"
  by (subst readiness_ok) (simp_all add: Health_New_def)

end
