(* ===== verification/Assembly.thy ===== *)
theory Assembly
  imports Configuration Services Access Quota Archive Gateway Hardware
begin

text \<open>
  The gateway process (\<open>cmd/gateway.go\<close>): the settings it takes from flags, environment, file and
  defaults, the assembly of the gateway from its components, the routes it registers, the audit
  endpoints, and a request from the routes to the answer. The components are those of their theories;
  opening the audit sinks, the key file, random bytes, URL parsing, rendered texts, clock readings and
  map orders are arguments. Tracing, logging and the banner are not modelled; TLS and shutdown are in theory \<open>Serving\<close>.
\<close>

subsection \<open>Settings\<close>

text \<open>A flag is \<open>Some\<close> when the user passed it.\<close>

record gateway_flags =
  gf_backend :: "gostr option"
  gf_port :: "int option"
  gf_rateLimit :: "flt option"
  gf_apiKeyHeader :: "gostr option"
  gf_auditBuffer :: int
  gf_auditDB :: "gostr option"
  gf_auditKey :: gostr
  gf_keys :: "gostr option"
  gf_discoveryURL :: "gostr option"
  gf_admissionEnabled :: "bool option"
  gf_hardCachePct :: "flt option"
  gf_softCachePct :: "flt option"
  gf_maxQueuePerGB :: "int option"
  gf_pollSeconds :: "int option"

record settings =
  se_backend :: gostr
  se_port :: int
  se_rateLimit :: flt
  se_apiKeyHeader :: gostr
  se_auditBuffer :: int
  se_auditDB :: gostr
  se_auditKey :: gostr
  se_keysPath :: gostr
  se_discoveryURL :: gostr
  se_admission :: Config
  se_quota :: QuotaConfig
  se_jsonlDir :: gostr
  se_retentionDays :: int

definition override :: "'a \<Rightarrow> 'a option \<Rightarrow> 'a" where
  "override d f = (case f of Some v \<Rightarrow> v | None \<Rightarrow> d)"

definition admission_settings :: "config \<Rightarrow> gateway_flags \<Rightarrow> Config" where
  "admission_settings cfg fs =
     (let a = (\<lambda>n. [''Gateway'', ''Admission'', n]) in
      \<lparr> cf_Enabled = override (bool_at (a ''Enabled'') cfg) (gf_admissionEnabled fs),
        cf_HardCachePct = override (float_at (a ''HardCachePct'') cfg) (gf_hardCachePct fs),
        cf_SoftCachePct = override (float_at (a ''SoftCachePct'') cfg) (gf_softCachePct fs),
        cf_MaxQueuePerGB = override (int_at (a ''MaxQueuePerGB'') cfg) (gf_maxQueuePerGB fs),
        cf_PollInterval = i64 (override (int_at (a ''PollSeconds'') cfg) (gf_pollSeconds fs) * second),
        cf_EMAAlpha = float_at (a ''EMAAlpha'') cfg,
        cf_CalmDuration = i64 (int_at (a ''CalmSeconds'') cfg * second),
        cf_StressMargin = float_at (a ''StressMargin'') cfg,
        cf_MinHardCachePct = float_at (a ''MinHardCachePct'') cfg \<rparr>)"

text \<open>\<open>random\<close>: the 32 bytes drawn when no audit key is given.\<close>

definition audit_key :: "gostr \<Rightarrow> environment \<Rightarrow> gostr \<Rightarrow> gostr \<Rightarrow> gostr" where
  "audit_key flag env random auditDB =
     (let key = (if flag = [] then (case env ''SOVSTACK_AUDIT_KEY'' of Some v \<Rightarrow> v | None \<Rightarrow> []) else flag)
      in if key = [] \<and> auditDB \<noteq> [] then hex_encode random else key)"

definition gateway_settings :: "environment \<Rightarrow> gostr \<Rightarrow> config \<Rightarrow> gateway_flags \<Rightarrow> settings" where
  "gateway_settings env random cfg fs =
     (let g = (\<lambda>n. [''Gateway'', n]); q = (\<lambda>p. string_at ([''Gateway'', ''Quota''] @ p) cfg);
          auditDB = override (string_at (g ''AuditDB'') cfg) (gf_auditDB fs) in
      \<lparr> se_backend = override (string_at (g ''Backend'') cfg) (gf_backend fs),
        se_port = override (int_at (g ''Port'') cfg) (gf_port fs),
        se_rateLimit = override (float_at (g ''RateLimit'') cfg) (gf_rateLimit fs),
        se_apiKeyHeader = override (string_at (g ''APIKeyHeader'') cfg) (gf_apiKeyHeader fs),
        se_auditBuffer = gf_auditBuffer fs,
        se_auditDB = auditDB,
        se_auditKey = audit_key (gf_auditKey fs) env random auditDB,
        se_keysPath = override (string_at (g ''KeysFile'') cfg) (gf_keys fs),
        se_discoveryURL = override (string_at (g ''DiscoveryURL'') cfg) (gf_discoveryURL fs),
        se_admission = admission_settings cfg fs,
        se_quota = \<lparr> qc_Backend = q [''Backend''], qc_SQLiteDB = q [''SQLiteDB''], qc_RedisAddr = q [''Redis'', ''Addr''],
                     qc_RedisKeyPrefix = q [''Redis'', ''KeyPrefix''] \<rparr>,
        se_jsonlDir = string_at [''Gateway'', ''Audit'', ''JSONLDir''] cfg,
        se_retentionDays = int_at [''Gateway'', ''Audit'', ''RetentionDays''] cfg \<rparr>)"

subsection \<open>Assembling the gateway\<close>

datatype start_error =
  AuditSQLite | AuditBufferPanic | AuditJSONL | LoadKeys key_error | QuotaBackend build_error | BadBackendURL | PollPanic

record start_inputs =
  si_open_sqlite :: "gostr \<Rightarrow> gostr \<Rightarrow> SQLiteLogger option"
  si_open_jsonl :: "gostr \<Rightarrow> JSONLLogger option"
  si_load_keys :: "gostr \<Rightarrow> key_error + KeyStore"
  si_sqlite_opens :: bool
  si_redis_reachable :: bool
  si_parse_url :: "gostr \<Rightarrow> url option"
  si_models :: "gostr \<Rightarrow> running_entry list http_result"
  si_caps :: caps_get
  si_hw :: hw_env

text \<open>The primary sink, the optional JSON lines sink, and the pruner of the primary sink.\<close>

definition audit_sinks :: "start_inputs \<Rightarrow> settings \<Rightarrow> start_error + sink" where
  "audit_sinks si se =
     (case (if se_auditDB se \<noteq> [] then
              (case si_open_sqlite si (se_auditDB se) (se_auditKey se) of None \<Rightarrow> Inl AuditSQLite | Some l \<Rightarrow> Inr (Sql l))
            else (case NewLogger (se_auditBuffer se) of None \<Rightarrow> Inl AuditBufferPanic | Some l \<Rightarrow> Inr (Mem l))) of
        Inl e \<Rightarrow> Inl e
      | Inr primary \<Rightarrow>
          if se_jsonlDir se = [] then Inr primary
          else (case si_open_jsonl si (se_jsonlDir se) of
              None \<Rightarrow> Inl AuditJSONL | Some l \<Rightarrow> Inr (MultiSink [primary, Jsonl l])))"

definition audit_pruner :: "settings \<Rightarrow> Pruner option" where
  "audit_pruner se =
     (if 0 < se_retentionDays se \<and> se_auditDB se \<noteq> []
      then Some (NewPruner (i64 (i64 (se_retentionDays se * 24) * hour)) hour) else None)"

text \<open>A poll interval below zero makes the ticker of the poller panic, which ends the process.\<close>

definition buildAdmissionController :: "hw_env \<Rightarrow> Config \<Rightarrow> start_error + Controller option" where
  "buildAdmissionController henv cfg =
     (if \<not> cf_Enabled cfg then Inr None
      else
        let hw = GetSystemHardware henv;
            budget = \<lparr> hb_TotalVRAMBytes = hw_TotalVRAM hw, hb_TotalRAMBytes = hw_SystemRAM hw, hb_CPUCores = hw_CPUCores hw \<rparr>;
            c = Admission.New cfg budget True
        in if cf_PollInterval (ct_cfg c) \<le> 0 then Inl PollPanic else Inr (Admission.Start c))"

text \<open>The keys accepted without a key file.\<close>

definition test_keys :: api_keys where
  "test_keys = APIKey_AddKey ''sk_demo_456'' ''demo-user'' (APIKey_AddKey ''sk_test_123'' ''test-user'' Map.empty)"

record components =
  cp_settings :: settings
  cp_target :: url
  cp_store :: "KeyStore option"
  cp_quota :: "quota_backend option"
  cp_router :: ModelRouter
  cp_admission :: "Controller option"
  cp_audit :: sink
  cp_pruner :: "Pruner option"

definition start_gateway :: "start_inputs \<Rightarrow> settings \<Rightarrow> start_error + components" where
  "start_gateway si se =
     (case audit_sinks si se of
        Inl e \<Rightarrow> Inl e
      | Inr lg \<Rightarrow>
          (case (if se_keysPath se = [] then Inr None
                 else case si_load_keys si (se_keysPath se) of Inl e \<Rightarrow> Inl (LoadKeys e) | Inr ks \<Rightarrow> Inr (Some ks)) of
             Inl e \<Rightarrow> Inl e
           | Inr store \<Rightarrow>
               (case (if store = None then Inr None
                      else case BuildQuotaBackend (si_sqlite_opens si) (si_redis_reachable si) (se_quota se) of
                          Inl e \<Rightarrow> Inl (QuotaBackend e) | Inr (b, _) \<Rightarrow> Inr (Some b)) of
                  Inl e \<Rightarrow> Inl e
                | Inr quota \<Rightarrow>
                    (case buildAdmissionController (si_hw si) (se_admission se) of
                       Inl e \<Rightarrow> Inl e
                     | Inr ctrl \<Rightarrow>
                         (case si_parse_url si (se_backend se) of
                            None \<Rightarrow> Inl BadBackendURL
                          | Some target \<Rightarrow> Inr
                              \<lparr> cp_settings = se, cp_target = target, cp_store = store, cp_quota = quota,
                                cp_router = StartDiscovery (si_models si) (si_caps si) (NewModelRouter (se_discoveryURL se)),
                                cp_admission = ctrl, cp_audit = lg, cp_pruner = audit_pruner se \<rparr>)))))"

subsection \<open>The interfaces of the running gateway\<close>

text \<open>What a request sees: the primitives of the key store and the iteration order of its users, the
  clock, the texts of admission reasons and quota errors, and the counters of the quota backend.\<close>

record 'q live_env =
  le_prims :: prims
  le_order :: "gostr list"
  le_time :: time
  le_reason :: "reason \<Rightarrow> gostr"
  le_quota_text :: "quota_error \<Rightarrow> gostr"
  le_getDaily :: "'q \<Rightarrow> gostr \<Rightarrow> int option"
  le_getMonthly :: "'q \<Rightarrow> gostr \<Rightarrow> int option"
  le_addDaily :: "gostr \<Rightarrow> int \<Rightarrow> 'q \<Rightarrow> 'q"
  le_addMonthly :: "gostr \<Rightarrow> int \<Rightarrow> 'q \<Rightarrow> 'q"

definition auth_provider :: "'q live_env \<Rightarrow> KeyStore option \<Rightarrow> gostr \<Rightarrow> gostr + gostr" where
  "auth_provider le store token =
     (case store of
        None \<Rightarrow> (case APIKey_ValidateToken test_keys token of Some u \<Rightarrow> Inr u | None \<Rightarrow> Inl ''invalid API key'')
      | Some ks \<Rightarrow>
          (case Adapter_ValidateToken (le_prims le) (le_order le) ks token of
             Some (Some u) \<Rightarrow> Inr u | _ \<Rightarrow> Inl ''invalid API key''))"

definition access_controller :: "KeyStore \<Rightarrow> AccessController" where
  "access_controller ks = \<lparr> ac_CanAccess = CanAccess ks, ac_IsSourceIPAllowed = Some (IsSourceIPAllowed ks) \<rparr>"

definition quota_manager :: "'q live_env \<Rightarrow> KeyStore \<Rightarrow> 'q QuotaManager" where
  "quota_manager le ks =
     \<lparr> qm_CheckQuota = (\<lambda>q u. map_option (le_quota_text le) (CheckQuota ks (le_getDaily le q) (le_getMonthly le q) u)),
       qm_Record = Record (le_addDaily le) (le_addMonthly le) \<rparr>"

definition admission_control :: "'q live_env \<Rightarrow> Controller \<Rightarrow> gostr \<Rightarrow> decision" where
  "admission_control le c model =
     (let d = Admission.Allow (le_time le) model c in
      \<lparr> de_Allow = dc_Allow d, de_Reason = le_reason le (dc_Reason d), de_RetryAfter = dc_RetryAfter d \<rparr>)"

definition gateway_config :: "'q live_env \<Rightarrow> components \<Rightarrow> 'q GatewayConfig" where
  "gateway_config le cp =
     \<lparr> gc_TargetURL = se_backend (cp_settings cp), gc_AuthProvider = Some (auth_provider le (cp_store cp)),
       gc_AccessController = map_option access_controller (cp_store cp),
       gc_QuotaManager = map_option (quota_manager le) (cp_store cp), gc_ModelRouter = Some (cp_router cp),
       gc_AdmissionCtrl = map_option (admission_control le) (cp_admission cp),
       gc_RequestsPerMin = se_rateLimit (cp_settings cp), gc_APIKeyHeader = se_apiKeyHeader (cp_settings cp) \<rparr>"

definition live_gateway :: "'q live_env \<Rightarrow> components \<Rightarrow> 'q Gateway" where
  "live_gateway le cp = the (NewGateway (\<lambda>_. Some (cp_target cp)) (gateway_config le cp))"

text \<open>A stored hash that makes the verification panic aborts the request after it was counted.\<close>

definition auth_panics :: "'q live_env \<Rightarrow> components \<Rightarrow> request \<Rightarrow> bool" where
  "auth_panics le cp r \<longleftrightarrow>
     (let key = request_key (live_gateway le cp) r in
      key \<noteq> [] \<and> (\<exists>ks \<in> set_option (cp_store cp). Adapter_ValidateToken (le_prims le) (le_order le) ks key = None))"

definition serve_gateway ::
    "gw_env \<Rightarrow> 'q live_env \<Rightarrow> components \<Rightarrow> request \<Rightarrow> 'q gw_state \<Rightarrow> response option \<times> 'q gw_state" where
  "serve_gateway env le cp r st =
     (if auth_panics le cp r then (None, on_metrics RecordRequest st) else ServeHTTP env (live_gateway le cp) r st)"

subsection \<open>The audit endpoints\<close>

definition log_count :: "request \<Rightarrow> int" where
  "log_count r =
     (let nStr = QueryGet r ''n'' in
      if nStr = [] then 100
      else (case scan_int (- (2 ^ 63)) (2 ^ 63 - 1) nStr of Some (n, _) \<Rightarrow> n | None \<Rightarrow> 100))"

text \<open>One entry, with the layout of the format string; \<open>fmt\<close> renders a time.\<close>

definition log_line :: "gostr \<Rightarrow> gostr" where
  "log_line field = [CHR 0x0A, CHR 0x09, CHR 0x09, CHR 0x09] @ field"

definition spaced :: "gostr \<Rightarrow> gostr \<Rightarrow> gostr" where
  "spaced k v = dq @ k @ dq @ '': '' @ v"

definition render_log :: "(time \<Rightarrow> gostr) \<Rightarrow> AuditLog \<Rightarrow> gostr" where
  "render_log fmt e =
     ''{'' @ log_line (spaced ''timestamp'' (dq @ fmt (al_Timestamp e) @ dq)) @ '','' @
     log_line (spaced ''event_type'' (dq @ al_EventType e @ dq)) @ '','' @
     log_line (spaced ''user'' (dq @ al_User e @ dq)) @ '','' @
     log_line (spaced ''model'' (dq @ al_Model e @ dq)) @ '','' @
     log_line (spaced ''endpoint'' (dq @ al_Endpoint e @ dq)) @ '','' @
     log_line (spaced ''status_code'' (Itoa (al_StatusCode e))) @ '','' @
     log_line (spaced ''tokens_used'' (Itoa (al_TokensUsed e))) @ '','' @
     log_line (spaced ''duration_ms'' (Itoa (al_DurationMS e))) @
     [CHR 0x0A, CHR 0x09, CHR 0x09] @ ''}''"

definition handleAuditLogs :: "(time \<Rightarrow> gostr) \<Rightarrow> (int \<Rightarrow> AuditLog list) \<Rightarrow> request \<Rightarrow> response" where
  "handleAuditLogs fmt getLogs r =
     \<lparr> w_Header = json_header, w_Status = 200,
       w_Body = ''{'' @ dq @ ''logs'' @ dq @ '': ['' @ Join '','' (map (render_log fmt) (getLogs (log_count r))) @ '']}'' \<rparr>"

definition handleAuditStats :: "Stats \<Rightarrow> response" where
  "handleAuditStats ss =
     \<lparr> w_Header = json_header, w_Status = 200,
       w_Body = ''{'' @ Join '',''
         [spaced ''total_logs'' (Itoa (ss_total_logs ss)), spaced ''total_requests'' (Itoa (ss_total_requests ss)),
          spaced ''total_errors'' (Itoa (ss_total_errors ss)), spaced ''total_tokens_used'' (Itoa (ss_tokens_used ss)),
          spaced ''unique_users'' (Itoa (ss_unique_users ss)), spaced ''unique_models'' (Itoa (ss_unique_models ss))] @ ''}'' \<rparr>"

subsection \<open>Routes\<close>

datatype gateway_handler = G_AuditLogs | G_AuditStats | G_Metrics | G_Liveness | G_Readiness | G_Gateway

definition gateway_routes :: "(gostr \<times> gateway_handler) list" where
  "gateway_routes =
     [(''/api/v1/audit/logs'', G_AuditLogs), (''/api/v1/audit/stats'', G_AuditStats), (''/metrics'', G_Metrics),
      (''/healthz'', G_Liveness), (''/readyz'', G_Readiness), (''/'', G_Gateway)]"

text \<open>The answers of the endpoints the theory does not compute: the Prometheus text, the probes, a
  redirect, and how times are rendered; and what the audit logger answers.\<close>

record server_env =
  sv_metrics :: response
  sv_liveness :: response
  sv_readiness :: response
  sv_redirect :: "request \<Rightarrow> gostr \<Rightarrow> response"
  sv_fmt :: "time \<Rightarrow> gostr"
  sv_logs :: "int \<Rightarrow> AuditLog list"
  sv_stats :: Stats

definition serve ::
    "server_env \<Rightarrow> gw_env \<Rightarrow> 'q live_env \<Rightarrow> components \<Rightarrow> request \<Rightarrow> 'q gw_state \<Rightarrow> response option \<times> 'q gw_state" where
  "serve sv env le cp r st =
     (case mux_route gateway_routes r of
        RedirectTo target \<Rightarrow> (Some (sv_redirect sv r target), st)
      | NoHandler \<Rightarrow> (Some not_found, st)
      | Handler G_AuditLogs \<Rightarrow> (Some (handleAuditLogs (sv_fmt sv) (sv_logs sv) r), st)
      | Handler G_AuditStats \<Rightarrow> (Some (handleAuditStats (sv_stats sv)), st)
      | Handler G_Metrics \<Rightarrow> (Some (sv_metrics sv), st)
      | Handler G_Liveness \<Rightarrow> (Some (sv_liveness sv), st)
      | Handler G_Readiness \<Rightarrow> (Some (sv_readiness sv), st)
      | Handler G_Gateway \<Rightarrow> serve_gateway env le cp r st)"

subsection \<open>Who is forwarded\<close>

lemma live_gateway_simps [simp]:
  "gw_authProvider (live_gateway le cp) = Some (auth_provider le (cp_store cp))"
  "gw_accessController (live_gateway le cp) = map_option access_controller (cp_store cp)"
  "gw_quotaManager (live_gateway le cp) = map_option (quota_manager le) (cp_store cp)"
  "gw_modelRouter (live_gateway le cp) = Some (cp_router cp)"
  "gw_admissionCtrl (live_gateway le cp) = map_option (admission_control le) (cp_admission cp)"
  "gw_targetURL (live_gateway le cp) = cp_target cp"
  by (simp_all add: live_gateway_def NewGateway_def gateway_config_def)

text \<open>The profiles are filed under their IDs.\<close>

definition keyed :: "KeyStore \<Rightarrow> bool" where
  "keyed ks \<longleftrightarrow> (\<forall>k p. ks_Users ks k = Some p \<longrightarrow> up_ID p = k)"

lemma get_by_key_stored: "get_by_key P us k ks = Inr (Some p) \<Longrightarrow> \<exists>i. us i = Some p"
  by (induction ks) (auto split: option.splits verify_result.splits bool.splits if_splits)

lemma GetByKey_stored: "GetByKey P order k ks = Inr (Some p) \<Longrightarrow> keyed ks \<Longrightarrow> ks_Users ks (up_ID p) = Some p"
  using get_by_key_stored [of P "ks_Users ks" k order p] by (auto simp: GetByKey_def keyed_def)

definition below_limit :: "int \<Rightarrow> int option \<Rightarrow> bool" where
  "below_limit limit used \<longleftrightarrow> limit \<le> 0 \<or> (case used of Some x \<Rightarrow> x < limit | None \<Rightarrow> False)"

lemma authenticate_user:
  assumes "cp_store cp = Some ks" "u \<noteq> []"
  shows "authenticate (live_gateway le cp) r st = Inr u \<longleftrightarrow>
    request_key (live_gateway le cp) r \<noteq> [] \<and>
    (\<exists>p. GetByKey (le_prims le) (le_order le) (request_key (live_gateway le cp) r) ks = Inr (Some p) \<and> up_ID p = u)"
  using assms
  by (auto simp: authenticate_def auth_provider_def Adapter_ValidateToken_def Let_def
      split: sum.splits option.splits lookup_error.splits)


text \<open>C1: Behind a key file, the profile the key belongs to decides. A request that reaches the gateway
  handler is forwarded for a user exactly when its key is the key of a stored profile of that user, and
  by that same profile the source address is allowed, the model is one of its models (or the wildcard),
  its daily and monthly limits are not reached, and the rate limit, the admission controller, the
  routing table and the body admit it; without a profile for the key nothing is forwarded for a user.\<close>

theorem profile_decides:
  assumes "mux_route gateway_routes r = Handler G_Gateway" "cp_store cp = Some ks" "keyed ks" "\<not> auth_panics le cp r" "u \<noteq> []"
  shows "(\<exists>c \<in> set (new_audit st (snd (serve sv env le cp r st))). c = request_call env r u m) \<longleftrightarrow>
    request_key (live_gateway le cp) r \<noteq> [] \<and>
    (\<exists>p. GetByKey (le_prims le) (le_order le) (request_key (live_gateway le cp) r) ks = Inr (Some p) \<and> up_ID p = u \<and>
       IsIPAllowed p (getClientIP r) \<and> list_ex (\<lambda>x. x = ''*'' \<or> x = m) (up_AllowedModels p) \<and>
       below_limit (up_MaxTokensPerDay p) (le_getDaily le (gs_quota st) u) \<and>
       below_limit (up_MaxTokensPerMonth p) (le_getMonthly le (gs_quota st) u)) \<and>
    fst (rate_limiter env (live_gateway le cp) u (gs_limiter st)) \<and>
    (\<forall>c. cp_admission cp = Some c \<longrightarrow> dc_Allow (Admission.Allow (le_time le) m c)) \<and>
    routable (live_gateway le cp) r \<and> body_ok env r \<and>
    special_endpoint env (live_gateway le cp) r u = None \<and> m = extractModelName env r"
proof -
  have q: "CheckQuota ks d mo u = None \<longleftrightarrow>
      below_limit (up_MaxTokensPerDay p) (d u) \<and> below_limit (up_MaxTokensPerMonth p) (mo u)"
    if "ks_Users ks u = Some p" for p d mo
    using that assms(5) by (auto simp: check_quota_gen below_limit_def split: option.split)
  have s: "snd (serve sv env le cp r st) = snd (ServeHTTP env (live_gateway le cp) r st)"
    using assms(1,4) by (simp add: serve_def serve_gateway_def)
  show ?thesis
    unfolding s forwarded_iff authenticate_user [OF assms(2,5)]
    using assms(2,5) GetByKey_stored [OF _ assms(3)] q
    by (auto simp: ip_ok_def access_ok_def quota_ok_def admission_ok_def access_controller_def quota_manager_def
        admission_control_def Let_def CanAccess_def IsSourceIPAllowed_def GetByID_def)
qed


text \<open>A gateway with one service account.\<close>

definition one_user_store :: KeyStore where
  "one_user_store = toy_store\<lparr> ks_Users := [''u'' \<mapsto> toy_user ''u'' ''k''] \<rparr>"

definition toy_settings :: settings where
  "toy_settings = \<lparr> se_backend = ''http://vllm'', se_port = 8001, se_rateLimit = Fin 0, se_apiKeyHeader = ''X-API-Key'',
     se_auditBuffer = 10, se_auditDB = [], se_auditKey = [], se_keysPath = ''keys.json'', se_discoveryURL = ''http://d'',
     se_admission = example_config, se_quota = \<lparr> qc_Backend = ''memory'', qc_SQLiteDB = [], qc_RedisAddr = [], qc_RedisKeyPrefix = [] \<rparr>,
     se_jsonlDir = [], se_retentionDays = 0 \<rparr>"

definition toy_components :: components where
  "toy_components = \<lparr> cp_settings = toy_settings,
     cp_target = \<lparr> u_Scheme = ''http'', u_Host = ''vllm'', u_Path = [], u_RawPath = [], u_RawQuery = [] \<rparr>,
     cp_store = Some one_user_store, cp_quota = None, cp_router = NewModelRouter ''http://d'', cp_admission = None,
     cp_audit = Mem \<lparr> lg_logs = [], lg_maxLogs = 10 \<rparr>, cp_pruner = None \<rparr>"

definition toy_live :: "unit live_env" where
  "toy_live = \<lparr> le_prims = toy_prims, le_order = [''u''], le_time = 0, le_reason = (\<lambda>_. []), le_quota_text = (\<lambda>_. []),
     le_getDaily = (\<lambda>_ _. Some 5), le_getMonthly = (\<lambda>_ _. None), le_addDaily = (\<lambda>_ _ q. q), le_addMonthly = (\<lambda>_ _ q. q) \<rparr>"

definition llama_post :: request where
  "llama_post = \<lparr> r_Method = ''POST'',
     r_URL = \<lparr> u_Scheme = [], u_Host = [], u_Path = ''/v1/completions'', u_RawPath = [], u_RawQuery = [] \<rparr>,
     r_Host = ''gw'', r_RequestURI = ''/v1/completions'', r_RemoteAddr = ''10.1.2.3:5'',
     r_Header = [''X-Api-Key'' \<mapsto> [''k'']], r_Body = Some ''{}'' \<rparr>"

definition llama_env :: gw_env where
  "llama_env = plain_env\<lparr> ge_json_model := (\<lambda>_. Some ''llama'') \<rparr>"

definition toy_server :: server_env where
  "toy_server = \<lparr> sv_metrics = not_found, sv_liveness = not_found, sv_readiness = not_found, sv_redirect = (\<lambda>_ _. not_found),
     sv_fmt = (\<lambda>_. []), sv_logs = (\<lambda>_. []), sv_stats = no_stats \<rparr>"

theorem profile_decides_witness:
  "\<exists>c \<in> set (new_audit fresh_state (snd (serve toy_server llama_env toy_live toy_components llama_post fresh_state))).
     c = request_call llama_env llama_post ''u'' ''llama''"
proof -
  let ?gw = "live_gateway toy_live toy_components"
  have route: "mux_route gateway_routes llama_post = Handler G_Gateway" by code_simp
  have store: "cp_store toy_components = Some one_user_store" "keyed one_user_store"
    by (simp_all add: toy_components_def one_user_store_def keyed_def toy_user_def)
  have key: "request_key ?gw llama_post = ''k''" by code_simp
  have look: "GetByKey (le_prims toy_live) (le_order toy_live) ''k'' one_user_store = Inr (Some (toy_user ''u'' ''k''))"
    by code_simp
  have np: "\<not> auth_panics toy_live toy_components llama_post"
    by (simp add: auth_panics_def key store Adapter_ValidateToken_def look)
  have user: "up_ID (toy_user ''u'' ''k'') = ''u''" "IsIPAllowed (toy_user ''u'' ''k'') (getClientIP llama_post)"
    "list_ex (\<lambda>x. x = ''*'' \<or> x = ''llama'') (up_AllowedModels (toy_user ''u'' ''k''))"
    "below_limit (up_MaxTokensPerDay (toy_user ''u'' ''k'')) (le_getDaily toy_live (gs_quota fresh_state) ''u'')"
    "below_limit (up_MaxTokensPerMonth (toy_user ''u'' ''k'')) (le_getMonthly toy_live (gs_quota fresh_state) ''u'')"
    by code_simp+
  have rest: "fst (rate_limiter llama_env ?gw ''u'' (gs_limiter fresh_state))" "cp_admission toy_components = None"
    "body_ok llama_env llama_post" "special_endpoint llama_env ?gw llama_post ''u'' = None"
    by (simp_all add: rate_limiter_def live_gateway_def NewGateway_def gateway_config_def toy_components_def toy_settings_def
        body_ok_def llama_env_def plain_env_def special_endpoint_def llama_post_def)
  have m: "''llama'' = extractModelName llama_env llama_post" "extractModelNameFromPath (u_Path (r_URL llama_post)) = []"
    by code_simp+
  have rt: "routable ?gw llama_post" by (simp add: routable_def m)
  show ?thesis
    by (subst profile_decides [OF route store np]) (use key look user rest m rt in simp_all)
qed

text \<open>The source address of a request is what the client says it is. The allowlist is checked against
  the first entry of \<open>X-Forwarded-For\<close>, which the client sets: for every service account whose allowlist
  has a plain address, a request with that address in the header passes the address gate from anywhere.\<close>

theorem spoofed_source:
  assumes "cp_store cp = Some ks" "ks_Users ks u = Some p" "octets [a, b, c, d]" "dotted a b c d \<in> set (up_IPAllowlist p)"
  shows "ip_ok (live_gateway le cp)
    (r\<lparr> r_RemoteAddr := anywhere, r_Header := HSet (r_Header r) ''X-Forwarded-For'' (dotted a b c d) \<rparr>) u"
proof -
  let ?r = "r\<lparr> r_RemoteAddr := anywhere, r_Header := HSet (r_Header r) ''X-Forwarded-For'' (dotted a b c d) \<rparr>"
  have "CHR '','' \<notin> set (dotted a b c d)" using dotted_chars [OF assms(3), of "CHR '',''"] by (auto simp: is_digit_def)
  then have g: "getClientIP ?r = dotted a b c d"
    using dotted_nonempty assms(3) by (simp add: getClientIP_def HGet_HSet TrimSpace_dotted Split_no_sep)
  have "list_ex (entry_matches (v4_base + v4_num a b c d)) (up_IPAllowlist p)"
    using assms(4) entry_matches_ip [OF assms(3)] by (auto simp: list_ex_iff)
  then have "IsIPAllowed p (dotted a b c d)"
    using assms(3) by (simp add: IsIPAllowed_def SplitHostPort_dotted TrimSpace_dotted ParseIP_dotted)
  then show ?thesis using assms(1,2) unfolding ip_ok_def g
    by (auto simp: access_controller_def IsSourceIPAllowed_def GetByID_def)
qed

theorem spoofed_source_witness:
  "ip_ok (live_gateway toy_live (toy_components\<lparr> cp_store := Some (one_user_store\<lparr> ks_Users := [''u'' \<mapsto> (toy_user ''u'' ''k'')\<lparr> up_IPAllowlist := [dotted 10 0 0 7] \<rparr>] \<rparr>) \<rparr>))
     (llama_post\<lparr> r_RemoteAddr := ''203.0.113.9:5'', r_Header := HSet (r_Header llama_post) ''X-Forwarded-For'' (dotted 10 0 0 7) \<rparr>) ''u''"
  by (rule spoofed_source [of _ "one_user_store\<lparr> ks_Users := [''u'' \<mapsto> (toy_user ''u'' ''k'')\<lparr> up_IPAllowlist := [dotted 10 0 0 7] \<rparr>] \<rparr>" _
      "(toy_user ''u'' ''k'')\<lparr> up_IPAllowlist := [dotted 10 0 0 7] \<rparr>"]) (simp_all add: octets_def)

subsection \<open>Endpoints without authentication\<close>

text \<open>The audit log is served without authentication. Whatever headers a request carries, and whatever
  the state of the gateway, a request for the audit logs is answered with status 200 and the last
  entries of the audit log, and one for the statistics with the statistics; neither is counted, limited
  or audited.\<close>

theorem audit_endpoints_open:
  assumes "r_Method r \<noteq> ''CONNECT''"
  shows "(u_Path (r_URL r) = ''/api/v1/audit/logs'' \<longrightarrow>
       serve sv env le cp r st = (Some (handleAuditLogs (sv_fmt sv) (sv_logs sv) r), st) \<and>
       handleAuditLogs (sv_fmt sv) (sv_logs sv) (r\<lparr> r_Header := h \<rparr>) = handleAuditLogs (sv_fmt sv) (sv_logs sv) r \<and>
       w_Status (handleAuditLogs (sv_fmt sv) (sv_logs sv) r) = 200) \<and>
    (u_Path (r_URL r) = ''/api/v1/audit/stats'' \<longrightarrow>
       serve sv env le cp r st = (Some (handleAuditStats (sv_stats sv)), st))"
proof -
  have c: "mux_clean ''/api/v1/audit/logs'' = ''/api/v1/audit/logs''" "mux_clean ''/api/v1/audit/stats'' = ''/api/v1/audit/stats''"
    "map_of gateway_routes ''/api/v1/audit/logs'' = Some G_AuditLogs" "map_of gateway_routes ''/api/v1/audit/stats'' = Some G_AuditStats"
    by code_simp+
  have "mux_route gateway_routes r = Handler G_AuditLogs" if "u_Path (r_URL r) = ''/api/v1/audit/logs''"
    unfolding mux_route_def that using assms c by simp
  moreover have "mux_route gateway_routes r = Handler G_AuditStats" if "u_Path (r_URL r) = ''/api/v1/audit/stats''"
    unfolding mux_route_def that using assms c by simp
  ultimately show ?thesis
    by (auto simp: serve_def handleAuditLogs_def log_count_def QueryGet_def)
qed

theorem audit_endpoints_open_witness:
  "serve toy_server llama_env toy_live toy_components (get_request ''/api/v1/audit/stats'') fresh_state =
     (Some (handleAuditStats no_stats), fresh_state)"
  using audit_endpoints_open [of "get_request ''/api/v1/audit/stats''" toy_server llama_env toy_live toy_components fresh_state]
  by (simp add: get_request_def toy_server_def)

subsection \<open>The breaker of a gateway beside the discovery service\<close>

text \<open>The controller polls the discovery URL for the models and for their metrics.\<close>

definition discovery_answer :: "discovery_env \<Rightarrow> Checker \<Rightarrow> 'w docker \<Rightarrow> 'w \<Rightarrow> gostr \<Rightarrow> (int \<times> gostr) option" where
  "discovery_answer env hc exec w path =
     map_option (\<lambda>resp. (w_Status resp, w_Body resp)) (fst (runDiscovery env hc exec (get_request path) w))"

definition metrics_path :: "gostr \<Rightarrow> gostr" where
  "metrics_path model = ''/api/v1/models/'' @ model @ ''/metrics''"

definition poll_discovery ::
    "discovery_env \<Rightarrow> Checker \<Rightarrow> 'w docker \<Rightarrow> gostr list option \<Rightarrow> (nat \<Rightarrow> 'w) \<Rightarrow> (nat \<Rightarrow> time) \<Rightarrow> Controller \<Rightarrow> Controller" where
  "poll_discovery env hc exec models ws clock c =
     tick models (\<lambda>i. Fetch (discovery_answer env hc exec (ws i) (metrics_path (the models ! i)))) clock c"

text \<open>Names that are one element of a URL path.\<close>

definition url_name :: "gostr \<Rightarrow> bool" where
  "url_name s \<longleftrightarrow> plain_name s \<and> list_all (\<lambda>c. c \<notin> {CHR ''?'', CHR ''#'', CHR ''%''}) s"

lemma Clean_plain:
  assumes "ds \<noteq> []" "\<forall>x \<in> set ds. plain_name x"
  shows "Clean (''/'' @ Join ''/'' ds) = ''/'' @ Join ''/'' ds"
proof -
  have s: "Split (CHR ''/'') (''/'' @ Join ''/'' ds) = [] # ds"
    using Split_append [of "CHR ''/''" "[]"] Split_Join [of ds "CHR ''/''"] assms by (auto simp: plain_name_def)
  have f: "foldl (clean_step True) [] ([] # ds) = rev ds"
    using plain_names_step [of ds True "[]"] assms(2) by (auto simp: clean_step_def)
  have "Clean (''/'' @ Join ''/'' ds) = ''/'' @ Join ''/'' (rev (rev ds))"
    by (simp only: Clean_def s HasPrefix_append f Let_def if_True)
  then show ?thesis by simp
qed

lemma metrics_path_clean: "plain_name m \<Longrightarrow> mux_clean (metrics_path m) = metrics_path m"
proof -
  assume m: "plain_name m"
  have p: "metrics_path m = ''/'' @ Join ''/'' [''api'', ''v1'', ''models'', m, ''metrics'']"
    by (simp add: metrics_path_def)
  have "Clean (metrics_path m) = metrics_path m" unfolding p
    by (rule Clean_plain) (use m in \<open>auto simp: plain_name_def\<close>)
  then show ?thesis by (simp add: mux_clean_def metrics_path_def)
qed

lemma metrics_unrouted: "plain_name m \<Longrightarrow> mux_route discovery_routes (get_request (metrics_path m)) = NoHandler"
proof -
  assume m: "plain_name m"
  have l: "last (metrics_path m) = CHR ''s''" "length (metrics_path m) = 23 + length m" "hd (drop 8 (metrics_path m)) = CHR ''m''"
    by (simp_all add: metrics_path_def)
  have "m \<noteq> []" using m by (simp add: plain_name_def)
  have a: "map_of discovery_routes (metrics_path m) = None" "map_of discovery_routes (metrics_path m @ ''/'') = None"
    using \<open>m \<noteq> []\<close> by (auto simp: discovery_routes_def metrics_path_def append_eq_Cons_conv Cons_eq_append_conv)
  have "subtree_match discovery_routes (metrics_path m) = None"
    by (simp add: subtree_match_def discovery_routes_def)
  then show ?thesis using metrics_path_clean [OF m] a by (simp add: mux_route_def get_request_def)
qed


lemma tick_loop_none: "\<forall>k < length ms. fetch (i + k) = None \<Longrightarrow> tick_loop fetch clock n i ms c = c"
proof (induction ms arbitrary: i)
  case (Cons m ms)
  have "fetch i = None" using Cons.prems by (auto dest: spec [of _ 0])
  moreover have "\<forall>k < length ms. fetch (Suc i + k) = None" using Cons.prems by (auto dest: spec [of _ "Suc _"])
  ultimately show ?case using Cons.IH by simp
qed simp

definition url_names :: "gostr list option \<Rightarrow> bool" where
  "url_names models = (case models of None \<Rightarrow> True | Some ms \<Rightarrow> list_all url_name ms)"

lemma poll_discovery_blind: "url_names models \<Longrightarrow> poll_discovery env hc exec models ws clock c = c"
proof -
  assume u: "url_names models"
  have "Fetch (discovery_answer env hc exec w (metrics_path m)) = None" if "url_name m" for m w
    using metrics_unrouted [of m] that
    by (simp add: url_name_def discovery_answer_def runDiscovery_def not_found_def Fetch_def)
  with u show ?thesis
    by (auto simp: poll_discovery_def tick_def url_names_def list_all_iff intro!: tick_loop_none split: option.split)
qed

text \<open>C18: Beside the discovery service the circuit breaker never trips. The gateway asks the discovery URL
  for the metrics of the models, but the discovery service has no such route and answers 404, so that
  after any number of polls, whatever models run and however loaded they are, the controller has no
  telemetry and admits every request for every model.\<close>

theorem admission_blind:
  assumes "buildAdmissionController henv cfg = Inr (Some c)" "list_all (\<lambda>(models, _, _). url_names models) polls"
  shows "fold (\<lambda>(models, ws, clock). poll_discovery env hc exec models ws clock) polls c = c \<and>
    dc_Allow (Admission.Allow now model c)"
proof -
  have "fold (\<lambda>(models, ws, clock). poll_discovery env hc exec models ws clock) polls c = c"
    using assms(2) by (induction polls) (auto simp: poll_discovery_blind)
  moreover have "ct_states c = Map.empty"
    using assms(1) by (auto simp: buildAdmissionController_def Let_def Admission.New_def Admission.Start_def split: if_splits)
  ultimately show ?thesis by (simp add: Admission.Allow_def Let_def)
qed

definition bare_host :: hw_env where
  "bare_host = \<lparr> he_smi = None, he_cores = 4, he_meminfo = None, he_sysctl = None, he_sys = 0, he_nvcc = None, he_docker = True \<rparr>"

definition bare_discovery :: discovery_env where
  "bare_discovery = \<lparr> de_enc = (\<lambda>_. []), de_msg = (\<lambda>_. []), de_health_json = [], de_enc_probe = (\<lambda>_. []), de_uptime = 0,
     de_redirect = (\<lambda>_ _. not_found) \<rparr>"

definition bare_controller :: Controller where
  "bare_controller = the (case buildAdmissionController bare_host example_config of Inr c \<Rightarrow> c | Inl _ \<Rightarrow> None)"

theorem admission_blind_witness:
  "poll_discovery bare_discovery (Health_New 0) (fixed_docker two_containers) (Some [''org-llama'']) (\<lambda>_. ()) (\<lambda>_. 7) bare_controller =
     bare_controller \<and> dc_Allow (Admission.Allow 9 ''org-llama'' bare_controller)"
proof -
  have b: "buildAdmissionController bare_host example_config = Inr (Some bare_controller)"
    by (simp add: bare_controller_def buildAdmissionController_def Let_def Admission.Start_def Admission.New_def
        example_config_def withDefaults_def)
  have "url_names (Some [''org-llama''])" by code_simp
  then show ?thesis
    using admission_blind [OF b, of "[(Some [''org-llama''], \<lambda>_. (), \<lambda>_. 7)]" bare_discovery "Health_New 0" "fixed_docker two_containers" 9 "''org-llama''"]
    by simp
qed

end
