(* ===== verification/Catalogue.thy ===== *)
theory Catalogue
  imports Quantize GoPath Admission
begin

text \<open>
  The model catalogue: YAML model lists and their sources (\<open>core/model/loader.go\<close>), and the remote
  registry with its cache file (\<open>core/model/remote_registry.go\<close>). The YAML and JSON codecs, the files,
  the exchange with the registry, map orders and clock readings are arguments.
\<close>

type_synonym catalogue = "gostr \<rightharpoonup> ModelMetadata"

subsection \<open>Parameter counts\<close>

text \<open>\<open>fmt.Sscanf\<close> with \<open>%f\<close> on decimal literals; the words for infinity and not-a-number, hexadecimal
  literals and digit separators are not modelled.\<close>

definition sign_part :: "gostr \<Rightarrow> gostr" where
  "sign_part s = (if s \<noteq> [] \<and> (hd s = CHR ''-'' \<or> hd s = CHR ''+'') then take 1 s else [])"

definition float_token :: "gostr \<Rightarrow> gostr" where
  "float_token s =
     (let sg = sign_part s; r = drop (length sg) s; ip = takeWhile is_digit r; r1 = dropWhile is_digit r;
          fp = (if r1 \<noteq> [] \<and> hd r1 = CHR ''.'' then CHR ''.'' # takeWhile is_digit (tl r1) else []);
          r2 = drop (length fp) r1;
          ex = (if r2 \<noteq> [] \<and> (hd r2 = CHR ''e'' \<or> hd r2 = CHR ''E'')
                then hd r2 # sign_part (tl r2) @ takeWhile is_digit (drop (length (sign_part (tl r2))) (tl r2)) else [])
      in sg @ ip @ fp @ ex)"

definition scan_float :: "gostr \<Rightarrow> flt option" where
  "scan_float s = ParseFloat (float_token (dropWhile (\<lambda>c. c = CHR '' '' \<or> c = CHR 0x09) s))"

definition parseParameterCount :: "gostr \<Rightarrow> int" where
  "parseParameterCount s =
     (let (digits, multiplier) =
        (if s = [] then (s, 1)
         else if last s = CHR ''B'' then (butlast s, 1000000000)
         else if last s = CHR ''M'' then (butlast s, 1000000)
         else if last s = CHR ''K'' then (butlast s, 1000)
         else (s, 1));
          value = (case scan_float digits of Some v \<Rightarrow> v | None \<Rightarrow> Fin 0)
      in to_i64 (value * of_i64 multiplier))"

subsection \<open>YAML models\<close>

record YAMLModel =
  ym_Name :: gostr
  ym_Repo :: gostr
  ym_Description :: gostr
  ym_Parameters :: gostr
  ym_ContextLength :: int
  ym_HardwareTarget :: gostr
  ym_MinimumSystemRAMGB :: flt
  ym_Sizes :: "gostr \<rightharpoonup> int"
  ym_RequiredVRAMGB :: "gostr \<rightharpoonup> flt"
  ym_DefaultQuantization :: gostr
  ym_Tags :: "gostr list"

record ModelRegistry =
  rg_GPUModels :: "YAMLModel list"
  rg_CPUModels :: "YAMLModel list"
  rg_HybridModels :: "YAMLModel list"

definition gigabytes :: "flt \<Rightarrow> int" where
  "gigabytes gb = to_i64 (gb * Fin 1024 * Fin 1024 * Fin 1024)"

definition hardware_target :: "gostr \<Rightarrow> gostr option" where
  "hardware_target s =
     (if s = ''gpu'' then Some HardwareGPUOnly else if s = ''cpu'' then Some HardwareCPUOptimized
      else if s = ''both'' then Some HardwareBoth else None)"

datatype catalogue_error = YAMLFailed | UnknownHardware gostr gostr | NoFile | FetchFailed | RegistryStatus int | ReadFailed

definition convert_model :: "gostr \<Rightarrow> YAMLModel \<Rightarrow> ModelMetadata" where
  "convert_model hw y =
     \<lparr> md_Name = ym_Name y, md_Repo = ym_Repo y, md_ParameterCount = parseParameterCount (ym_Parameters y),
       md_DefaultQuantization = ym_DefaultQuantization y, md_Size = ym_Sizes y, md_Description = ym_Description y,
       md_Context = ym_ContextLength y, md_RequiredVRAM = (\<lambda>q. map_option gigabytes (ym_RequiredVRAMGB y q)),
       md_HardwareTarget = hw, md_MinimumSystemRAM = gigabytes (ym_MinimumSystemRAMGB y) \<rparr>"

fun convert_models :: "YAMLModel list \<Rightarrow> catalogue \<Rightarrow> catalogue_error + catalogue" where
  "convert_models [] models = Inr models"
| "convert_models (y # ys) models =
     (case hardware_target (ym_HardwareTarget y) of
        None \<Rightarrow> Inl (UnknownHardware (ym_HardwareTarget y) (ym_Name y))
      | Some hw \<Rightarrow> convert_models ys (models(ym_Name y \<mapsto> convert_model hw y)))"

definition convertRegistryToModels :: "ModelRegistry \<Rightarrow> catalogue_error + catalogue" where
  "convertRegistryToModels r = convert_models (rg_GPUModels r @ rg_CPUModels r @ rg_HybridModels r) Map.empty"

definition LoadModelsFromYAML :: "(gostr \<Rightarrow> ModelRegistry option) \<Rightarrow> gostr \<Rightarrow> catalogue_error + catalogue" where
  "LoadModelsFromYAML yaml data =
     (case yaml data of None \<Rightarrow> Inl YAMLFailed | Some r \<Rightarrow> convertRegistryToModels r)"

definition default_model :: "gostr \<Rightarrow> gostr \<Rightarrow> gostr \<Rightarrow> int \<Rightarrow> gostr \<Rightarrow> flt \<Rightarrow> (gostr \<times> int) list \<Rightarrow> (gostr \<times> flt) list \<Rightarrow> gostr \<Rightarrow> YAMLModel" where
  "default_model name description parameters context hw ram sizes vram quant =
     \<lparr> ym_Name = name, ym_Repo = name, ym_Description = description, ym_Parameters = parameters, ym_ContextLength = context,
       ym_HardwareTarget = hw, ym_MinimumSystemRAMGB = ram, ym_Sizes = map_of sizes, ym_RequiredVRAMGB = map_of vram,
       ym_DefaultQuantization = quant, ym_Tags = [] \<rparr>"

definition getDefaultModels :: ModelRegistry where
  "getDefaultModels =
     (let apostrophe = [CHR 0x27]; cpu_vram = [(''none'', Fin 0), (''int8'', Fin 0)];
          gpu_sizes = [(''none'', 13858000000), (''int8'', 7456000000), (''awq'', 3200000000), (''gptq'', 3200000000)];
          gpu_vram = [(''none'', Fin 14), (''int8'', Fin 8), (''awq'', Fin 4), (''gptq'', Fin 4)] in
      \<lparr> rg_GPUModels =
          [default_model ''meta-llama/Llama-2-7b-hf'' (''Meta'' @ apostrophe @ ''s Llama 2 7B - highly capable general-purpose model'')
             ''7B'' 4096 ''gpu'' (Fin 0) gpu_sizes gpu_vram ''awq'',
           default_model ''meta-llama/Llama-2-13b-hf'' (''Meta'' @ apostrophe @ ''s Llama 2 13B - larger model for more complex tasks'')
             ''13B'' 4096 ''gpu'' (Fin 0)
             [(''none'', 27000000000), (''int8'', 13600000000), (''awq'', 6400000000), (''gptq'', 6400000000)]
             [(''none'', Fin 28), (''int8'', Fin 15), (''awq'', Fin 7), (''gptq'', Fin 7)] ''awq'',
           default_model ''mistralai/Mistral-7B-v0.1'' ''Mistral 7B - efficient model with extended context (32k tokens)''
             ''7B'' 32768 ''gpu'' (Fin 0) gpu_sizes gpu_vram ''awq''],
        rg_CPUModels =
          [default_model ''distilbert-base-uncased'' ''DistilBERT - lightweight BERT variant, excellent for embeddings and classification''
             ''66M'' 512 ''cpu'' (flit (5 / 10)) [(''none'', 250000000), (''int8'', 100000000)] cpu_vram ''int8'',
           default_model ''TinyLlama/TinyLlama-1.1B'' ''TinyLlama - small but capable LLM, great for on-premise CPU deployment''
             ''1.1B'' 2048 ''cpu'' (Fin 3) [(''none'', 2200000000), (''int8'', 1100000000)] cpu_vram ''int8'',
           default_model ''microsoft/phi-2'' ''Microsoft Phi-2 - state-of-the-art small language model''
             ''2.7B'' 2048 ''cpu'' (Fin 6) [(''none'', 5400000000), (''int8'', 2700000000)] cpu_vram ''int8''],
        rg_HybridModels = [] \<rparr>)"

subsection \<open>The sources\<close>

definition loadModelsFromFile ::
    "(gostr \<Rightarrow> ModelRegistry option) \<Rightarrow> (gostr \<Rightarrow> gostr option) \<Rightarrow> gostr \<Rightarrow> catalogue_error + catalogue" where
  "loadModelsFromFile yaml read path =
     (case read path of None \<Rightarrow> Inl NoFile | Some data \<Rightarrow> LoadModelsFromYAML yaml data)"

definition loaded :: "catalogue_error + catalogue \<Rightarrow> catalogue" where
  "loaded r = (case r of Inr m \<Rightarrow> m | Inl _ \<Rightarrow> Map.empty)"

definition bundledPaths :: "gostr \<Rightarrow> gostr list" where
  "bundledPaths argv0 = [''models.yaml'', Path_Join [Path_Dir argv0, ''models.yaml''], ''/usr/local/share/sovereignstack/models.yaml'']"

definition base_models ::
    "(gostr \<Rightarrow> ModelRegistry option) \<Rightarrow> (gostr \<Rightarrow> gostr option) \<Rightarrow> gostr \<Rightarrow> catalogue_error + catalogue" where
  "base_models yaml read argv0 =
     (case List.map_filter (\<lambda>p. case loadModelsFromFile yaml read p of Inr m \<Rightarrow> Some m | Inl _ \<Rightarrow> None) (bundledPaths argv0) of
        m # _ \<Rightarrow> Inr m | [] \<Rightarrow> convertRegistryToModels getDefaultModels)"

definition LoadAllModels ::
    "(gostr \<Rightarrow> ModelRegistry option) \<Rightarrow> (gostr \<Rightarrow> gostr option) \<Rightarrow> gostr \<Rightarrow> gostr \<Rightarrow> catalogue_error + catalogue" where
  "LoadAllModels yaml read argv0 home =
     (case base_models yaml read argv0 of
        Inl e \<Rightarrow> Inl e
      | Inr base \<Rightarrow>
          let load = (\<lambda>p. loaded (loadModelsFromFile yaml read p));
              m1 = base ++ load ''/etc/sovereignstack/models.yaml'';
              m2 = (if home = [] then m1 else m1 ++ load (Path_Join [home, ''.sovereignstack'', ''models.yaml'']))
          in Inr (m2 ++ load ''./models.local.yaml''))"

subsection \<open>The remote registry\<close>

record RemoteRegistry =
  rr_URL :: gostr
  rr_CacheDir :: gostr
  rr_CacheTTL :: duration
  rr_cacheFile :: gostr

definition NewRemoteRegistry :: "gostr \<Rightarrow> gostr \<Rightarrow> RemoteRegistry" where
  "NewRemoteRegistry home url =
     (let dir = Path_Join [home, ''.sovereignstack''] in
      \<lparr> rr_URL = url, rr_CacheDir = dir, rr_CacheTTL = 24 * hour, rr_cacheFile = Path_Join [dir, ''models-remote.json''] \<rparr>)"

text \<open>The cache file with its modification time; what the registry answers (\<open>None\<close>: no connection; a
  body of \<open>None\<close>: it cannot be read); the codecs; the clock at the check of the age and at the write.\<close>

type_synonym cache_file = "(gostr \<times> time) option"

record remote_env =
  rv_api :: "(int \<times> gostr option) option"
  rv_yaml :: "gostr \<Rightarrow> ModelRegistry option"
  rv_decode :: "gostr \<Rightarrow> catalogue option"
  rv_encode :: "time \<Rightarrow> catalogue \<Rightarrow> gostr option"
  rv_write_fails :: bool
  rv_now :: time
  rv_write :: time

definition fetchFromAPI :: "remote_env \<Rightarrow> catalogue_error + catalogue" where
  "fetchFromAPI env =
     (case rv_api env of
        None \<Rightarrow> Inl FetchFailed
      | Some (status, body) \<Rightarrow>
          if status \<noteq> 200 then Inl (RegistryStatus status)
          else (case body of None \<Rightarrow> Inl ReadFailed | Some data \<Rightarrow> LoadModelsFromYAML (rv_yaml env) data))"

definition loadCache :: "remote_env \<Rightarrow> cache_file \<Rightarrow> catalogue option" where
  "loadCache env f = (case f of None \<Rightarrow> None | Some (data, _) \<Rightarrow> rv_decode env data)"

text \<open>A failing write leaves an empty file.\<close>

definition saveCache :: "remote_env \<Rightarrow> catalogue \<Rightarrow> cache_file \<Rightarrow> cache_file" where
  "saveCache env models f =
     (case rv_encode env (rv_write env) models of
        None \<Rightarrow> f | Some data \<Rightarrow> Some (if rv_write_fails env then [] else data, rv_write env))"

definition GetCacheAge :: "time \<Rightarrow> cache_file \<Rightarrow> duration option" where
  "GetCacheAge now f = map_option (\<lambda>(_, mtime). time_sub now mtime) f"

definition isCacheValid :: "RemoteRegistry \<Rightarrow> time \<Rightarrow> cache_file \<Rightarrow> bool" where
  "isCacheValid r now f = (case f of None \<Rightarrow> False | Some (_, mtime) \<Rightarrow> time_sub now mtime < rr_CacheTTL r)"

definition ClearCache :: "cache_file \<Rightarrow> cache_file option" where
  "ClearCache f = (if f = None then None else Some None)"

definition FetchAndCache :: "RemoteRegistry \<Rightarrow> remote_env \<Rightarrow> cache_file \<Rightarrow> (catalogue_error + catalogue) \<times> cache_file" where
  "FetchAndCache r env f =
     (case (loadCache env f, isCacheValid r (rv_now env) f) of
        (Some cached, True) \<Rightarrow> (Inr cached, f)
      | _ \<Rightarrow>
          (case fetchFromAPI env of
             Inl e \<Rightarrow> ((case loadCache env f of Some cached \<Rightarrow> Inr cached | None \<Rightarrow> Inl e), f)
           | Inr models \<Rightarrow> (Inr models, saveCache env models f)))"

definition FetchOnly :: "remote_env \<Rightarrow> cache_file \<Rightarrow> (catalogue_error + catalogue) \<times> cache_file" where
  "FetchOnly env f =
     (case fetchFromAPI env of Inl e \<Rightarrow> (Inl e, f) | Inr models \<Rightarrow> (Inr models, saveCache env models f))"

definition MergeRegistries :: "catalogue \<Rightarrow> catalogue \<Rightarrow> catalogue" where
  "MergeRegistries local remote = local ++ remote"

text \<open>\<open>quants\<close>: the quantizations of the map, in any order.\<close>

definition getMinVRAM :: "gostr list \<Rightarrow> (gostr \<rightharpoonup> int) \<Rightarrow> int" where
  "getMinVRAM quants required =
     (if quants = [] then 0
      else foldl (\<lambda>mn q. let v = the (required q) in if v < mn then v else mn) (2 ^ 63 - 1) quants)"

definition compatible :: "(ModelMetadata \<Rightarrow> gostr list) \<Rightarrow> bool \<Rightarrow> int \<Rightarrow> int \<Rightarrow> ModelMetadata \<Rightarrow> bool" where
  "compatible quants hasGPU availableVRAM systemRAM m \<longleftrightarrow>
     (if hasGPU then
        (md_HardwareTarget m = HardwareGPUOnly \<or> md_HardwareTarget m = HardwareBoth) \<and>
        \<not> availableVRAM < getMinVRAM (quants m) (md_RequiredVRAM m)
      else md_HardwareTarget m \<noteq> HardwareGPUOnly \<and> \<not> systemRAM < md_MinimumSystemRAM m)"

definition FilterByHardware ::
    "gostr list \<Rightarrow> (ModelMetadata \<Rightarrow> gostr list) \<Rightarrow> catalogue \<Rightarrow> bool \<Rightarrow> int \<Rightarrow> int \<Rightarrow> ModelMetadata list" where
  "FilterByHardware order quants models hasGPU availableVRAM systemRAM =
     filter (compatible quants hasGPU availableVRAM systemRAM) (List.map_filter models order)"

text \<open>Truncation loses one parameter where the product falls below the integer.\<close>

lemma parse_4_1B: "parseParameterCount ''4.1B'' = 4099999999"
  by code_simp

lemma parse_66M: "parseParameterCount ''66M'' = 66000000"
  by code_simp

subsection \<open>Precedence\<close>

fun first_some :: "'a option list \<Rightarrow> 'a option" where
  "first_some [] = None"
| "first_some (Some x # xs) = Some x"
| "first_some (None # xs) = first_some xs"

lemma first_some_Cons: "first_some (x # xs) = (case x of Some y \<Rightarrow> Some y | None \<Rightarrow> first_some xs)"
  by (cases x) auto

definition file_models :: "(gostr \<Rightarrow> ModelRegistry option) \<Rightarrow> (gostr \<Rightarrow> gostr option) \<Rightarrow> gostr \<Rightarrow> gostr \<Rightarrow> ModelMetadata option" where
  "file_models yaml read path name = loaded (loadModelsFromFile yaml read path) name"

lemma convert_models_ok:
  "list_all (\<lambda>y. hardware_target (ym_HardwareTarget y) \<noteq> None) ys \<Longrightarrow>
   \<exists>m. convert_models ys acc = Inr m"
proof (induction ys arbitrary: acc)
  case (Cons y ys)
  then obtain hw where "hardware_target (ym_HardwareTarget y) = Some hw" by auto
  with Cons.IH [of "acc(ym_Name y \<mapsto> convert_model hw y)"] Cons.prems show ?case by (auto simp del: fun_upd_apply)
qed simp

lemma default_models_ok: "\<exists>m. convertRegistryToModels getDefaultModels = Inr m"
proof -
  have "list_all (\<lambda>y. hardware_target (ym_HardwareTarget y) \<noteq> None)
      (rg_GPUModels getDefaultModels @ rg_CPUModels getDefaultModels @ rg_HybridModels getDefaultModels)" by code_simp
  from convert_models_ok [OF this, of Map.empty] show ?thesis by (auto simp: convertRegistryToModels_def)
qed

text \<open>Loading the catalogue never fails, and a model comes from the first of its sources: the local
  file, the user's file, the system-wide file, and the bundled list, which is the first readable one of
  three or else the built-in models. A source that is missing or malformed is skipped as a whole.\<close>

theorem catalogue_precedence:
  "\<exists>models base. LoadAllModels yaml read argv0 home = Inr models \<and> base_models yaml read argv0 = Inr base \<and>
     (\<forall>name. models name = first_some
        [file_models yaml read ''./models.local.yaml'' name,
         if home = [] then None else file_models yaml read (Path_Join [home, ''.sovereignstack'', ''models.yaml'']) name,
         file_models yaml read ''/etc/sovereignstack/models.yaml'' name,
         base name])"
proof -
  have "\<exists>base. base_models yaml read argv0 = Inr base"
    using default_models_ok by (auto simp: base_models_def split: list.split)
  then obtain base where b: "base_models yaml read argv0 = Inr base" by blast
  show ?thesis
    using b by (auto simp: LoadAllModels_def Let_def file_models_def first_some_Cons map_add_def split: option.split)
qed

text \<open>The remote registry prefers a fresh cache, and falls back to a stale one. A readable cache
  younger than its lifetime answers without a request; otherwise a successful fetch answers and is
  saved; when the fetch fails a readable cache of any age answers, and only without one is the error of
  the fetch reported. The cache file changes only on a successful fetch, and the models it then holds
  answer the next request within the lifetime, whatever the registry does.\<close>

theorem registry_fallback:
  assumes "FetchAndCache r env f = (res, f')"
  shows "(if loadCache env f \<noteq> None \<and> isCacheValid r (rv_now env) f then res = Inr (the (loadCache env f)) \<and> f' = f
     else case fetchFromAPI env of
         Inr models \<Rightarrow> res = Inr models \<and> f' = saveCache env models f \<and>
           (\<forall>env2. (\<exists>d. rv_encode env (rv_write env) models = Some d \<and> rv_decode env2 d = Some models) \<and>
              \<not> rv_write_fails env \<and> time_sub (rv_now env2) (rv_write env) < rr_CacheTTL r \<longrightarrow>
              FetchAndCache r env2 f' = (Inr models, f'))
       | Inl e \<Rightarrow> f' = f \<and> res = (case loadCache env f of Some cached \<Rightarrow> Inr cached | None \<Rightarrow> Inl e))"
proof (cases "loadCache env f \<noteq> None \<and> isCacheValid r (rv_now env) f")
  case True
  with assms show ?thesis by (auto simp: FetchAndCache_def)
next
  case False
  have s: "FetchAndCache r env2 (saveCache env models f) = (Inr models, saveCache env models f)"
    if "rv_encode env (rv_write env) models = Some d" "rv_decode env2 d = Some models" "\<not> rv_write_fails env"
      "time_sub (rv_now env2) (rv_write env) < rr_CacheTTL r" for env2 models d
    using that by (simp add: FetchAndCache_def saveCache_def loadCache_def isCacheValid_def)
  show ?thesis
  proof (cases "fetchFromAPI env")
    case (Inl e)
    with False assms show ?thesis by (auto simp: FetchAndCache_def split: option.splits bool.splits)
  next
    case (Inr models)
    with False assms have "res = Inr models" "f' = saveCache env models f"
      by (auto simp: FetchAndCache_def split: option.splits bool.splits)
    with Inr False s show ?thesis by auto
  qed
qed


text \<open>An unreachable registry and a cache from long ago.\<close>

definition offline :: remote_env where
  "offline = \<lparr> rv_api = None, rv_yaml = (\<lambda>_. None), rv_decode = (\<lambda>_. Some Map.empty), rv_encode = (\<lambda>_ _. None),
     rv_write_fails = False, rv_now = 1000 * hour, rv_write = 0 \<rparr>"

theorem registry_fallback_witness:
  "FetchAndCache (NewRemoteRegistry ''/home/u'' ''https://r'') offline (Some (''{}'', 0)) = (Inr Map.empty, Some (''{}'', 0))"
proof -
  obtain res f' where r: "FetchAndCache (NewRemoteRegistry ''/home/u'' ''https://r'') offline (Some (''{}'', 0)) = (res, f')"
    by fastforce
  have "loadCache offline (Some (''{}'', 0)) = Some Map.empty" by (simp add: loadCache_def offline_def)
  moreover have "\<not> isCacheValid (NewRemoteRegistry ''/home/u'' ''https://r'') (rv_now offline) (Some (''{}'', 0))" by code_simp
  moreover have "fetchFromAPI offline = Inl FetchFailed" by (simp add: fetchFromAPI_def offline_def)
  ultimately show ?thesis using registry_fallback [OF r] r by simp
qed

subsection \<open>Filtering\<close>

text \<open>The least requirement bounds every quantization from below.\<close>

lemma min_fold: "foldl (\<lambda>mn q. let v = f q in if v < mn then v else mn) (b :: int) qs \<le> b \<and>
    (\<forall>q \<in> set qs. foldl (\<lambda>mn q. let v = f q in if v < mn then v else mn) b qs \<le> f q)"
proof (induction qs arbitrary: b)
  case (Cons q qs)
  let ?b = "if f q < b then f q else b"
  have "?b \<le> b" "?b \<le> f q" by auto
  with Cons.IH [of ?b] show ?case by (auto simp: Let_def intro: order_trans)
qed simp

lemma getMinVRAM_le: "set quants = dom required \<Longrightarrow> required q = Some v \<Longrightarrow> getMinVRAM quants required \<le> v"
  using min_fold [of "\<lambda>q. the (required q)" "2 ^ 63 - 1" quants] by (force simp: getMinVRAM_def)

end
