(* ===== verification/Downloader.thy ===== *)
theory Downloader
  imports ModelStore
begin

text \<open>
  The Hugging Face downloader (\<open>internal/downloader/huggingface.go\<close>): discovering shards, resuming and
  checking a file, and downloading a model into its directory. The hub's answers are an argument: a
  function from method, URL and start byte to status, content length, the body that arrives and whether
  the connection broke; a request that cannot be made or gets no answer is \<open>None\<close>. The files are the tree of theory
  \<open>ModelStore\<close>; the audit calls are collected. Progress output and the token header are not modelled.
\<close>

subsection \<open>The hub\<close>

record hf_answer =
  ha_status :: int
  ha_length :: int
  ha_body :: gostr
  ha_broken :: bool

type_synonym hub = "gostr \<Rightarrow> gostr \<Rightarrow> int \<Rightarrow> hf_answer option"

datatype dl_error =
  DlRequest | DlUnauthorized | DlStatus int | DlOpen | DlInterrupted | DlIncomplete int int | DlMismatch int
| DlMkdir | DlNoFiles gostr

datatype dl_event = EvFailed gostr gostr | EvCorrupt gostr safetensors_error | EvNoFiles gostr | EvSuccess gostr nat

definition hub_url :: "gostr \<Rightarrow> gostr \<Rightarrow> gostr" where
  "hub_url modelID filename = ''https://huggingface.co/'' @ modelID @ ''/resolve/main/'' @ filename"

subsection \<open>One file\<close>

text \<open>The size \<open>os.Stat\<close> reports; \<open>dirsize\<close> is that of a directory.\<close>

definition stat_size :: "int \<Rightarrow> tree \<Rightarrow> gostr \<Rightarrow> int option" where
  "stat_size dirsize t p =
     (case map_of t p of None \<Rightarrow> None | Some DirNode \<Rightarrow> Some dirsize | Some (FileNode c) \<Rightarrow> Some (int (length c)))"

definition openable :: "tree \<Rightarrow> gostr \<Rightarrow> bool" where
  "openable t p \<longleftrightarrow> is_dir t (Path_Dir p) \<and> map_of t p \<noteq> Some DirNode"

definition file_content :: "tree \<Rightarrow> gostr \<Rightarrow> gostr" where
  "file_content t p = (case map_of t p of Some (FileNode c) \<Rightarrow> c | _ \<Rightarrow> [])"

definition start_byte :: "int option \<Rightarrow> int \<Rightarrow> int" where
  "start_byte existing totalSize = (case existing of None \<Rightarrow> 0 | Some n \<Rightarrow> if n < totalSize then n else 0)"

definition downloadFile :: "hub \<Rightarrow> int \<Rightarrow> gostr \<Rightarrow> gostr \<Rightarrow> int \<Rightarrow> tree \<Rightarrow> dl_error option \<times> tree" where
  "downloadFile hub dirsize url destPath totalSize t =
     (let existing = stat_size dirsize t destPath; startByte = start_byte existing totalSize in
      if existing = Some totalSize then (None, t)
      else
        case hub ''GET'' url startByte of
          None \<Rightarrow> (Some DlRequest, t)
        | Some a \<Rightarrow>
            if ha_status a \<noteq> 200 \<and> ha_status a \<noteq> 206 then
              (Some (if ha_status a = 401 then DlUnauthorized else DlStatus (ha_status a)), t)
            else if \<not> openable t destPath then (Some DlOpen, t)
            else
              let old = (if 0 < startByte then file_content t destPath else []);
                  t1 = put destPath (FileNode (old @ ha_body a)) t; written = int (length (ha_body a));
                  finalSize = i64 (startByte + written)
              in if ha_broken a then (Some DlInterrupted, t1)
                 else if finalSize \<noteq> totalSize then (Some (DlIncomplete finalSize totalSize), t1)
                 else if stat_size dirsize t1 destPath \<noteq> Some totalSize then
                   (Some (DlMismatch (int (length (file_content t1 destPath)))), t1)
                 else (None, t1))"

subsection \<open>Sharded models\<close>

definition dedup :: "gostr list \<Rightarrow> gostr list" where
  "dedup xs = rev (remdups (rev xs))"

text \<open>\<open>weights\<close> decodes the manifest: the file names of its weight map in the order of iteration.\<close>

definition parseShardManifest :: "(gostr \<Rightarrow> gostr list option) \<Rightarrow> gostr \<Rightarrow> gostr list" where
  "parseShardManifest weights body = (case weights body of None \<Rightarrow> [] | Some names \<Rightarrow> dedup names)"

definition shards_in :: "hub \<Rightarrow> (gostr \<Rightarrow> gostr list option) \<Rightarrow> gostr \<Rightarrow> gostr \<Rightarrow> gostr list option" where
  "shards_in hub weights modelID indexName =
     (case hub ''GET'' (hub_url modelID indexName) 0 of
        None \<Rightarrow> None
      | Some a \<Rightarrow>
          if ha_status a \<noteq> 200 \<or> ha_broken a then None
          else
            let shards = parseShardManifest weights (ha_body a) in
            if shards = [] then None else Some (shards @ [indexName]))"

definition discoverShardedFiles :: "hub \<Rightarrow> (gostr \<Rightarrow> gostr list option) \<Rightarrow> gostr \<Rightarrow> gostr list" where
  "discoverShardedFiles hub weights modelID =
     (case List.map_filter (shards_in hub weights modelID) [''model.safetensors.index.json'', ''pytorch_model.bin.index.json''] of
        s # _ \<Rightarrow> s | [] \<Rightarrow> [])"

subsection \<open>The check of a downloaded file\<close>

text \<open>The downloader has a copy of the check of the model manager; the two agree.\<close>

definition HF_validateSafetensorsFile :: "gostr \<Rightarrow> safetensors_error option" where
  "HF_validateSafetensorsFile content =
     (let fileSize = int (length content) in
      if fileSize < 8 then Some (TooSmall fileSize)
      else
        let headerSize = le64 (take 8 content); minFileSize = 8 + headerSize in
        if headerSize = 0 \<or> headerSize > 1024 * 1024 * 100 then Some (InvalidHeader headerSize)
        else if fileSize < minFileSize then Some (Incomplete minFileSize)
        else None)"

lemma checks_agree [simp]: "HF_validateSafetensorsFile = validateSafetensorsFile"
  by (rule ext) (simp add: HF_validateSafetensorsFile_def validateSafetensorsFile_def Let_def)

subsection \<open>A model\<close>

definition commonFiles :: "gostr list" where
  "commonFiles =
     [''model.safetensors'', ''pytorch_model.bin'', ''model.bin'', ''adapter_model.bin'', ''model.gguf'', ''model.pt'',
      ''config.json'', ''tokenizer.json'', ''tokenizer_config.json'', ''generation_config.json'', ''special_tokens_map.json'',
      ''vocab.json'', ''merges.txt'', ''spiece.model'', ''added_tokens.json'', ''preprocessor_config.json'']"

text \<open>The number of files found, the audit calls, and the tree.\<close>

type_synonym dl_state = "nat \<times> dl_event list \<times> tree"

definition download_one :: "hub \<Rightarrow> int \<Rightarrow> gostr \<Rightarrow> gostr \<Rightarrow> gostr \<Rightarrow> dl_state \<Rightarrow> dl_state" where
  "download_one hub dirsize modelID destDir filename st =
     (let (count, events, t) = st; url = hub_url modelID filename; destPath = Path_Join [destDir, filename] in
      case hub ''HEAD'' url 0 of
        None \<Rightarrow> st
      | Some head \<Rightarrow>
          if ha_status head \<noteq> 200 then st
          else
            case downloadFile hub dirsize url destPath (ha_length head) t of
              (Some _, t1) \<Rightarrow> (Suc count, events @ [EvFailed modelID filename], t1)
            | (None, t1) \<Rightarrow>
                if \<not> HasSuffix filename safetensors_ext then (Suc count, events, t1)
                else
                  (case HF_validateSafetensorsFile (file_content t1 destPath) of
                     None \<Rightarrow> (Suc count, events, t1)
                   | Some e \<Rightarrow> (Suc count, events @ [EvCorrupt modelID e], filter (\<lambda>(q, _). q \<noteq> destPath) t1)))"

definition HF_DownloadModel ::
    "hub \<Rightarrow> (gostr \<Rightarrow> gostr list option) \<Rightarrow> int \<Rightarrow> bool \<Rightarrow> gostr \<Rightarrow> gostr \<Rightarrow> tree \<Rightarrow> dl_error option \<times> dl_event list \<times> tree" where
  "HF_DownloadModel hub weights dirsize mkdir_fails modelID destDir t =
     (if mkdir_fails then (Some DlMkdir, [], t)
      else
        let files = discoverShardedFiles hub weights modelID @ commonFiles;
            (count, events, t1) = foldl (\<lambda>st f. download_one hub dirsize modelID destDir f st) (0, [], mkdir_all destDir t) files
        in if count = 0 then (Some (DlNoFiles modelID), events @ [EvNoFiles modelID], t1)
           else (None, events @ [EvSuccess modelID count], t1))"

text \<open>Pulling a model (\<open>CacheManager.DownloadModel\<close>) with this downloader.\<close>

definition dl_message :: "dl_error \<Rightarrow> gostr" where
  "dl_message e = (case e of DlNoFiles m \<Rightarrow> ''no model files found for '' @ m | _ \<Rightarrow> ''failed to create directory'')"

definition pull ::
    "cache_env \<Rightarrow> hub \<Rightarrow> (gostr \<Rightarrow> gostr list option) \<Rightarrow> int \<Rightarrow> bool \<Rightarrow> time \<Rightarrow> gostr \<Rightarrow> CacheManager \<Rightarrow> tree \<Rightarrow>
      model_error option \<times> CacheManager \<times> tree" where
  "pull env hub weights dirsize mkdir_fails now name cm t =
     DownloadModel env mkdir_fails
       (\<lambda>t0. case HF_DownloadModel hub weights dirsize False name (Path_Join [cm_cacheDir cm, name]) t0 of
           (e, _, t1) \<Rightarrow> (map_option dl_message e, t1)) now name cm t"

subsection \<open>Resuming\<close>

text \<open>A hub that serves the content \<open>c\<close> and honours the start byte; a connection may break at any point.\<close>

definition honest :: "gostr \<Rightarrow> gostr \<Rightarrow> hub \<Rightarrow> bool" where
  "honest url c hub \<longleftrightarrow> (\<forall>s a. hub ''GET'' url s = Some a \<and> 0 \<le> s \<and> s \<le> int (length c) \<and> (ha_status a = 200 \<or> ha_status a = 206) \<longrightarrow>
     (\<exists>k. ha_body a = take k (drop (nat s) c)))"

definition partial_of :: "gostr \<Rightarrow> tree \<Rightarrow> gostr \<Rightarrow> bool" where
  "partial_of c t p \<longleftrightarrow> map_of t p = None \<or> (\<exists>k. map_of t p = Some (FileNode (take k c)))"

lemma map_of_put: "map_of (put p n t) q = (if q = p then Some n else map_of t q)"
proof -
  have "map_of (filter (\<lambda>(q, _). q \<noteq> p) t) q = (if q = p then None else map_of t q)"
    by (induction t) auto
  then show ?thesis by (simp add: put_def map_add_def split: option.split)
qed

lemma download_attempt:
  assumes "honest url c hub" "partial_of c t p" "int (length c) < 2 ^ 62" "downloadFile hub d url p (int (length c)) t = (e, t')"
  shows "partial_of c t' p \<and> (e = None \<longrightarrow> map_of t' p = Some (FileNode c)) \<and> (\<forall>q. q \<noteq> p \<longrightarrow> map_of t' q = map_of t q)"
proof -
  let ?n = "int (length c)" and ?ex = "stat_size d t p"
  let ?s = "start_byte ?ex ?n"
  have old: "(if 0 < ?s then file_content t p else []) = take (nat ?s) c" "0 \<le> ?s" "?s \<le> ?n"
    using assms(2) by (auto simp: partial_of_def stat_size_def start_byte_def file_content_def min_def split: if_splits)
  show ?thesis
  proof (cases "?ex = Some ?n")
    case True
    then have "map_of t p = Some (FileNode c)"
      using assms(2) by (auto simp: partial_of_def stat_size_def)
    then show ?thesis using True assms(2,4) by (simp add: downloadFile_def)
  next
    case False
    consider "t' = t" "e \<noteq> None"
    | (body) a where "hub ''GET'' url ?s = Some a" "ha_status a = 200 \<or> ha_status a = 206"
          "t' = put p (FileNode (take (nat ?s) c @ ha_body a)) t"
          "e = None \<longrightarrow> i64 (?s + int (length (ha_body a))) = ?n"
      using assms(4) False
      by (auto simp: downloadFile_def Let_def old(1) [symmetric] split: option.splits if_splits)
    then show ?thesis
    proof cases
      case 1
      then show ?thesis using assms(2) by auto
    next
      case (body a)
      note a = body
      obtain k where k: "ha_body a = take k (drop (nat ?s) c)"
        using assms(1) a(1,2) old(2,3) unfolding honest_def by blast
      have joined: "take (nat ?s) c @ ha_body a = take (nat ?s + k) c"
        unfolding k by (simp add: take_add)
      have "length (ha_body a) \<le> length c" unfolding k by simp
      then have "is_i64 (?s + int (length (ha_body a)))" using old(2,3) assms(3) by (simp add: is_i64_def)
      then have "e = None \<longrightarrow> ?s + int (length (ha_body a)) = ?n" using a(4) by simp
      then have "e = None \<longrightarrow> take (nat ?s + k) c = c"
        using old(2,3) unfolding k by (auto simp: min_def split: if_splits)
      then show ?thesis using a(3) unfolding joined by (auto simp: map_of_put partial_of_def)
    qed
  qed
qed

definition run_attempts :: "hub list \<Rightarrow> int \<Rightarrow> gostr \<Rightarrow> gostr \<Rightarrow> int \<Rightarrow> tree \<Rightarrow> tree" where
  "run_attempts hubs d url p n t = foldl (\<lambda>t hub. snd (downloadFile hub d url p n t)) t hubs"

text \<open>A hub that serves the whole rest of \<open>c\<close>.\<close>

definition serves :: "gostr \<Rightarrow> gostr \<Rightarrow> hub \<Rightarrow> bool" where
  "serves url c hub \<longleftrightarrow> (\<forall>s. 0 \<le> s \<and> s \<le> int (length c) \<longrightarrow>
     (\<exists>a. hub ''GET'' url s = Some a \<and> (ha_status a = 200 \<or> ha_status a = 206) \<and> \<not> ha_broken a \<and> ha_body a = drop (nat s) c))"

lemma serves_honest: "serves url c hub \<Longrightarrow> honest url c hub"
  unfolding serves_def honest_def by (metis length_drop option.inject order_refl take_all_iff)

lemma run_attempts_partial:
  assumes "\<forall>h \<in> set hubs. honest url c h" "partial_of c t p" "int (length c) < 2 ^ 62"
  shows "partial_of c (run_attempts hubs d url p (int (length c)) t) p \<and>
    (\<forall>q. q \<noteq> p \<longrightarrow> map_of (run_attempts hubs d url p (int (length c)) t) q = map_of t q)"
  using assms(1,2)
proof (induction hubs arbitrary: t)
  case Nil
  then show ?case by (simp add: run_attempts_def)
next
  case (Cons h hubs)
  obtain e t' where step: "downloadFile h d url p (int (length c)) t = (e, t')" by fastforce
  have "partial_of c t' p \<and> (\<forall>q. q \<noteq> p \<longrightarrow> map_of t' q = map_of t q)"
    using download_attempt [OF _ Cons.prems(2) assms(3) step] Cons.prems(1) by simp
  then show ?case using Cons.IH [of t'] Cons.prems(1) step by (simp add: run_attempts_def)
qed

lemma download_completes:
  assumes "serves url c hub" "partial_of c t p" "int (length c) < 2 ^ 62" "openable t p"
  shows "fst (downloadFile hub d url p (int (length c)) t) = None"
proof (cases "stat_size d t p = Some (int (length c))")
  case True
  then show ?thesis by (simp add: downloadFile_def)
next
  case False
  let ?s = "start_byte (stat_size d t p) (int (length c))"
  have old: "(if 0 < ?s then file_content t p else []) = take (nat ?s) c" "0 \<le> ?s" "?s \<le> int (length c)"
    using assms(2) by (auto simp: partial_of_def stat_size_def start_byte_def file_content_def min_def split: if_splits)
  obtain a where a: "hub ''GET'' url ?s = Some a" "ha_status a = 200 \<or> ha_status a = 206" "\<not> ha_broken a"
      "ha_body a = drop (nat ?s) c"
    using assms(1) old(2,3) unfolding serves_def by blast
  have "int (length (ha_body a)) = int (length c) - ?s" using old(2,3) a(4) by simp
  moreover have "is_i64 (int (length c))" using assms(3) by (simp add: is_i64_def)
  moreover have "stat_size d (put p (FileNode ((if 0 < ?s then file_content t p else []) @ ha_body a)) t) p = Some (int (length c))"
    unfolding old(1) using old(2,3) a(4) by (simp add: stat_size_def map_of_put)
  ultimately show ?thesis using False a(1-3) assms(4) by (auto simp add: downloadFile_def Let_def)
qed

text \<open>C31: Interrupted downloads converge: whatever prefix of a file is on disk, after any number of
  attempts that fail at any point against a hub that honours the start byte, the disk holds a prefix of the file
  and no other file has changed, and the first attempt that is answered in full succeeds and leaves
  exactly the file. The start byte, the appended bytes and the size checks fit together.\<close>

theorem resume_converges:
  assumes "\<forall>h \<in> set hubs. honest url c h" "serves url c last_hub" "int (length c) < 2 ^ 62"
    "partial_of c t p" "openable t p" "Path_Dir p \<noteq> p"
  shows "(let t1 = run_attempts hubs d url p (int (length c)) t; (e, t2) = downloadFile last_hub d url p (int (length c)) t1 in
    partial_of c t1 p \<and> e = None \<and> map_of t2 p = Some (FileNode c) \<and> (\<forall>q. q \<noteq> p \<longrightarrow> map_of t2 q = map_of t q))"
proof -
  define t1 where "t1 = run_attempts hubs d url p (int (length c)) t"
  have t1: "partial_of c t1 p" "\<forall>q. q \<noteq> p \<longrightarrow> map_of t1 q = map_of t q"
    using run_attempts_partial [OF assms(1,4,3)] unfolding t1_def by auto
  have "openable t1 p" using assms(5,6) t1 by (auto simp: openable_def is_dir_def partial_of_def)
  obtain e t2 where step: "downloadFile last_hub d url p (int (length c)) t1 = (e, t2)" by fastforce
  have "e = None" using download_completes [OF assms(2) t1(1) assms(3) \<open>openable t1 p\<close>, of d] step by simp
  then show ?thesis
    using download_attempt [OF serves_honest [OF assms(2)] t1(1) assms(3) step] t1 step by (simp add: t1_def)
qed

text \<open>The connection breaks after two bytes, then nothing arrives, then the rest.\<close>

definition breaking :: "nat \<Rightarrow> bool \<Rightarrow> gostr \<Rightarrow> hub" where
  "breaking k broken c = (\<lambda>_ _ s. Some \<lparr> ha_status = 206, ha_length = int (length c), ha_body = take k (drop (nat s) c), ha_broken = broken \<rparr>)"

lemma breaking_honest: "honest url c (breaking k b c)"
  by (auto simp: honest_def breaking_def)

lemma breaking_serves: "serves url c (breaking (length c) False c)"
  by (auto simp: serves_def breaking_def)

definition shard :: gostr where "shard = ''weights''"
definition shard_path :: gostr where "shard_path = ''/m/w''"
definition model_dir :: tree where "model_dir = [(''/m'', DirNode)]"

theorem resume_converges_witness:
  "(let t1 = run_attempts [breaking 2 True shard, breaking 0 True shard] 4096 ''u'' shard_path (int (length shard)) model_dir;
        (e, t2) = downloadFile (breaking (length shard) False shard) 4096 ''u'' shard_path (int (length shard)) t1 in
    partial_of shard t1 shard_path \<and> e = None \<and> map_of t2 shard_path = Some (FileNode shard) \<and>
    (\<forall>q. q \<noteq> shard_path \<longrightarrow> map_of t2 q = map_of model_dir q))"
proof (rule resume_converges [of "[breaking 2 True shard, breaking 0 True shard]"])
  show "\<forall>h \<in> set [breaking 2 True shard, breaking 0 True shard]. honest ''u'' shard h" by (simp add: breaking_honest)
  show "serves ''u'' shard (breaking (length shard) False shard)" by (rule breaking_serves)
  show "int (length shard) < 2 ^ 62" by (simp add: shard_def)
  show "partial_of shard model_dir shard_path" by (simp add: partial_of_def model_dir_def shard_path_def)
  show "openable model_dir shard_path" "Path_Dir shard_path \<noteq> shard_path" by code_simp+
qed

subsection \<open>What success means\<close>

definition head_ok :: "hub \<Rightarrow> gostr \<Rightarrow> gostr \<Rightarrow> bool" where
  "head_ok hub modelID f \<longleftrightarrow> (case hub ''HEAD'' (hub_url modelID f) 0 of Some a \<Rightarrow> ha_status a = 200 | None \<Rightarrow> False)"

lemma download_one_count:
  "fst (download_one hub d modelID dir f st) = fst st + (if head_ok hub modelID f then 1 else 0)"
  by (cases st) (auto simp: download_one_def head_ok_def Let_def split: option.splits prod.splits)

lemma download_all_count:
  "fst (foldl (\<lambda>st f. download_one hub d modelID dir f st) st fs) = fst st + length (filter (head_ok hub modelID) fs)"
proof (induction fs arbitrary: st)
  case Nil
  then show ?case by simp
next
  case (Cons f fs)
  show ?case using Cons.IH [of "download_one hub d modelID dir f st"] by (simp add: download_one_count)
qed

lemma hf_download_nil:
  "fst (HF_DownloadModel hub weights d mkdir_fails modelID dir t) = None \<longleftrightarrow>
     \<not> mkdir_fails \<and> (\<exists>f \<in> set (discoverShardedFiles hub weights modelID @ commonFiles). head_ok hub modelID f)"
proof -
  let ?fs = "discoverShardedFiles hub weights modelID @ commonFiles"
  obtain n es t1 where st: "foldl (\<lambda>st f. download_one hub d modelID dir f st) (0, [], mkdir_all dir t) ?fs = (n, es, t1)"
    by (metis prod_cases3)
  have "n = length (filter (head_ok hub modelID) ?fs)"
    using download_all_count [of hub d modelID dir "(0, [], mkdir_all dir t)" ?fs] unfolding st by simp
  then have "n = 0 \<longleftrightarrow> \<not> (\<exists>f \<in> set ?fs. head_ok hub modelID f)" by (auto simp: filter_empty_conv)
  then show ?thesis unfolding HF_DownloadModel_def Let_def st by simp
qed

text \<open>A hub that answers no GET changes no file.\<close>

lemma files_under_put_dir: "files_under t d = [] \<Longrightarrow> files_under (put q DirNode t) d = []"
  by (auto simp: files_under_def List.map_filter_def put_def filter_empty_conv split: fnode.splits)

lemma files_under_filter: "files_under t d = [] \<Longrightarrow> files_under (filter P t) d = []"
  by (auto simp: files_under_def List.map_filter_def filter_empty_conv)

lemma files_under_mkdir_all: "files_under t d = [] \<Longrightarrow> files_under (mkdir_all p t) d = []"
proof -
  have "files_under (foldl (\<lambda>t q. if is_dir t q then t else put q DirNode t) t qs) d = []" if "files_under t d = []" for qs t
    using that by (induction qs arbitrary: t) (simp_all add: files_under_put_dir)
  then show "files_under t d = [] \<Longrightarrow> files_under (mkdir_all p t) d = []" unfolding mkdir_all_def .
qed

lemma silent_download_one:
  assumes "\<And>u s. hub ''GET'' u s = None" "files_under (snd (snd st)) dir = []"
  shows "files_under (snd (snd (download_one hub d modelID dest f st))) dir = []"
proof -
  have "snd (downloadFile hub d u p n t) = t" for u p n t by (simp add: downloadFile_def Let_def assms(1))
  then have same: "\<And>u p n t e t'. downloadFile hub d u p n t = (e, t') \<Longrightarrow> t' = t" by (metis snd_conv)
  show ?thesis using assms(2)
    by (cases st) (auto dest!: same simp: download_one_def Let_def files_under_filter split: option.splits prod.splits)
qed

lemma silent_download_all:
  assumes "\<And>u s. hub ''GET'' u s = None" "files_under (snd (snd st)) dir = []"
  shows "files_under (snd (snd (foldl (\<lambda>st f. download_one hub d modelID dest f st) st fs))) dir = []"
  using assms(2) by (induction fs arbitrary: st) (simp_all add: silent_download_one [of hub, OF assms(1)])

text \<open>A successful pull says nothing of the files. The downloader returns no error as soon as one HEAD
  request is answered 200, whatever becomes of the downloads; against a hub that answers no GET, a pull of a model
  that is not cached succeeds, the model counts as cached from then on, and its directory holds no file.\<close>

theorem phantom_model:
  assumes "\<And>u s. hub ''GET'' u s = None" "f \<in> set commonFiles" "head_ok hub name f"
    "\<not> IsCached name cm" "files_under t (Path_Join [cm_cacheDir cm, name]) = []"
    "\<not> under (Path_Join [cm_cacheDir cm, name]) (cm_metadataFile cm)" "\<And>m. ce_marshal env m \<noteq> None" "ce_write env = None"
  shows "(let (e, cm1, t1) = pull env hub weights d False now name cm t in
    e = None \<and> IsCached name cm1 \<and> files_under t1 (Path_Join [cm_cacheDir cm, name]) = [])"
proof -
  let ?dir = "Path_Join [cm_cacheDir cm, name]"
  obtain e es t1 where hf: "HF_DownloadModel hub weights d False name ?dir (mkdir_all ?dir t) = (e, es, t1)" by (metis prod_cases3)
  have "e = None" using hf_download_nil [of hub weights d False name ?dir "mkdir_all ?dir t"] assms(2,3) unfolding hf by auto
  have "files_under t1 ?dir = []"
  proof -
    let ?st = "(0, [], mkdir_all ?dir (mkdir_all ?dir t)) :: dl_state"
    have "files_under (snd (snd ?st)) ?dir = []" by (simp add: files_under_mkdir_all assms(5))
    then show ?thesis
      using silent_download_all [of hub ?st ?dir d name ?dir "discoverShardedFiles hub weights name @ commonFiles"] assms(1) hf
      by (auto simp: HF_DownloadModel_def Let_def split: prod.splits if_splits)
  qed
  moreover have "files_under (put (cm_metadataFile cm) (FileNode x) t1) ?dir = []" for x
    using calculation assms(6) by (auto simp: files_under_def List.map_filter_def put_def filter_empty_conv)
  ultimately show ?thesis
    using assms(4,7,8) \<open>e = None\<close> by (auto simp: pull_def DownloadModel_def hf Let_def saveMetadata_def IsCached_def split: option.splits)
qed

definition head_only :: hub where
  "head_only = (\<lambda>method _ _. if method = ''HEAD'' then Some \<lparr> ha_status = 200, ha_length = 8, ha_body = [], ha_broken = False \<rparr> else None)"

definition fresh_cache :: CacheManager where
  "fresh_cache = \<lparr> cm_cacheDir = ''/c'', cm_metadataFile = ''/c/.metadata.json'', cm_metadata = Map.empty \<rparr>"

definition plain_cache :: cache_env where
  "plain_cache = \<lparr> ce_marshal = (\<lambda>_. Some ''{}''), ce_unmarshal = (\<lambda>_. None), ce_write = None \<rparr>"

theorem phantom_model_witness:
  "(let (e, cm1, t1) = pull plain_cache head_only (\<lambda>_. None) 4096 False 0 ''org/m'' fresh_cache [] in
    e = None \<and> IsCached ''org/m'' cm1 \<and> files_under t1 (Path_Join [cm_cacheDir fresh_cache, ''org/m'']) = [])"
proof (rule phantom_model [of head_only "''config.json''"])
  show "head_only ''GET'' u s = None" for u s by (simp add: head_only_def)
  show "''config.json'' \<in> set commonFiles" by code_simp
  show "head_ok head_only ''org/m'' ''config.json''" by code_simp
  show "\<not> IsCached ''org/m'' fresh_cache" by (simp add: IsCached_def fresh_cache_def)
  show "files_under [] (Path_Join [cm_cacheDir fresh_cache, ''org/m'']) = []" by (simp add: files_under_def List.map_filter_def)
  show "\<not> under (Path_Join [cm_cacheDir fresh_cache, ''org/m'']) (cm_metadataFile fresh_cache)" by code_simp
  show "ce_marshal plain_cache m \<noteq> None" for m by (simp add: plain_cache_def)
  show "ce_write plain_cache = None" by (simp add: plain_cache_def)
qed

end
