(* ===== verification/KeyAdmin.thy ===== *)
theory KeyAdmin
  imports KeyStore Access AuditTrail GoPath
begin

text \<open>
  The key commands of the CLI (\<open>cmd/keys.go\<close>, \<open>cmd/output.go\<close>). Every command loads the key file, changes
  the store in memory and saves it. A command takes its environment and the disk and returns its error or
  what it reports, and the disk. The rendering of reports as text or JSON is not modelled, what they are
  rendered from is.
\<close>

subsection \<open>Environment and results\<close>

text \<open>\<open>ka_now i\<close> is the clock at the \<open>i\<close>-th reading, in nanoseconds; \<open>ka_sha\<close> is SHA-256; \<open>ka_rand\<close> the salt a hash
  draws, \<open>ka_salt\<close> those of a migration; \<open>ka_order\<close> an iteration order of the users; \<open>ka_output\<close> the value of
  \<open>--output\<close>.\<close>

record key_env =
  ka_prims :: prims
  ka_save :: save_env
  ka_sha :: "gostr \<Rightarrow> gostr"
  ka_rand :: "gostr option"
  ka_salt :: "gostr \<Rightarrow> gostr option"
  ka_now :: "nat \<Rightarrow> time"
  ka_order :: "gostr list"
  ka_read_fails :: bool
  ka_output :: gostr

datatype cli_error =
  CliLoad key_error | CliExists gostr | CliAllowlist gostr | CliAdd key_error | CliRemove key_error
| CliUnknown gostr | CliUpdate key_error | CliMigrate key_error | CliOutput gostr

datatype report =
  RProfile UserProfile | RKey gostr gostr flt | RUserList "UserProfile list" | RTable "UserProfile list"
| RRemoved gostr | RInfo UserProfile | RGranted gostr gostr | RHasAccess gostr gostr | RRevoked gostr gostr
| RNoAccess gostr gostr | RMigrated nat gostr | RQuota gostr int int

definition outputFormat :: "gostr \<Rightarrow> gostr" where
  "outputFormat out = (if out = [] then ''text'' else out)"

definition emit :: "gostr \<Rightarrow> report \<Rightarrow> report \<Rightarrow> cli_error + report" where
  "emit out payload text_report =
     (if outputFormat out = ''json'' then Inr payload
      else if outputFormat out = ''text'' then Inr text_report
      else Inl (CliOutput (outputFormat out)))"

definition getKeyStorePath :: "gostr option \<Rightarrow> gostr" where
  "getKeyStorePath home =
     Path_Join [case home of Some h \<Rightarrow> h | None \<Rightarrow> ''.'', ''.sovereignstack'', ''keys.json'']"

definition generateAPIKey :: "(gostr \<Rightarrow> gostr) \<Rightarrow> time \<Rightarrow> gostr \<Rightarrow> gostr" where
  "generateAPIKey sha now userID =
     (let key = ''sk_'' @ hex_encode (sha (userID @ ''_'' @ Itoa now))
      in if 40 < length key then take 40 key else key)"

subsection \<open>Commands\<close>

record add_flags =
  af_department :: gostr
  af_team :: gostr
  af_role :: gostr
  af_rate :: flt
  af_allow :: gostr

definition ip_entries :: "gostr \<Rightarrow> gostr list" where
  "ip_entries csv =
     (if TrimSpace csv = [] then []
      else filter (\<lambda>e. e \<noteq> []) (map TrimSpace (Split (CHR '','') csv)))"

definition new_profile :: "key_env \<Rightarrow> add_flags \<Rightarrow> gostr \<Rightarrow> UserProfile" where
  "new_profile env fs uid =
     \<lparr> up_ID = uid, up_Key = generateAPIKey (ka_sha env) (ka_now env 0) uid, up_KeyIndex = [],
       up_Department = af_department fs, up_Team = af_team fs, up_Role = af_role fs,
       up_IPAllowlist = ip_entries (af_allow fs), up_AllowedModels = [], up_RateLimitPerMin = af_rate fs,
       up_MaxTokensPerDay = 0, up_MaxTokensPerMonth = 0, up_CreatedAt = ka_now env 1, up_LastUsedAt = ka_now env 2 \<rparr>"

text \<open>The profile as \<open>AddUser\<close> leaves it: a caller that holds the pointer sees it too.\<close>

definition stored_profile :: "key_env \<Rightarrow> UserProfile \<Rightarrow> UserProfile option" where
  "stored_profile env p =
     map_option (\<lambda>q. q\<lparr> up_LastUsedAt := ka_now env 3 \<rparr>)
       (if IsHashedKey (up_Key p) then Some p
        else map_option (\<lambda>h. p\<lparr> up_KeyIndex := keyIndex (p_hmac (ka_prims env)) (up_Key p), up_Key := h \<rparr>)
          (hashAPIKey (p_idkey (ka_prims env)) (ka_rand env) (up_Key p)))"

definition with_store ::
    "key_env \<Rightarrow> gostr \<Rightarrow> disk \<Rightarrow> (KeyStore \<Rightarrow> (cli_error + report) \<times> disk) \<Rightarrow> (cli_error + report) \<times> disk" where
  "with_store env path d f =
     (case LoadKeyStore (ka_prims env) (ka_read_fails env) path d of
        Inl e \<Rightarrow> (Inl (CliLoad e), d) | Inr ks \<Rightarrow> f ks)"

definition keysAdd :: "key_env \<Rightarrow> add_flags \<Rightarrow> gostr \<Rightarrow> gostr \<Rightarrow> disk \<Rightarrow> (cli_error + report) \<times> disk" where
  "keysAdd env fs uid path d = with_store env path d (\<lambda>ks.
     if GetByID uid ks \<noteq> None then (Inl (CliExists uid), d)
     else if ip_entries (af_allow fs) \<noteq> [] \<and> af_role fs \<noteq> RoleService then (Inl (CliAllowlist (af_role fs)), d)
     else
       let p = new_profile env fs uid;
           (_, d1, err) = AddUser (ka_prims env) (ka_save env) (ka_rand env) (ka_now env 3) p ks d
       in case err of
            Some e \<Rightarrow> (Inl (CliAdd e), d1)
          | None \<Rightarrow>
              (emit (ka_output env) (RProfile (case stored_profile env p of Some q \<Rightarrow> q | None \<Rightarrow> p))
                 (RKey uid (up_Key p) (af_rate fs)), d1))"

definition keysList :: "key_env \<Rightarrow> gostr \<Rightarrow> disk \<Rightarrow> (cli_error + report) \<times> disk" where
  "keysList env path d = with_store env path d (\<lambda>ks.
     let users = ListUsers (ka_order env) ks in (emit (ka_output env) (RUserList users) (RTable users), d))"

definition keysRemove :: "key_env \<Rightarrow> gostr \<Rightarrow> gostr \<Rightarrow> disk \<Rightarrow> (cli_error + report) \<times> disk" where
  "keysRemove env uid path d = with_store env path d (\<lambda>ks.
     let (_, d1, err) = RemoveUser (ka_prims env) (ka_save env) uid ks d in
     case err of Some e \<Rightarrow> (Inl (CliRemove e), d1) | None \<Rightarrow> (emit (ka_output env) (RRemoved uid) (RRemoved uid), d1))"

definition keysInfo :: "key_env \<Rightarrow> gostr \<Rightarrow> gostr \<Rightarrow> disk \<Rightarrow> (cli_error + report) \<times> disk" where
  "keysInfo env uid path d = with_store env path d (\<lambda>ks.
     case GetByID uid ks of
       None \<Rightarrow> (Inl (CliUnknown uid), d) | Some u \<Rightarrow> (emit (ka_output env) (RProfile u) (RInfo u), d))"

text \<open>The commands that change a profile do so through the pointer of the store's entry \<open>uid\<close>, then pass it
  to \<open>AddUser\<close>, which hashes a plaintext key in place and stores the profile under its own identifier.\<close>

definition put_profile ::
    "key_env \<Rightarrow> gostr \<Rightarrow> UserProfile \<Rightarrow> report \<Rightarrow> KeyStore \<Rightarrow> disk \<Rightarrow> (cli_error + report) \<times> disk" where
  "put_profile env uid p done_report ks d =
     (let seen = (case stored_profile env p of Some q \<Rightarrow> q | None \<Rightarrow> p);
          (_, d1, err) = AddUser (ka_prims env) (ka_save env) (ka_rand env) (ka_now env 3) p (set_user uid seen ks) d
      in case err of Some e \<Rightarrow> (Inl (CliUpdate e), d1) | None \<Rightarrow> (Inr done_report, d1))"

definition keysGrantModel :: "key_env \<Rightarrow> gostr \<Rightarrow> gostr \<Rightarrow> gostr \<Rightarrow> disk \<Rightarrow> (cli_error + report) \<times> disk" where
  "keysGrantModel env uid model path d = with_store env path d (\<lambda>ks.
     case GetByID uid ks of
       None \<Rightarrow> (Inl (CliUnknown uid), d)
     | Some u \<Rightarrow>
         if model \<in> set (up_AllowedModels u) then (Inr (RHasAccess uid model), d)
         else put_profile env uid (u\<lparr> up_AllowedModels := up_AllowedModels u @ [model] \<rparr>) (RGranted uid model) ks d)"

definition keysRevokeModel :: "key_env \<Rightarrow> gostr \<Rightarrow> gostr \<Rightarrow> gostr \<Rightarrow> disk \<Rightarrow> (cli_error + report) \<times> disk" where
  "keysRevokeModel env uid model path d = with_store env path d (\<lambda>ks.
     case GetByID uid ks of
       None \<Rightarrow> (Inl (CliUnknown uid), d)
     | Some u \<Rightarrow>
         if model \<notin> set (up_AllowedModels u) then (Inr (RNoAccess uid model), d)
         else put_profile env uid (u\<lparr> up_AllowedModels := filter (\<lambda>m. m \<noteq> model) (up_AllowedModels u) \<rparr>)
                (RRevoked uid model) ks d)"

definition keysMigrateHash :: "key_env \<Rightarrow> gostr \<Rightarrow> disk \<Rightarrow> (cli_error + report) \<times> disk" where
  "keysMigrateHash env path d = with_store env path d (\<lambda>ks.
     let (n, _, d1, err) = MigrateHashes (ka_prims env) (ka_salt env) (ka_order env) (ka_save env) ks d in
     case err of
       Some e \<Rightarrow> (Inl (CliMigrate e), d1) | None \<Rightarrow> (emit (ka_output env) (RMigrated n path) (RMigrated n path), d1))"

definition keysSetQuota :: "key_env \<Rightarrow> gostr \<Rightarrow> int \<Rightarrow> int \<Rightarrow> gostr \<Rightarrow> disk \<Rightarrow> (cli_error + report) \<times> disk" where
  "keysSetQuota env uid daily monthly path d = with_store env path d (\<lambda>ks.
     case GetByID uid ks of
       None \<Rightarrow> (Inl (CliUnknown uid), d)
     | Some u \<Rightarrow> put_profile env uid (u\<lparr> up_MaxTokensPerDay := daily, up_MaxTokensPerMonth := monthly \<rparr>)
                   (RQuota uid daily monthly) ks d)"

definition keysUsage :: "key_env \<Rightarrow> gostr \<Rightarrow> gostr \<Rightarrow> disk \<Rightarrow> (cli_error + report) \<times> disk" where
  "keysUsage env uid path d = with_store env path d (\<lambda>ks.
     case GetByID uid ks of
       None \<Rightarrow> (Inl (CliUnknown uid), d)
     | Some u \<Rightarrow> (Inr (RQuota uid (up_MaxTokensPerDay u) (up_MaxTokensPerMonth u)), d))"

datatype key_cmd =
  KAdd add_flags gostr | KList | KRemove gostr | KInfo gostr | KGrant gostr gostr | KRevoke gostr gostr
| KMigrate | KQuota gostr int int | KUsage gostr

fun run_keys :: "key_env \<Rightarrow> key_cmd \<Rightarrow> gostr \<Rightarrow> disk \<Rightarrow> (cli_error + report) \<times> disk" where
  "run_keys env (KAdd fs uid) path d = keysAdd env fs uid path d"
| "run_keys env KList path d = keysList env path d"
| "run_keys env (KRemove uid) path d = keysRemove env uid path d"
| "run_keys env (KInfo uid) path d = keysInfo env uid path d"
| "run_keys env (KGrant uid m) path d = keysGrantModel env uid m path d"
| "run_keys env (KRevoke uid m) path d = keysRevokeModel env uid m path d"
| "run_keys env KMigrate path d = keysMigrateHash env path d"
| "run_keys env (KQuota uid daily monthly) path d = keysSetQuota env uid daily monthly path d"
| "run_keys env (KUsage uid) path d = keysUsage env uid path d"

subsection \<open>The users of the file\<close>

text \<open>The abstraction: the users a key file holds. An absent file has none; a file without a users object has no
  table.\<close>

definition table :: "prims \<Rightarrow> gostr \<Rightarrow> disk \<Rightarrow> users option" where
  "table P path d =
     (case d path of None \<Rightarrow> Some Map.empty
      | Some data \<Rightarrow> (case p_unmarshal P data of Some (Some us) \<Rightarrow> Some us | _ \<Rightarrow> None))"

definition ids_ok :: "users \<Rightarrow> bool" where
  "ids_ok us \<longleftrightarrow> (\<forall>k p. us k = Some p \<longrightarrow> up_ID p = k)"

definition store_codec_ok :: "prims \<Rightarrow> bool" where
  "store_codec_ok P \<longleftrightarrow> (\<forall>us b. p_marshal P us = Some b \<longrightarrow> p_unmarshal P b = Some (Some us))"

text \<open>What a command does to the users: \<open>None\<close> is a refusal.\<close>

definition change :: "key_env \<Rightarrow> gostr \<Rightarrow> UserProfile \<Rightarrow> users \<Rightarrow> users option" where
  "change env uid p us =
     (if uid = [] \<or> up_Key p = [] then None else map_option (\<lambda>q. us(uid \<mapsto> q)) (stored_profile env p))"

fun spec_keys :: "key_env \<Rightarrow> key_cmd \<Rightarrow> users \<Rightarrow> users option" where
  "spec_keys env (KAdd fs uid) us =
     (if us uid \<noteq> None \<or> (ip_entries (af_allow fs) \<noteq> [] \<and> af_role fs \<noteq> RoleService) then None
      else change env uid (new_profile env fs uid) us)"
| "spec_keys env KList us = Some us"
| "spec_keys env (KRemove uid) us = (if us uid = None then None else Some (us(uid := None)))"
| "spec_keys env (KInfo uid) us = (if us uid = None then None else Some us)"
| "spec_keys env (KGrant uid m) us =
     (case us uid of None \<Rightarrow> None
      | Some p \<Rightarrow> if m \<in> set (up_AllowedModels p) then Some us
                  else change env uid (p\<lparr> up_AllowedModels := up_AllowedModels p @ [m] \<rparr>) us)"
| "spec_keys env (KRevoke uid m) us =
     (case us uid of None \<Rightarrow> None
      | Some p \<Rightarrow> if m \<notin> set (up_AllowedModels p) then Some us
                  else change env uid (p\<lparr> up_AllowedModels := filter (\<lambda>x. x \<noteq> m) (up_AllowedModels p) \<rparr>) us)"
| "spec_keys env KMigrate us =
     (case migrate_hashes (ka_prims env) (ka_salt env) (ka_order env) us 0 of (us', _, None) \<Rightarrow> Some us' | _ \<Rightarrow> None)"
| "spec_keys env (KQuota uid daily monthly) us =
     (case us uid of None \<Rightarrow> None
      | Some p \<Rightarrow> change env uid (p\<lparr> up_MaxTokensPerDay := daily, up_MaxTokensPerMonth := monthly \<rparr>) us)"
| "spec_keys env (KUsage uid) us = (if us uid = None then None else Some us)"

text \<open>A command that meets a specification: it does what is specified and succeeds, up to the final choice of
  the output format; or it fails without touching the users, because the specification refuses or because
  the file cannot be read or written.\<close>

definition broken :: "key_env \<Rightarrow> users \<Rightarrow> bool" where
  "broken env us \<longleftrightarrow> ka_read_fails env \<or> p_marshal (ka_prims env) us = None \<or> (\<exists>st. se_fault (ka_save env) st)"

definition meets :: "key_env \<Rightarrow> gostr \<Rightarrow> users \<Rightarrow> users option \<Rightarrow> (cli_error + report) \<times> disk \<Rightarrow> bool" where
  "meets env path us spec r \<longleftrightarrow>
     (let done = (spec \<noteq> None \<and> table (ka_prims env) path (snd r) = spec) in
      case fst r of
        Inl (CliOutput _) \<Rightarrow> done
      | Inl _ \<Rightarrow> table (ka_prims env) path (snd r) = Some us \<and> (case spec of None \<Rightarrow> True | Some us' \<Rightarrow> broken env us')
      | Inr _ \<Rightarrow> done)"

lemma meets_error:
  "table (ka_prims env) path d = Some us \<Longrightarrow> (\<And>f. e \<noteq> CliOutput f) \<Longrightarrow> (\<And>us'. spec = Some us' \<Longrightarrow> broken env us') \<Longrightarrow>
     meets env path us spec (Inl e, d)"
  by (auto simp: meets_def split: cli_error.splits option.splits)

lemma meets_refused: "table (ka_prims env) path d = Some us \<Longrightarrow> (\<And>f. e \<noteq> CliOutput f) \<Longrightarrow> meets env path us None (Inl e, d)"
  by (rule meets_error) auto

lemma meets_report: "table (ka_prims env) path d = Some us' \<Longrightarrow> meets env path us (Some us') (Inr x, d)"
  by (simp add: meets_def)

lemma meets_emit: "table (ka_prims env) path d = Some us' \<Longrightarrow> meets env path us (Some us') (emit out x y, d)"
  by (simp add: meets_def emit_def)

lemma table_load:
  assumes "table P path d = Some us" "LoadKeyStore P rf path d = Inr ks"
  shows "ks = \<lparr> ks_Users = us, ks_nil = False, ks_path = path, ks_masterKey = [] \<rparr>"
  using assms by (auto simp: table_def LoadKeyStore_def split: if_splits option.splits)

lemma write_atomic_fault: "snd (write_atomic env path bytes d) = Some st \<Longrightarrow> se_fault env st"
  by (auto simp: write_atomic_def Let_def split: if_splits)

lemma table_save:
  assumes "store_codec_ok P" "save P env ks d = (ks1, d1, err)" "ks_masterKey ks = []"
  shows "(case err of None \<Rightarrow> table P (ks_path ks) d1 = Some (ks_Users ks)
          | Some e \<Rightarrow> table P (ks_path ks) d1 = table P (ks_path ks) d \<and>
              (p_marshal P (ks_Users ks) = None \<or> (\<exists>st. se_fault env st)))"
proof -
  obtain hist e where s: "saveLocked P env ks d = (hist, e)" by fastforce
  with assms(2) have r: "d1 = after d hist" "err = map_option SaveErr e" by (auto simp: save_def)
  have snap: "snapshot P env ks = Inr (ks_Users ks)" using assms(3) by (simp add: snapshot_def)
  show ?thesis
  proof (cases e)
    case None
    then obtain bytes where "p_marshal P (ks_Users ks) = Some bytes" "d1 (ks_path ks) = Some bytes"
      using save_crash_safe_gen [OF s] snap r by auto
    then show ?thesis using None r assms(1) by (simp add: table_def store_codec_ok_def)
  next
    case (Some x)
    then have "d1 (ks_path ks) = d (ks_path ks)" using save_crash_safe_gen [OF s] r by simp
    moreover have "p_marshal P (ks_Users ks) = None \<or> (\<exists>st. se_fault env st)"
      using s Some snap write_atomic_fault by (fastforce simp: saveLocked_def split_beta split: option.splits)
    ultimately show ?thesis using Some r by (simp add: table_def)
  qed
qed

lemma meets_save:
  assumes "store_codec_ok (ka_prims env)" "table (ka_prims env) path d = Some us"
    "save (ka_prims env) (ka_save env) \<lparr> ks_Users = us', ks_nil = False, ks_path = path, ks_masterKey = [] \<rparr> d = (ks1, d1, err)"
    "\<And>e f. fail e \<noteq> CliOutput f"
    "\<And>d. table (ka_prims env) path d = Some us' \<Longrightarrow> meets env path us (Some us') (res, d)"
  shows "meets env path us (Some us') ((case err of Some e \<Rightarrow> Inl (fail e) | None \<Rightarrow> res), d1)"
  using table_save [OF assms(1,3)] assms(2,4,5) by (auto simp: broken_def intro!: meets_error split: option.splits)

text \<open>\<open>AddUser\<close> is a refusal or the save of the changed users; the entry the caller changed through its
  pointer is the one it replaces.\<close>

lemma AddUser_change:
  assumes "up_ID p = uid" "ks_Users ks = us \<or> ks_Users ks = us(uid \<mapsto> seen)" "\<not> ks_nil ks"
  shows "case change env uid p us of
      None \<Rightarrow> \<exists>e. AddUser (ka_prims env) (ka_save env) (ka_rand env) (ka_now env 3) p ks d = (ks, d, Some e)
    | Some us' \<Rightarrow> AddUser (ka_prims env) (ka_save env) (ka_rand env) (ka_now env 3) p ks d =
        save (ka_prims env) (ka_save env) (ks\<lparr> ks_Users := us' \<rparr>) d"
proof -
  have upd: "(ks_Users ks)(uid \<mapsto> q) = us(uid \<mapsto> q)" for q using assms(2) by auto
  show ?thesis
  proof (cases "IsHashedKey (up_Key p)")
    case True
    then show ?thesis using assms(1,3)
      by (auto simp: change_def stored_profile_def AddUser_def upd simp del: fun_upd_apply)
  next
    case False
    then show ?thesis using assms(1,3)
      by (cases "hashAPIKey (p_idkey (ka_prims env)) (ka_rand env) (up_Key p)")
        (auto simp: change_def stored_profile_def AddUser_def upd Let_def simp del: fun_upd_apply)
  qed
qed

lemma meets_change:
  assumes "store_codec_ok (ka_prims env)" "table (ka_prims env) path d = Some us" "up_ID p = uid"
    "us0 = us \<or> us0 = us(uid \<mapsto> seen)"
    "AddUser (ka_prims env) (ka_save env) (ka_rand env) (ka_now env 3) p
       \<lparr> ks_Users = us0, ks_nil = False, ks_path = path, ks_masterKey = [] \<rparr> d = (ks1, d1, err)"
    "\<And>e f. fail e \<noteq> CliOutput f"
    "\<And>d us'. table (ka_prims env) path d = Some us' \<Longrightarrow> meets env path us (Some us') (res, d)"
  shows "meets env path us (change env uid p us)
    ((case err of Some e \<Rightarrow> Inl (fail e) | None \<Rightarrow> res), d1)"
proof -
  let ?ks = "\<lparr> ks_Users = us0, ks_nil = False, ks_path = path, ks_masterKey = [] \<rparr>"
  have a: "ks_Users ?ks = us \<or> ks_Users ?ks = us(uid \<mapsto> seen)" using assms(4) by simp
  have n: "\<not> ks_nil ?ks" by simp
  note c = AddUser_change [OF assms(3) a n, of env d]
  show ?thesis
  proof (cases "change env uid p us")
    case None
    with c assms(5) obtain e where "err = Some e" "d1 = d" by auto
    then show ?thesis using None assms(2,6) by (simp add: meets_refused)
  next
    case (Some us')
    with c assms(5) have "save (ka_prims env) (ka_save env)
        \<lparr> ks_Users = us', ks_nil = False, ks_path = path, ks_masterKey = [] \<rparr> d = (ks1, d1, err)" by simp
    from meets_save [where fail = fail, OF assms(1,2) this assms(6) assms(7)] Some show ?thesis by simp
  qed
qed

lemma migrate_zero:
  "migrate_hashes P rand ks us n = (us', m, None) \<Longrightarrow> n \<le> m \<and> (m = n \<longrightarrow> us' = us)"
proof (induction ks arbitrary: us n)
  case (Cons k ks)
  show ?case
  proof (cases "\<exists>u. us k = Some u \<and> \<not> IsHashedKey (up_Key u)")
    case False
    then show ?thesis using Cons by (auto split: option.splits)
  next
    case True
    with Cons.prems obtain us1 where "migrate_hashes P rand ks us1 (Suc n) = (us', m, None)"
      by (auto simp: Let_def split: option.splits)
    from Cons.IH [OF this] show ?thesis by simp
  qed
qed simp

lemma meets_migrate:
  assumes "store_codec_ok (ka_prims env)" "table (ka_prims env) path d = Some us"
    "MigrateHashes (ka_prims env) (ka_salt env) (ka_order env) (ka_save env)
       \<lparr> ks_Users = us, ks_nil = False, ks_path = path, ks_masterKey = [] \<rparr> d = (n, ks1, d1, err)"
  shows "meets env path us (spec_keys env KMigrate us)
    ((case err of Some e \<Rightarrow> Inl (CliMigrate e) | None \<Rightarrow> emit out (RMigrated n path) (RMigrated n path)), d1)"
proof -
  obtain us' m e where mg: "migrate_hashes (ka_prims env) (ka_salt env) (ka_order env) us 0 = (us', m, e)"
    by (metis prod_cases3)
  show ?thesis
  proof (cases e)
    case (Some x)
    then have "err = Some x" "d1 = d" using assms(3) mg by (auto simp: MigrateHashes_def)
    then show ?thesis using assms(2) mg Some by (simp add: meets_refused)
  next
    case None
    show ?thesis
    proof (cases "0 < m")
      case True
      then have "save (ka_prims env) (ka_save env)
          \<lparr> ks_Users = us', ks_nil = False, ks_path = path, ks_masterKey = [] \<rparr> d = (ks1, d1, err)"
        using assms(3) mg None by (auto simp: MigrateHashes_def)
      from meets_save [where fail = CliMigrate, OF assms(1,2) this] show ?thesis
        using mg None by (auto intro: meets_emit)
    next
      case False
      then have "us' = us" "err = None" "d1 = d" using migrate_zero mg None assms(3) by (auto simp: MigrateHashes_def)
      then show ?thesis using mg None assms(2) by (auto intro: meets_emit)
    qed
  qed
qed

lemma meets_with_store:
  assumes "table (ka_prims env) path d = Some us"
    "meets env path us spec (f \<lparr> ks_Users = us, ks_nil = False, ks_path = path, ks_masterKey = [] \<rparr>)"
  shows "meets env path us spec (with_store env path d f)"
proof (cases "LoadKeyStore (ka_prims env) (ka_read_fails env) path d")
  case (Inl e)
  then have "ka_read_fails env" "e = ReadFailed"
    using assms(1) by (auto simp: table_def LoadKeyStore_def split: if_splits option.splits)
  then show ?thesis using Inl assms(1) by (simp add: with_store_def broken_def meets_error)
next
  case (Inr ks)
  then show ?thesis using assms table_load [OF assms(1) Inr] by (simp add: with_store_def)
qed

lemma meets_put_profile:
  assumes "store_codec_ok (ka_prims env)" "table (ka_prims env) path d = Some us" "up_ID p = uid"
  shows "meets env path us (change env uid p us)
    (put_profile env uid p rep \<lparr> ks_Users = us, ks_nil = False, ks_path = path, ks_masterKey = [] \<rparr> d)"
proof -
  let ?seen = "case stored_profile env p of Some q \<Rightarrow> q | None \<Rightarrow> p"
  let ?ks = "\<lparr> ks_Users = us(uid \<mapsto> ?seen), ks_nil = False, ks_path = path, ks_masterKey = [] \<rparr>"
  obtain ks1 d1 err where r: "AddUser (ka_prims env) (ka_save env) (ka_rand env) (ka_now env 3) p ?ks d = (ks1, d1, err)"
    by (metis prod_cases3)
  have "put_profile env uid p rep \<lparr> ks_Users = us, ks_nil = False, ks_path = path, ks_masterKey = [] \<rparr> d =
      ((case err of Some e \<Rightarrow> Inl (CliUpdate e) | None \<Rightarrow> Inr rep), d1)"
    using r by (simp add: put_profile_def Let_def set_user_def split: option.split)
  then show ?thesis
    using meets_change [where fail = CliUpdate and res = "Inr rep", OF assms disjI2 [OF refl] r] by (simp add: meets_report)
qed

lemma keys_add_meets:
  assumes "store_codec_ok (ka_prims env)" "table (ka_prims env) path d = Some us"
  shows "meets env path us (spec_keys env (KAdd fs uid) us) (keysAdd env fs uid path d)"
  unfolding keysAdd_def
proof (rule meets_with_store [OF assms(2)])
  let ?ks = "\<lparr> ks_Users = us, ks_nil = False, ks_path = path, ks_masterKey = [] \<rparr>" and ?p = "new_profile env fs uid"
  obtain ks1 d1 err where r: "AddUser (ka_prims env) (ka_save env) (ka_rand env) (ka_now env 3) ?p ?ks d = (ks1, d1, err)"
    by (metis prod_cases3)
  have "up_ID ?p = uid" by (simp add: new_profile_def)
  from meets_change [where fail = CliAdd and
      res = "emit (ka_output env) (RProfile (case stored_profile env ?p of Some q \<Rightarrow> q | None \<Rightarrow> ?p)) (RKey uid (up_Key ?p) (af_rate fs))",
      OF assms this disjI1 [OF refl] r]
  have add: "meets env path us (change env uid ?p us) ((case err of Some e \<Rightarrow> Inl (CliAdd e) | None \<Rightarrow>
      emit (ka_output env) (RProfile (case stored_profile env ?p of Some q \<Rightarrow> q | None \<Rightarrow> ?p)) (RKey uid (up_Key ?p) (af_rate fs))), d1)"
    by (simp add: meets_emit)
  show "meets env path us (spec_keys env (KAdd fs uid) us)
     (if GetByID uid ?ks \<noteq> None then (Inl (CliExists uid), d)
      else if ip_entries (af_allow fs) \<noteq> [] \<and> af_role fs \<noteq> RoleService then (Inl (CliAllowlist (af_role fs)), d)
      else let p = ?p; (_, d1, err) = AddUser (ka_prims env) (ka_save env) (ka_rand env) (ka_now env 3) p ?ks d
           in case err of Some e \<Rightarrow> (Inl (CliAdd e), d1)
              | None \<Rightarrow> (emit (ka_output env) (RProfile (case stored_profile env p of Some q \<Rightarrow> q | None \<Rightarrow> p))
                  (RKey uid (up_Key p) (af_rate fs)), d1))"
    using add assms(2) r by (auto simp: GetByID_def meets_refused Let_def split: option.splits)
qed

lemma keys_remove_meets:
  assumes "store_codec_ok (ka_prims env)" "table (ka_prims env) path d = Some us"
  shows "meets env path us (spec_keys env (KRemove uid) us) (keysRemove env uid path d)"
proof -
  let ?ks = "\<lparr> ks_Users = us, ks_nil = False, ks_path = path, ks_masterKey = [] \<rparr>"
  obtain ks1 d1 err where r: "save (ka_prims env) (ka_save env) (?ks\<lparr> ks_Users := us(uid := None) \<rparr>) d = (ks1, d1, err)"
    by (metis prod_cases3)
  have "meets env path us (Some (us(uid := None)))
      ((case err of Some e \<Rightarrow> Inl (CliRemove e) | None \<Rightarrow> emit (ka_output env) (RRemoved uid) (RRemoved uid)), d1)"
    using meets_save [where fail = CliRemove and res = "emit (ka_output env) (RRemoved uid) (RRemoved uid)", OF assms(1,2)] r
    by (simp add: meets_emit)
  then show ?thesis using assms(2) r
    by (auto simp: keysRemove_def RemoveUser_def meets_refused split: option.splits intro!: meets_with_store)
qed

lemma keys_migrate_meets:
  assumes "store_codec_ok (ka_prims env)" "table (ka_prims env) path d = Some us"
  shows "meets env path us (spec_keys env KMigrate us) (keysMigrateHash env path d)"
  unfolding keysMigrateHash_def
proof (rule meets_with_store [OF assms(2)])
  let ?ks = "\<lparr> ks_Users = us, ks_nil = False, ks_path = path, ks_masterKey = [] \<rparr>"
  obtain n ks1 d1 err where r: "MigrateHashes (ka_prims env) (ka_salt env) (ka_order env) (ka_save env) ?ks d = (n, ks1, d1, err)"
    by (metis prod_cases4)
  from meets_migrate [OF assms r, of "ka_output env"]
  show "meets env path us (spec_keys env KMigrate us)
      (let (n, _, d1, err) = MigrateHashes (ka_prims env) (ka_salt env) (ka_order env) (ka_save env) ?ks d in
       case err of Some e \<Rightarrow> (Inl (CliMigrate e), d1)
       | None \<Rightarrow> (emit (ka_output env) (RMigrated n path) (RMigrated n path), d1))"
    unfolding r by (simp split: option.splits)
qed

lemma keys_profile_meets:
  assumes "store_codec_ok (ka_prims env)" "table (ka_prims env) path d = Some us" "ids_ok us"
  shows "meets env path us (spec_keys env (KGrant uid m) us) (keysGrantModel env uid m path d)"
    "meets env path us (spec_keys env (KRevoke uid m) us) (keysRevokeModel env uid m path d)"
    "meets env path us (spec_keys env (KQuota uid a b) us) (keysSetQuota env uid a b path d)"
proof -
  have "up_ID p = uid" if "us uid = Some p" for p using that assms(3) by (simp add: ids_ok_def)
  then show "meets env path us (spec_keys env (KGrant uid m) us) (keysGrantModel env uid m path d)"
    "meets env path us (spec_keys env (KRevoke uid m) us) (keysRevokeModel env uid m path d)"
    "meets env path us (spec_keys env (KQuota uid a b) us) (keysSetQuota env uid a b path d)"
    using assms(1,2) by (auto simp: keysGrantModel_def keysRevokeModel_def keysSetQuota_def GetByID_def meets_refused meets_report
        split: option.splits intro!: meets_with_store meets_put_profile)
qed

lemma keys_report_meets:
  assumes "table (ka_prims env) path d = Some us"
  shows "meets env path us (spec_keys env KList us) (keysList env path d)"
    "meets env path us (spec_keys env (KInfo uid) us) (keysInfo env uid path d)"
    "meets env path us (spec_keys env (KUsage uid) us) (keysUsage env uid path d)"
  using assms by (auto simp: keysList_def keysInfo_def keysUsage_def GetByID_def Let_def meets_refused meets_emit meets_report
      split: option.splits intro!: meets_with_store)

text \<open>C25: The key commands implement a table of users: started on a file that holds a table, every command does to
  it exactly what the specification says and reports so, unless the specification refuses or the file cannot
  be read or written: then it fails and leaves the table as it was. The only error after the change is
  committed is that of an unknown output format.\<close>

theorem keys_refine:
  assumes "store_codec_ok (ka_prims env)" "table (ka_prims env) path d = Some us" "ids_ok us"
  shows "meets env path us (spec_keys env cmd us) (run_keys env cmd path d)"
  by (cases cmd) (simp_all only: run_keys.simps keys_add_meets keys_remove_meets keys_migrate_meets keys_profile_meets keys_report_meets assms)

text \<open>A key file with one user, and a codec that knows two tables.\<close>

definition one_user :: users where "one_user = [''u'' \<mapsto> toy_user ''u'' ''k'']"

definition two_tables :: prims where
  "two_tables = toy_prims\<lparr> p_marshal := (\<lambda>us. if us = Map.empty then Some ''{}'' else None),
     p_unmarshal := (\<lambda>b. Some (Some (if b = ''{}'' then Map.empty else one_user))) \<rparr>"

definition plain_key_env :: "gostr \<Rightarrow> key_env" where
  "plain_key_env out = \<lparr> ka_prims = two_tables, ka_save = toy_env (\<lambda>_. False), ka_sha = (\<lambda>s. replicate 32 (CHR ''a'')),
     ka_rand = Some ''salt'', ka_salt = (\<lambda>_. Some ''salt''), ka_now = (\<lambda>i. int i), ka_order = [''u''],
     ka_read_fails = False, ka_output = out \<rparr>"

lemma two_tables_codec: "store_codec_ok two_tables"
  by (auto simp: store_codec_ok_def two_tables_def)

lemma one_user_ids: "ids_ok one_user"
  by (simp add: ids_ok_def one_user_def toy_user_def)

theorem keys_refine_witness:
  "meets (plain_key_env ''text'') ''keys.json'' one_user (spec_keys (plain_key_env ''text'') (KRemove ''u'') one_user)
     (run_keys (plain_key_env ''text'') (KRemove ''u'') ''keys.json'' [''keys.json'' \<mapsto> ''{u}''])"
proof (rule keys_refine)
  show "store_codec_ok (ka_prims (plain_key_env ''text''))" by (simp add: plain_key_env_def two_tables_codec)
  show "table (ka_prims (plain_key_env ''text'')) ''keys.json'' [''keys.json'' \<mapsto> ''{u}''] = Some one_user"
    by (simp add: plain_key_env_def table_def two_tables_def)
  show "ids_ok one_user" by (rule one_user_ids)
qed

subsection \<open>Handing out a key\<close>

lemma length_hex_encode: "length (hex_encode bs) = 2 * length bs"
  by (induction bs) (auto simp: hex_encode_def)

lemma generated_key:
  assumes "length (sha (uid @ ''_'' @ Itoa now)) = 32"
  shows "length (generateAPIKey sha now uid) = 40" "HasPrefix (generateAPIKey sha now uid) ''sk_''"
  using assms by (simp_all add: generateAPIKey_def Let_def length_hex_encode HasPrefix_def)

lemma generated_not_hashed: "\<not> IsHashedKey (generateAPIKey sha now uid)"
  by (auto simp: generateAPIKey_def Let_def IsHashedKey_def HasPrefix_def)

text \<open>Creating a user: when the command succeeds, the file holds the new profile with a hashed key only. In text
  format the command reports the key, of forty characters, and the stored profile accepts it; in JSON format it
  reports the stored profile, so the only copy of the key is lost.\<close>

theorem add_reports_key:
  assumes "keysAdd env fs uid path d = (Inr rep, d1)" "store_codec_ok (ka_prims env)"
    "\<And>p s t m th n. length (p_idkey (ka_prims env) p s t m th n) = n" "\<And>s. length (ka_sha env s) = 32"
  shows "\<exists>us q. table (ka_prims env) path d1 = Some us \<and> us uid = Some q \<and> IsHashedKey (up_Key q) \<and>
     (outputFormat (ka_output env) = ''json'' \<longrightarrow> rep = RProfile q) \<and>
     (outputFormat (ka_output env) = ''text'' \<longrightarrow>
        (\<exists>k. rep = RKey uid k (af_rate fs) \<and> length k = 40 \<and> key_check (ka_prims env) k q = VOk True))"
proof -
  let ?P = "ka_prims env" and ?p = "new_profile env fs uid"
  let ?k = "generateAPIKey (ka_sha env) (ka_now env 0) uid"
  obtain ks where ks: "LoadKeyStore ?P (ka_read_fails env) path d = Inr ks"
    using assms(1) by (auto simp: keysAdd_def with_store_def split: sum.splits)
  then have path: "ks_path ks = path" "ks_masterKey ks = []" by (auto simp: LoadKeyStore_def split: if_splits option.splits)
  obtain ks1 where add: "AddUser ?P (ka_save env) (ka_rand env) (ka_now env 3) ?p ks d = (ks1, d1, None)"
      and rep: "emit (ka_output env) (RProfile (case stored_profile env ?p of Some q \<Rightarrow> q | None \<Rightarrow> ?p))
        (RKey uid (up_Key ?p) (af_rate fs)) = Inr rep"
    using assms(1) ks by (auto simp: keysAdd_def with_store_def Let_def split: if_splits option.splits prod.splits)
  have key: "up_Key ?p = ?k" "up_ID ?p = uid" by (simp_all add: new_profile_def)
  have nh: "\<not> IsHashedKey (up_Key ?p)" using generated_not_hashed key by simp
  obtain h where h: "hashAPIKey (p_idkey ?P) (ka_rand env) ?k = Some h"
    using add nh key by (auto simp: AddUser_def split: if_splits option.splits)
  let ?q = "?p\<lparr> up_KeyIndex := keyIndex (p_hmac ?P) ?k, up_Key := h, up_LastUsedAt := ka_now env 3 \<rparr>"
  have stored: "stored_profile env ?p = Some ?q" using nh h key by (simp add: stored_profile_def)
  have "save ?P (ka_save env) (ks\<lparr> ks_Users := (ks_Users ks)(uid \<mapsto> ?q) \<rparr>) d = (ks1, d1, None)"
    using add nh h key by (auto simp: AddUser_def Let_def simp del: fun_upd_apply split: if_splits)
  from table_save [OF assms(2) this] path have "table ?P path d1 = Some ((ks_Users ks)(uid \<mapsto> ?q))" by simp
  moreover have "IsHashedKey (up_Key ?q)" using hashAPIKey_IsHashedKey [OF h] by simp
  moreover have "key_check ?P ?k ?q = VOk True" by (rule key_check_hashed [OF h assms(3)]) simp_all
  moreover have "length ?k = 40" by (rule generated_key) (rule assms(4))
  moreover have "outputFormat (ka_output env) = ''json'' \<longrightarrow> rep = RProfile ?q"
    "outputFormat (ka_output env) = ''text'' \<longrightarrow> rep = RKey uid ?k (af_rate fs)"
    using rep stored key by (auto simp: emit_def)
  ultimately show ?thesis by (intro exI [of _ "(ks_Users ks)(uid \<mapsto> ?q)"] exI [of _ ?q]) auto
qed

text \<open>An empty file, and a codec for the one table the command makes.\<close>

definition plain_flags :: add_flags where
  "plain_flags = \<lparr> af_department = ''ops'', af_team = [], af_role = ''user'', af_rate = Fin 100, af_allow = [] \<rparr>"

definition new_user :: UserProfile where
  "new_user = the (stored_profile ((plain_key_env ''json'')\<lparr> ka_prims := toy_prims \<rparr>)
     (new_profile (plain_key_env ''json'') plain_flags ''u''))"

definition add_env :: key_env where
  "add_env = (plain_key_env ''json'')\<lparr> ka_prims := toy_prims\<lparr> p_marshal := (\<lambda>us. if us = [''u'' \<mapsto> new_user] then Some ''{u}'' else None),
     p_unmarshal := (\<lambda>_. Some (Some [''u'' \<mapsto> new_user])) \<rparr> \<rparr>"

lemma add_env_stored: "stored_profile add_env (new_profile add_env plain_flags ''u'') = Some new_user"
proof -
  have "new_profile add_env plain_flags ''u'' = new_profile (plain_key_env ''json'') plain_flags ''u''"
    by (simp add: new_profile_def add_env_def)
  moreover have "stored_profile add_env p = stored_profile ((plain_key_env ''json'')\<lparr> ka_prims := toy_prims \<rparr>) p" for p
    by (simp add: stored_profile_def add_env_def)
  moreover have "stored_profile ((plain_key_env ''json'')\<lparr> ka_prims := toy_prims \<rparr>) p \<noteq> None" for p
    by (simp add: stored_profile_def plain_key_env_def hashAPIKey_def)
  ultimately show ?thesis by (auto simp: new_user_def)
qed

lemma add_env_add: "fst (keysAdd add_env plain_flags ''u'' ''keys.json'' Map.empty) = Inr (RProfile new_user)"
proof -
  let ?p = "new_profile add_env plain_flags ''u''" and ?ks = "\<lparr> ks_Users = Map.empty, ks_nil = False, ks_path = ''keys.json'', ks_masterKey = [] \<rparr>"
  have load: "LoadKeyStore (ka_prims add_env) (ka_read_fails add_env) ''keys.json'' Map.empty = Inr ?ks"
    by (simp add: LoadKeyStore_def add_env_def plain_key_env_def)
  have key: "up_ID ?p = ''u''" "up_Key ?p \<noteq> []"
    using generated_key(1) [of "ka_sha add_env" "''u''" "ka_now add_env 0"]
    by (auto simp: new_profile_def add_env_def plain_key_env_def)
  then have c: "change add_env ''u'' ?p Map.empty = Some [''u'' \<mapsto> new_user]"
    by (simp add: change_def add_env_stored)
  have "AddUser (ka_prims add_env) (ka_save add_env) (ka_rand add_env) (ka_now add_env 3) ?p ?ks Map.empty =
      save (ka_prims add_env) (ka_save add_env) (?ks\<lparr> ks_Users := [''u'' \<mapsto> new_user] \<rparr>) Map.empty"
    using AddUser_change [OF key(1), of ?ks Map.empty new_user add_env Map.empty] c by simp
  moreover have "snd (snd (save (ka_prims add_env) (ka_save add_env) (?ks\<lparr> ks_Users := [''u'' \<mapsto> new_user] \<rparr>) Map.empty)) = None"
    by (simp add: save_def split_beta saveLocked_def snapshot_def add_env_def plain_key_env_def toy_env_def write_atomic_def Let_def)
  ultimately obtain ks1 d1 where "AddUser (ka_prims add_env) (ka_save add_env) (ka_rand add_env) (ka_now add_env 3) ?p ?ks Map.empty = (ks1, d1, None)"
    by (metis prod.collapse)
  then show ?thesis
    by (simp add: keysAdd_def with_store_def load GetByID_def Let_def add_env_stored)
      (simp add: emit_def outputFormat_def add_env_def plain_key_env_def plain_flags_def ip_entries_def TrimSpace_def)
qed

theorem add_reports_key_witness:
  "\<exists>us q d1. keysAdd add_env plain_flags ''u'' ''keys.json'' Map.empty = (Inr (RProfile q), d1) \<and>
     table (ka_prims add_env) ''keys.json'' d1 = Some us \<and> us ''u'' = Some q \<and> IsHashedKey (up_Key q)"
proof -
  obtain d1 where r: "keysAdd add_env plain_flags ''u'' ''keys.json'' Map.empty = (Inr (RProfile new_user), d1)"
    using add_env_add by (metis prod.collapse)
  have "store_codec_ok (ka_prims add_env)" by (simp add: store_codec_ok_def add_env_def)
  moreover have "length (p_idkey (ka_prims add_env) p s t m th n) = n" for p s t m th n
    by (simp add: add_env_def toy_prims_def)
  moreover have "length (ka_sha add_env s) = 32" for s by (simp add: add_env_def plain_key_env_def)
  ultimately obtain us q where q: "table (ka_prims add_env) ''keys.json'' d1 = Some us" "us ''u'' = Some q" "IsHashedKey (up_Key q)"
      "outputFormat (ka_output add_env) = ''json'' \<longrightarrow> RProfile new_user = RProfile q"
    using add_reports_key [OF r] by blast
  have "outputFormat (ka_output add_env) = ''json''" by (simp add: outputFormat_def add_env_def plain_key_env_def)
  then show ?thesis using r q by auto
qed

subsection \<open>Two processes on one file\<close>


text \<open>Two users; the service changes the quota of one after the other was removed.\<close>

definition two_users :: users where "two_users = [''u'' \<mapsto> toy_user ''u'' ''k'', ''v'' \<mapsto> toy_user ''v'' ''l'']"

definition two_users_capped :: users where
  "two_users_capped = two_users(''v'' \<mapsto> (toy_user ''v'' ''l'')\<lparr> up_MaxTokensPerDay := 5, up_MaxTokensPerMonth := 0 \<rparr>)"

definition three_tables :: prims where
  "three_tables = toy_prims\<lparr>
     p_marshal := (\<lambda>us. if us = two_users(''u'' := None) then Some ''1'' else if us = two_users_capped then Some ''2'' else None),
     p_unmarshal := (\<lambda>b. Some (Some (if b = ''1'' then two_users(''u'' := None) else if b = ''2'' then two_users_capped else two_users))) \<rparr>"

definition three_env :: key_env where "three_env = (plain_key_env ''text'')\<lparr> ka_prims := three_tables \<rparr>"

lemma calm_save:
  assumes "p_marshal P (ks_Users ks) = Some b" "ks_masterKey ks = []"
  shows "\<exists>d1. save P (toy_env (\<lambda>_. False)) ks d = (ks, d1, None)"
  using assms by (simp add: save_def split_beta saveLocked_def snapshot_def toy_env_def write_atomic_def Let_def)


end
