(* ===== verification/AuditMigration.thy ===== *)
theory AuditMigration
  imports AuditTrail
begin

text \<open>
  Moving the audit trail from SQLite to MySQL (\<open>cmd/migrate.go\<close>). The source is the SQLite sink of theory
  \<open>AuditTrail\<close>; the target is a table with the unique key the command states, the correlation identifier with the
  event type, and its \<open>INSERT ... ON DUPLICATE KEY UPDATE\<close>. Connecting, failing statements and the parser of
  \<open>--since\<close> are arguments; progress output is not modelled.
\<close>

subsection \<open>The target table\<close>

type_synonym mysql = "gostr \<times> gostr \<rightharpoonup> AuditLog"

definition row_key :: "AuditLog \<Rightarrow> gostr \<times> gostr" where
  "row_key e = (al_CorrelationID e, al_EventType e)"

text \<open>The level is not a column of the target.\<close>

definition row_of :: "AuditLog \<Rightarrow> AuditLog" where
  "row_of e = e\<lparr> al_Level := AuditLevelInfo \<rparr>"

definition merge :: "AuditLog \<Rightarrow> AuditLog \<Rightarrow> AuditLog" where
  "merge r e = r\<lparr> al_StatusCode := al_StatusCode e, al_TokensUsed := al_TokensUsed e,
     al_TokensGenerated := al_TokensGenerated e, al_DurationMS := al_DurationMS e, al_ErrorMessage := al_ErrorMessage e \<rparr>"

definition upsert :: "mysql \<Rightarrow> AuditLog \<Rightarrow> mysql" where
  "upsert t e =
     (case t (row_key e) of None \<Rightarrow> t(row_key e \<mapsto> row_of e) | Some r \<Rightarrow> t(row_key e \<mapsto> merge r e))"

subsection \<open>The command\<close>

datatype migration =
  MigDone nat nat | MigNothing | MigFlags | MigKey | MigSince | MigSource | MigTarget | MigConnect | MigPrepare
| MigInsert nat gostr | MigDivisionByZero

text \<open>\<open>fails i\<close>: the insert of the \<open>i\<close>-th row fails.\<close>

fun migrate_rows ::
    "(nat \<Rightarrow> bool) \<Rightarrow> int \<Rightarrow> AuditLog list \<Rightarrow> nat \<Rightarrow> nat \<Rightarrow> nat \<Rightarrow> mysql \<Rightarrow> migration \<times> mysql" where
  "migrate_rows fails batch [] i inserted skipped t = (MigDone inserted skipped, t)"
| "migrate_rows fails batch (r # rs) i inserted skipped t =
     (if al_CorrelationID r = [] then migrate_rows fails batch rs (Suc i) inserted (Suc skipped) t
      else if fails i then (MigInsert i (al_CorrelationID r), t)
      else if batch = 0 then (MigDivisionByZero, upsert t r)
      else migrate_rows fails batch rs (Suc i) (Suc inserted) skipped (upsert t r))"

record mig_env =
  mv_from :: gostr
  mv_to :: gostr
  mv_audit_key :: gostr
  mv_env_key :: gostr
  mv_batch :: int
  mv_since :: gostr
  mv_parse :: "gostr \<Rightarrow> time option"
  mv_source :: "gostr \<Rightarrow> SQLiteLogger option"
  mv_query_fails :: bool
  mv_open :: aead_open
  mv_target_ok :: bool
  mv_connected :: bool
  mv_prepared :: bool
  mv_now :: time
  mv_fails :: "nat \<Rightarrow> bool"

definition start_at :: "mig_env \<Rightarrow> time option" where
  "start_at env = (if mv_since env = [] then Some zero_time else mv_parse env (mv_since env))"

definition source_key :: "mig_env \<Rightarrow> gostr" where
  "source_key env = (if mv_audit_key env = [] then mv_env_key env else mv_audit_key env)"

definition source_rows :: "mig_env \<Rightarrow> time \<Rightarrow> SQLiteLogger \<Rightarrow> AuditLog list" where
  "source_rows env start src =
     SQLite_GetLogsInTimeRange (mv_open env) (mv_query_fails env) start (mv_now env + 24 * hour) src"

definition runMigrateAudit :: "mig_env \<Rightarrow> mysql \<Rightarrow> migration \<times> mysql" where
  "runMigrateAudit env t =
     (if mv_from env = [] \<or> mv_to env = [] then (MigFlags, t)
      else if source_key env = [] then (MigKey, t)
      else case start_at env of
        None \<Rightarrow> (MigSince, t)
      | Some start \<Rightarrow>
          (case mv_source env (source_key env) of
             None \<Rightarrow> (MigSource, t)
           | Some src \<Rightarrow>
               if \<not> mv_target_ok env then (MigTarget, t)
               else if \<not> mv_connected env then (MigConnect, t)
               else if source_rows env start src = [] then (MigNothing, t)
               else if \<not> mv_prepared env then (MigPrepare, t)
               else migrate_rows (mv_fails env) (mv_batch env) (source_rows env start src) 0 0 0 t))"

subsection \<open>Restarting\<close>

definition with_ids :: "AuditLog list \<Rightarrow> AuditLog list" where
  "with_ids rs = filter (\<lambda>r. al_CorrelationID r \<noteq> []) rs"

definition at_key :: "gostr \<times> gostr \<Rightarrow> AuditLog list \<Rightarrow> AuditLog list" where
  "at_key k rs = filter (\<lambda>r. row_key r = k) rs"

lemma merge_simps: "merge (merge r a) b = merge r b" "merge (row_of e) e = row_of e"
  by (simp_all add: merge_def row_of_def)

lemma upsert_at:
  "upsert t e k = (if k = row_key e then Some (merge (case t k of Some r \<Rightarrow> r | None \<Rightarrow> row_of e) e) else t k)"
  by (auto simp: upsert_def merge_simps split: option.split)

text \<open>What a sequence of upserts leaves under a key: the columns of the first row, with the updated ones of the last.\<close>

lemma upserts_lookup:
  "foldl upsert t rs k =
     (if at_key k rs = [] then t k
      else Some (merge (case t k of Some r \<Rightarrow> r | None \<Rightarrow> row_of (hd (at_key k rs))) (last (at_key k rs))))"
proof (induction rs rule: rev_induct)
  case Nil
  then show ?case by (simp add: at_key_def)
next
  case (snoc r rs)
  have a: "at_key k (rs @ [r]) = (if row_key r = k then at_key k rs @ [r] else at_key k rs)" by (simp add: at_key_def)
  define u where "u = foldl upsert t rs"
  have l: "foldl upsert t (rs @ [r]) k = upsert u r k" by (simp add: u_def)
  note IH = snoc.IH [folded u_def]
  show ?case unfolding l unfolding a upsert_at
    by (cases "at_key k rs = []") (auto simp: IH merge_simps hd_append split: option.split)
qed

lemma at_key_append: "at_key k (as @ bs) = at_key k as @ at_key k bs"
  by (simp add: at_key_def)

lemma upserts_restart: "foldl upsert (foldl upsert t as) (as @ bs) = foldl upsert t (as @ bs)"
proof
  fix k
  show "foldl upsert (foldl upsert t as) (as @ bs) k = foldl upsert t (as @ bs) k"
    unfolding upserts_lookup [of _ "as @ bs"] upserts_lookup [of t as]
    by (auto simp: at_key_append merge_simps hd_append last_append split: option.split)
qed

lemma migrate_rows_prefix:
  "migrate_rows fails batch rs i n s t = (res, t') \<Longrightarrow> \<exists>as bs. with_ids rs = as @ bs \<and> t' = foldl upsert t as"
proof (induction rs arbitrary: i n s t)
  case Nil
  then show ?case by (simp add: with_ids_def)
next
  case (Cons r rs)
  show ?case
  proof (cases "al_CorrelationID r = [] \<or> fails i \<or> batch = 0")
    case False
    then have "migrate_rows fails batch rs (Suc i) (Suc n) s (upsert t r) = (res, t')" using Cons.prems by simp
    from Cons.IH [OF this] obtain as bs where "with_ids rs = as @ bs" "t' = foldl upsert (upsert t r) as" by blast
    then show ?thesis using False by (intro exI [of _ "r # as"] exI [of _ bs]) (simp add: with_ids_def)
  next
    case True
    then consider "al_CorrelationID r = []" | "al_CorrelationID r \<noteq> []" "fails i"
      | "al_CorrelationID r \<noteq> []" "\<not> fails i" "batch = 0" by blast
    then show ?thesis
    proof cases
      case 1
      then show ?thesis using Cons by (simp add: with_ids_def)
    next
      case 2
      then show ?thesis using Cons.prems by (intro exI [of _ "[]"] exI [of _ "with_ids (r # rs)"]) simp
    next
      case 3
      then show ?thesis using Cons.prems by (intro exI [of _ "[r]"] exI [of _ "with_ids rs"]) (simp add: with_ids_def)
    qed
  qed
qed

definition unkeyed :: "AuditLog list \<Rightarrow> AuditLog list" where
  "unkeyed rs = filter (\<lambda>r. al_CorrelationID r = []) rs"

lemma migrate_rows_complete:
  "(\<And>j. \<not> fails j) \<Longrightarrow> batch \<noteq> 0 \<Longrightarrow>
     migrate_rows fails batch rs i n s t =
       (MigDone (n + length (with_ids rs)) (s + length (unkeyed rs)), foldl upsert t (with_ids rs))"
  by (induction rs arbitrary: i n s t) (simp_all add: with_ids_def unkeyed_def)

lemma keyed_unkeyed: "length (with_ids rs) + length (unkeyed rs) = length rs"
  using sum_length_filter_compl [of "\<lambda>r. al_CorrelationID r \<noteq> []" rs] by (simp add: with_ids_def unkeyed_def)

text \<open>C37: A migration can be repeated and restarted: whatever the first run does, stopping at any failing insert or
  running to its end, a complete second run over the same source leaves the target exactly as one
  uninterrupted run would have, and reports every row as inserted or skipped. Rows that share a key are one row of
  the target.\<close>

theorem migration_restarts:
  assumes "runMigrateAudit (env\<lparr> mv_fails := f \<rparr>) t = (res1, t1)" "\<And>j. \<not> mv_fails env j" "mv_batch env \<noteq> 0"
    "runMigrateAudit env t = (MigDone n s, t2)"
  shows "\<exists>start src. start_at env = Some start \<and> mv_source env (source_key env) = Some src \<and>
     runMigrateAudit env t1 = (MigDone n s, t2) \<and> n + s = length (source_rows env start src) \<and>
     (\<forall>k. t k = None \<longrightarrow> (t2 k \<noteq> None \<longleftrightarrow> (\<exists>r \<in> set (source_rows env start src). row_key r = k \<and> fst k \<noteq> [])))"
proof -
  obtain start src where src: "start_at env = Some start" "mv_source env (source_key env) = Some src"
    using assms(4) by (auto simp: runMigrateAudit_def split: if_splits option.splits)
  let ?rs = "source_rows env start src"
  have guards: "\<not> (mv_from env = [] \<or> mv_to env = [])" "source_key env \<noteq> []" "mv_target_ok env" "mv_connected env" "?rs \<noteq> []" "mv_prepared env"
    using assms(4) src by (auto simp: runMigrateAudit_def split: if_splits)
  then have run: "runMigrateAudit env u = migrate_rows (mv_fails env) (mv_batch env) ?rs 0 0 0 u" for u
    using src by (simp add: runMigrateAudit_def)
  have f: "start_at (env\<lparr> mv_fails := f \<rparr>) = start_at env" "source_key (env\<lparr> mv_fails := f \<rparr>) = source_key env"
      "source_rows (env\<lparr> mv_fails := f \<rparr>) = source_rows env"
    by (simp_all add: start_at_def source_key_def source_rows_def fun_eq_iff)
  have "runMigrateAudit (env\<lparr> mv_fails := f \<rparr>) t = migrate_rows f (mv_batch env) ?rs 0 0 0 t"
    using guards src unfolding runMigrateAudit_def f by simp
  then obtain as bs where ab: "with_ids ?rs = as @ bs" "t1 = foldl upsert t as"
    using migrate_rows_prefix assms(1) by metis
  have c: "runMigrateAudit env u = (MigDone (length (with_ids ?rs)) (length (unkeyed ?rs)), foldl upsert u (with_ids ?rs))" for u
    unfolding run using migrate_rows_complete [of "mv_fails env" "mv_batch env" ?rs 0 0 0 u] assms(2,3) by simp
  have "n = length (with_ids ?rs)" "s = length (unkeyed ?rs)" "t2 = foldl upsert t (with_ids ?rs)"
    using assms(4) c [of t] by auto
  moreover have "length (with_ids ?rs) + length (unkeyed ?rs) = length ?rs" by (rule keyed_unkeyed)
  moreover have "runMigrateAudit env t1 = (MigDone n s, t2)"
    using c [of t1] calculation unfolding ab upserts_restart by simp
  moreover have "t2 k \<noteq> None \<longleftrightarrow> (\<exists>r \<in> set ?rs. row_key r = k \<and> fst k \<noteq> [])" if "t k = None" for k
    using that unfolding calculation upserts_lookup
    by (auto simp: at_key_def with_ids_def filter_empty_conv row_key_def)
  ultimately show ?thesis using src by auto
qed

text \<open>Two rows of one key; the first run fails at the second insert.\<close>

definition audit_row :: "gostr \<Rightarrow> int \<Rightarrow> AuditLog" where
  "audit_row c st = empty_entry\<lparr> al_CorrelationID := c, al_EventType := ''response'', al_StatusCode := st \<rparr>"

definition small_source :: SQLiteLogger where
  "small_source = \<lparr> sl_rows = [(''1'', audit_row ''c'' 200), (''2'', audit_row ''c'' 500), (''3'', audit_row [] 200)], sl_key = [] \<rparr>"

definition small_migration :: mig_env where
  "small_migration = \<lparr> mv_from = ''a.db'', mv_to = ''dsn'', mv_audit_key = ''k'', mv_env_key = [], mv_batch = 1000, mv_since = [],
     mv_parse = (\<lambda>_. None), mv_source = (\<lambda>_. Some small_source), mv_query_fails = False, mv_open = (\<lambda>_ _ _. None),
     mv_target_ok = True, mv_connected = True, mv_prepared = True, mv_now = 0, mv_fails = (\<lambda>_. False) \<rparr>"

theorem migration_restarts_witness:
  "\<exists>t1 t2. runMigrateAudit (small_migration\<lparr> mv_fails := (\<lambda>i. i = 2) \<rparr>) Map.empty = (MigInsert 2 ''c'', t1) \<and>
     runMigrateAudit small_migration t1 = (MigDone 2 1, t2)"
proof -
  have "fst (runMigrateAudit (small_migration\<lparr> mv_fails := (\<lambda>i. i = 2) \<rparr>) Map.empty) = MigInsert 2 ''c''"
    "fst (runMigrateAudit small_migration Map.empty) = MigDone 2 1" by code_simp+
  then obtain t1 t2 where r: "runMigrateAudit (small_migration\<lparr> mv_fails := (\<lambda>i. i = 2) \<rparr>) Map.empty = (MigInsert 2 ''c'', t1)"
    "runMigrateAudit small_migration Map.empty = (MigDone 2 1, t2)" by (metis prod.collapse)
  have a: "\<not> mv_fails small_migration j" "mv_batch small_migration \<noteq> 0" for j by (simp_all add: small_migration_def)
  show ?thesis using migration_restarts [OF r(1) a r(2)] r(1) by blast
qed

end
