(* ===== verification/TransportSecurity.thy ===== *)
theory TransportSecurity
  imports AuditTrail IPAddr GoPath
begin

text \<open>
  Certificates (\<open>core/tls/tls.go\<close>): which certificate and key a service starts with, the generation of a
  self-signed pair, and the fingerprint. Key generation, the X.509 and PEM codecs, SHA-256 and failing system
  calls are arguments; the files are a map from paths to contents.
\<close>

subsection \<open>Fingerprints\<close>

text \<open>\<open>tp_decode\<close> is the first PEM block of a file, \<open>tp_parse\<close> the raw certificate of its bytes.\<close>

record tls_prims =
  tp_pem :: "gostr \<Rightarrow> gostr \<Rightarrow> gostr"
  tp_decode :: "gostr \<Rightarrow> gostr option"
  tp_parse :: "gostr \<Rightarrow> gostr option"
  tp_sha :: "gostr \<Rightarrow> gostr"

datatype tls_error =
  NoCertFile gostr | NoKeyFile gostr | TLSDirFailed | GenerateFailed gostr | FingerprintFailed gostr

fun colons :: "gostr \<Rightarrow> gostr" where
  "colons (a # b # c # cs) = a # b # CHR '':'' # colons (c # cs)"
| "colons cs = cs"

definition certFingerprint :: "tls_prims \<Rightarrow> disk \<Rightarrow> gostr \<Rightarrow> gostr + gostr" where
  "certFingerprint P d path =
     (case d path of
        None \<Rightarrow> Inl ''read''
      | Some data \<Rightarrow>
          (case tp_decode P data of
             None \<Rightarrow> Inl ''no PEM block''
           | Some block \<Rightarrow>
               (case tp_parse P block of
                  None \<Rightarrow> Inl ''parse''
                | Some raw \<Rightarrow> Inr (''sha256:'' @ colons (hex_encode (tp_sha P raw))))))"

subsection \<open>Self-signed certificates\<close>

record cert_template =
  ct_SerialNumber :: int
  ct_CommonName :: gostr
  ct_NotBefore :: time
  ct_NotAfter :: time
  ct_IsCA :: bool
  ct_DNSNames :: "gostr list"
  ct_IPAddresses :: "gostr list"

text \<open>What a generation meets: the key pair and the serial number drawn, the certificate made of a template, the
  encoded key, and where writing a file stops.\<close>

record gen_env =
  ge_key_ok :: bool
  ge_serial :: "int option"
  ge_now :: "nat \<Rightarrow> time"
  ge_create :: "cert_template \<Rightarrow> gostr option"
  ge_marshal :: "gostr option"
  ge_cert_open_fails :: bool
  ge_cert_write :: "nat option"
  ge_key_open_fails :: bool
  ge_key_write :: "nat option"

definition cert_names :: "gostr list \<Rightarrow> gostr list" where
  "cert_names hostnames = (if hostnames = [] then [''localhost''] else hostnames)"

definition template :: "gen_env \<Rightarrow> int \<Rightarrow> gostr list \<Rightarrow> cert_template" where
  "template env serial hostnames =
     \<lparr> ct_SerialNumber = serial, ct_CommonName = ''sovereignstack-self-signed'', ct_NotBefore = ge_now env 0 - hour,
       ct_NotAfter = ge_now env 1 + 365 * 24 * hour, ct_IsCA = True,
       ct_DNSNames = filter (\<lambda>h. ParseIP h = None) (cert_names hostnames),
       ct_IPAddresses = filter (\<lambda>h. ParseIP h \<noteq> None) (cert_names hostnames) \<rparr>"

definition write_pem :: "nat option \<Rightarrow> gostr \<Rightarrow> gostr \<Rightarrow> disk \<Rightarrow> bool \<times> disk" where
  "write_pem stop path data d =
     (case stop of None \<Rightarrow> (True, d(path \<mapsto> data)) | Some n \<Rightarrow> (False, d(path \<mapsto> take n data)))"

definition generateSelfSigned :: "tls_prims \<Rightarrow> gen_env \<Rightarrow> gostr \<Rightarrow> gostr \<Rightarrow> gostr list \<Rightarrow> disk \<Rightarrow> gostr option \<times> disk" where
  "generateSelfSigned P env certPath keyPath hostnames d =
     (if \<not> ge_key_ok env then (Some ''key'', d)
      else case ge_serial env of
        None \<Rightarrow> (Some ''serial'', d)
      | Some serial \<Rightarrow>
          (case ge_create env (template env serial hostnames) of
             None \<Rightarrow> (Some ''create'', d)
           | Some der \<Rightarrow>
               if ge_cert_open_fails env then (Some ''open cert'', d)
               else
                 let (ok, d1) = write_pem (ge_cert_write env) certPath (tp_pem P ''CERTIFICATE'' der) d in
                 if \<not> ok then (Some ''write cert'', d1)
                 else case ge_marshal env of
                   None \<Rightarrow> (Some ''marshal'', d1)
                 | Some keyDER \<Rightarrow>
                     if ge_key_open_fails env then (Some ''open key'', d1)
                     else
                       let (ok2, d2) = write_pem (ge_key_write env) keyPath (tp_pem P ''EC PRIVATE KEY'' keyDER) d1
                       in (if ok2 then None else Some ''write key'', d2)))"

text \<open>\<open>home\<close> is empty when it is unknown.\<close>

definition tls_dir :: "gostr \<Rightarrow> gostr \<Rightarrow> gostr" where
  "tls_dir home dir = (if dir = [] then Path_Join [home, ''.sovereignstack'', ''tls''] else dir)"

definition Resolve ::
    "tls_prims \<Rightarrow> gen_env \<Rightarrow> gostr \<Rightarrow> bool \<Rightarrow> gostr \<Rightarrow> gostr \<Rightarrow> gostr \<Rightarrow> bool \<Rightarrow> gostr list \<Rightarrow> disk \<Rightarrow>
      (tls_error + gostr \<times> gostr \<times> gostr) \<times> disk" where
  "Resolve P env home mkdir_fails certPath keyPath dir insecureHTTP hostnames d =
     (if insecureHTTP then (Inr ([], [], []), d)
      else if certPath \<noteq> [] \<and> keyPath \<noteq> [] then
        if d certPath = None then (Inl (NoCertFile certPath), d)
        else if d keyPath = None then (Inl (NoKeyFile keyPath), d)
        else (Inr (certPath, keyPath, case certFingerprint P d certPath of Inr fp \<Rightarrow> fp | Inl _ \<Rightarrow> []), d)
      else if mkdir_fails then (Inl TLSDirFailed, d)
      else
        let cert = Path_Join [tls_dir home dir, ''cert.pem'']; key = Path_Join [tls_dir home dir, ''key.pem''];
            (err, d1) = (if d cert = None \<or> d key = None then generateSelfSigned P env cert key hostnames d else (None, d))
        in case err of
             Some e \<Rightarrow> (Inl (GenerateFailed e), d1)
           | None \<Rightarrow>
               (case certFingerprint P d1 cert of
                  Inl e \<Rightarrow> (Inl (FingerprintFailed e), d1) | Inr fp \<Rightarrow> (Inr (cert, key, fp), d1)))"

subsection \<open>The identity of a service\<close>

lemma generate_paths:
  "generateSelfSigned P env cert key hs d = (err, d1) \<Longrightarrow> q \<noteq> cert \<Longrightarrow> q \<noteq> key \<Longrightarrow> d1 q = d q"
  by (auto simp: generateSelfSigned_def write_pem_def Let_def split: if_splits option.splits)

lemma generate_ok:
  "generateSelfSigned P env cert key hs d = (None, d1) \<Longrightarrow> d1 cert \<noteq> None \<and> d1 key \<noteq> None"
  by (auto simp: generateSelfSigned_def write_pem_def Let_def split: if_splits option.splits)

lemma generate_cert_stays:
  "generateSelfSigned P env cert key hs d = (Some ''write key'', d1) \<Longrightarrow>
     \<exists>der n keyDER. d1 = d(cert \<mapsto> tp_pem P ''CERTIFICATE'' der, key \<mapsto> take n (tp_pem P ''EC PRIVATE KEY'' keyDER)) \<and>
       (\<exists>t. ge_create env t = Some der)"
  by (auto simp: generateSelfSigned_def write_pem_def Let_def split: if_splits option.splits)

text \<open>C38: A service without certificate flags keeps its identity: once a start has found or made its certificate,
  every later start, with whatever host names, clock and randomness, hands out the same files with the same
  fingerprint and writes nothing, although the certificate expires after a year. A start that is given only
  one of the two files ignores it and does the same.\<close>

theorem identity_kept:
  assumes "Resolve P env home mk [] [] dir False hs d = (Inr (cert, key, fp), d1)"
  shows "cert = Path_Join [tls_dir home dir, ''cert.pem''] \<and> key = Path_Join [tls_dir home dir, ''key.pem''] \<and>
     d1 cert \<noteq> None \<and> d1 key \<noteq> None \<and> (\<forall>q. q \<noteq> cert \<and> q \<noteq> key \<longrightarrow> d1 q = d q) \<and>
     (\<forall>env2 hs2 c k. c = [] \<or> k = [] \<longrightarrow>
        Resolve P env2 home False c k dir False hs2 d1 = (Inr (cert, key, fp), d1))"
proof -
  let ?c = "Path_Join [tls_dir home dir, ''cert.pem'']" and ?k = "Path_Join [tls_dir home dir, ''key.pem'']"
  have nm: "\<not> mk" using assms by (auto simp: Resolve_def)
  obtain err d2 where g: "(if d ?c = None \<or> d ?k = None then generateSelfSigned P env ?c ?k hs d else (None, d)) = (err, d2)"
    by fastforce
  have r: "err = None" "certFingerprint P d2 ?c = Inr fp" "cert = ?c" "key = ?k" "d1 = d2"
    using assms nm g by (auto simp: Resolve_def Let_def split: option.splits sum.splits)
  have there: "d1 ?c \<noteq> None" "d1 ?k \<noteq> None"
    using g r(1,5) generate_ok by (auto split: if_splits)
  moreover have "\<forall>q. q \<noteq> ?c \<and> q \<noteq> ?k \<longrightarrow> d1 q = d q"
    using g r(1,5) generate_paths by (auto split: if_splits)
  moreover have "Resolve P env2 home False c k dir False hs2 d1 = (Inr (?c, ?k, fp), d1)" if "c = [] \<or> k = []" for env2 hs2 c k
    using that there r(2,5) by (auto simp: Resolve_def Let_def)
  ultimately show ?thesis using r by blast
qed

text \<open>A start that fails while it writes the key is masked by the next one: the certificate and the truncated
  key stay on disk, so the next start reports success and hands out a key file that is not the key, and so
  does every start after it; nothing is ever generated again.\<close>

theorem truncated_key_served:
  assumes "Resolve P env home False [] [] dir False hs d = (Inl (GenerateFailed ''write key''), d1)"
    "\<And>der. tp_decode P (tp_pem P ''CERTIFICATE'' der) = Some der"
    "\<And>t der. ge_create env t = Some der \<Longrightarrow> tp_parse P der \<noteq> None"
    "Path_Join [tls_dir home dir, ''cert.pem''] \<noteq> Path_Join [tls_dir home dir, ''key.pem'']"
  shows "\<exists>n keyDER fp. d1 (Path_Join [tls_dir home dir, ''key.pem'']) = Some (take n (tp_pem P ''EC PRIVATE KEY'' keyDER)) \<and>
     (\<forall>env2 hs2. Resolve P env2 home False [] [] dir False hs2 d1 =
        (Inr (Path_Join [tls_dir home dir, ''cert.pem''], Path_Join [tls_dir home dir, ''key.pem''], fp), d1))"
proof -
  let ?c = "Path_Join [tls_dir home dir, ''cert.pem'']" and ?k = "Path_Join [tls_dir home dir, ''key.pem'']"
  have "generateSelfSigned P env ?c ?k hs d = (Some ''write key'', d1)"
    using assms(1) by (auto simp: Resolve_def Let_def split: if_splits option.splits sum.splits prod.splits)
  then obtain der n keyDER t where g: "d1 = d(?c \<mapsto> tp_pem P ''CERTIFICATE'' der, ?k \<mapsto> take n (tp_pem P ''EC PRIVATE KEY'' keyDER))"
      "ge_create env t = Some der" using generate_cert_stays by blast
  obtain raw where "tp_parse P der = Some raw" using assms(3) [OF g(2)] by blast
  then obtain fp where fp: "certFingerprint P d1 ?c = Inr fp"
    using assms(2,4) g(1) by (simp add: certFingerprint_def)
  obtain x y where "d1 ?c = Some x" "d1 ?k = Some y" using g(1) assms(4) by simp
  then have "Resolve P env2 home False [] [] dir False hs2 d1 = (Inr (?c, ?k, fp), d1)" for env2 hs2
    using fp by (simp add: Resolve_def Let_def)
  then show ?thesis using g(1) by (intro exI [of _ n] exI [of _ keyDER] exI [of _ fp]) simp
qed

subsection \<open>The form of a fingerprint\<close>

lemma filter_colons: "CHR '':'' \<notin> set cs \<Longrightarrow> filter (\<lambda>c. c \<noteq> CHR '':'') (colons cs) = cs"
  by (induction cs rule: colons.induct) auto

lemma hex_encode_no_colon: "CHR '':'' \<notin> set (hex_encode bs)"
proof
  assume "CHR '':'' \<in> set (hex_encode bs)"
  then obtain c :: char where c: "CHR '':'' = hex_char (byte c div 16) \<or> CHR '':'' = hex_char (byte c mod 16)"
    unfolding hex_encode_def by auto
  have "list_all (\<lambda>n. hex_char n \<noteq> CHR '':'') [0..<16]" by code_simp
  then have "hex_char n \<noteq> CHR '':''" if "n < 16" for n using that by (simp add: list_all_iff)
  moreover have "byte c div 16 < 16" using byte_less [of c] by (simp add: less_mult_imp_div_less)
  moreover have "byte c mod 16 < 16" by simp
  ultimately show False using c by metis
qed

lemma fingerprint_identifies:
  "colons (hex_encode a) = colons (hex_encode b) \<Longrightarrow> hex_encode a = hex_encode b"
  using filter_colons [OF hex_encode_no_colon] by metis

subsection \<open>Examples\<close>

definition plain_tls :: tls_prims where
  "plain_tls = \<lparr> tp_pem = (\<lambda>t b. b), tp_decode = Some, tp_parse = Some, tp_sha = (\<lambda>s. take 32 (s @ replicate 32 (CHR ''0''))) \<rparr>"

definition plain_gen :: "nat option \<Rightarrow> gen_env" where
  "plain_gen stop = \<lparr> ge_key_ok = True, ge_serial = Some 7, ge_now = (\<lambda>_. 0), ge_create = (\<lambda>_. Some ''der''), ge_marshal = Some ''secret'',
     ge_cert_open_fails = False, ge_cert_write = None, ge_key_open_fails = False, ge_key_write = stop \<rparr>"

lemma resolved_paths:
  "map_sum id (\<lambda>(c, k, _). (c, k)) (fst r) = Inr (a, b) \<Longrightarrow> \<exists>fp d. r = (Inr (a, b, fp), d)"
  by (cases r) (auto simp: map_sum_def split: sum.splits)

definition home_cert :: gostr where "home_cert = ''/home/u/.sovereignstack/tls/cert.pem''"
definition home_key :: gostr where "home_key = ''/home/u/.sovereignstack/tls/key.pem''"

theorem identity_kept_witness:
  "\<exists>fp d1. Resolve plain_tls (plain_gen None) ''/home/u'' False [] [] [] False [''localhost''] Map.empty = (Inr (home_cert, home_key, fp), d1) \<and>
     Resolve plain_tls (plain_gen (Some 0)) ''/home/u'' False ''/etc/cert.pem'' [] [] False [] d1 = (Inr (home_cert, home_key, fp), d1)"
proof -
  have "map_sum id (\<lambda>(c, k, _). (c, k)) (fst (Resolve plain_tls (plain_gen None) ''/home/u'' False [] [] [] False [''localhost''] Map.empty)) =
      Inr (home_cert, home_key)" by code_simp
  from resolved_paths [OF this] obtain fp d1 where r:
    "Resolve plain_tls (plain_gen None) ''/home/u'' False [] [] [] False [''localhost''] Map.empty = (Inr (home_cert, home_key, fp), d1)"
    by blast
  from identity_kept [OF r] r show ?thesis by blast
qed

theorem truncated_key_served_witness:
  "\<exists>d1 fp. Resolve plain_tls (plain_gen (Some 3)) ''/home/u'' False [] [] [] False [] Map.empty = (Inl (GenerateFailed ''write key''), d1) \<and>
     Resolve plain_tls (plain_gen None) ''/home/u'' False [] [] [] False [] d1 =
       (Inr (Path_Join [tls_dir ''/home/u'' [], ''cert.pem''], Path_Join [tls_dir ''/home/u'' [], ''key.pem''], fp), d1)"
proof -
  have "fst (Resolve plain_tls (plain_gen (Some 3)) ''/home/u'' False [] [] [] False [] Map.empty) = Inl (GenerateFailed ''write key'')"
    by code_simp
  then obtain d1 where r: "Resolve plain_tls (plain_gen (Some 3)) ''/home/u'' False [] [] [] False [] Map.empty =
      (Inl (GenerateFailed ''write key''), d1)" by (metis prod.collapse)
  have "Path_Join [tls_dir ''/home/u'' [], ''cert.pem''] \<noteq> Path_Join [tls_dir ''/home/u'' [], ''key.pem'']" by code_simp
  moreover have "tp_decode plain_tls (tp_pem plain_tls ''CERTIFICATE'' der) = Some der" "tp_parse plain_tls der \<noteq> None" for der
    by (simp_all add: plain_tls_def)
  ultimately show ?thesis using truncated_key_served [OF r] r by blast
qed

end
