(* ===== verification/UserConfig.thy ===== *)
theory UserConfig
  imports FieldCrypto GoPath GoTime
begin

text \<open>
  The user's settings (\<open>internal/config/config.go\<close>), the activity log (\<open>internal/config/audit.go\<close>) and the
  commands on them (\<open>cmd/config.go\<close>). The JSON codec, AES-GCM, SHA-256, the operating system's answers and
  the user's name are arguments; the files are a map from paths to contents. What the commands print is
  modelled by the values they print.
\<close>

subsection \<open>State\<close>

record UConfig =
  uc_CacheDir :: gostr
  uc_LogDir :: gostr
  uc_HFToken :: gostr

record UManager =
  um_configDir :: gostr
  um_configFile :: gostr
  um_config :: UConfig
  um_encrypted :: bool

text \<open>\<open>up_decode\<close> is the settings after unmarshalling a file into empty ones, whether or not it failed.\<close>

record user_prims =
  up_decode :: "gostr \<Rightarrow> UConfig"
  up_encode :: "UConfig \<Rightarrow> gostr option"
  up_seal :: aead_seal
  up_open :: aead_open
  up_sha :: "gostr \<Rightarrow> gostr"

text \<open>A process: \<open>ue_write = Some n\<close> means that writing the settings fails after \<open>n\<close> bytes.\<close>

record user_env =
  ue_home :: "gostr option"
  ue_getenv :: "gostr \<Rightarrow> gostr"
  ue_os :: gostr
  ue_writable :: "gostr \<Rightarrow> bool"
  ue_mkdir_fails :: bool
  ue_nonce :: "gostr option"
  ue_write :: "nat option"

subsection \<open>Encryption of the token\<close>

definition home_of :: "user_env \<Rightarrow> gostr" where
  "home_of env = (case ue_home env of Some h \<Rightarrow> h | None \<Rightarrow> [])"

definition config_deriveKey :: "user_prims \<Rightarrow> user_env \<Rightarrow> gostr" where
  "config_deriveKey P env = up_sha P (home_of env)"

definition config_encrypt :: "user_prims \<Rightarrow> user_env \<Rightarrow> gostr \<Rightarrow> gostr option" where
  "config_encrypt P env plaintext =
     (let key = config_deriveKey P env in
      if length key \<notin> {16, 24, 32} then None
      else map_option (\<lambda>nonce. b64_encode StdEncoding (nonce @ up_seal P key nonce plaintext)) (ue_nonce env))"

definition config_decrypt :: "user_prims \<Rightarrow> user_env \<Rightarrow> gostr \<Rightarrow> gostr option" where
  "config_decrypt P env ciphertext =
     (let key = config_deriveKey P env in
      case b64_decode StdEncoding ciphertext of
        None \<Rightarrow> None
      | Some data \<Rightarrow>
          if length key \<notin> {16, 24, 32} \<or> length data < nonceSize then None
          else up_open P key (take nonceSize data) (drop nonceSize data))"

subsection \<open>The manager\<close>

definition config_dir :: "gostr \<Rightarrow> gostr" where
  "config_dir home = Path_Join [home, ''.sovereignstack'']"

definition getDefaultLogDir :: "user_env \<Rightarrow> gostr \<Rightarrow> gostr" where
  "getDefaultLogDir env configDir =
     (let fallback = Path_Join [configDir, ''logs''] in
      if ue_os env = ''linux'' then
        if ue_writable env ''/var/log'' then ''/var/log/sovereignstack'' else fallback
      else if ue_os env = ''darwin'' then
        let logsDir = Path_Join [home_of env, ''Library'', ''Logs''] in
        if ue_writable env logsDir then Path_Join [logsDir, ''sovereignstack''] else fallback
      else if ue_os env = ''windows'' then
        let appData = ue_getenv env ''APPDATA'' in
        if appData \<noteq> [] \<and> ue_writable env appData then Path_Join [appData, ''sovereignstack'', ''logs''] else fallback
      else fallback)"

definition config_load :: "user_prims \<Rightarrow> gostr \<Rightarrow> disk \<Rightarrow> UConfig" where
  "config_load P file d =
     (case d file of None \<Rightarrow> \<lparr> uc_CacheDir = [], uc_LogDir = [], uc_HFToken = [] \<rparr> | Some data \<Rightarrow> up_decode P data)"

definition with_defaults :: "user_env \<Rightarrow> gostr \<Rightarrow> UConfig \<Rightarrow> UConfig" where
  "with_defaults env dir c = c\<lparr>
     uc_CacheDir := (if uc_CacheDir c = [] then Path_Join [dir, ''models''] else uc_CacheDir c),
     uc_LogDir := (if uc_LogDir c = [] then getDefaultLogDir env dir else uc_LogDir c) \<rparr>"

definition Config_NewManager :: "user_prims \<Rightarrow> user_env \<Rightarrow> disk \<Rightarrow> UManager option" where
  "Config_NewManager P env d =
     (case ue_home env of
        None \<Rightarrow> None
      | Some home \<Rightarrow>
          if ue_mkdir_fails env then None
          else
            let dir = config_dir home; file = Path_Join [dir, ''config.json''] in
            Some \<lparr> um_configDir = dir, um_configFile = file, um_config = with_defaults env dir (config_load P file d),
              um_encrypted = False \<rparr>)"

definition cache_var :: gostr where "cache_var = ''SOVEREIGNSTACK_CACHE_DIR''"
definition log_var :: gostr where "log_var = ''SOVEREIGNSTACK_LOG_DIR''"
definition token_var :: gostr where "token_var = ''HF_TOKEN''"

definition env_override :: "user_env \<Rightarrow> gostr \<Rightarrow> gostr \<Rightarrow> gostr" where
  "env_override env var value = (if ue_getenv env var \<noteq> [] then ue_getenv env var else value)"

definition GetCacheDir :: "user_env \<Rightarrow> UManager \<Rightarrow> gostr" where
  "GetCacheDir env m = env_override env cache_var (uc_CacheDir (um_config m))"

definition GetLogDir :: "user_env \<Rightarrow> UManager \<Rightarrow> gostr" where
  "GetLogDir env m = env_override env log_var (uc_LogDir (um_config m))"

definition GetHFToken :: "user_prims \<Rightarrow> user_env \<Rightarrow> UManager \<Rightarrow> gostr" where
  "GetHFToken P env m = env_override env token_var
     (let stored = uc_HFToken (um_config m) in
      if stored = [] then [] else case config_decrypt P env stored of Some t \<Rightarrow> t | None \<Rightarrow> [])"

definition config_save :: "user_prims \<Rightarrow> user_env \<Rightarrow> UManager \<Rightarrow> disk \<Rightarrow> bool \<times> disk" where
  "config_save P env m d =
     (case up_encode P (um_config m) of
        None \<Rightarrow> (False, d)
      | Some data \<Rightarrow>
          (case ue_write env of
             Some n \<Rightarrow> (False, d(um_configFile m \<mapsto> take n data))
           | None \<Rightarrow> (True, d(um_configFile m \<mapsto> data))))"

definition SetCacheDir :: "user_prims \<Rightarrow> user_env \<Rightarrow> gostr \<Rightarrow> UManager \<Rightarrow> disk \<Rightarrow> bool \<times> disk" where
  "SetCacheDir P env dir m d = config_save P env (m\<lparr> um_config := (um_config m)\<lparr> uc_CacheDir := dir \<rparr> \<rparr>) d"

definition SetLogDir :: "user_prims \<Rightarrow> user_env \<Rightarrow> gostr \<Rightarrow> UManager \<Rightarrow> disk \<Rightarrow> bool \<times> disk" where
  "SetLogDir P env dir m d = config_save P env (m\<lparr> um_config := (um_config m)\<lparr> uc_LogDir := dir \<rparr> \<rparr>) d"

definition SetHFToken :: "user_prims \<Rightarrow> user_env \<Rightarrow> gostr \<Rightarrow> UManager \<Rightarrow> disk \<Rightarrow> bool \<times> disk" where
  "SetHFToken P env token m d =
     (case config_encrypt P env token of
        None \<Rightarrow> (False, d)
      | Some ct \<Rightarrow> config_save P env (m\<lparr> um_config := (um_config m)\<lparr> uc_HFToken := ct \<rparr>, um_encrypted := True \<rparr>) d)"

subsection \<open>The activity log\<close>

record AuditEvent =
  ev_Timestamp :: gostr
  ev_Action :: gostr
  ev_User :: gostr
  ev_Details :: gostr
  ev_Status :: gostr

record activity_env =
  ac_now :: gostr
  ac_user :: "gostr option"
  ac_json :: "AuditEvent \<Rightarrow> gostr option"
  ac_open_fails :: bool

definition getCurrentUser :: "activity_env \<Rightarrow> gostr" where
  "getCurrentUser aenv = (case ac_user aenv of Some u \<Rightarrow> u | None \<Rightarrow> ''unknown'')"

definition log_file :: "gostr \<Rightarrow> gostr" where "log_file logDir = Path_Join [logDir, ''audit.log'']"

definition activity_log :: "activity_env \<Rightarrow> gostr \<Rightarrow> AuditEvent \<Rightarrow> disk \<Rightarrow> disk" where
  "activity_log aenv logDir event d =
     (case ac_json aenv event of
        None \<Rightarrow> d
      | Some data \<Rightarrow>
          if ac_open_fails aenv then d
          else d(log_file logDir \<mapsto> (case d (log_file logDir) of Some old \<Rightarrow> old | None \<Rightarrow> []) @ data @ [CHR 0x0A]))"

definition activity_event :: "activity_env \<Rightarrow> gostr \<Rightarrow> gostr \<Rightarrow> gostr \<Rightarrow> AuditEvent" where
  "activity_event aenv action details status =
     \<lparr> ev_Timestamp = ac_now aenv, ev_Action = action, ev_User = getCurrentUser aenv, ev_Details = details, ev_Status = status \<rparr>"

definition LogModelDownload :: "activity_env \<Rightarrow> gostr \<Rightarrow> gostr \<Rightarrow> gostr \<Rightarrow> gostr \<Rightarrow> disk \<Rightarrow> disk" where
  "LogModelDownload aenv logDir modelID status details =
     activity_log aenv logDir (activity_event aenv ''model_download'' (''model='' @ modelID @ '' '' @ details) status)"

definition LogConfigChange :: "activity_env \<Rightarrow> gostr \<Rightarrow> gostr \<Rightarrow> gostr \<Rightarrow> disk \<Rightarrow> disk" where
  "LogConfigChange aenv logDir key status =
     activity_log aenv logDir (activity_event aenv ''config_change'' (''key='' @ key) status)"

definition LogTokenAccess :: "activity_env \<Rightarrow> gostr \<Rightarrow> gostr \<Rightarrow> disk \<Rightarrow> disk" where
  "LogTokenAccess aenv logDir source =
     activity_log aenv logDir (activity_event aenv ''token_access'' (''source='' @ source) ''accessed'')"

subsection \<open>Commands\<close>

definition cache_key :: gostr where "cache_key = ''cache-dir''"
definition log_key :: gostr where "log_key = ''log-dir''"
definition token_key :: gostr where "token_key = ''hf-token''"

lemma setting_keys [simp]:
  "cache_key \<noteq> log_key" "cache_key \<noteq> token_key" "log_key \<noteq> token_key"
  "log_key \<noteq> cache_key" "token_key \<noteq> cache_key" "token_key \<noteq> log_key"
  by code_simp+

datatype config_cmd_error = NoConfig | SetFailed gostr | UnknownKey gostr

definition setter ::
    "user_prims \<Rightarrow> user_env \<Rightarrow> gostr \<Rightarrow> (gostr \<Rightarrow> UManager \<Rightarrow> disk \<Rightarrow> bool \<times> disk) option" where
  "setter P env key =
     (if key = cache_key then Some (SetCacheDir P env)
      else if key = log_key then Some (SetLogDir P env)
      else if key = token_key then Some (SetHFToken P env) else None)"

definition configSet ::
    "user_prims \<Rightarrow> user_env \<Rightarrow> activity_env \<Rightarrow> gostr \<Rightarrow> gostr \<Rightarrow> disk \<Rightarrow> config_cmd_error option \<times> disk" where
  "configSet P env aenv key value d =
     (case Config_NewManager P env d of
        None \<Rightarrow> (Some NoConfig, d)
      | Some m \<Rightarrow>
          (case setter P env key of
             None \<Rightarrow> (Some (UnknownKey key), d)
           | Some store \<Rightarrow>
               let (ok, d1) = store value m d in
               if ok then (None, LogConfigChange aenv (um_configDir m) key ''success'' d1)
               else (Some (SetFailed key), LogConfigChange aenv (um_configDir m) key ''failed'' d1)))"

definition config_value :: "user_prims \<Rightarrow> user_env \<Rightarrow> gostr \<Rightarrow> UManager \<Rightarrow> gostr option" where
  "config_value P env key m =
     (if key = cache_key then Some (GetCacheDir env m)
      else if key = log_key then Some (GetLogDir env m)
      else if key = token_key then Some (GetHFToken P env m) else None)"

definition configGet :: "user_prims \<Rightarrow> user_env \<Rightarrow> gostr \<Rightarrow> disk \<Rightarrow> config_cmd_error + gostr" where
  "configGet P env key d =
     (case Config_NewManager P env d of
        None \<Rightarrow> Inl NoConfig
      | Some m \<Rightarrow>
          (case config_value P env key m of
             None \<Rightarrow> Inl (UnknownKey key)
           | Some v \<Rightarrow> Inr (if key = token_key then if v = [] then ''(not set)'' else ''(set, encrypted)'' else v)))"

text \<open>The values listed, the configuration file and the activity log it names.\<close>

definition configList :: "user_prims \<Rightarrow> user_env \<Rightarrow> disk \<Rightarrow> config_cmd_error + gostr list" where
  "configList P env d =
     (case Config_NewManager P env d of
        None \<Rightarrow> Inl NoConfig
      | Some m \<Rightarrow> Inr [GetCacheDir env m, GetLogDir env m,
          if GetHFToken P env m = [] then ''(not set)'' else ''(set, encrypted)'',
          um_configDir m @ ''/config.json'', GetLogDir env m @ ''/audit.log''])"

subsection \<open>What a command sets, later processes read\<close>

definition var_of :: "gostr \<Rightarrow> gostr" where
  "var_of key = (if key = cache_key then cache_var
     else if key = log_key then log_var else token_var)"

definition value_of :: "user_prims \<Rightarrow> user_env \<Rightarrow> gostr \<Rightarrow> disk \<Rightarrow> gostr option" where
  "value_of P env key d = Option.bind (Config_NewManager P env d) (config_value P env key)"

definition settings_path :: "gostr \<Rightarrow> gostr" where
  "settings_path home = Path_Join [config_dir home, ''config.json'']"

lemma activity_log_other: "p \<noteq> log_file dir \<Longrightarrow> activity_log aenv dir e d p = d p"
  by (simp add: activity_log_def split: option.split)

text \<open>The contract of the three setters: a setter that succeeds has written a configuration that differs from the
  manager's own by \<open>put\<close>. What it stored is what a load of the file reads.\<close>

locale setting =
  fixes P :: user_prims and env :: user_env and store :: "gostr \<Rightarrow> UManager \<Rightarrow> disk \<Rightarrow> bool \<times> disk"
    and put :: "gostr \<Rightarrow> UConfig \<Rightarrow> UConfig \<Rightarrow> bool"
  assumes saves: "store v m d = (True, d1) \<Longrightarrow>
    \<exists>m'. config_save P env m' d = (True, d1) \<and> um_configFile m' = um_configFile m \<and> put v (um_config m) (um_config m')"
begin

lemma stored:
  assumes "store v m d = (True, da)" "\<And>c b. up_encode P c = Some b \<Longrightarrow> up_decode P b = c"
    "db (um_configFile m) = da (um_configFile m)"
  shows "db (um_configFile m) \<noteq> None" "put v (um_config m) (config_load P (um_configFile m) db)"
proof -
  obtain m' where m': "config_save P env m' d = (True, da)" "um_configFile m' = um_configFile m" "put v (um_config m) (um_config m')"
    using saves [OF assms(1)] by blast
  have "db (um_configFile m) \<noteq> None \<and> config_load P (um_configFile m) db = um_config m'"
    using m'(1,2) assms(2,3) by (auto simp: config_save_def config_load_def split: option.splits)
  with m'(3) show "db (um_configFile m) \<noteq> None" "put v (um_config m) (config_load P (um_configFile m) db)" by auto
qed

end

interpretation cache_setting: setting P env "SetCacheDir P env" "\<lambda>v c c'. c' = c\<lparr> uc_CacheDir := v \<rparr>" for P env
  by unfold_locales (auto simp: SetCacheDir_def)

interpretation log_setting: setting P env "SetLogDir P env" "\<lambda>v c c'. c' = c\<lparr> uc_LogDir := v \<rparr>" for P env
  by unfold_locales (auto simp: SetLogDir_def)

interpretation token_setting: setting P env "SetHFToken P env"
    "\<lambda>v c c'. \<exists>ct. config_encrypt P env v = Some ct \<and> c' = c\<lparr> uc_HFToken := ct \<rparr>" for P env
  by unfold_locales (auto simp: SetHFToken_def split: option.splits)

lemma set_saves:
  assumes "configSet P env aenv key v d = (None, d1)" "\<And>c b. up_encode P c = Some b \<Longrightarrow> up_decode P b = c"
    "ue_home env = Some home" "log_file (config_dir home) \<noteq> settings_path home"
  shows "\<exists>m c. Config_NewManager P env d = Some m \<and> config_load P (settings_path home) d1 = c \<and> d1 (settings_path home) \<noteq> None \<and>
     ((key = cache_key \<and> c = (um_config m)\<lparr> uc_CacheDir := v \<rparr>) \<or>
      (key = log_key \<and> c = (um_config m)\<lparr> uc_LogDir := v \<rparr>) \<or>
      (key = token_key \<and> (\<exists>ct. config_encrypt P env v = Some ct \<and> c = (um_config m)\<lparr> uc_HFToken := ct \<rparr>)))"
proof -
  obtain m where m: "Config_NewManager P env d = Some m"
    using assms(1) by (auto simp: configSet_def split: option.splits)
  then have f: "um_configFile m = settings_path home" "um_configDir m = config_dir home"
    using assms(3) by (auto simp: Config_NewManager_def settings_path_def Let_def split: if_splits)
  obtain store d2 where st: "setter P env key = Some store" "store v m d = (True, d2)"
      "d1 = LogConfigChange aenv (um_configDir m) key ''success'' d2"
    using assms(1) m by (auto simp: configSet_def Let_def split: option.splits if_splits prod.splits)
  have keep: "d1 (um_configFile m) = d2 (um_configFile m)"
    using st(3) f assms(4) by (simp add: LogConfigChange_def activity_log_other)
  consider "key = cache_key" "SetCacheDir P env v m d = (True, d2)"
    | "key = log_key" "SetLogDir P env v m d = (True, d2)"
    | "key = token_key" "SetHFToken P env v m d = (True, d2)"
    using st(1,2) unfolding setter_def by (metis option.distinct(1) option.inject)
  then show ?thesis
  proof cases
    case 1 then show ?thesis using m cache_setting.stored [where da = d2 and db = d1, OF 1(2) assms(2) keep] f(1) by auto
  next
    case 2 then show ?thesis using m log_setting.stored [where da = d2 and db = d1, OF 2(2) assms(2) keep] f(1) by auto
  next
    case 3
    from token_setting.stored [where da = d2 and db = d1, OF 3(2) assms(2) keep] obtain ct where "d1 (settings_path home) \<noteq> None"
        "config_encrypt P env v = Some ct" "config_load P (settings_path home) d1 = (um_config m)\<lparr> uc_HFToken := ct \<rparr>"
      unfolding f(1) by blast
    with m 3(1) show ?thesis by (intro exI [of _ m] exI [of _ "(um_config m)\<lparr> uc_HFToken := ct \<rparr>"]) simp
  qed
qed

lemma decrypt_config_encrypt:
  assumes "config_encrypt P env v = Some ct" "\<And>k n p. up_open P k n (up_seal P k n p) = Some p"
    "\<And>n. ue_nonce env = Some n \<Longrightarrow> length n = nonceSize" "home_of env2 = home_of env"
  shows "config_decrypt P env2 ct = Some v \<and> ct \<noteq> []"
proof -
  obtain n where n: "ue_nonce env = Some n" and k: "length (config_deriveKey P env) \<in> {16, 24, 32}"
      and ct: "ct = b64_encode StdEncoding (n @ up_seal P (config_deriveKey P env) n v)"
    using assms(1) by (auto simp: config_encrypt_def Let_def split: if_splits)
  have "config_deriveKey P env2 = config_deriveKey P env" using assms(4) by (simp add: config_deriveKey_def)
  moreover have len: "length n = 12" using assms(3) [OF n] by (simp add: nonceSize_def)
  ultimately have "config_decrypt P env2 ct = Some v" using k assms(2) unfolding ct
    by (simp add: config_decrypt_def Let_def nonceSize_def)
  moreover have "ct \<noteq> []"
  proof
    assume "ct = []"
    then have "b64_decode StdEncoding [] = Some (n @ up_seal P (config_deriveKey P env) n v)" using ct b64_decode_encode by metis
    moreover have "b64_decode StdEncoding [] = Some []" by code_simp
    ultimately show False using len by simp
  qed
  ultimately show ?thesis by simp
qed

lemma Clean_nonempty: "Clean p \<noteq> []"
  by (simp add: Clean_def Let_def)

lemma Path_Join_nonempty: "e \<in> set es \<Longrightarrow> e \<noteq> [] \<Longrightarrow> Path_Join es \<noteq> []"
  by (auto simp: Path_Join_def Let_def dropWhile_eq_Nil_conv Clean_nonempty)

lemma default_log_dir: "getDefaultLogDir env dir \<noteq> []"
proof -
  have "Path_Join [dir, ''logs''] \<noteq> []" "Path_Join [a, ''sovereignstack''] \<noteq> []" "Path_Join [a, ''sovereignstack'', ''logs''] \<noteq> []" for a
    by (rule Path_Join_nonempty [of "''logs''"], simp, simp,
        rule Path_Join_nonempty [of "''sovereignstack''"], simp, simp,
        rule Path_Join_nonempty [of "''sovereignstack''"], simp, simp)
  then show ?thesis unfolding getDefaultLogDir_def Let_def by simp
qed

lemma default_cache_dir: "Path_Join [dir, ''models''] \<noteq> []"
  by (rule Path_Join_nonempty [of "''models''"]) simp_all

lemma manager_dirs:
  assumes "Config_NewManager P env d = Some m"
  shows "uc_CacheDir (um_config m) \<noteq> []" "uc_LogDir (um_config m) \<noteq> []"
  using assms default_cache_dir default_log_dir
  by (auto simp: Config_NewManager_def with_defaults_def Let_def split: option.splits if_splits)

lemma value_of_load:
  assumes "ue_home env = Some home" "\<not> ue_mkdir_fails env" "config_load P (settings_path home) d = c" "uc_CacheDir c \<noteq> [] \<or> key \<noteq> cache_key" "uc_LogDir c \<noteq> [] \<or> key \<noteq> log_key"
  shows "value_of P env key d =
     (if key = cache_key then Some (env_override env cache_var (uc_CacheDir c))
      else if key = log_key then Some (env_override env log_var (uc_LogDir c))
      else if key = token_key then Some (env_override env token_var (if uc_HFToken c = [] then [] else
        case config_decrypt P env (uc_HFToken c) of Some t \<Rightarrow> t | None \<Rightarrow> []))
      else None)"
  using assms unfolding settings_path_def
  by (auto simp: value_of_def Config_NewManager_def config_value_def with_defaults_def GetCacheDir_def GetLogDir_def GetHFToken_def Let_def)

text \<open>A setting is read back: after a successful \<open>config set\<close>, every later process of the same user reads the value
  under that key, an access token decrypted again, and under every other key what was read at the time of the
  command, unless its environment overrides it. The defaults
  of the moment are frozen into the file. Nothing but the home directory goes into the key of the token.\<close>

theorem config_set_get:
  assumes "configSet P env aenv key v d = (None, d1)" "key2 \<in> {cache_key, log_key, token_key}" "v \<noteq> []"
    "\<And>c b. up_encode P c = Some b \<Longrightarrow> up_decode P b = c" "\<And>k n p. up_open P k n (up_seal P k n p) = Some p"
    "\<And>n. ue_nonce env = Some n \<Longrightarrow> length n = nonceSize" "ue_home env = Some home" "ue_home env2 = Some home" "\<not> ue_mkdir_fails env2"
    "log_file (config_dir home) \<noteq> settings_path home" "ue_getenv env (var_of key2) = []"
  shows "value_of P env2 key2 d1 =
    (if ue_getenv env2 (var_of key2) \<noteq> [] then Some (ue_getenv env2 (var_of key2))
     else if key2 = key then Some v else value_of P env key2 d)"
proof -
  obtain m c where m: "Config_NewManager P env d = Some m" and c: "config_load P (settings_path home) d1 = c"
    and set: "(key = cache_key \<and> c = (um_config m)\<lparr> uc_CacheDir := v \<rparr>) \<or>
      (key = log_key \<and> c = (um_config m)\<lparr> uc_LogDir := v \<rparr>) \<or>
      (key = token_key \<and> (\<exists>ct. config_encrypt P env v = Some ct \<and> c = (um_config m)\<lparr> uc_HFToken := ct \<rparr>))"
    using set_saves [OF assms(1,4,7,10)] by blast
  have h: "home_of env2 = home_of env" using assms(7,8) by (simp add: home_of_def)
  then have dec: "config_decrypt P env2 x = config_decrypt P env x" for x by (simp add: config_decrypt_def config_deriveKey_def)
  have now: "value_of P env key2 d = config_value P env key2 m" by (simp add: value_of_def m)
  have dirs: "uc_CacheDir c \<noteq> []" "uc_LogDir c \<noteq> []" using set manager_dirs [OF m] assms(3) by auto
  note later = value_of_load [OF assms(8,9) c disjI1 [OF dirs(1)] disjI1 [OF dirs(2)], of key2]
  have tok: "config_decrypt P env2 ct = Some v" "ct \<noteq> []" if "config_encrypt P env v = Some ct" for ct
    using decrypt_config_encrypt [OF that assms(5,6) h] by auto
  consider "key2 = cache_key" | "key2 = log_key" | "key2 = token_key" using assms(2) by blast
  then show ?thesis
  proof cases
    case 1
    then have "var_of key2 = cache_var" by (simp add: var_of_def)
    then show ?thesis using 1 assms(11) set unfolding later now
      by (auto simp: config_value_def GetCacheDir_def env_override_def)
  next
    case 2
    then have "var_of key2 = log_var" by (simp add: var_of_def)
    then show ?thesis using 2 assms(11) set unfolding later now
      by (auto simp: config_value_def GetLogDir_def env_override_def)
  next
    case 3
    then have "var_of key2 = token_var" by (simp add: var_of_def)
    then show ?thesis using 3 assms(11) set tok unfolding later now
      by (auto simp: config_value_def GetHFToken_def env_override_def dec)
  qed
qed

text \<open>The property at a process whose files, cipher and clock are concrete.\<close>

definition field_image :: "gostr \<Rightarrow> gostr" where
  "field_image s = replicate (length s) (CHR ''x'') @ CHR ''y'' # s"

definition field_split :: "gostr \<Rightarrow> gostr \<times> gostr" where
  "field_split b = (let n = length (takeWhile (\<lambda>c. c = CHR ''x'') b); r = drop (Suc n) b in (take n r, drop n r))"

lemma field_split_image [simp]: "field_split (field_image s @ r) = (s, r)"
proof -
  have "takeWhile (\<lambda>c. c = CHR ''x'') (replicate n (CHR ''x'') @ CHR ''y'' # t) = replicate n (CHR ''x'')" for n t
    by (induction n) auto
  then show ?thesis by (simp add: field_image_def field_split_def Let_def)
qed

definition example_prims :: user_prims where
  "example_prims = \<lparr>
     up_decode = (\<lambda>b. let (c, b1) = field_split b; (l, b2) = field_split b1 in \<lparr> uc_CacheDir = c, uc_LogDir = l, uc_HFToken = b2 \<rparr>),
     up_encode = (\<lambda>c. Some (field_image (uc_CacheDir c) @ field_image (uc_LogDir c) @ uc_HFToken c)),
     up_seal = (\<lambda>k n p. rev p), up_open = (\<lambda>k n c. Some (rev c)), up_sha = (\<lambda>_. replicate 32 (CHR ''k'')) \<rparr>"

definition example_user :: user_env where
  "example_user = \<lparr> ue_home = Some ''/h'', ue_getenv = (\<lambda>_. []), ue_os = ''linux'', ue_writable = (\<lambda>_. False),
     ue_mkdir_fails = False, ue_nonce = Some (replicate 12 (CHR ''n'')), ue_write = None \<rparr>"

definition example_activity :: activity_env where
  "example_activity = \<lparr> ac_now = [], ac_user = None, ac_json = (\<lambda>_. None), ac_open_fails = False \<rparr>"

lemma example_codec: "up_encode example_prims c = Some b \<Longrightarrow> up_decode example_prims b = c"
  by (auto simp: example_prims_def Let_def)

theorem config_set_get_witness:
  "value_of example_prims example_user token_key
     (snd (configSet example_prims example_user example_activity token_key ''t'' Map.empty)) = Some ''t''"
proof -
  have "fst (configSet example_prims example_user example_activity token_key ''t'' Map.empty) = None" by code_simp
  then have "configSet example_prims example_user example_activity token_key ''t'' Map.empty =
      (None, snd (configSet example_prims example_user example_activity token_key ''t'' Map.empty))"
    by (metis prod.collapse)
  moreover have "log_file (config_dir ''/h'') \<noteq> settings_path ''/h''" by code_simp
  moreover have "up_open example_prims k n (up_seal example_prims k n p) = Some p" for k n p by (simp add: example_prims_def)
  moreover have "ue_nonce example_user = Some n \<Longrightarrow> length n = nonceSize" for n by (auto simp: example_user_def nonceSize_def)
  moreover have "ue_home example_user = Some ''/h''" "\<not> ue_mkdir_fails example_user" "ue_getenv example_user x = []" for x
    by (simp_all add: example_user_def)
  ultimately show ?thesis
    using config_set_get [of example_prims example_user example_activity token_key "''t''" Map.empty _ token_key "''/h''" example_user]
      example_codec by simp
qed

end
