(* ===== verification/Installer.thy ===== *)
theory Installer
  imports Engine
begin

text \<open>
  Provisioning of a host (\<open>internal/installer/installer.go\<close>) and the \<open>init\<close> command on it (\<open>cmd/init.go\<close>). The
  commands it runs are an argument: a function from the program with its arguments and the state of the
  host to the command's outcome and the next state of the host. The texts printed are modelled by the
  values they print.
\<close>

subsection \<open>Probes\<close>

record InstallStatus =
  is_CUDAInstalled :: bool
  is_CUDAVersion :: gostr
  is_ContainerToolkitInstalled :: bool
  is_DockerInstalled :: bool
  is_DockerVersion :: gostr
  is_NVIDIADriverInstalled :: bool
  is_NVIDIADriverVersion :: gostr
  is_OS :: gostr
  is_HasSudo :: bool
  is_OSSupported :: bool

record IssuesToFix =
  mi_CUDA :: bool
  mi_ContainerToolkit :: bool
  mi_Docker :: bool

text \<open>\<open>strings.Trim(s, q)\<close> with a cut set of one character.\<close>

definition Trim1 :: "char \<Rightarrow> gostr \<Rightarrow> gostr" where
  "Trim1 q s = rev (dropWhile (\<lambda>c. c = q) (rev (dropWhile (\<lambda>c. c = q) s)))"

definition os_id :: "gostr \<Rightarrow> gostr option" where
  "os_id line =
     (if HasPrefix line ''ID='' \<and> length (Split (CHR ''='') line) = 2
      then Some (Trim1 (CHR 0x22) (Split (CHR ''='') line ! 1)) else None)"

text \<open>The argument is the text of \<open>/etc/os-release\<close>, if it can be read.\<close>

definition DetectOS :: "gostr option \<Rightarrow> gostr" where
  "DetectOS release =
     (case release of
        None \<Rightarrow> ''unknown''
      | Some text \<Rightarrow> (case List.map_filter os_id (scan_lines 65536 text) of [] \<Rightarrow> ''unknown'' | os # _ \<Rightarrow> os))"

definition sudo_probe :: "gostr list" where "sudo_probe = [''sudo'', ''-n'', ''true'']"
definition cuda_probe :: "gostr list" where "cuda_probe = [''nvcc'', ''--version'']"
definition driver_probe :: "gostr list" where
  "driver_probe = [''nvidia-smi'', ''--query-gpu=driver_version'', ''--format=csv,noheader,nounits'']"
definition docker_probe :: "gostr list" where "docker_probe = [''docker'', ''--version'']"
definition toolkit_probe :: "gostr list" where "toolkit_probe = [''which'', ''nvidia-ctk'']"

definition checkSudoAccess :: "'w docker \<Rightarrow> 'w \<Rightarrow> bool \<times> 'w" where
  "checkSudoAccess exec w = (let (r, w1) = exec sudo_probe w in (cr_ok r, w1))"

definition release_version :: "gostr \<Rightarrow> gostr option" where
  "release_version line =
     (if Contains line ''release'' \<and> 3 \<le> length (Fields line) then Some (Fields line ! 2) else None)"

definition cuda_version :: "gostr \<Rightarrow> gostr" where
  "cuda_version out =
     (case List.map_filter release_version (Split (CHR 0x0A) out) of [] \<Rightarrow> ''unknown'' | v # _ \<Rightarrow> v)"

definition checkCUDA :: "'w docker \<Rightarrow> 'w \<Rightarrow> (bool \<times> gostr) \<times> 'w" where
  "checkCUDA exec w =
     (let (r, w1) = exec cuda_probe w in (if cr_ok r then (True, cuda_version (cr_out r)) else (False, []), w1))"

definition checkNVIDIADriver :: "'w docker \<Rightarrow> 'w \<Rightarrow> (bool \<times> gostr) \<times> 'w" where
  "checkNVIDIADriver exec w =
     (let (r, w1) = exec driver_probe w; version = TrimSpace (cr_out r) in
      (if cr_ok r \<and> version \<noteq> [] then (True, version) else (False, []), w1))"

definition docker_version :: "gostr \<Rightarrow> gostr" where
  "docker_version out = (let parts = Fields (TrimSpace out) in if 3 \<le> length parts then parts ! 2 else ''unknown'')"

definition checkDocker :: "'w docker \<Rightarrow> 'w \<Rightarrow> (bool \<times> gostr) \<times> 'w" where
  "checkDocker exec w =
     (let (r, w1) = exec docker_probe w in (if cr_ok r then (True, docker_version (cr_out r)) else (False, []), w1))"

definition checkContainerToolkit :: "'w docker \<Rightarrow> 'w \<Rightarrow> bool \<times> 'w" where
  "checkContainerToolkit exec w = (let (r, w1) = exec toolkit_probe w in (cr_ok r, w1))"

definition VerifyInstallation :: "'w docker \<Rightarrow> gostr option \<Rightarrow> 'w \<Rightarrow> InstallStatus \<times> 'w" where
  "VerifyInstallation exec release w =
     (let os = DetectOS release;
          (sudo, w1) = checkSudoAccess exec w;
          (cuda, w2) = checkCUDA exec w1;
          (driver, w3) = checkNVIDIADriver exec w2;
          (dock, w4) = checkDocker exec w3;
          (toolkit, w5) = checkContainerToolkit exec w4
      in (\<lparr> is_CUDAInstalled = fst cuda, is_CUDAVersion = snd cuda, is_ContainerToolkitInstalled = toolkit,
            is_DockerInstalled = fst dock, is_DockerVersion = snd dock,
            is_NVIDIADriverInstalled = fst driver, is_NVIDIADriverVersion = snd driver,
            is_OS = os, is_HasSudo = sudo, is_OSSupported = (os = ''ubuntu'' \<or> os = ''debian'') \<rparr>, w5))"

definition GetIssuesToFix :: "InstallStatus \<Rightarrow> IssuesToFix" where
  "GetIssuesToFix status =
     \<lparr> mi_CUDA = (\<not> is_CUDAInstalled status \<and> is_NVIDIADriverInstalled status),
       mi_ContainerToolkit = (\<not> is_ContainerToolkitInstalled status \<and> is_DockerInstalled status \<and> is_NVIDIADriverInstalled status),
       mi_Docker = (\<not> is_DockerInstalled status) \<rparr>"

definition issue_count :: "IssuesToFix \<Rightarrow> nat" where
  "issue_count i = length (filter id [mi_CUDA i, mi_Docker i, mi_ContainerToolkit i])"

subsection \<open>Installation\<close>

datatype install_error = UnsupportedOS gostr | NoSudo | CommandFailed "gostr list"

text \<open>Commands one after the other, up to the first that fails.\<close>

fun run_commands :: "'w docker \<Rightarrow> gostr list list \<Rightarrow> 'w \<Rightarrow> install_error option \<times> 'w" where
  "run_commands exec [] w = (None, w)"
| "run_commands exec (c # cs) w =
     (let (r, w1) = exec c w in if cr_ok r then run_commands exec cs w1 else (Some (CommandFailed c), w1))"

definition apt_update :: "gostr list" where "apt_update = [''sudo'', ''apt-get'', ''update'']"
definition apt_docker :: "gostr list" where "apt_docker = [''sudo'', ''apt-get'', ''install'', ''-y'', ''docker.io'']"
definition apt_cuda :: "gostr list" where "apt_cuda = [''sudo'', ''apt-get'', ''install'', ''-y'', ''cuda-toolkit-12-1'']"
definition apt_toolkit :: "gostr list" where
  "apt_toolkit = [''sudo'', ''apt-get'', ''install'', ''-y'', ''nvidia-container-toolkit'']"

definition InstallDocker :: "'w docker \<Rightarrow> 'w \<Rightarrow> install_error option \<times> 'w" where
  "InstallDocker exec = run_commands exec
     [apt_update, apt_docker, [''sudo'', ''systemctl'', ''start'', ''docker''], [''sudo'', ''systemctl'', ''enable'', ''docker'']]"

text \<open>The version asked for is not read.\<close>

definition InstallCUDA :: "'w docker \<Rightarrow> gostr \<Rightarrow> 'w \<Rightarrow> install_error option \<times> 'w" where
  "InstallCUDA exec version = run_commands exec
     [[''sudo'', ''wget'', ''-P'', ''/tmp'',
       ''https://developer.download.nvidia.com/compute/cuda/repos/ubuntu2204/x86_64/cuda-keyring_1.1-1_all.deb''],
      [''sudo'', ''dpkg'', ''-i'', ''/tmp/cuda-keyring_1.1-1_all.deb''], apt_update, apt_cuda]"

definition InstallNvidiaContainerToolkit :: "'w docker \<Rightarrow> 'w \<Rightarrow> install_error option \<times> 'w" where
  "InstallNvidiaContainerToolkit exec = run_commands exec
     [apt_update, apt_toolkit, [''sudo'', ''nvidia-ctk'', ''runtime'', ''configure'', ''--runtime=docker''],
      [''sudo'', ''systemctl'', ''restart'', ''docker'']]"

definition InstallPrerequisites :: "'w docker \<Rightarrow> IssuesToFix \<Rightarrow> InstallStatus \<Rightarrow> 'w \<Rightarrow> install_error option \<times> 'w" where
  "InstallPrerequisites exec issues status w =
     (if \<not> is_OSSupported status then (Some (UnsupportedOS (is_OS status)), w)
      else if \<not> is_HasSudo status then (Some NoSudo, w)
      else
        let (e1, w1) = (if mi_Docker issues then InstallDocker exec w else (None, w)) in
        case e1 of
          Some e \<Rightarrow> (Some e, w1)
        | None \<Rightarrow>
            let (_, w2) = (if mi_CUDA issues then InstallCUDA exec ''12.1'' w1 else (None, w1)) in
            if mi_ContainerToolkit issues then InstallNvidiaContainerToolkit exec w2 else (None, w2))"

subsection \<open>The tunnel\<close>

text \<open>\<open>SetupTunnel\<close> (\<open>internal/tunnel/tunnel.go\<close>): one command, whose last arguments are the pipe and the shell.\<close>

definition SetupTunnel :: "'w docker \<Rightarrow> 'w \<Rightarrow> bool \<times> 'w" where
  "SetupTunnel exec w =
     (let (r, w1) = exec [''curl'', ''-fsSL'', ''https://tailscale.com/install.sh'', ''|'', ''sh''] w in (cr_ok r, w1))"

subsection \<open>The command\<close>

text \<open>\<open>ie_hardware\<close>: what the hardware detection finds, \<open>None\<close> when it fails; \<open>ie_reply\<close>: the line the user
  types, if asked; \<open>ie_room\<close>: the engine room the listing opens, if it can.\<close>

record init_env =
  ie_release :: "gostr option"
  ie_hardware :: "SystemHardware option"
  ie_reply :: gostr
  ie_room :: "EngineRoom option"
  ie_order :: "gostr list"

datatype install_outcome =
  NotNeeded | CheckOnly | Declined | Refused | Failed install_error | Remaining IssuesToFix | HardwareUnknown

record init_report =
  ir_status :: InstallStatus
  ir_issues :: IssuesToFix
  ir_outcome :: install_outcome
  ir_models :: "ModelMetadata list"

definition accepted :: "gostr \<Rightarrow> bool" where
  "accepted reply = (let r = ToLower (TrimSpace reply) in r = ''y'' \<or> r = ''yes'')"

definition offer_install :: "'w docker \<Rightarrow> init_env \<Rightarrow> InstallStatus \<Rightarrow> IssuesToFix \<Rightarrow> 'w \<Rightarrow> install_outcome \<times> 'w" where
  "offer_install exec env status issues w =
     (if issue_count issues = 0 then (NotNeeded, w)
      else if \<not> (is_OSSupported status \<and> is_HasSudo status) then (Refused, w)
      else if \<not> accepted (ie_reply env) then (Declined, w)
      else
        let (err, w1) = InstallPrerequisites exec issues status w in
        case err of
          Some e \<Rightarrow> (Failed e, w1)
        | None \<Rightarrow> let (status1, w2) = VerifyInstallation exec (ie_release env) w1 in (Remaining (GetIssuesToFix status1), w2))"

definition shown_models :: "init_env \<Rightarrow> install_outcome \<Rightarrow> ModelMetadata list" where
  "shown_models env outcome =
     (case outcome of
        Failed _ \<Rightarrow> []
      | _ \<Rightarrow> (case ie_room env of None \<Rightarrow> [] | Some er \<Rightarrow> fst (Engine_GetSuitableModels (ie_order env) er)))"

definition run_init :: "'w docker \<Rightarrow> init_env \<Rightarrow> bool \<Rightarrow> 'w \<Rightarrow> init_report \<times> 'w" where
  "run_init exec env checkOnly w =
     (let (status, w1) = VerifyInstallation exec (ie_release env) w; issues = GetIssuesToFix status in
      if ie_hardware env = None then
        (\<lparr> ir_status = status, ir_issues = issues, ir_outcome = HardwareUnknown, ir_models = [] \<rparr>, w1)
      else if checkOnly then
        (\<lparr> ir_status = status, ir_issues = issues, ir_outcome = CheckOnly, ir_models = [] \<rparr>, w1)
      else
        let (outcome, w2) = offer_install exec env status issues w1 in
        (\<lparr> ir_status = status, ir_issues = issues, ir_outcome = outcome, ir_models = shown_models env outcome \<rparr>, w2))"

subsection \<open>What the probes read\<close>

lemma cuda_version_text: "cuda_version ''Cuda compilation tools, release 12.1, V12.1.105'' = ''tools,''"
  by code_simp

lemma docker_version_text: "docker_version ''Docker version 24.0.5, build ced0996'' = ''24.0.5,''"
  by code_simp

lemma os_release_text: "DetectOS (Some (''NAME=Ubuntu'' @ [CHR 0x0A] @ ''ID=ubuntu'' @ [CHR 0x0A])) = ''ubuntu''"
  by code_simp

subsection \<open>A pass over a host\<close>

text \<open>What the program needs of a host, and what the package manager's commands do to it. A command that
  fails has done its work or nothing.\<close>

record machine =
  mc_docker :: bool
  mc_cuda :: bool
  mc_driver :: bool
  mc_toolkit :: bool

definition effect :: "gostr list \<Rightarrow> machine \<Rightarrow> machine" where
  "effect args m =
     (if args = apt_docker then m\<lparr> mc_docker := True \<rparr>
      else if args = apt_cuda then m\<lparr> mc_cuda := True \<rparr>
      else if args = apt_toolkit then m\<lparr> mc_toolkit := True \<rparr> else m)"

definition answers :: "gostr list \<Rightarrow> cmd_result \<Rightarrow> machine \<Rightarrow> bool" where
  "answers args r m \<longleftrightarrow>
     (args = docker_probe \<longrightarrow> cr_ok r = mc_docker m) \<and> (args = cuda_probe \<longrightarrow> cr_ok r = mc_cuda m) \<and>
     (args = toolkit_probe \<longrightarrow> cr_ok r = mc_toolkit m) \<and>
     (args = driver_probe \<longrightarrow> (cr_ok r \<and> TrimSpace (cr_out r) \<noteq> []) = mc_driver m)"

definition host :: "'w docker \<Rightarrow> ('w \<Rightarrow> machine) \<Rightarrow> bool" where
  "host exec seen \<longleftrightarrow> (\<forall>args w. answers args (fst (exec args w)) (seen w) \<and>
     seen (snd (exec args w)) \<in> (if cr_ok (fst (exec args w)) then {} else {seen w}) \<union> {effect args (seen w)})"

lemma host_step:
  assumes "host exec seen" "exec args w = (r, w1)"
  shows "answers args r (seen w)" "cr_ok r \<Longrightarrow> seen w1 = effect args (seen w)" "seen w1 = seen w \<or> seen w1 = effect args (seen w)"
proof -
  have h: "answers args r (seen w)" "seen w1 \<in> (if cr_ok r then {} else {seen w}) \<union> {effect args (seen w)}"
    using assms unfolding host_def by (metis fst_conv snd_conv)+
  then show "answers args r (seen w)" "cr_ok r \<Longrightarrow> seen w1 = effect args (seen w)" "seen w1 = seen w \<or> seen w1 = effect args (seen w)"
    by (auto split: if_splits)
qed

lemma probes_distinct [simp]:
  "docker_probe \<noteq> cuda_probe" "docker_probe \<noteq> toolkit_probe" "docker_probe \<noteq> driver_probe" "cuda_probe \<noteq> docker_probe"
  "cuda_probe \<noteq> toolkit_probe" "cuda_probe \<noteq> driver_probe" "toolkit_probe \<noteq> docker_probe" "toolkit_probe \<noteq> cuda_probe"
  "toolkit_probe \<noteq> driver_probe" "driver_probe \<noteq> docker_probe" "driver_probe \<noteq> cuda_probe" "driver_probe \<noteq> toolkit_probe"
  by code_simp+

lemma effect_probe [simp]:
  "effect docker_probe m = m" "effect cuda_probe m = m" "effect driver_probe m = m" "effect toolkit_probe m = m" "effect sudo_probe m = m"
proof -
  have "docker_probe \<notin> {apt_docker, apt_cuda, apt_toolkit}" "cuda_probe \<notin> {apt_docker, apt_cuda, apt_toolkit}"
    "driver_probe \<notin> {apt_docker, apt_cuda, apt_toolkit}" "toolkit_probe \<notin> {apt_docker, apt_cuda, apt_toolkit}"
    "sudo_probe \<notin> {apt_docker, apt_cuda, apt_toolkit}"
    by code_simp+
  then show "effect docker_probe m = m" "effect cuda_probe m = m" "effect driver_probe m = m" "effect toolkit_probe m = m" "effect sudo_probe m = m"
    by (simp_all add: effect_def)
qed

lemma apt_distinct [simp]:
  "apt_docker \<noteq> apt_cuda" "apt_docker \<noteq> apt_toolkit" "apt_cuda \<noteq> apt_docker" "apt_cuda \<noteq> apt_toolkit"
  "apt_toolkit \<noteq> apt_docker" "apt_toolkit \<noteq> apt_cuda"
  by code_simp+

lemma effect_apt [simp]:
  "effect apt_docker m = m\<lparr> mc_docker := True \<rparr>" "effect apt_cuda m = m\<lparr> mc_cuda := True \<rparr>" "effect apt_toolkit m = m\<lparr> mc_toolkit := True \<rparr>"
  by (simp_all add: effect_def)

text \<open>The status is the host's, and looking changes nothing.\<close>

lemma verify_host:
  assumes "host exec seen" "VerifyInstallation exec release w = (st, w1)"
  shows "seen w1 = seen w" "is_DockerInstalled st = mc_docker (seen w)" "is_CUDAInstalled st = mc_cuda (seen w)"
    "is_NVIDIADriverInstalled st = mc_driver (seen w)" "is_ContainerToolkitInstalled st = mc_toolkit (seen w)"
proof -
  obtain r1 v1 where 1: "exec sudo_probe w = (r1, v1)" by fastforce
  obtain r2 v2 where 2: "exec cuda_probe v1 = (r2, v2)" by fastforce
  obtain r3 v3 where 3: "exec driver_probe v2 = (r3, v3)" by fastforce
  obtain r4 v4 where 4: "exec docker_probe v3 = (r4, v4)" by fastforce
  obtain r5 v5 where 5: "exec toolkit_probe v4 = (r5, v5)" by fastforce
  note s = host_step [OF assms(1)]
  have a: "seen v1 = seen w" "seen v2 = seen w" "seen v3 = seen w" "seen v4 = seen w" "seen v5 = seen w"
    using s(3) [OF 1] s(3) [OF 2] s(3) [OF 3] s(3) [OF 4] s(3) [OF 5] by auto
  have b: "cr_ok r2 = mc_cuda (seen w)" "(cr_ok r3 \<and> TrimSpace (cr_out r3) \<noteq> []) = mc_driver (seen w)"
    "cr_ok r4 = mc_docker (seen w)" "cr_ok r5 = mc_toolkit (seen w)"
    using s(1) [OF 2] s(1) [OF 3] s(1) [OF 4] s(1) [OF 5] unfolding a by (auto simp: answers_def)
  have st: "w1 = v5" "is_CUDAInstalled st = cr_ok r2" "is_NVIDIADriverInstalled st = (cr_ok r3 \<and> TrimSpace (cr_out r3) \<noteq> [])"
      "is_DockerInstalled st = cr_ok r4" "is_ContainerToolkitInstalled st = cr_ok r5"
    using assms(2) 1 2 3 4 5
    by (auto simp: VerifyInstallation_def checkSudoAccess_def checkCUDA_def checkNVIDIADriver_def checkDocker_def
        checkContainerToolkit_def Let_def split: if_splits)
  then show "seen w1 = seen w" "is_DockerInstalled st = mc_docker (seen w)" "is_CUDAInstalled st = mc_cuda (seen w)"
    "is_NVIDIADriverInstalled st = mc_driver (seen w)" "is_ContainerToolkitInstalled st = mc_toolkit (seen w)"
    using a b by simp_all
qed

lemma run_commands_host:
  assumes "host exec seen"
  shows "run_commands exec cs w = (None, w1) \<Longrightarrow> seen w1 = fold effect cs (seen w)"
proof (induction cs arbitrary: w)
  case (Cons c cs)
  obtain r v where r: "exec c w = (r, v)" by fastforce
  then show ?case using Cons host_step [OF assms r] by (auto split: if_splits)
qed simp

lemma run_commands_driver:
  assumes "host exec seen"
  shows "run_commands exec cs w = (e, w1) \<Longrightarrow> mc_driver (seen w1) = mc_driver (seen w) \<and>
     (apt_docker \<notin> set cs \<longrightarrow> mc_docker (seen w1) = mc_docker (seen w)) \<and>
     (apt_toolkit \<notin> set cs \<longrightarrow> mc_toolkit (seen w1) = mc_toolkit (seen w)) \<and>
     (mc_cuda (seen w) \<longrightarrow> mc_cuda (seen w1))"
proof (induction cs arbitrary: w)
  case (Cons c cs)
  obtain r v where r: "exec c w = (r, v)" by fastforce
  have k: "mc_driver (seen v) = mc_driver (seen w)" "c \<noteq> apt_docker \<longrightarrow> mc_docker (seen v) = mc_docker (seen w)"
    "c \<noteq> apt_toolkit \<longrightarrow> mc_toolkit (seen v) = mc_toolkit (seen w)" "mc_cuda (seen w) \<longrightarrow> mc_cuda (seen v)"
    using host_step(3) [OF assms r] by (auto simp: effect_def split: if_splits)
  show ?case
  proof (cases "cr_ok r")
    case True
    then have "run_commands exec cs v = (e, w1)" using Cons.prems r by simp
    from Cons.IH [OF this] k show ?thesis by auto
  next
    case False
    then have "w1 = v" using Cons.prems r by simp
    with k show ?thesis by auto
  qed
qed simp

lemma install_lists:
  "apt_toolkit \<notin> {apt_update, apt_docker, [''sudo'', ''systemctl'', ''start'', ''docker''], [''sudo'', ''systemctl'', ''enable'', ''docker'']}"
  "effect apt_update m = m" "effect [''sudo'', ''systemctl'', ''start'', ''docker''] m = m"
  "effect [''sudo'', ''systemctl'', ''enable'', ''docker''] m = m" "effect [''sudo'', ''systemctl'', ''restart'', ''docker''] m = m"
  "effect [''sudo'', ''nvidia-ctk'', ''runtime'', ''configure'', ''--runtime=docker''] m = m"
  by (code_simp, simp_all add: effect_def apt_update_def apt_docker_def apt_cuda_def apt_toolkit_def)

lemma install_docker_host:
  assumes "host exec seen" "InstallDocker exec w = (None, w1)"
  shows "seen w1 = (seen w)\<lparr> mc_docker := True \<rparr>"
  using run_commands_host [OF assms(1) assms(2) [unfolded InstallDocker_def]] by (simp add: install_lists)

lemma install_toolkit_host:
  assumes "host exec seen" "InstallNvidiaContainerToolkit exec w = (None, w1)"
  shows "seen w1 = (seen w)\<lparr> mc_toolkit := True \<rparr>"
  using run_commands_host [OF assms(1) assms(2) [unfolded InstallNvidiaContainerToolkit_def]] by (simp add: install_lists)

lemma install_cuda_host:
  assumes "host exec seen" "InstallCUDA exec v w = (e, w1)"
  shows "mc_driver (seen w1) = mc_driver (seen w)" "mc_docker (seen w1) = mc_docker (seen w)"
    "mc_toolkit (seen w1) = mc_toolkit (seen w)" "mc_cuda (seen w) \<Longrightarrow> mc_cuda (seen w1)"
proof -
  let ?cs = "[[''sudo'', ''wget'', ''-P'', ''/tmp'',
       ''https://developer.download.nvidia.com/compute/cuda/repos/ubuntu2204/x86_64/cuda-keyring_1.1-1_all.deb''],
      [''sudo'', ''dpkg'', ''-i'', ''/tmp/cuda-keyring_1.1-1_all.deb''], apt_update, apt_cuda]"
  have "apt_docker \<notin> set ?cs" "apt_toolkit \<notin> set ?cs" by code_simp+
  with run_commands_driver [OF assms(1) assms(2) [unfolded InstallCUDA_def]]
  show "mc_driver (seen w1) = mc_driver (seen w)" "mc_docker (seen w1) = mc_docker (seen w)"
    "mc_toolkit (seen w1) = mc_toolkit (seen w)" "mc_cuda (seen w) \<Longrightarrow> mc_cuda (seen w1)"
    by blast+
qed

text \<open>An installation that reports no error.\<close>

lemma install_host:
  assumes "host exec seen" "InstallPrerequisites exec i st w = (None, w1)"
  shows "mc_driver (seen w1) = mc_driver (seen w)" "mc_docker (seen w1) = (mc_docker (seen w) \<or> mi_Docker i)"
    "mc_toolkit (seen w1) = (mc_toolkit (seen w) \<or> mi_ContainerToolkit i)" "mc_cuda (seen w) \<Longrightarrow> mc_cuda (seen w1)"
proof -
  obtain v where v: "(if mi_Docker i then InstallDocker exec w else (None, w)) = (None, v)"
    using assms(2) by (auto simp: InstallPrerequisites_def Let_def split: if_splits prod.splits option.splits)
  obtain e u where u: "(if mi_CUDA i then InstallCUDA exec ''12.1'' v else (None, v)) = (e, u)" by fastforce
  have t: "(if mi_ContainerToolkit i then InstallNvidiaContainerToolkit exec u else (None, u)) = (None, w1)"
    using assms(2) v u by (auto simp: InstallPrerequisites_def Let_def split: if_splits)
  have 1: "seen v = (if mi_Docker i then (seen w)\<lparr> mc_docker := True \<rparr> else seen w)"
    using v install_docker_host [OF assms(1)] by (auto split: if_splits)
  have 2: "mc_driver (seen u) = mc_driver (seen v)" "mc_docker (seen u) = mc_docker (seen v)"
    "mc_toolkit (seen u) = mc_toolkit (seen v)" "mc_cuda (seen v) \<longrightarrow> mc_cuda (seen u)"
    using u install_cuda_host [OF assms(1)] by (auto split: if_splits)
  have 3: "seen w1 = (if mi_ContainerToolkit i then (seen u)\<lparr> mc_toolkit := True \<rparr> else seen u)"
    using t install_toolkit_host [OF assms(1)] by (auto split: if_splits)
  show "mc_driver (seen w1) = mc_driver (seen w)" "mc_docker (seen w1) = (mc_docker (seen w) \<or> mi_Docker i)"
    "mc_toolkit (seen w1) = (mc_toolkit (seen w) \<or> mi_ContainerToolkit i)" "mc_cuda (seen w) \<Longrightarrow> mc_cuda (seen w1)"
    using 1 2 3 by auto
qed

text \<open>A run of the command that installed something.\<close>

lemma init_pass_host:
  assumes "host exec seen" "run_init exec env False w = (rep, w1)" "ir_outcome rep = Remaining i"
  shows "mc_docker (seen w1)" "mi_Docker i = False"
    "mi_ContainerToolkit i = (mc_driver (seen w) \<and> \<not> mc_toolkit (seen w) \<and> \<not> mc_docker (seen w))"
    "mi_CUDA i \<longrightarrow> mc_driver (seen w) \<and> \<not> mc_cuda (seen w)" "mc_driver (seen w1) = mc_driver (seen w)"
    "mc_toolkit (seen w1) = (mc_toolkit (seen w) \<or> mc_docker (seen w) \<and> mc_driver (seen w))"
proof -
  obtain st v where st: "VerifyInstallation exec (ie_release env) w = (st, v)" by fastforce
  obtain u where u: "InstallPrerequisites exec (GetIssuesToFix st) st v = (None, u)"
      and i: "i = GetIssuesToFix (fst (VerifyInstallation exec (ie_release env) u))"
      and w1: "w1 = snd (VerifyInstallation exec (ie_release env) u)"
    using assms(2,3) st by (auto simp: run_init_def offer_install_def Let_def split: if_splits prod.splits option.splits)
  note a = verify_host [OF assms(1) st] and b = install_host [OF assms(1) u]
    and c = verify_host [OF assms(1) prod.collapse [of "VerifyInstallation exec (ie_release env) u", symmetric]]
  show "mc_docker (seen w1)" "mi_Docker i = False"
    "mi_ContainerToolkit i = (mc_driver (seen w) \<and> \<not> mc_toolkit (seen w) \<and> \<not> mc_docker (seen w))"
    "mi_CUDA i \<longrightarrow> mc_driver (seen w) \<and> \<not> mc_cuda (seen w)" "mc_driver (seen w1) = mc_driver (seen w)"
    "mc_toolkit (seen w1) = (mc_toolkit (seen w) \<or> mc_docker (seen w) \<and> mc_driver (seen w))"
    using a b c unfolding i w1 by (auto simp: GetIssuesToFix_def)
qed

text \<open>Provisioning takes two runs: on a host with an NVIDIA driver and neither Docker nor the container
  toolkit, a run of \<open>init\<close> that installs without error leaves the toolkit missing (it is an issue only where
  Docker is found), and on every other host it leaves neither Docker nor the toolkit missing; after a
  second such run neither is missing on any host. CUDA is missing afterwards only if it was before:
  its failed installation is no error.\<close>

theorem init_two_passes:
  assumes "host exec seen" "run_init exec env False w = (rep, w1)" "ir_outcome rep = Remaining i"
    "run_init exec env2 False w1 = (rep2, w2)" "ir_outcome rep2 = Remaining j"
  shows "\<not> mi_Docker i \<and> (mi_ContainerToolkit i \<longleftrightarrow> mc_driver (seen w) \<and> \<not> mc_toolkit (seen w) \<and> \<not> mc_docker (seen w)) \<and>
     (mi_CUDA i \<longrightarrow> mc_driver (seen w) \<and> \<not> mc_cuda (seen w)) \<and> \<not> mi_Docker j \<and> \<not> mi_ContainerToolkit j"
  using init_pass_host [OF assms(1-3)] init_pass_host [OF assms(1,4,5)] by blast

text \<open>A host that carries out every command, fresh but for its driver.\<close>

definition example_host :: "machine docker" where
  "example_host args m =
     (\<lparr> cr_ok = (if args = docker_probe then mc_docker m else if args = cuda_probe then mc_cuda m
        else if args = toolkit_probe then mc_toolkit m else if args = driver_probe then mc_driver m else True),
        cr_out = ''535'', cr_combined = [] \<rparr>, effect args m)"

definition fresh_host :: machine where
  "fresh_host = \<lparr> mc_docker = False, mc_cuda = False, mc_driver = True, mc_toolkit = False \<rparr>"

definition example_init :: init_env where
  "example_init = \<lparr> ie_release = Some ''ID=ubuntu'', ie_hardware = Some (GetSystemHardware no_hw), ie_reply = ''y'', ie_room = None, ie_order = [] \<rparr>"

lemma example_host: "host example_host id"
proof -
  have "TrimSpace ''535'' \<noteq> []" by code_simp
  then show ?thesis by (auto simp: host_def example_host_def answers_def)
qed

definition first_run :: "init_report \<times> machine" where "first_run = run_init example_host example_init False fresh_host"
definition second_run :: "init_report \<times> machine" where "second_run = run_init example_host example_init False (snd first_run)"

theorem init_two_passes_witness:
  "\<exists>i j. ir_outcome (fst first_run) = Remaining i \<and> mi_ContainerToolkit i \<and>
     ir_outcome (fst second_run) = Remaining j \<and> \<not> mi_ContainerToolkit j"
proof -
  have "case ir_outcome (fst first_run) of Remaining _ \<Rightarrow> True | _ \<Rightarrow> False"
    "case ir_outcome (fst second_run) of Remaining _ \<Rightarrow> True | _ \<Rightarrow> False" by code_simp+
  then obtain i j where o: "ir_outcome (fst first_run) = Remaining i" "ir_outcome (fst second_run) = Remaining j"
    by (auto split: install_outcome.splits)
  have "run_init example_host example_init False fresh_host = (fst first_run, snd first_run)"
    "run_init example_host example_init False (snd first_run) = (fst second_run, snd second_run)"
    by (simp_all add: first_run_def second_run_def)
  from init_two_passes [OF example_host this(1) o(1) this(2) o(2)] o show ?thesis by (auto simp: fresh_host_def)
qed

end
