(* ===== verification/Prompt.thy ===== *)
theory Prompt
  imports GoStrings
begin

text \<open>
  Selecting from a numbered list on the terminal: the loops of \<open>promptModelSelection\<close> (\<open>cmd/pull.go\<close>),
  \<open>promptDeployModelSelection\<close> (\<open>cmd/deploy.go\<close>), \<open>runLogs\<close>, \<open>runTest\<close> and \<open>runGatewayTest\<close>. A loop that asks for
  ever has no value. Past its end, standard input reads as empty lines.
\<close>

subsection \<open>Reading lines\<close>

definition stdin :: "gostr list \<Rightarrow> nat \<Rightarrow> gostr" where
  "stdin typed i = (if i < length typed then typed ! i else [])"

text \<open>The index selected by a line, for a list of \<open>n\<close> entries.\<close>

definition selection :: "nat \<Rightarrow> gostr \<Rightarrow> nat option" where
  "selection n line =
     (case ParseInt (TrimSpace line) of
        Some k \<Rightarrow> if k < 1 \<or> int n < k then None else Some (nat (k - 1))
      | None \<Rightarrow> None)"

partial_function (option) select_loop :: "nat \<Rightarrow> (nat \<Rightarrow> gostr) \<Rightarrow> nat \<Rightarrow> nat option" where
  "select_loop n input i = (case selection n (input i) of Some k \<Rightarrow> Some k | None \<Rightarrow> select_loop n input (Suc i))"

text \<open>\<open>fmt.Scanln(&choice)\<close> in a loop: \<open>scans i\<close> is the number the \<open>i\<close>-th call reads, \<open>None\<close> when it fails and
  leaves the variable as it was.\<close>

partial_function (option) scan_loop :: "nat \<Rightarrow> (nat \<Rightarrow> int option) \<Rightarrow> int \<Rightarrow> nat \<Rightarrow> nat option" where
  "scan_loop n scans choice i =
     (let c = (case scans i of Some k \<Rightarrow> k | None \<Rightarrow> choice) in
      if 1 \<le> c \<and> c \<le> int n then Some (nat (c - 1)) else scan_loop n scans c (Suc i))"

definition select_line :: "nat \<Rightarrow> gostr list \<Rightarrow> nat option" where
  "select_line n typed = select_loop n (stdin typed) 0"

subsection \<open>When the loops end\<close>

lemma selection_bound: "selection n line = Some k \<Longrightarrow> k < n"
  by (auto simp: selection_def split: option.splits if_splits)

lemma selection_empty: "selection n [] = None"
proof -
  have "ParseInt (TrimSpace []) = None" by code_simp
  then show ?thesis by (simp add: selection_def)
qed

lemma select_loop_Some:
  assumes "select_loop n input i = Some k"
  shows "\<exists>j\<ge>i. selection n (input j) = Some k"
proof -
  have "\<exists>j\<ge>i. selection n (input j) = Some k"
    if "select_loop n input i = Some k" for i k n input
  proof (rule select_loop.raw_induct [OF _ that])
    fix f n input i k
    assume IH: "\<And>n input i k. f n input i = Some k \<Longrightarrow> \<exists>j\<ge>i. selection n (input j) = Some k"
      and r: "(case selection n (input i) of None \<Rightarrow> f n input (Suc i) | Some k \<Rightarrow> Some k) = Some k"
    show "\<exists>j\<ge>i. selection n (input j) = Some k"
    proof (cases "selection n (input i)")
      case None
      with r IH [of n input "Suc i" k] show ?thesis by (auto dest: Suc_leD)
    next
      case (Some l)
      with r show ?thesis by auto
    qed
  qed
  with assms show ?thesis by blast
qed

lemma select_loop_skip:
  "i \<le> j \<Longrightarrow> (\<And>l. i \<le> l \<Longrightarrow> l < j \<Longrightarrow> selection n (input l) = None) \<Longrightarrow> select_loop n input i = select_loop n input j"
proof (induction "j - i" arbitrary: i)
  case (Suc d)
  then have "selection n (input i) = None" by auto
  then have "select_loop n input i = select_loop n input (Suc i)" by (subst select_loop.simps) simp
  also have "\<dots> = select_loop n input j" using Suc.hyps Suc.prems by (intro Suc.hyps(1)) auto
  finally show ?case .
qed simp

lemma select_loop_None:
  assumes "\<And>j. i \<le> j \<Longrightarrow> selection n (input j) = None"
  shows "select_loop n input i = None"
  using select_loop_Some [of n input i] assms by (metis not_None_eq option.distinct(1))

lemma first_selection:
  "List.map_filter (selection n) typed = k # ks \<Longrightarrow>
   \<exists>j < length typed. selection n (typed ! j) = Some k \<and> (\<forall>l < j. selection n (typed ! l) = None)"
proof (induction typed)
  case (Cons a typed)
  show ?case
  proof (cases "selection n a")
    case None
    with Cons obtain j where j: "j < length typed" "selection n (typed ! j) = Some k" "\<forall>l < j. selection n (typed ! l) = None"
      by auto
    then show ?thesis using None by (intro exI [of _ "Suc j"]) (auto simp: nth_Cons split: nat.splits)
  next
    case (Some b)
    with Cons.prems show ?thesis by (intro exI [of _ 0]) simp
  qed
qed simp


text \<open>The loops on \<open>Scanln\<close>.\<close>

lemma scan_loop_Some:
  assumes "scan_loop n scans c i = Some k"
  shows "k < n"
proof -
  have "k < n" if "scan_loop n scans c i = Some k" for n scans c i k
  proof (rule scan_loop.raw_induct [OF _ that])
    fix f n scans c i k
    assume IH: "\<And>n scans c i k. f n scans c i = Some k \<Longrightarrow> k < n"
      and r: "(let c = case scans i of None \<Rightarrow> c | Some k \<Rightarrow> k in if 1 \<le> c \<and> c \<le> int n then Some (nat (c - 1)) else f n scans c (Suc i)) = Some k"
    then show "k < n" by (auto simp: Let_def split: if_splits)
  qed
  with assms show ?thesis by blast
qed

end
