(* ===== verification/ModelCommands.thy ===== *)
theory ModelCommands
  imports UserConfig Downloader Prompt Catalogue Engine
begin

text \<open>
  The model commands of the CLI: \<open>pull\<close>, \<open>remove\<close>, \<open>verify\<close>, \<open>status\<close> and \<open>models\<close> (\<open>cmd/pull.go\<close>, \<open>cmd/remove.go\<close>,
  \<open>cmd/status.go\<close>, \<open>cmd/models.go\<close>), on the model store and the user's settings. A command returns what it
  reports, the files of the user (\<open>disk\<close>) and the tree of the models; a command that asks for ever has no value.
  The lines a download adds to the activity log, and the texts printed, are not modelled.
\<close>

subsection \<open>The cache manager and the settings\<close>

record cli_env =
  cl_prims :: user_prims
  cl_user :: user_env
  cl_cache :: cache_env
  cl_mkdir_fails :: bool
  cl_model_mkdir_fails :: bool
  cl_remove_fails :: bool
  cl_hub :: hub
  cl_weights :: "gostr \<Rightarrow> gostr list option"
  cl_dirsize :: int
  cl_now :: time
  cl_typed :: "gostr list"
  cl_catalogue :: "catalogue option"
  cl_order :: "gostr list"
  cl_prefs :: "gostr list"

text \<open>The manager of a directory already chosen.\<close>

definition open_cache :: "cache_env \<Rightarrow> bool \<Rightarrow> gostr \<Rightarrow> tree \<Rightarrow> (CacheManager \<times> tree) option" where
  "open_cache env mkdir_fails dir t =
     (if mkdir_fails then None
      else
        let t1 = mkdir_all dir t;
            cm = \<lparr> cm_cacheDir = dir, cm_metadataFile = Path_Join [dir, ''.metadata.json''], cm_metadata = Map.empty \<rparr>
        in Some (fst (loadMetadata env cm t1), t1))"

text \<open>A directory given is stored in the user's settings; whether that succeeds is ignored.\<close>

definition NewCacheManager :: "cli_env \<Rightarrow> gostr \<Rightarrow> disk \<Rightarrow> tree \<Rightarrow> CacheManager option \<times> disk \<times> tree" where
  "NewCacheManager env cacheDir d t =
     (case Config_NewManager (cl_prims env) (cl_user env) d of
        None \<Rightarrow> (None, d, t)
      | Some m \<Rightarrow>
          let dir = (if cacheDir = [] then GetCacheDir (cl_user env) m else cacheDir);
              d1 = (if cacheDir = [] then d else snd (SetCacheDir (cl_prims env) (cl_user env) cacheDir m d))
          in case open_cache (cl_cache env) (cl_mkdir_fails env) dir t of
               None \<Rightarrow> (None, d1, t)
             | Some (cm, t1) \<Rightarrow> (Some cm, d1, t1))"

definition default_dir :: gostr where "default_dir = ''./models''"

subsection \<open>Pulling\<close>

datatype pull_error = PullRegistry | PullNoModels | PullCache | PullDownload model_error | PullNotCached

record pull_report =
  pl_meta :: CacheMetadata
  pl_present :: bool

text \<open>The models offered, a map in the program: \<open>cl_prefs\<close> lists them in an order of iteration.\<close>

definition preferredNames :: "gostr list" where
  "preferredNames = [''distilbert-base-uncased'', ''TinyLlama/TinyLlama-1.1B-Chat-v1.0'', ''microsoft/Phi-2'',
     ''google/gemma-2-2b-it'', ''microsoft/Phi-3-mini-4k-instruct'']"

definition promptModelSelection :: "cli_env \<Rightarrow> (pull_error + gostr) option" where
  "promptModelSelection env =
     (case cl_catalogue env of
        None \<Rightarrow> Some (Inl PullRegistry)
      | Some models \<Rightarrow>
          let names = filter (\<lambda>n. models n \<noteq> None) (cl_prefs env) in
          if names = [] then Some (Inl PullNoModels)
          else map_option (\<lambda>k. Inr (names ! k)) (select_line (length names) (cl_typed env)))"

definition pull_model :: "cli_env \<Rightarrow> gostr \<Rightarrow> CacheManager \<Rightarrow> tree \<Rightarrow> model_error option \<times> CacheManager \<times> tree" where
  "pull_model env name cm t =
     pull (cl_cache env) (cl_hub env) (cl_weights env) (cl_dirsize env) (cl_model_mkdir_fails env) (cl_now env) name cm t"

text \<open>\<open>--force\<close> removes the cached model first; what that returns is only printed.\<close>

definition pull_named ::
    "cli_env \<Rightarrow> gostr \<Rightarrow> bool \<Rightarrow> gostr \<Rightarrow> disk \<Rightarrow> tree \<Rightarrow> (pull_error + pull_report) \<times> disk \<times> tree" where
  "pull_named env cacheDir force name d t =
     (case NewCacheManager env cacheDir d t of
        (None, d1, t1) \<Rightarrow> (Inl PullCache, d1, t1)
      | (Some cm, d1, t1) \<Rightarrow>
          let (_, cm1, t2) = (if force then RemoveFromCache (cl_cache env) (cl_remove_fails env) name cm t1 else (None, cm, t1));
              (err, cm2, t3) = pull_model env name cm1 t2
          in case err of
               Some e \<Rightarrow> (Inl (PullDownload e), d1, t3)
             | None \<Rightarrow>
                 (case GetCachedModel name cm2 of
                    None \<Rightarrow> (Inl PullNotCached, d1, t3)
                  | Some meta \<Rightarrow> (Inr \<lparr> pl_meta = meta, pl_present = (map_of t3 (cd_Path meta) \<noteq> None) \<rparr>, d1, t3)))"

definition runPull ::
    "cli_env \<Rightarrow> gostr \<Rightarrow> bool \<Rightarrow> gostr option \<Rightarrow> disk \<Rightarrow> tree \<Rightarrow> ((pull_error + pull_report) \<times> disk \<times> tree) option" where
  "runPull env cacheDir force arg d t =
     (case arg of
        Some name \<Rightarrow> Some (pull_named env cacheDir force name d t)
      | None \<Rightarrow>
          (case promptModelSelection env of
             None \<Rightarrow> None
           | Some (Inl e) \<Rightarrow> Some (Inl e, d, t)
           | Some (Inr name) \<Rightarrow> Some (pull_named env cacheDir force name d t)))"

subsection \<open>Removing\<close>

datatype remove_error = RmCache | RmNotFound gostr | RmFailed model_error
datatype remove_outcome = RmCancelled | RmDone "CacheMetadata list" int

text \<open>\<open>fmt.Scanln\<close> into a string: the first word of the line.\<close>

definition scan_word :: "gostr list \<Rightarrow> gostr" where
  "scan_word typed = (case Fields (stdin typed 0) of [] \<Rightarrow> [] | w # _ \<Rightarrow> w)"

definition runRemove ::
    "cli_env \<Rightarrow> gostr \<Rightarrow> bool \<Rightarrow> gostr \<Rightarrow> disk \<Rightarrow> tree \<Rightarrow> (remove_error + remove_outcome) \<times> disk \<times> tree" where
  "runRemove env cacheDir force name d t =
     (case NewCacheManager env cacheDir d t of
        (None, d1, t1) \<Rightarrow> (Inl RmCache, d1, t1)
      | (Some cm, d1, t1) \<Rightarrow>
          if \<not> IsCached name cm then (Inl (RmNotFound name), d1, t1)
          else if \<not> force \<and> scan_word (cl_typed env) \<notin> {''yes'', ''y''} then (Inr RmCancelled, d1, t1)
          else
            (case RemoveFromCache (cl_cache env) (cl_remove_fails env) name cm t1 of
               (Some e, _, t2) \<Rightarrow> (Inl (RmFailed e), d1, t2)
             | (None, cm1, t2) \<Rightarrow>
                 (Inr (RmDone (ListCached (cl_order env) cm1) (GetTotalCacheSize (cl_order env) cm1)), d1, t2)))"

subsection \<open>Verifying and status\<close>

definition runVerify ::
    "cli_env \<Rightarrow> gostr option \<Rightarrow> disk \<Rightarrow> tree \<Rightarrow> VerificationResult list option \<times> disk \<times> tree" where
  "runVerify env arg d t =
     (case NewCacheManager env [] d t of
        (None, d1, t1) \<Rightarrow> (None, d1, t1)
      | (Some cm, d1, t1) \<Rightarrow>
          (Some (case arg of None \<Rightarrow> VerifyAllModels (cl_order env) cm t1 | Some name \<Rightarrow> [VerifyModel name cm t1]), d1, t1))"

record status_flags =
  sf_running :: bool
  sf_cached :: bool
  sf_hardware :: bool

record cache_status =
  ct_results :: "VerificationResult list"
  ct_ready :: nat
  ct_total :: int
  ct_location :: gostr

record status_report =
  sr_running :: "RunningModel list option"
  sr_hardware :: "SystemHardware option"
  sr_cached :: "cache_status option"

datatype status_error = StConfig | StCache | StPanic

definition all_sections :: "status_flags \<Rightarrow> status_flags" where
  "all_sections f =
     (if sf_running f \<or> sf_cached f \<or> sf_hardware f then f
      else \<lparr> sf_running = True, sf_cached = True, sf_hardware = True \<rparr>)"

text \<open>Models that cannot be listed show as none.\<close>

definition status_running :: "'w docker \<Rightarrow> 'w \<Rightarrow> (status_error + RunningModel list) \<times> 'w" where
  "status_running exec w =
     (case GetRunningModels exec w of
        (Inl PanicShortID, w1) \<Rightarrow> (Inl StPanic, w1)
      | (Inl _, w1) \<Rightarrow> (Inr [], w1)
      | (Inr ms, w1) \<Rightarrow> (Inr ms, w1))"

definition status_cached :: "cli_env \<Rightarrow> UManager \<Rightarrow> CacheManager \<Rightarrow> tree \<Rightarrow> cache_status" where
  "status_cached env m cm t =
     (let rs = VerifyAllModels (cl_order env) cm t in
      \<lparr> ct_results = rs, ct_ready = length (filter vr_ReadyToDeploy rs),
        ct_total = foldl (\<lambda>n r. i64 (n + vr_TotalSize r)) 0 rs, ct_location = GetCacheDir (cl_user env) m \<rparr>)"

definition runStatus ::
    "'w docker \<Rightarrow> cli_env \<Rightarrow> hw_env \<Rightarrow> status_flags \<Rightarrow> disk \<Rightarrow> tree \<Rightarrow> 'w \<Rightarrow> (status_error + status_report) \<times> disk \<times> tree \<times> 'w" where
  "runStatus exec env henv flags d t w =
     (case Config_NewManager (cl_prims env) (cl_user env) d of
        None \<Rightarrow> (Inl StConfig, d, t, w)
      | Some m \<Rightarrow>
          let f = all_sections flags;
              (ms, w1) = (if sf_running f then status_running exec w else (Inr [], w));
              hw = (if sf_hardware f then Some (GetSystemHardware henv) else None)
          in case ms of
               Inl e \<Rightarrow> (Inl e, d, t, w1)
             | Inr rs \<Rightarrow>
                 if \<not> sf_cached f then
                   (Inr \<lparr> sr_running = (if sf_running f then Some rs else None), sr_hardware = hw, sr_cached = None \<rparr>, d, t, w1)
                 else
                   (case NewCacheManager env [] d t of
                      (None, d1, t1) \<Rightarrow> (Inl StCache, d1, t1, w1)
                    | (Some cm, d1, t1) \<Rightarrow>
                        (Inr \<lparr> sr_running = (if sf_running f then Some rs else None), sr_hardware = hw,
                           sr_cached = Some (status_cached env m cm t1) \<rparr>, d1, t1, w1)))"

subsection \<open>The catalogue\<close>

datatype models_result = MoLocalFailed catalogue_error | MoNone | MoList "ModelMetadata list" bool

text \<open>The listing, by parameter count, and whether the remote registry was merged in. \<open>order\<close> and \<open>quants\<close>
  are the orders of iteration of the catalogue and of a model's quantizations. A remote fetch returns its
  models or an error.\<close>

definition modelsList ::
    "RemoteRegistry \<Rightarrow> remote_env \<Rightarrow> catalogue_error + catalogue \<Rightarrow> SystemHardware \<Rightarrow> gostr list \<Rightarrow> (ModelMetadata \<Rightarrow> gostr list) \<Rightarrow>
      bool \<Rightarrow> cache_file \<Rightarrow> models_result \<times> cache_file" where
  "modelsList reg renv local hw order quants everything f =
     (case local of
        Inl e \<Rightarrow> (MoLocalFailed e, f)
      | Inr localModels \<Rightarrow>
          let (remote, f1) = FetchAndCache reg renv f;
              models = (case remote of Inr r \<Rightarrow> MergeRegistries localModels r | Inl _ \<Rightarrow> localModels);
              found = (if everything then List.map_filter models order
                else FilterByHardware order quants models (hw_GPUs hw \<noteq> []) (hw_TotalAvailable hw) (hw_SystemRAM hw))
          in (if found = [] then MoNone else MoList (sort_key md_ParameterCount found) (\<not> isl remote), f1))"

definition modelsRefresh :: "remote_env \<Rightarrow> cache_file \<Rightarrow> (catalogue_error + catalogue) \<times> cache_file" where
  "modelsRefresh renv f = FetchOnly renv f"

definition modelsClearCache :: "cache_file \<Rightarrow> bool \<times> cache_file" where
  "modelsClearCache f = (case ClearCache f of None \<Rightarrow> (False, f) | Some f1 \<Rightarrow> (True, f1))"

subsection \<open>The cache directory of the settings\<close>

lemma SetCacheDir_saves:
  assumes "Config_NewManager P env d = Some m" "ue_home env = Some home" "ue_write env = None"
    "\<And>c. up_encode P c \<noteq> None" "\<And>c b. up_encode P c = Some b \<Longrightarrow> up_decode P b = c"
  shows "config_load P (settings_path home) (snd (SetCacheDir P env dir m d)) = (um_config m)\<lparr> uc_CacheDir := dir \<rparr>"
proof -
  have "um_configFile m = settings_path home"
    using assms(1,2) by (auto simp: Config_NewManager_def settings_path_def Let_def split: if_splits)
  moreover obtain b where "up_encode P ((um_config m)\<lparr> uc_CacheDir := dir \<rparr>) = Some b" using assms(4) by blast
  ultimately show ?thesis using assms(3,5) by (simp add: SetCacheDir_def config_save_def config_load_def)
qed

lemma NewCacheManager_disk:
  assumes "NewCacheManager env dir d t = (r, d1, t1)" "dir \<noteq> []" "Config_NewManager (cl_prims env) (cl_user env) d = Some m"
  shows "d1 = snd (SetCacheDir (cl_prims env) (cl_user env) dir m d)"
  using assms by (auto simp: NewCacheManager_def Let_def split: option.splits)

lemma pull_named_disk: "fst (snd (pull_named env dir force name d t)) = fst (snd (NewCacheManager env dir d t))"
  by (auto simp: pull_named_def Let_def split: prod.splits option.splits)

lemma runRemove_disk: "fst (snd (runRemove env dir force name d t)) = fst (snd (NewCacheManager env dir d t))"
  by (auto simp: runRemove_def Let_def split: prod.splits option.splits)

definition settings_env :: "cli_env \<Rightarrow> gostr \<Rightarrow> bool" where
  "settings_env env home \<longleftrightarrow> ue_home (cl_user env) = Some home \<and> \<not> ue_mkdir_fails (cl_user env) \<and> ue_write (cl_user env) = None \<and>
     (\<forall>c. \<exists>b. up_encode (cl_prims env) c = Some b \<and> up_decode (cl_prims env) b = c)"

lemma NewCacheManager_setting:
  assumes "settings_env env home" "dir \<noteq> []" "ue_home env2 = Some home" "\<not> ue_mkdir_fails env2"
  shows "value_of (cl_prims env) env2 cache_key (fst (snd (NewCacheManager env dir d t))) = Some (env_override env2 cache_var dir)"
proof -
  obtain m where m: "Config_NewManager (cl_prims env) (cl_user env) d = Some m"
    using assms(1) by (auto simp: settings_env_def Config_NewManager_def Let_def)
  obtain r d1 t1 where n: "NewCacheManager env dir d t = (r, d1, t1)" by (metis prod_cases3)
  have enc: "\<And>c. up_encode (cl_prims env) c \<noteq> None" "\<And>c b. up_encode (cl_prims env) c = Some b \<Longrightarrow> up_decode (cl_prims env) b = c"
    using assms(1) by (auto simp: settings_env_def) (metis option.inject)
  have "config_load (cl_prims env) (settings_path home) d1 = (um_config m)\<lparr> uc_CacheDir := dir \<rparr>"
    unfolding NewCacheManager_disk [OF n assms(2) m]
    using SetCacheDir_saves [OF m _ _ enc] assms(1) by (simp add: settings_env_def)
  from value_of_load [OF assms(3,4) this, of cache_key] assms(2) show ?thesis by (simp add: n)
qed

text \<open>Every \<open>pull\<close> and \<open>remove\<close> replaces the cache directory of the user's settings by its own \<open>--cache-dir\<close>, by default
  the relative \<open>./models\<close>: whatever \<open>config set cache-dir\<close> stored before, every later process reads \<open>./models\<close>
  unless its environment overrides it, also when the model is not there or its download fails.\<close>

theorem pull_replaces_setting:
  assumes "settings_env env home" "ue_home env2 = Some home" "\<not> ue_mkdir_fails env2" "ue_getenv env2 cache_var = []"
  shows "value_of (cl_prims env) env2 cache_key (fst (snd (pull_named env default_dir force name d t))) = Some default_dir \<and>
     value_of (cl_prims env) env2 cache_key (fst (snd (runRemove env default_dir force name d t))) = Some default_dir"
proof -
  have "default_dir \<noteq> []" by (simp add: default_dir_def)
  from NewCacheManager_setting [OF assms(1) this assms(2,3)] assms(4)
  show ?thesis by (simp add: pull_named_disk runRemove_disk env_override_def)
qed

definition example_cli :: cli_env where
  "example_cli = \<lparr> cl_prims = example_prims, cl_user = example_user,
     cl_cache = \<lparr> ce_marshal = (\<lambda>_. Some []), ce_unmarshal = (\<lambda>_. Some Map.empty), ce_write = None \<rparr>,
     cl_mkdir_fails = False, cl_model_mkdir_fails = False, cl_remove_fails = False, cl_hub = (\<lambda>_ _ _. None),
     cl_weights = (\<lambda>_. None), cl_dirsize = 4096, cl_now = 0, cl_typed = [], cl_catalogue = None, cl_order = [], cl_prefs = [] \<rparr>"

definition custom_settings :: disk where
  "custom_settings = snd (configSet example_prims example_user example_activity cache_key ''/big'' Map.empty)"

theorem pull_replaces_setting_witness:
  "value_of example_prims example_user cache_key custom_settings = Some ''/big'' \<and>
   value_of example_prims example_user cache_key (fst (snd (pull_named example_cli default_dir False ''m'' custom_settings []))) = Some ''./models''"
proof -
  have "settings_env example_cli ''/h''"
    using example_codec by (auto simp: settings_env_def example_cli_def example_user_def) (simp add: example_prims_def)
  moreover have "ue_home example_user = Some ''/h''" "\<not> ue_mkdir_fails example_user" "ue_getenv example_user x = []" for x
    by (simp_all add: example_user_def)
  ultimately have "value_of (cl_prims example_cli) example_user cache_key
      (fst (snd (pull_named example_cli default_dir False ''m'' custom_settings []))) = Some default_dir"
    using pull_replaces_setting [of example_cli "''/h''" example_user False "''m''" custom_settings "[]"] by simp
  moreover have "value_of example_prims example_user cache_key custom_settings = Some ''/big''" by code_simp
  ultimately show ?thesis by (simp add: example_cli_def default_dir_def)
qed

subsection \<open>Forced pulls\<close>

lemma files_under_remove_all: "files_under (remove_all dir t) dir = []"
  by (auto simp: files_under_def remove_all_def List.map_filter_def filter_empty_conv split: fnode.splits if_splits)

lemma files_under_put_outside: "files_under t dir = [] \<Longrightarrow> \<not> under dir p \<Longrightarrow> files_under (put p n t) dir = []"
  by (auto simp: files_under_def put_def List.map_filter_def filter_empty_conv split: fnode.splits)

text \<open>A hub that answers nothing.\<close>

lemma silent_hf:
  assumes "\<And>m u s. hub m u s = None" "files_under t dir = []"
  shows "\<exists>e es t1. HF_DownloadModel hub weights n False name dir t = (Some e, es, t1) \<and> files_under t1 dir = []"
proof -
  let ?st = "(0, [], mkdir_all dir t) :: dl_state"
  have "files_under (snd (snd ?st)) dir = []" by (simp add: files_under_mkdir_all assms(2))
  then have "files_under (snd (snd (foldl (\<lambda>st f. download_one hub n name dir f st) ?st (discoverShardedFiles hub weights name @ commonFiles)))) dir = []"
    using silent_download_all [of hub ?st dir n name dir] assms(1) by blast
  moreover have "\<not> head_ok hub name f" for f by (simp add: head_ok_def assms(1))
  then have "fst (foldl (\<lambda>st f. download_one hub n name dir f st) ?st (discoverShardedFiles hub weights name @ commonFiles)) = 0"
    by (simp only: download_all_count) simp
  ultimately show ?thesis by (auto simp: HF_DownloadModel_def Let_def split: prod.splits)
qed

lemma silent_pull:
  assumes "\<And>m u s. hub m u s = None" "\<not> IsCached name cm" "files_under t (Path_Join [cm_cacheDir cm, name]) = []"
  shows "\<exists>e. fst (pull env hub weights n mk now name cm t) = Some e \<and>
     files_under (snd (snd (pull env hub weights n mk now name cm t))) (Path_Join [cm_cacheDir cm, name]) = []"
proof -
  let ?dir = "Path_Join [cm_cacheDir cm, name]"
  have "files_under (mkdir_all ?dir t) ?dir = []" by (rule files_under_mkdir_all [OF assms(3)])
  from silent_hf [of hub, OF assms(1) this, where weights = weights and n = n and name = name]
  obtain e es t1 where "HF_DownloadModel hub weights n False name ?dir (mkdir_all ?dir t) = (Some e, es, t1)" "files_under t1 ?dir = []" by blast
  then show ?thesis using assms(2,3) by (auto simp: pull_def DownloadModel_def Let_def getDirSize_def)
qed

text \<open>A forced pull destroys the cached model before anything is downloaded: when the hub cannot be
  reached, \<open>pull --force\<close> of a cached model fails, and no file of the model is left.\<close>

theorem forced_pull_loses:
  assumes "NewCacheManager env dir d t = (Some cm, d1, t1)" "GetCachedModel name cm = Some md"
    "cd_Path md = Path_Join [cm_cacheDir cm, name]" "\<not> cl_remove_fails env"
    "\<not> under (cd_Path md) (cm_metadataFile cm)" "\<And>m u s. cl_hub env m u s = None"
  shows "(let (r, d2, t2) = pull_named env dir True name d t in
     (\<exists>e. r = Inl (PullDownload e)) \<and> files_under t2 (cd_Path md) = [])"
proof -
  let ?cm = "cm\<lparr> cm_metadata := (cm_metadata cm)(name := None) \<rparr>"
  obtain e1 t2 where t2: "saveMetadata (cl_cache env) ?cm (remove_all (cd_Path md) t1) = (e1, t2)" by fastforce
  then have rm: "RemoveFromCache (cl_cache env) (cl_remove_fails env) name cm t1 = (e1, ?cm, t2)"
    using assms(2,4) by (simp add: RemoveFromCache_def GetCachedModel_def Let_def)
  have "files_under t2 (cd_Path md) = []"
    using t2 assms(5) files_under_remove_all [of "cd_Path md" t1] files_under_put_outside [of _ "cd_Path md"]
    by (auto simp: saveMetadata_def split: option.splits)
  then have "files_under t2 (Path_Join [cm_cacheDir ?cm, name]) = []" using assms(3) by simp
  moreover have "\<not> IsCached name ?cm" by (simp add: IsCached_def)
  ultimately obtain e where e: "fst (pull_model env name ?cm t2) = Some e" "files_under (snd (snd (pull_model env name ?cm t2))) (cd_Path md) = []"
    using silent_pull [of "cl_hub env" name ?cm t2] assms(3,6) unfolding pull_model_def by fastforce
  obtain cm3 t3 where "pull_model env name ?cm t2 = (Some e, cm3, t3)" using e(1) by (metis prod.collapse)
  then show ?thesis using e(2) assms(1) rm by (simp add: pull_named_def)
qed

definition stored_model :: CacheMetadata where
  "stored_model = \<lparr> cd_Name = ''m'', cd_Size = 1, cd_Downloaded = 0, cd_Path = ''/c/m'' \<rparr>"

definition stored_tree :: tree where
  "stored_tree = [(''/c'', DirNode), (''/c/.metadata.json'', FileNode ''x''), (''/c/m'', DirNode), (''/c/m/w.bin'', FileNode ''x'')]"

definition stored_cli :: cli_env where
  "stored_cli = example_cli\<lparr> cl_cache := \<lparr> ce_marshal = (\<lambda>_. Some []), ce_unmarshal = (\<lambda>_. Some [''m'' \<mapsto> stored_model]), ce_write = None \<rparr> \<rparr>"

theorem forced_pull_loses_witness:
  "files_under stored_tree ''/c/m'' \<noteq> [] \<and> files_under (snd (snd (pull_named stored_cli ''/c'' True ''m'' Map.empty stored_tree))) ''/c/m'' = []"
proof -
  let ?n = "NewCacheManager stored_cli ''/c'' Map.empty stored_tree"
  have some: "map_option (\<lambda>cm. (cm_cacheDir cm, cm_metadataFile cm, map_option cd_Path (GetCachedModel ''m'' cm))) (fst ?n) =
      Some (''/c'', ''/c/.metadata.json'', Some ''/c/m'')" by code_simp
  then obtain cm md where cm: "fst ?n = Some cm" "cm_cacheDir cm = ''/c''" "cm_metadataFile cm = ''/c/.metadata.json''"
      "GetCachedModel ''m'' cm = Some md" "cd_Path md = ''/c/m''" by auto
  have n: "?n = (Some cm, fst (snd ?n), snd (snd ?n))" by (simp add: cm(1) [symmetric])
  have "Path_Join [''/c'', ''m''] = ''/c/m''" "\<not> under ''/c/m'' ''/c/.metadata.json''" "files_under stored_tree ''/c/m'' \<noteq> []" by code_simp+
  moreover have "cl_hub stored_cli m u s = None" "\<not> cl_remove_fails stored_cli" for m u s by (simp_all add: stored_cli_def example_cli_def)
  ultimately show ?thesis using forced_pull_loses [OF n cm(4)] cm by (auto split: prod.splits)
qed

end
