(* ===== verification/DeployCommands.thy ===== *)
theory DeployCommands
  imports ModelCommands
begin

text \<open>
  The commands on running models: \<open>deploy\<close>, \<open>stop\<close> and \<open>logs\<close> (\<open>cmd/deploy.go\<close>, \<open>cmd/stop.go\<close>, \<open>cmd/logs.go\<close>), on the engine
  room, the model store and docker. Each opens an engine room of its own. The health check a deployment
  leaves in the background ends with the process; its effect is not part of a command here.
\<close>

subsection \<open>The engine room of a command\<close>

text \<open>\<open>re_models\<close> and \<open>re_instances\<close> are orders of iteration of the catalogue and of the running models.\<close>

record room_env =
  re_engine :: engine_env
  re_hw :: hw_env
  re_file :: "gostr option"
  re_models :: "gostr list"
  re_instances :: "gostr list"
  re_tokens :: "int \<Rightarrow> int"

definition room_config :: "int \<Rightarrow> bool \<Rightarrow> EngineConfig" where
  "room_config port rebuild = \<lparr> ec_ModelCacheDir = default_dir, ec_Port = port, ec_VRAMLimit = 0, ec_GPUIndices = [],
     ec_RebuildImage = rebuild \<rparr>"

definition open_room :: "cli_env \<Rightarrow> room_env \<Rightarrow> EngineConfig \<Rightarrow> tree \<Rightarrow> (EngineRoom \<times> tree) option" where
  "open_room env renv cfg t =
     map_option (\<lambda>er. (er, mkdir_all (ec_ModelCacheDir cfg) t))
       (NewEngineRoom ((re_engine renv)\<lparr> en_tree := t \<rparr>) (re_hw renv) (cl_mkdir_fails env) (cl_catalogue env) cfg (re_file renv))"

text \<open>The model a name on the command line stands for: the first listed whose name or container id contains it.\<close>

definition find_running :: "gostr \<Rightarrow> RunningModel list \<Rightarrow> RunningModel option" where
  "find_running name ms = List.find (\<lambda>m. Contains (rm_ModelName m) name \<or> Contains (rm_ContainerID m) name) ms"

subsection \<open>Deploying\<close>

record deploy_flags =
  df_port :: int
  df_quantization :: gostr
  df_rebuild :: bool
  df_force :: bool

datatype deploy_error =
  DpRegistry | DpEngine | DpNoSuitable | DpPull model_error | DpPlan engine_error | DpDeploy engine_error | DpPanic

text \<open>The first two are reported as success as well.\<close>

datatype deploy_outcome = DpNoEngine "gostr list" "gostr list" | DpIncompatible "ModelMetadata list" | DpDeployed DeploymentPlan EngineRoom

text \<open>Stopping the running instance first: whether the listing panicked. A failing stop is only a warning.\<close>

definition force_stop :: "'w docker \<Rightarrow> gostr \<Rightarrow> 'w \<Rightarrow> bool \<times> 'w" where
  "force_stop exec name w =
     (case GetRunningModels exec w of
        (Inl PanicShortID, w1) \<Rightarrow> (True, w1)
      | (Inl _, w1) \<Rightarrow> (False, w1)
      | (Inr ms, w1) \<Rightarrow>
          (case find_running name ms of
             None \<Rightarrow> (False, w1)
           | Some m \<Rightarrow> (False, snd (exec [''stop'', take 12 (rm_ContainerID m)] w1))))"

text \<open>Models and their hardware, shown when there is no engine room.\<close>

definition getSuitableModelsInfo :: "gostr list \<times> gostr list" where
  "getSuitableModelsInfo =
     (let models = [(''meta-llama/Llama-2-7b-hf'', HardwareGPUOnly), (''distilbert-base-uncased'', HardwareCPUOptimized),
            (''TinyLlama/TinyLlama-1.1B'', HardwareCPUOptimized)]
      in (map fst (filter (\<lambda>(_, h). h = HardwareCPUOptimized) models), map fst (filter (\<lambda>(_, h). h \<noteq> HardwareCPUOptimized) models)))"

text \<open>The text of a validation error, by which the command decides; of an incomplete file, without the
  numbers after the first.\<close>

definition safetensors_message :: "safetensors_error \<Rightarrow> gostr" where
  "safetensors_message e =
     (case e of
        TooSmall n \<Rightarrow> ''file too small: '' @ Itoa n @ '' bytes (minimum 8 bytes for header)''
      | InvalidHeader n \<Rightarrow> ''invalid safetensors header size: '' @ Itoa n @ '' bytes''
      | Incomplete n \<Rightarrow> ''incomplete file: expected at least '' @ Itoa n @ '' bytes'')"

definition not_cached_text :: gostr where "not_cached_text = ''not cached''"
definition no_files_text :: gostr where "no_files_text = ''no model files''"
definition unknown_text :: gostr where "unknown_text = ''unknown model''"

definition validation_message :: "model_error \<Rightarrow> gostr" where
  "validation_message e =
     (case e of
        UnknownModel n \<Rightarrow> unknown_text @ '': '' @ n
      | NotCached n \<Rightarrow> ''model '' @ not_cached_text @ '' locally: '' @ n @ ''. Run '' @ [CHR 0x27] @ ''sovstack pull '' @ n @ [CHR 0x27] @ '' first''
      | NoModelFiles n \<Rightarrow> ''model directory exists but contains '' @ no_files_text @ '': run '' @ [CHR 0x27] @ ''sovstack pull '' @ n @ [CHR 0x27]
      | Corrupt f d n \<Rightarrow> ''model file is corrupt ('' @ f @ ''): '' @ safetensors_message d @ ''. Run '' @ [CHR 0x27] @ ''sovstack pull -f '' @ n @
          [CHR 0x27] @ '' to re-download''
      | _ \<Rightarrow> [])"

definition needs_pull :: "model_error \<Rightarrow> bool" where
  "needs_pull e = (let msg = validation_message e in
     Contains msg not_cached_text \<or> Contains msg no_files_text \<or> Contains msg unknown_text)"

text \<open>The automatic pull: its error, the settings and the tree.\<close>

definition auto_pull :: "cli_env \<Rightarrow> gostr \<Rightarrow> disk \<Rightarrow> tree \<Rightarrow> model_error option \<times> disk \<times> tree" where
  "auto_pull env name d t =
     (case NewCacheManager env default_dir d t of
        (None, d1, t1) \<Rightarrow> (None, d1, t1)
      | (Some cm, d1, t1) \<Rightarrow>
          (case NewManager (cl_mkdir_fails env) (cl_catalogue env) default_dir t1 of
             None \<Rightarrow> (None, d1, t1)
           | Some (mm, t2) \<Rightarrow>
               (case ValidateModel mm t2 name of
                  None \<Rightarrow> (None, d1, t2)
                | Some e \<Rightarrow>
                    if needs_pull e then let (err, _, t3) = pull_model env name cm t2 in (err, d1, t3)
                    else (None, d1, t2))))"

definition deploy_suitable ::
    "'w docker \<Rightarrow> room_env \<Rightarrow> deploy_flags \<Rightarrow> gostr \<Rightarrow> EngineRoom \<Rightarrow> tree \<Rightarrow> 'w \<Rightarrow> (deploy_error + deploy_outcome) \<times> 'w" where
  "deploy_suitable exec renv flags name er t w =
     (let ms = fst (Engine_GetSuitableModels (re_models renv) er) in
      if \<not> list_ex (\<lambda>m. md_Name m = name) ms then (Inr (DpIncompatible ms), w)
      else
        case PlanDeployment (re_tokens renv) name er of
          Inl e \<Rightarrow> (Inl (DpPlan e), w)
        | Inr plan \<Rightarrow>
            (case Deploy exec ((re_engine renv)\<lparr> en_tree := t \<rparr>) name
                (if df_quantization flags = ''auto'' then None else Some (df_quantization flags)) er w of
               (Some e, _, w1) \<Rightarrow> (Inl (DpDeploy e), w1)
             | (None, er1, w1) \<Rightarrow> (Inr (DpDeployed plan er1), w1)))"

definition deploy_named ::
    "'w docker \<Rightarrow> cli_env \<Rightarrow> room_env \<Rightarrow> deploy_flags \<Rightarrow> gostr \<Rightarrow> disk \<Rightarrow> tree \<Rightarrow> 'w \<Rightarrow> (deploy_error + deploy_outcome) \<times> disk \<times> tree \<times> 'w" where
  "deploy_named exec env renv flags name d t w =
     (let (panicked, w1) = (if df_force flags then force_stop exec name w else (False, w)) in
      if panicked then (Inl DpPanic, d, t, w1)
      else
        case open_room env renv (room_config (df_port flags) (df_rebuild flags)) t of
          None \<Rightarrow> (Inr (DpNoEngine (fst getSuitableModelsInfo) (snd getSuitableModelsInfo)), d, t, w1)
        | Some (er, t1) \<Rightarrow>
            (case auto_pull env name d t1 of
               (Some e, d1, t2) \<Rightarrow> (Inl (DpPull e), d1, t2, w1)
             | (None, d1, t2) \<Rightarrow>
                 let (r, w2) = deploy_suitable exec renv flags name er t2 w1 in (r, d1, t2, w2)))"

definition preferredOrder :: "gostr list" where
  "preferredOrder = [''distilbert-base-uncased'', ''TinyLlama/TinyLlama-1.1B-Chat-v1.0'', ''microsoft/Phi-2'',
     ''google/gemma-2-2b-it'', ''meta-llama/Llama-2-7b-hf'', ''mistralai/Mistral-7B-v0.1'']"

definition promptDeployModelSelection :: "cli_env \<Rightarrow> room_env \<Rightarrow> tree \<Rightarrow> ((deploy_error + gostr) \<times> tree) option" where
  "promptDeployModelSelection env renv t =
     (case cl_catalogue env of
        None \<Rightarrow> Some (Inl DpRegistry, t)
      | Some models \<Rightarrow>
          (case open_room env renv (room_config 8000 False) t of
             None \<Rightarrow> Some (Inl DpEngine, t)
           | Some (er, t1) \<Rightarrow>
               let suitableNames = map md_Name (fst (Engine_GetSuitableModels (re_models renv) er));
                   names = filter (\<lambda>n. case models n of Some m \<Rightarrow> md_Name m \<in> set suitableNames | None \<Rightarrow> False) preferredOrder
               in if names = [] then Some (Inl DpNoSuitable, t1)
                  else map_option (\<lambda>k. (Inr (names ! k), t1)) (select_line (length names) (cl_typed env))))"

definition runDeploy ::
    "'w docker \<Rightarrow> cli_env \<Rightarrow> room_env \<Rightarrow> deploy_flags \<Rightarrow> gostr option \<Rightarrow> disk \<Rightarrow> tree \<Rightarrow> 'w \<Rightarrow>
      ((deploy_error + deploy_outcome) \<times> disk \<times> tree \<times> 'w) option" where
  "runDeploy exec env renv flags arg d t w =
     (case arg of
        Some name \<Rightarrow> Some (deploy_named exec env renv flags name d t w)
      | None \<Rightarrow>
          (case promptDeployModelSelection env renv t of
             None \<Rightarrow> None
           | Some (Inl e, t1) \<Rightarrow> Some (Inl e, d, t1, w)
           | Some (Inr name, t1) \<Rightarrow> Some (deploy_named exec env renv flags name d t1 w)))"

subsection \<open>Stopping\<close>

datatype stop_error = SpEngine | SpPanic | SpFailed nat | SpNoName | SpModel engine_error
datatype stop_outcome = SpNone | SpCancelled | SpStopped "gostr list"

text \<open>The number of models that could not be stopped, \<open>None\<close> when a listing panics.\<close>

fun stop_each :: "'w docker \<Rightarrow> gostr list \<Rightarrow> nat \<Rightarrow> EngineRoom \<Rightarrow> 'w \<Rightarrow> nat option \<times> EngineRoom \<times> 'w" where
  "stop_each exec [] failed er w = (Some failed, er, w)"
| "stop_each exec (name # names) failed er w =
     (case StopModel exec name er w of
        (Some EngPanic, er1, w1) \<Rightarrow> (None, er1, w1)
      | (Some _, er1, w1) \<Rightarrow> stop_each exec names (Suc failed) er1 w1
      | (None, er1, w1) \<Rightarrow> stop_each exec names failed er1 w1)"

definition confirmed :: "gostr list \<Rightarrow> bool" where
  "confirmed typed = (let r = TrimSpace (ToLower (stdin typed 0)) in r = ''y'' \<or> r = ''yes'')"

definition stop_all :: "'w docker \<Rightarrow> cli_env \<Rightarrow> room_env \<Rightarrow> EngineRoom \<Rightarrow> 'w \<Rightarrow> (stop_error + stop_outcome) \<times> 'w" where
  "stop_all exec env renv er w =
     (case Engine_GetRunningModels exec (re_engine renv) er w of
        (None, w1) \<Rightarrow> (Inl SpPanic, w1)
      | (Some ms, w1) \<Rightarrow>
          let names = filter (\<lambda>n. ms n \<noteq> None) (re_instances renv) in
          if names = [] then (Inr SpNone, w1)
          else if \<not> confirmed (cl_typed env) then (Inr SpCancelled, w1)
          else
            (case stop_each exec names 0 er w1 of
               (None, _, w2) \<Rightarrow> (Inl SpPanic, w2)
             | (Some failed, _, w2) \<Rightarrow> (if 0 < failed then Inl (SpFailed failed) else Inr (SpStopped names), w2)))"

definition runStop ::
    "'w docker \<Rightarrow> cli_env \<Rightarrow> room_env \<Rightarrow> bool \<Rightarrow> gostr option \<Rightarrow> tree \<Rightarrow> 'w \<Rightarrow> (stop_error + stop_outcome) \<times> tree \<times> 'w" where
  "runStop exec env renv everything arg t w =
     (case open_room env renv (room_config 8000 False) t of
        None \<Rightarrow> (Inl SpEngine, t, w)
      | Some (er, t1) \<Rightarrow>
          if everything then let (r, w1) = stop_all exec env renv er w in (r, t1, w1)
          else
            (case arg of
               None \<Rightarrow> (Inl SpNoName, t1, w)
             | Some name \<Rightarrow>
                 (case StopModel exec name er w of
                    (Some EngPanic, _, w1) \<Rightarrow> (Inl SpPanic, t1, w1)
                  | (Some e, _, w1) \<Rightarrow> (Inl (SpModel e), t1, w1)
                  | (None, _, w1) \<Rightarrow> (Inr (SpStopped [name]), t1, w1))))"

subsection \<open>Logs\<close>

datatype logs_error = LgPanic | LgQuery docker_error | LgNotFound | LgFailed
datatype logs_outcome = LgNone | LgShown gostr

text \<open>The container whose logs are shown, among at least one running model.\<close>

definition logs_target :: "gostr list \<Rightarrow> gostr option \<Rightarrow> RunningModel list \<Rightarrow> (logs_error + gostr) option" where
  "logs_target typed arg ms =
     (case arg of
        Some name \<Rightarrow>
          Some (case find_running name ms of Some m \<Rightarrow> Inr (take 12 (rm_ContainerID m)) | None \<Rightarrow> Inl LgNotFound)
      | None \<Rightarrow>
          if length ms = 1 then Some (Inr (take 12 (rm_ContainerID (ms ! 0))))
          else map_option (\<lambda>k. Inr (take 12 (rm_ContainerID (ms ! k)))) (select_line (length ms) typed))"

definition logs_args :: "bool \<Rightarrow> int \<Rightarrow> gostr \<Rightarrow> gostr list" where
  "logs_args follow n target = [''logs''] @ (if follow then [''-f''] else []) @ [''--tail'', Itoa n] @ [target]"

definition runLogs ::
    "'w docker \<Rightarrow> gostr list \<Rightarrow> bool \<Rightarrow> int \<Rightarrow> gostr option \<Rightarrow> 'w \<Rightarrow> ((logs_error + logs_outcome) \<times> 'w) option" where
  "runLogs exec typed follow n arg w =
     (case GetRunningModels exec w of
        (Inl PanicShortID, w1) \<Rightarrow> Some (Inl LgPanic, w1)
      | (Inl e, w1) \<Rightarrow> Some (Inl (LgQuery e), w1)
      | (Inr [], w1) \<Rightarrow> Some (Inr LgNone, w1)
      | (Inr ms, w1) \<Rightarrow>
          (case logs_target typed arg ms of
             None \<Rightarrow> None
           | Some (Inl e) \<Rightarrow> Some (Inl e, w1)
           | Some (Inr target) \<Rightarrow>
               let (r, w2) = exec (logs_args follow n target) w1 in
               Some (if cr_ok r then Inr (LgShown target) else Inl LgFailed, w2)))"

subsection \<open>A model outside the catalogue\<close>

lemma Contains_append: "Contains (sub @ b) sub" "Contains s sub \<Longrightarrow> Contains (a @ s) sub"
  unfolding Contains_iff by (rule exI [of _ "[]"], simp) (metis append.assoc)

lemma needs_pull_unknown: "needs_pull (UnknownModel n)"
  by (simp add: needs_pull_def validation_message_def Contains_append(1))

lemma suitable_names:
  assumes "cl_catalogue env = Some models" "\<And>n m. models n = Some m \<Longrightarrow> md_Name m = n" "open_room env renv cfg t = Some (er, t1)"
    "m \<in> set (fst (Engine_GetSuitableModels order er))"
  shows "models (md_Name m) = Some m"
proof -
  have "mg_modelsMeta (er_modelManager er) = models" using assms(1,3)
    by (auto simp: open_room_def NewEngineRoom_def NewManager_def Let_def split: option.splits if_splits)
  then obtain n where "models n = Some m" using assms(4)
    by (auto simp: Engine_GetSuitableModels_def GetSuitableModels_def List.map_filter_def Let_def)
  with assms(2) show ?thesis by metis
qed

text \<open>Deploying a model the catalogue does not know downloads it and then does nothing: when the pull
  succeeds, the command reports the model as incompatible with the hardware, starts and stops no container,
  and returns no error; the tree and the settings are those after the pull.\<close>

theorem unknown_model_downloaded:
  assumes "cl_catalogue env = Some models" "\<And>n m. models n = Some m \<Longrightarrow> md_Name m = n" "models name = None"
    "\<not> df_force flags" "open_room env renv (room_config (df_port flags) (df_rebuild flags)) t = Some (er, t1)"
    "NewCacheManager env default_dir d t1 = (Some cm, d1, t2)"
    "pull_model env name cm (mkdir_all default_dir t2) = (None, cm1, t3)"
  shows "\<exists>ms. deploy_named exec env renv flags name d t w = (Inr (DpIncompatible ms), d1, t3, w)"
proof -
  have "\<not> cl_mkdir_fails env" using assms(6)
    by (auto simp: NewCacheManager_def open_cache_def Let_def split: option.splits if_splits)
  then have "auto_pull env name d t1 = (None, d1, t3)"
    using assms(1,3,6,7) by (simp add: auto_pull_def NewManager_def ValidateModel_def GetModel_def needs_pull_unknown)
  moreover have "md_Name m \<noteq> name" if "m \<in> set (fst (Engine_GetSuitableModels (re_models renv) er))" for m
    using suitable_names [OF assms(1,2,5) that] assms(3) by auto
  then have "\<not> list_ex (\<lambda>m. md_Name m = name) (fst (Engine_GetSuitableModels (re_models renv) er))"
    by (auto simp: list_ex_iff)
  ultimately show ?thesis using assms(4,5)
    by (simp add: deploy_named_def deploy_suitable_def Let_def)
qed

definition example_room :: room_env where
  "example_room = \<lparr> re_engine = small_env, re_hw = no_hw, re_file = None, re_models = [], re_instances = [], re_tokens = (\<lambda>_. 0) \<rparr>"

definition deploy_cli :: cli_env where
  "deploy_cli = example_cli\<lparr> cl_catalogue := Some Map.empty, cl_hub := head_only \<rparr>"

definition plain_deploy :: deploy_flags where
  "plain_deploy = \<lparr> df_port = 8000, df_quantization = ''auto'', df_rebuild = False, df_force = False \<rparr>"

theorem unknown_model_downloaded_witness:
  "\<exists>ms d1 t1. deploy_named one_docker deploy_cli example_room plain_deploy ''new/model'' Map.empty [] False = (Inr (DpIncompatible ms), d1, t1, False)"
proof -
  obtain er t1 where room: "open_room deploy_cli example_room (room_config (df_port plain_deploy) (df_rebuild plain_deploy)) [] = Some (er, t1)"
    by (auto simp: open_room_def NewEngineRoom_def NewManager_def deploy_cli_def example_cli_def Let_def)
  obtain m where "Config_NewManager (cl_prims deploy_cli) (cl_user deploy_cli) Map.empty = Some m"
    by (auto simp: Config_NewManager_def deploy_cli_def example_cli_def example_user_def Let_def)
  then obtain cm d1 t2 where cm: "NewCacheManager deploy_cli default_dir Map.empty t1 = (Some cm, d1, t2)"
    by (auto simp: NewCacheManager_def open_cache_def deploy_cli_def example_cli_def Let_def)
  have "fst (pull_model deploy_cli ''new/model'' cm (mkdir_all default_dir t2)) = None"
  proof -
    have "head_ok head_only ''new/model'' ''config.json''" "''config.json'' \<in> set commonFiles" by code_simp+
    then have "fst (HF_DownloadModel head_only weights n False ''new/model'' dir t) = None" for weights n dir t
      unfolding hf_download_nil by auto
    then show ?thesis
      by (auto simp: pull_model_def pull_def DownloadModel_def saveMetadata_def deploy_cli_def example_cli_def Let_def split: prod.split)
        (metis fst_conv option.distinct(1))+
  qed
  then obtain cm1 t3 where p: "pull_model deploy_cli ''new/model'' cm (mkdir_all default_dir t2) = (None, cm1, t3)" by (metis prod.collapse)
  have c: "cl_catalogue deploy_cli = Some Map.empty" "\<not> df_force plain_deploy" by (simp_all add: deploy_cli_def plain_deploy_def)
  show ?thesis using unknown_model_downloaded [OF c(1) _ _ c(2) room cm p, where exec = one_docker and w = False] by auto
qed

subsection \<open>Forcing a deployment\<close>

definition plain_ids :: "container list \<Rightarrow> bool" where
  "plain_ids cs \<longleftrightarrow> list_all (\<lambda>c. case managed_view c of Some (_, _, cid, _) \<Rightarrow> CHR ''/'' \<notin> set cid | None \<Rightarrow> True) cs"

lemma listed_no_slash:
  assumes "map view ms = List.map_filter managed_view cs" "plain_ids cs" "m \<in> set ms"
  shows "CHR ''/'' \<notin> set (rm_ModelName m)" "CHR ''/'' \<notin> set (rm_ContainerID m)"
proof -
  from assms(3) have "view m \<in> set (List.map_filter managed_view cs)" unfolding assms(1) [symmetric] by simp
  then obtain c where c: "c \<in> set cs" "managed_view c = Some (view m)" by (auto simp: List.map_filter_def)
  from c(2) have "\<exists>m'. sanitized m' = rm_ModelName m" by (cases c) (auto simp: view_def)
  then show "CHR ''/'' \<notin> set (rm_ModelName m)" using sanitized_no_slash by metis
  show "CHR ''/'' \<notin> set (rm_ContainerID m)" using assms(2) c by (auto simp: plain_ids_def list_all_iff view_def)
qed

text \<open>\<open>--force\<close> does not stop a model whose name has a slash, as the names of the hub have: when docker lists its
  containers, every listed name has dashes for slashes, so no container is found, not even the model's own,
  and the only commands given to docker are those of the listing; the check for a running instance
  that follows does not find it either.\<close>

theorem force_misses_slash:
  assumes "exec ps_args w = (r, w1)" "cr_ok r" "list_all container_ok cs"
    "cr_combined r = concat (map (\<lambda>c. ps_line c @ [CHR 0x0A]) cs)" "plain_ids cs" "CHR ''/'' \<in> set name"
  shows "force_stop exec name w = (False, snd (GetRunningModels exec w)) \<and>
     (\<exists>ms. fst (GetRunningModels exec w) = Inr ms \<and> running_conflict name ms = None)"
proof -
  from listing_decodes [of exec w, OF assms(1-4)] obtain ms w2 where
    ms: "GetRunningModels exec w = (Inr ms, w2)" "map view ms = List.map_filter managed_view cs" by blast
  have "\<not> Contains (rm_ModelName m) name \<and> \<not> Contains (rm_ContainerID m) name" if "m \<in> set ms" for m
    using listed_no_slash [OF ms(2) assms(5) that] assms(6) by (auto simp: Contains_iff)
  then have "find_running name ms = None" by (auto simp: find_running_def find_None_iff)
  then show ?thesis using ms running_conflict_slash [OF ms(2) assms(6)] by (simp add: force_stop_def)
qed

theorem force_misses_slash_witness:
  "force_stop (fixed_docker two_containers) ''org/llama'' () = (False, snd (GetRunningModels (fixed_docker two_containers) ())) \<and>
   \<not> Contains ''org-llama'' ''org/llama''"
proof -
  have "plain_ids two_containers" "\<not> Contains ''org-llama'' ''org/llama''" by code_simp+
  then show ?thesis
    using force_misses_slash [of "fixed_docker two_containers" "()", OF fixed_docker_ps _ two_containers_ok] by simp
qed

end
