(* ===== verification/CpuServer.thy ===== *)
theory CpuServer
  imports Complex_Main GoStrings Router
begin

text \<open>
  The inference server the CPU orchestrator writes into its image (\<open>cpuServerPython\<close> in
  \<open>internal/docker/cpu_inference.go\<close>): the choice of a capability from the model's architectures, the routes
  registered for it, and the handlers. The model, its tokenizer, the clock and Python's text of a value
  are arguments; JSON values are a datatype here, with numbers as they are written.
\<close>

subsection \<open>JSON values\<close>

datatype json = JNull | JBool bool | JNum gostr | JStr gostr | JArr "json list" | JObj "(gostr \<times> json) list"

text \<open>The last of several members with one name counts.\<close>

definition jget :: "gostr \<Rightarrow> (gostr \<times> json) list \<Rightarrow> json option" where
  "jget k members = map_of (rev members) k"

fun truthy :: "json \<Rightarrow> bool" where
  "truthy JNull = False"
| "truthy (JBool b) = b"
| "truthy (JNum s) = (\<not> list_all (\<lambda>c. c \<in> set ''0.-'') (takeWhile (\<lambda>c. c \<noteq> CHR ''e'' \<and> c \<noteq> CHR ''E'') s))"
| "truthy (JStr s) = (s \<noteq> [])"
| "truthy (JArr vs) = (vs \<noteq> [])"
| "truthy (JObj ms) = (ms \<noteq> [])"

subsection \<open>Capabilities\<close>

definition ARCH_MAP :: "(gostr \<times> gostr \<times> gostr) list" where
  "ARCH_MAP =
     [(''ForCausalLM'', ''generative'', ''AutoModelForCausalLM''),
      (''LMHeadModel'', ''generative'', ''AutoModelForCausalLM''),
      (''ForConditionalGeneration'', ''seq2seq'', ''AutoModelForSeq2SeqLM''),
      (''ForSeq2SeqLM'', ''seq2seq'', ''AutoModelForSeq2SeqLM''),
      (''ForSequenceClassification'', ''classification'', ''AutoModelForSequenceClassification''),
      (''ForTokenClassification'', ''classification'', ''AutoModelForTokenClassification''),
      (''ForQuestionAnswering'', ''classification'', ''AutoModelForQuestionAnswering''),
      (''ForMaskedLM'', ''encoder'', ''AutoModel'')]"

definition ENDPOINTS :: "gostr \<Rightarrow> gostr list" where
  "ENDPOINTS capability =
     (if capability = ''generative'' then [''/v1/chat/completions'', ''/v1/completions'']
      else if capability = ''seq2seq'' then [''/v1/completions'']
      else if capability = ''encoder'' then [''/v1/embeddings'']
      else if capability = ''classification'' then [''/v1/classify''] else [])"

definition arch_entry :: "gostr \<Rightarrow> (gostr \<times> gostr \<times> gostr) option" where
  "arch_entry arch = List.find (\<lambda>(suffix, _). HasSuffix arch suffix) ARCH_MAP"

text \<open>The capability, the class that loads the model, and the architecture used.\<close>

definition detect_capability :: "gostr list option \<Rightarrow> gostr \<times> gostr \<times> gostr" where
  "detect_capability architectures =
     (let archs = (case architectures of None \<Rightarrow> [] | Some as \<Rightarrow> as) in
      case List.map_filter (\<lambda>a. map_option (\<lambda>(_, capability, klass). (capability, klass, a)) (arch_entry a)) archs of
        r # _ \<Rightarrow> r
      | [] \<Rightarrow> (''encoder'', ''AutoModel'', case archs of a # _ \<Rightarrow> a | [] \<Rightarrow> ''Unknown''))"

definition chat_path :: gostr where "chat_path = ''/v1/chat/completions''"
definition completions_path :: gostr where "completions_path = ''/v1/completions''"
definition embeddings_path :: gostr where "embeddings_path = ''/v1/embeddings''"
definition classify_path :: gostr where "classify_path = ''/v1/classify''"

text \<open>The POST routes registered for a capability.\<close>

definition post_routes :: "gostr \<Rightarrow> gostr list" where
  "post_routes capability =
     (if capability = ''generative'' \<or> capability = ''seq2seq'' then [chat_path, completions_path] else []) @
     (if capability = ''encoder'' then [embeddings_path] else []) @
     (if capability = ''classification'' then [classify_path] else [])"

subsection \<open>The server\<close>

text \<open>\<open>sv_generate\<close>: the decoded output of the model for a prompt, a limit and a temperature; \<open>None\<close> where a call
  raises an exception, there and below.\<close>

record cpu_server =
  sv_architectures :: "gostr list option"
  sv_name :: gostr
  sv_now :: int
  sv_str :: "json \<Rightarrow> gostr"
  sv_generate :: "gostr \<Rightarrow> json \<Rightarrow> json \<Rightarrow> gostr option"
  sv_tokens :: "gostr \<Rightarrow> nat"
  sv_embed :: "gostr list \<Rightarrow> gostr list list option"
  sv_scores :: "json \<Rightarrow> rat list option"
  sv_label :: "nat \<Rightarrow> gostr option"
  sv_num :: "rat \<Rightarrow> gostr"

datatype py_response = PyOk json | PyError int

definition sv_capability :: "cpu_server \<Rightarrow> gostr" where
  "sv_capability srv = fst (detect_capability (sv_architectures srv))"

definition jnat :: "nat \<Rightarrow> json" where "jnat n = JNum (Itoa (int n))"

definition jdefault :: "gostr \<Rightarrow> json \<Rightarrow> (gostr \<times> json) list \<Rightarrow> json" where
  "jdefault k v req = (case jget k req of Some x \<Rightarrow> x | None \<Rightarrow> v)"

definition health :: "cpu_server \<Rightarrow> json" where
  "health srv = JObj [(''status'', JStr ''ok''), (''model'', JStr (sv_name srv)), (''capability'', JStr (sv_capability srv))]"

definition list_models :: "cpu_server \<Rightarrow> json" where
  "list_models srv = JObj
     [(''object'', JStr ''list''),
      (''data'', JArr [JObj
        [(''id'', JStr (sv_name srv)), (''object'', JStr ''model''), (''created'', JNum (Itoa (sv_now srv))),
         (''owned_by'', JStr ''sovereignstack''), (''capability'', JStr (sv_capability srv)),
         (''endpoints'', JArr (map JStr (ENDPOINTS (sv_capability srv))))]])]"

fun message_line :: "cpu_server \<Rightarrow> json \<Rightarrow> gostr option" where
  "message_line srv (JObj m) =
     Some (sv_str srv (jdefault ''role'' (JStr ''user'') m) @ '': '' @ sv_str srv (jdefault ''content'' (JStr []) m))"
| "message_line srv _ = None"

text \<open>A value that is no list of objects raises an exception.\<close>

fun messages_to_prompt :: "cpu_server \<Rightarrow> json \<Rightarrow> gostr option" where
  "messages_to_prompt srv (JArr ms) =
     (let ls = map (message_line srv) ms in
      if None \<in> set ls then None else Some (Join [CHR 0x0A] (map the ls @ [''assistant:''])))"
| "messages_to_prompt srv _ = None"

definition generate_text :: "cpu_server \<Rightarrow> gostr \<Rightarrow> json \<Rightarrow> json \<Rightarrow> gostr option" where
  "generate_text srv prompt max_tokens temperature =
     map_option (\<lambda>text. TrimSpace (TrimPrefix text prompt)) (sv_generate srv prompt max_tokens temperature)"

definition usage_of :: "cpu_server \<Rightarrow> gostr \<Rightarrow> gostr \<Rightarrow> json" where
  "usage_of srv prompt text = JObj
     [(''prompt_tokens'', jnat (sv_tokens srv prompt)), (''completion_tokens'', jnat (sv_tokens srv text)),
      (''total_tokens'', jnat (sv_tokens srv prompt + sv_tokens srv text))]"

definition chat_completions :: "cpu_server \<Rightarrow> (gostr \<times> json) list \<Rightarrow> py_response" where
  "chat_completions srv req =
     (let messages = jdefault ''messages'' JNull req in
      if \<not> truthy messages then PyError 400
      else case messages_to_prompt srv messages of
        None \<Rightarrow> PyError 500
      | Some prompt \<Rightarrow>
          (case generate_text srv prompt (jdefault ''max_tokens'' (JNum ''256'') req) (jdefault ''temperature'' (JNum ''0.7'') req) of
             None \<Rightarrow> PyError 500
           | Some text \<Rightarrow> PyOk (JObj
               [(''id'', JStr ''chatcmpl-cpu''), (''object'', JStr ''chat.completion''), (''created'', JNum (Itoa (sv_now srv))),
                (''model'', jdefault ''model'' (JStr (sv_name srv)) req),
                (''choices'', JArr [JObj [(''index'', JNum ''0''),
                   (''message'', JObj [(''role'', JStr ''assistant''), (''content'', JStr text)]), (''finish_reason'', JStr ''stop'')]]),
                (''usage'', usage_of srv prompt text)])))"

definition prompt_of :: "json \<Rightarrow> json option" where
  "prompt_of p = (case p of JArr [] \<Rightarrow> None | JArr (v # _) \<Rightarrow> Some v | v \<Rightarrow> Some v)"

definition completions :: "cpu_server \<Rightarrow> (gostr \<times> json) list \<Rightarrow> py_response" where
  "completions srv req =
     (let p = jdefault ''prompt'' JNull req in
      if p = JNull then PyError 400
      else case prompt_of p of
        Some (JStr prompt) \<Rightarrow>
          (case generate_text srv prompt (jdefault ''max_tokens'' (JNum ''256'') req) (jdefault ''temperature'' (JNum ''0.7'') req) of
             None \<Rightarrow> PyError 500
           | Some text \<Rightarrow> PyOk (JObj
               [(''id'', JStr ''cmpl-cpu''), (''object'', JStr ''text_completion''), (''created'', JNum (Itoa (sv_now srv))),
                (''model'', jdefault ''model'' (JStr (sv_name srv)) req),
                (''choices'', JArr [JObj [(''index'', JNum ''0''), (''text'', JStr text), (''finish_reason'', JStr ''stop'')]]),
                (''usage'', usage_of srv prompt text)]))
      | _ \<Rightarrow> PyError 500)"

text \<open>The texts of an input; a value that is neither a text nor a list of texts is rejected by the tokenizer.\<close>

definition text_of :: "json \<Rightarrow> gostr option" where
  "text_of v = (case v of JStr s \<Rightarrow> Some s | _ \<Rightarrow> None)"

definition texts_of :: "json \<Rightarrow> gostr list option" where
  "texts_of v =
     (case v of
        JArr vs \<Rightarrow> if None \<in> set (map text_of vs) then None else Some (map (\<lambda>x. the (text_of x)) vs)
      | _ \<Rightarrow> map_option (\<lambda>s. [s]) (text_of v))"

definition count_tokens :: "cpu_server \<Rightarrow> gostr list \<Rightarrow> nat" where
  "count_tokens srv texts = sum_list (map (sv_tokens srv) texts)"

definition embeddings :: "cpu_server \<Rightarrow> (gostr \<times> json) list \<Rightarrow> py_response" where
  "embeddings srv req =
     (let inp = jdefault ''input'' JNull req in
      if inp = JNull then PyError 400
      else case Option.bind (texts_of inp) (\<lambda>ts. map_option (Pair ts) (sv_embed srv ts)) of
        None \<Rightarrow> PyError 500
      | Some (ts, vectors) \<Rightarrow> PyOk (JObj
          [(''object'', JStr ''list''),
           (''data'', JArr (map (\<lambda>(i, v). JObj [(''object'', JStr ''embedding''), (''index'', jnat i), (''embedding'', JArr (map JNum v))])
              (enumerate 0 vectors))),
           (''model'', jdefault ''model'' (JStr (sv_name srv)) req),
           (''usage'', JObj [(''prompt_tokens'', jnat (count_tokens srv ts)), (''total_tokens'', jnat (count_tokens srv ts))])]))"

definition first_input :: "(gostr \<times> json) list \<Rightarrow> json" where
  "first_input req =
     (let a = jdefault ''input'' JNull req; b = jdefault ''text'' JNull req in
      if truthy a then a else if truthy b then b else jdefault ''prompt'' JNull req)"

definition label_of :: "cpu_server \<Rightarrow> nat \<Rightarrow> gostr" where
  "label_of srv i = (case sv_label srv i of Some l \<Rightarrow> l | None \<Rightarrow> ''LABEL_'' @ Itoa (int i))"

text \<open>Labels by falling score.\<close>

definition classify :: "cpu_server \<Rightarrow> (gostr \<times> json) list \<Rightarrow> py_response" where
  "classify srv req =
     (let text = first_input req in
      if text = JNull then PyError 400
      else case sv_scores srv text of
        None \<Rightarrow> PyError 500
      | Some scores \<Rightarrow> PyOk (JObj
          [(''model'', jdefault ''model'' (JStr (sv_name srv)) req),
           (''labels'', JArr (map (\<lambda>(i, s). JObj [(''label'', JStr (label_of srv i)), (''score'', JNum (sv_num srv s))])
              (sort_key (\<lambda>(i, s). - s) (enumerate 0 scores))))]))"

text \<open>A POST: a path without a route is not found.\<close>

definition serve_post :: "cpu_server \<Rightarrow> gostr \<Rightarrow> (gostr \<times> json) list \<Rightarrow> py_response" where
  "serve_post srv path req =
     (if path \<notin> set (post_routes (sv_capability srv)) then PyError 404
      else if path = chat_path then chat_completions srv req
      else if path = completions_path then completions srv req
      else if path = embeddings_path then embeddings srv req else classify srv req)"

subsection \<open>Routes and what is advertised\<close>

definition capabilities :: "gostr list" where
  "capabilities = [''generative'', ''seq2seq'', ''classification'', ''encoder'']"

lemma arch_entry_capability: "arch_entry a = Some x \<Longrightarrow> fst (snd x) \<in> set capabilities"
proof -
  have "list_all (\<lambda>x. fst (snd x) \<in> set capabilities) ARCH_MAP" by code_simp
  then show "arch_entry a = Some x \<Longrightarrow> fst (snd x) \<in> set capabilities"
    unfolding arch_entry_def list_all_iff by (metis find_Some_iff nth_mem)
qed

lemma encoder_capability: "''encoder'' \<in> set capabilities"
  by code_simp

lemma sv_capability_known: "sv_capability srv \<in> set capabilities"
proof -
  let ?archs = "case sv_architectures srv of None \<Rightarrow> [] | Some as \<Rightarrow> as"
  let ?f = "\<lambda>a. map_option (\<lambda>(_, capability, klass). (capability, klass, a)) (arch_entry a)"
  have in_found: "fst x \<in> set capabilities" if x: "x \<in> set (List.map_filter ?f ?archs)" for x
  proof -
    obtain a where "?f a = Some x" using x by (auto simp: List.map_filter_def)
    then obtain e where "arch_entry a = Some e" "x = (fst (snd e), snd (snd e), a)" by (auto split: prod.splits)
    with arch_entry_capability show ?thesis by simp
  qed
  show ?thesis
  proof (cases "List.map_filter ?f ?archs")
    case Nil
    then have "sv_capability srv = ''encoder''" unfolding sv_capability_def detect_capability_def Let_def by simp
    then show ?thesis using encoder_capability by simp
  next
    case (Cons x xs)
    then have "sv_capability srv = fst x" unfolding sv_capability_def detect_capability_def Let_def by simp
    then show ?thesis using in_found [of x] Cons by simp
  qed
qed

lemma capability_cases:
  "(sv_capability srv = ''generative'' \<Longrightarrow> P) \<Longrightarrow> (sv_capability srv = ''seq2seq'' \<Longrightarrow> P) \<Longrightarrow>
   (sv_capability srv = ''classification'' \<Longrightarrow> P) \<Longrightarrow> (sv_capability srv = ''encoder'' \<Longrightarrow> P) \<Longrightarrow> P"
  using sv_capability_known [of srv] unfolding capabilities_def by auto

text \<open>What the program decodes of the model list: capability and endpoints of each entry. Members of
  another type fail the decoding, missing ones are empty.\<close>

definition str_member :: "gostr \<Rightarrow> (gostr \<times> json) list \<Rightarrow> gostr option" where
  "str_member k ms = (case jget k ms of None \<Rightarrow> Some [] | Some JNull \<Rightarrow> Some [] | Some (JStr s) \<Rightarrow> Some s | Some _ \<Rightarrow> None)"

definition list_member :: "gostr \<Rightarrow> (gostr \<times> json) list \<Rightarrow> json list option" where
  "list_member k ms = (case jget k ms of None \<Rightarrow> Some [] | Some JNull \<Rightarrow> Some [] | Some (JArr vs) \<Rightarrow> Some vs | Some _ \<Rightarrow> None)"

fun all_some :: "'a option list \<Rightarrow> 'a list option" where
  "all_some [] = Some []"
| "all_some (x # xs) = (case x of None \<Rightarrow> None | Some y \<Rightarrow> map_option ((#) y) (all_some xs))"

definition as_str :: "json \<Rightarrow> gostr option" where
  "as_str v = (case v of JStr s \<Rightarrow> Some s | JNull \<Rightarrow> Some [] | _ \<Rightarrow> None)"

fun caps_entry :: "json \<Rightarrow> (gostr \<times> gostr list) option" where
  "caps_entry (JObj ms) =
     (case (str_member ''capability'' ms, list_member ''endpoints'' ms) of
        (Some c, Some es) \<Rightarrow> map_option (Pair c) (all_some (map as_str es))
      | _ \<Rightarrow> None)"
| "caps_entry JNull = Some ([], [])"
| "caps_entry _ = None"

fun caps_of :: "json \<Rightarrow> (gostr \<times> gostr list) list option" where
  "caps_of (JObj ms) = (case list_member ''data'' ms of None \<Rightarrow> None | Some vs \<Rightarrow> all_some (map caps_entry vs))"
| "caps_of JNull = Some []"
| "caps_of _ = None"

lemma all_some_map: "(\<And>x. x \<in> set xs \<Longrightarrow> f x = Some (g x)) \<Longrightarrow> all_some (map f xs) = Some (map g xs)"
  by (induction xs) auto

definition capability_key :: gostr where "capability_key = ''capability''"
definition endpoints_key :: gostr where "endpoints_key = ''endpoints''"

lemma caps_of_list_models: "caps_of (list_models srv) = Some [(sv_capability srv, ENDPOINTS (sv_capability srv))]"
proof -
  have "all_some (map as_str (map JStr es)) = Some es" for es
    by (induction es) (simp_all add: as_str_def)
  then show ?thesis
    by (simp add: list_models_def jget_def list_member_def str_member_def)
qed

text \<open>The backend the gateway's router holds for a model on this server.\<close>

definition backend_of :: "cpu_server \<Rightarrow> ModelBackend \<Rightarrow> ModelBackend" where
  "backend_of srv b = fetchCapability (\<lambda>_. HttpResp 200 (caps_of (list_models srv))) b"

lemma backend_endpoints: "mb_Endpoints (backend_of srv b) = ENDPOINTS (sv_capability srv)"
  by (simp add: backend_of_def fetchCapability_def caps_of_list_models)

text \<open>C27: The gateway lets through to a model on the CPU server exactly the inference paths the server has
  a route for, with one exception: the server of a sequence-to-sequence model serves chat completions and
  does not advertise them, so the gateway refuses a request the model would answer.\<close>

theorem gateway_matches_server:
  "IsPathSupported (backend_of srv b) path \<longleftrightarrow>
     path = ''/v1/models'' \<or> (path \<in> set (post_routes (sv_capability srv)) \<and> \<not> (sv_capability srv = ''seq2seq'' \<and> path = chat_path))"
proof -
  have *: "ENDPOINTS ''generative'' = [chat_path, completions_path]" "post_routes ''generative'' = [chat_path, completions_path]"
    "ENDPOINTS ''seq2seq'' = [completions_path]" "post_routes ''seq2seq'' = [chat_path, completions_path]"
    "ENDPOINTS ''encoder'' = [embeddings_path]" "post_routes ''encoder'' = [embeddings_path]"
    "ENDPOINTS ''classification'' = [classify_path]" "post_routes ''classification'' = [classify_path]"
    "chat_path \<noteq> completions_path" "completions_path \<noteq> chat_path" by code_simp+
  show ?thesis
    by (rule capability_cases [of srv]; simp only: IsPathSupported_def backend_endpoints *)
      (auto simp del: list.inject simp: *)
qed

end
