(* ===== verification/TestClient.thy ===== *)
theory TestClient
  imports CpuServer Docker Prompt
begin

text \<open>
  The commands that try out a running model: \<open>test\<close> against the model's own port (\<open>cmd/test.go\<close>) and \<open>gateway test\<close>
  through the gateway (\<open>cmd/gateway_test_cmd.go\<close>). The HTTP client is an argument that answers a URL, a key
  (empty: no key header) and a payload with a transport error or a status and a decoded body. Members of
  objects are matched by their exact names; numbers stay as they are written.
\<close>

subsection \<open>Client and results\<close>

record test_client =
  tc_get :: "gostr \<Rightarrow> gostr \<Rightarrow> json http_result"
  tc_post :: "gostr \<Rightarrow> gostr \<Rightarrow> (gostr \<times> json) list \<Rightarrow> json http_result"

datatype test_error =
  TeTransport | TeStatus int | TeParse | TeNoChoices | TeChoiceType | TeNoContent | TeEmptyEmbedding
| TeUnsupported gostr | TePanic | TeQuery docker_error | TeNoPort gostr | TeNotRunning gostr gostr | TeNoKey | TeDiscovery

datatype test_outcome =
  ToNoModels | ToUnknownModel gostr | ToText gostr | ToVector nat "gostr list" int | ToLabels "(gostr \<times> gostr) list"

text \<open>The JSON body of a successful answer.\<close>

definition ok_body :: "json http_result \<Rightarrow> test_error + json" where
  "ok_body r =
     (case r of
        HttpErr \<Rightarrow> Inl TeTransport
      | HttpResp st body \<Rightarrow> if st \<noteq> 200 then Inl (TeStatus st) else (case body of None \<Rightarrow> Inl TeParse | Some j \<Rightarrow> Inr j))"

definition on_body :: "json http_result \<Rightarrow> (json \<Rightarrow> test_error + 'a) \<Rightarrow> test_error + 'a" where
  "on_body r f = (case ok_body r of Inl e \<Rightarrow> Inl e | Inr j \<Rightarrow> f j)"

definition members :: "json \<Rightarrow> (gostr \<times> json) list option" where
  "members v = (case v of JObj ms \<Rightarrow> Some ms | JNull \<Rightarrow> Some [] | _ \<Rightarrow> None)"

subsection \<open>Capability\<close>

definition first_capability :: "json http_result \<Rightarrow> (gostr \<times> gostr list) option" where
  "first_capability r =
     (case ok_body r of
        Inl _ \<Rightarrow> None
      | Inr j \<Rightarrow> (case caps_of j of Some (c # _) \<Rightarrow> Some c | _ \<Rightarrow> None))"

definition port_url :: "int \<Rightarrow> gostr" where
  "port_url port = ''http://localhost:'' @ Itoa port"

definition test_fetchCapability :: "test_client \<Rightarrow> int \<Rightarrow> (gostr \<times> gostr list) option" where
  "test_fetchCapability client port = first_capability (tc_get client (port_url port @ ''/v1/models'') [])"

definition gateway_model_url :: "gostr \<Rightarrow> gostr \<Rightarrow> gostr" where
  "gateway_model_url gatewayURL model = gatewayURL @ ''/models/'' @ model"

definition fetchCapabilityViaGateway :: "test_client \<Rightarrow> gostr \<Rightarrow> gostr \<Rightarrow> gostr \<Rightarrow> (gostr \<times> gostr list) option" where
  "fetchCapabilityViaGateway client gatewayURL model key =
     first_capability (tc_get client (gateway_model_url gatewayURL model @ ''/v1/models'') key)"

subsection \<open>Requests\<close>

record test_params =
  tp_prompt :: gostr
  tp_tokens :: int
  tp_temperature :: gostr

definition chat_payload :: "gostr \<Rightarrow> test_params \<Rightarrow> (gostr \<times> json) list" where
  "chat_payload model p =
     [(''model'', JStr model),
      (''messages'', JArr [JObj [(''role'', JStr ''user''), (''content'', JStr (tp_prompt p))]]),
      (''max_tokens'', JNum (Itoa (tp_tokens p))), (''temperature'', JNum (tp_temperature p)), (''stream'', JBool False)]"

definition input_payload :: "gostr \<Rightarrow> (gostr \<times> json) list" where
  "input_payload s = [(''input'', JStr s)]"

definition str_at :: "gostr \<Rightarrow> (gostr \<times> json) list \<Rightarrow> gostr option" where
  "str_at k ms = (case jget k ms of Some (JStr s) \<Rightarrow> Some s | _ \<Rightarrow> None)"

definition first_choice :: "(gostr \<times> json) list \<Rightarrow> test_error + (gostr \<times> json) list" where
  "first_choice result =
     (case jget ''choices'' result of
        Some (JArr (c # _)) \<Rightarrow> (case c of JObj m \<Rightarrow> Inr m | _ \<Rightarrow> Inl TeChoiceType)
      | _ \<Rightarrow> Inl TeNoChoices)"

definition message_content :: "(gostr \<times> json) list \<Rightarrow> gostr option" where
  "message_content choice = (case jget ''message'' choice of Some (JObj m) \<Rightarrow> str_at ''content'' m | _ \<Rightarrow> None)"

definition or_text :: "gostr \<Rightarrow> gostr option \<Rightarrow> gostr" where
  "or_text content other = (if content = [] then case other of Some t \<Rightarrow> t | None \<Rightarrow> [] else content)"

text \<open>The text of an answer to \<open>test\<close>: an empty text falls through to the next place.\<close>

definition direct_content :: "(gostr \<times> json) list \<Rightarrow> test_error + gostr" where
  "direct_content result =
     (case first_choice result of
        Inl e \<Rightarrow> Inl e
      | Inr choice \<Rightarrow>
          let content = or_text (or_text (or_text [] (message_content choice)) (str_at ''text'' choice)) (str_at ''generated_text'' choice)
          in if content = [] then Inl TeNoContent else Inr content)"

text \<open>The text of an answer to \<open>gateway test\<close>: the first text found, empty or not.\<close>

definition extractChatContent :: "(gostr \<times> json) list \<Rightarrow> test_error + gostr" where
  "extractChatContent result =
     (case first_choice result of
        Inl e \<Rightarrow> Inl e
      | Inr choice \<Rightarrow>
          (case message_content choice of
             Some c \<Rightarrow> Inr c
           | None \<Rightarrow> (case str_at ''text'' choice of Some t \<Rightarrow> Inr t | None \<Rightarrow> Inl TeNoContent)))"

definition parsed_map :: "json \<Rightarrow> test_error + (gostr \<times> json) list" where
  "parsed_map j = (case members j of None \<Rightarrow> Inl TeParse | Some ms \<Rightarrow> Inr ms)"

definition sendTestRequest :: "test_client \<Rightarrow> int \<Rightarrow> test_params \<Rightarrow> test_error + gostr" where
  "sendTestRequest client port p =
     on_body (tc_post client (port_url port @ chat_path) [] (chat_payload ''test'' p))
       (\<lambda>j. case parsed_map j of Inl e \<Rightarrow> Inl e | Inr ms \<Rightarrow> direct_content ms)"

definition runChatTest :: "test_client \<Rightarrow> int \<Rightarrow> test_params \<Rightarrow> test_error + test_outcome" where
  "runChatTest client port p = (case sendTestRequest client port p of Inl e \<Rightarrow> Inl e | Inr t \<Rightarrow> Inr (ToText t))"

definition runGatewayChatTest :: "test_client \<Rightarrow> gostr \<Rightarrow> gostr \<Rightarrow> gostr \<Rightarrow> test_params \<Rightarrow> test_error + test_outcome" where
  "runGatewayChatTest client gatewayURL model key p =
     on_body (tc_post client (gateway_model_url gatewayURL model @ chat_path) key (chat_payload model p))
       (\<lambda>j. case parsed_map j of
              Inl e \<Rightarrow> Inl e
            | Inr ms \<Rightarrow> (case extractChatContent ms of Inl e \<Rightarrow> Inl e | Inr t \<Rightarrow> Inr (ToText t)))"

subsection \<open>Embeddings and labels\<close>

definition num_of :: "json \<Rightarrow> gostr option" where
  "num_of v = (case v of JNum s \<Rightarrow> Some s | JNull \<Rightarrow> Some ''0'' | _ \<Rightarrow> None)"

definition embedding_of :: "json \<Rightarrow> gostr list option" where
  "embedding_of v = Option.bind (members v) (\<lambda>ms. Option.bind (list_member ''embedding'' ms) (\<lambda>vs. all_some (map num_of vs)))"

definition total_tokens :: "(gostr \<times> json) list \<Rightarrow> int option" where
  "total_tokens ms =
     (case jget ''usage'' ms of
        None \<Rightarrow> Some 0
      | Some v \<Rightarrow>
          Option.bind (members v) (\<lambda>us. case jget ''total_tokens'' us of
              None \<Rightarrow> Some 0 | Some JNull \<Rightarrow> Some 0 | Some (JNum s) \<Rightarrow> ParseInt s | Some _ \<Rightarrow> None))"

text \<open>The length of the first vector, its first five numbers, and the tokens used.\<close>

definition embedding_result :: "json \<Rightarrow> test_error + test_outcome" where
  "embedding_result j =
     (case Option.bind (members j) (\<lambda>ms. Option.bind (list_member ''data'' ms) (\<lambda>vs.
             Option.bind (all_some (map embedding_of vs)) (\<lambda>es. map_option (Pair es) (total_tokens ms)))) of
        None \<Rightarrow> Inl TeParse
      | Some (es, tokens) \<Rightarrow>
          (case es of
             [] \<Rightarrow> Inl TeEmptyEmbedding
           | v # _ \<Rightarrow> if v = [] then Inl TeEmptyEmbedding else Inr (ToVector (length v) (take 5 v) tokens)))"

definition num_member :: "gostr \<Rightarrow> (gostr \<times> json) list \<Rightarrow> gostr option" where
  "num_member k ms = (case jget k ms of None \<Rightarrow> Some ''0'' | Some v \<Rightarrow> num_of v)"

definition label_entry :: "json \<Rightarrow> (gostr \<times> gostr) option" where
  "label_entry v = Option.bind (members v) (\<lambda>ms. Option.bind (str_member ''label'' ms) (\<lambda>l. map_option (Pair l) (num_member ''score'' ms)))"

definition label_result :: "json \<Rightarrow> test_error + test_outcome" where
  "label_result j =
     (case Option.bind (members j) (\<lambda>ms. Option.bind (list_member ''labels'' ms) (\<lambda>vs. all_some (map label_entry vs))) of
        None \<Rightarrow> Inl TeParse
      | Some ls \<Rightarrow> Inr (ToLabels (take 5 ls)))"

definition runEmbeddingTest :: "test_client \<Rightarrow> int \<Rightarrow> gostr \<Rightarrow> test_error + test_outcome" where
  "runEmbeddingTest client port s = on_body (tc_post client (port_url port @ embeddings_path) [] (input_payload s)) embedding_result"

definition runClassifyTest :: "test_client \<Rightarrow> int \<Rightarrow> gostr \<Rightarrow> test_error + test_outcome" where
  "runClassifyTest client port s = on_body (tc_post client (port_url port @ classify_path) [] (input_payload s)) label_result"

definition runGatewayEmbeddingTest :: "test_client \<Rightarrow> gostr \<Rightarrow> gostr \<Rightarrow> gostr \<Rightarrow> gostr \<Rightarrow> test_error + test_outcome" where
  "runGatewayEmbeddingTest client gatewayURL model key s =
     on_body (tc_post client (gateway_model_url gatewayURL model @ embeddings_path) key (input_payload s)) embedding_result"

definition runGatewayClassifyTest :: "test_client \<Rightarrow> gostr \<Rightarrow> gostr \<Rightarrow> gostr \<Rightarrow> gostr \<Rightarrow> test_error + test_outcome" where
  "runGatewayClassifyTest client gatewayURL model key s =
     on_body (tc_post client (gateway_model_url gatewayURL model @ classify_path) key (input_payload s)) label_result"

subsection \<open>The commands\<close>

text \<open>The request that fits the capability; a chat where there is none.\<close>

definition test_port :: "test_client \<Rightarrow> int \<Rightarrow> test_params \<Rightarrow> test_error + test_outcome" where
  "test_port client port p =
     (case test_fetchCapability client port of
        None \<Rightarrow> runChatTest client port p
      | Some (c, _) \<Rightarrow>
          if c = ''generative'' \<or> c = ''seq2seq'' then runChatTest client port p
          else if c = ''encoder'' then runEmbeddingTest client port (tp_prompt p)
          else if c = ''classification'' then runClassifyTest client port (tp_prompt p)
          else Inl (TeUnsupported c))"

definition test_target :: "(nat \<Rightarrow> int option) \<Rightarrow> gostr option \<Rightarrow> RunningModel list \<Rightarrow> RunningModel option option" where
  "test_target scans arg ms =
     (case arg of
        Some name \<Rightarrow> Some (List.find (\<lambda>m. Contains (rm_ModelName m) name) ms)
      | None \<Rightarrow>
          if length ms = 1 then Some (Some (ms ! 0))
          else map_option (\<lambda>k. Some (ms ! k)) (scan_loop (length ms) scans 0 0))"

definition test_running :: "test_client \<Rightarrow> test_params \<Rightarrow> RunningModel \<Rightarrow> test_error + test_outcome" where
  "test_running client p m =
     (if rm_Port m = 0 then Inl (TeNoPort (rm_ModelName m))
      else if rm_Status m \<noteq> ''running'' then Inl (TeNotRunning (rm_ModelName m) (rm_Status m))
      else test_port client (rm_Port m) p)"

definition runTest ::
    "'w docker \<Rightarrow> test_client \<Rightarrow> (nat \<Rightarrow> int option) \<Rightarrow> gostr option \<Rightarrow> test_params \<Rightarrow> 'w \<Rightarrow> ((test_error + test_outcome) \<times> 'w) option" where
  "runTest exec client scans arg p w =
     (case GetRunningModels exec w of
        (Inl PanicShortID, w1) \<Rightarrow> Some (Inl TePanic, w1)
      | (Inl e, w1) \<Rightarrow> Some (Inl (TeQuery e), w1)
      | (Inr [], w1) \<Rightarrow> Some (Inr ToNoModels, w1)
      | (Inr ms, w1) \<Rightarrow>
          (case test_target scans arg ms of
             None \<Rightarrow> None
           | Some None \<Rightarrow> Some (Inr (ToUnknownModel (case arg of Some n \<Rightarrow> n | None \<Rightarrow> [])), w1)
           | Some (Some m) \<Rightarrow> Some (test_running client p m, w1)))"

record discoveredModel =
  dm_Name :: gostr
  dm_Status :: gostr
  dm_Port :: int
  dm_Type :: gostr

definition int_member :: "gostr \<Rightarrow> (gostr \<times> json) list \<Rightarrow> int option" where
  "int_member k ms =
     (case jget k ms of None \<Rightarrow> Some 0 | Some JNull \<Rightarrow> Some 0 | Some (JNum s) \<Rightarrow> ParseInt s | Some _ \<Rightarrow> None)"

definition discovered_of :: "json \<Rightarrow> discoveredModel option" where
  "discovered_of v =
     Option.bind (members v) (\<lambda>ms.
       (case (str_member ''name'' ms, str_member ''status'' ms, int_member ''port'' ms, str_member ''type'' ms) of
          (Some n, Some s, Some p, Some t) \<Rightarrow> Some \<lparr> dm_Name = n, dm_Status = s, dm_Port = p, dm_Type = t \<rparr>
        | _ \<Rightarrow> None))"

definition discoverRunningModels :: "test_client \<Rightarrow> gostr \<Rightarrow> test_error + discoveredModel list" where
  "discoverRunningModels client discoveryURL =
     on_body (tc_get client (discoveryURL @ ''/api/v1/models/running'') [])
       (\<lambda>j. case Option.bind (members j) (\<lambda>ms. Option.bind (list_member ''models'' ms) (\<lambda>vs. all_some (map discovered_of vs))) of
              None \<Rightarrow> Inl TeParse
            | Some ms \<Rightarrow> Inr (filter (\<lambda>m. dm_Status m = ''running'') ms))"

text \<open>The first key of the key file, whose JSON value is the argument: a list of users with an \<open>api_key\<close> each
  is expected.\<close>

definition stored_keys :: "json \<Rightarrow> gostr list option" where
  "stored_keys j = Option.bind (members j) (\<lambda>ms. Option.bind (list_member ''users'' ms) (\<lambda>vs.
     all_some (map (\<lambda>v. Option.bind (members v) (str_member ''api_key'')) vs)))"

definition firstKeyFromStore :: "json option \<Rightarrow> gostr option" where
  "firstKeyFromStore file = Option.bind (Option.bind file stored_keys) (List.find (\<lambda>k. k \<noteq> []))"

record client_flags =
  gf_gateway :: gostr
  gf_discovery :: gostr
  gf_key :: gostr

definition resolve_key :: "gostr \<Rightarrow> gostr \<Rightarrow> json option \<Rightarrow> gostr option" where
  "resolve_key flag env file = (if flag \<noteq> [] then Some flag else if env \<noteq> [] then Some env else firstKeyFromStore file)"

definition test_gateway :: "test_client \<Rightarrow> gostr \<Rightarrow> gostr \<Rightarrow> gostr \<Rightarrow> test_params \<Rightarrow> test_error + test_outcome" where
  "test_gateway client gatewayURL model key p =
     (case fetchCapabilityViaGateway client gatewayURL model key of
        None \<Rightarrow> runGatewayChatTest client gatewayURL model key p
      | Some (c, _) \<Rightarrow>
          if c = ''generative'' \<or> c = ''seq2seq'' then runGatewayChatTest client gatewayURL model key p
          else if c = ''encoder'' then runGatewayEmbeddingTest client gatewayURL model key (tp_prompt p)
          else if c = ''classification'' then runGatewayClassifyTest client gatewayURL model key (tp_prompt p)
          else Inl (TeUnsupported c))"

definition gateway_target :: "(nat \<Rightarrow> int option) \<Rightarrow> gostr option \<Rightarrow> discoveredModel list \<Rightarrow> discoveredModel option option" where
  "gateway_target scans arg ms =
     (case arg of
        Some name \<Rightarrow> Some (List.find (\<lambda>m. Contains (dm_Name m) name) ms)
      | None \<Rightarrow>
          if length ms = 1 then Some (Some (ms ! 0))
          else map_option (\<lambda>k. Some (ms ! k)) (scan_loop (length ms) scans 0 0))"

definition runGatewayTest ::
    "test_client \<Rightarrow> gostr \<Rightarrow> json option \<Rightarrow> (nat \<Rightarrow> int option) \<Rightarrow> client_flags \<Rightarrow> gostr option \<Rightarrow> test_params \<Rightarrow> (test_error + test_outcome) option" where
  "runGatewayTest client env_key file scans flags arg p =
     (case resolve_key (gf_key flags) env_key file of
        None \<Rightarrow> Some (Inl TeNoKey)
      | Some key \<Rightarrow>
          (case discoverRunningModels client (TrimSuffix (gf_discovery flags) ''/'') of
             Inl _ \<Rightarrow> Some (Inl TeDiscovery)
           | Inr ms \<Rightarrow>
               if ms = [] then Some (Inr ToNoModels)
               else
                 (case gateway_target scans arg ms of
                    None \<Rightarrow> None
                  | Some None \<Rightarrow> Some (Inr (ToUnknownModel (case arg of Some n \<Rightarrow> n | None \<Rightarrow> [])))
                  | Some (Some m) \<Rightarrow>
                      Some (if dm_Status m \<noteq> ''running'' then Inl (TeNotRunning (dm_Name m) (dm_Status m))
                        else test_gateway client (TrimSuffix (gf_gateway flags) ''/'') (dm_Name m) key p))))"

subsection \<open>Keys\<close>

text \<open>\<open>gateway test\<close> never finds a key in the key file: the store keeps its users as an object from ids to
  profiles, the command decodes a list, so with neither \<open>--key\<close> nor the environment variable it fails
  for every store, whatever else it would have done.\<close>

theorem stored_key_never_found:
  "runGatewayTest client [] (Some (JObj [(''users'', JObj users)])) scans (flags\<lparr> gf_key := [] \<rparr>) arg p = Some (Inl TeNoKey)"
  by (simp add: runGatewayTest_def resolve_key_def firstKeyFromStore_def stored_keys_def members_def list_member_def jget_def)

subsection \<open>Reading what the server writes\<close>

definition answer :: "py_response \<Rightarrow> json http_result" where
  "answer r = (case r of PyOk j \<Rightarrow> HttpResp 200 (Some j) | PyError st \<Rightarrow> HttpResp st None)"

text \<open>A client of one server at a base URL, and one that passes the gateway's capability check for its
  model on the way.\<close>

definition direct_client :: "cpu_server \<Rightarrow> gostr \<Rightarrow> test_client" where
  "direct_client srv base =
     \<lparr> tc_get = (\<lambda>url key. if url = base @ ''/v1/models'' then HttpResp 200 (Some (list_models srv)) else HttpResp 404 None),
       tc_post = (\<lambda>url key req. if HasPrefix url base then answer (serve_post srv (drop (length base) url) req) else HttpErr) \<rparr>"

definition gateway_client :: "cpu_server \<Rightarrow> ModelBackend \<Rightarrow> gostr \<Rightarrow> test_client" where
  "gateway_client srv b base =
     \<lparr> tc_get = tc_get (direct_client srv base),
       tc_post = (\<lambda>url key req. if IsPathSupported (backend_of srv b) (drop (length base) url)
           then tc_post (direct_client srv base) url key req else HttpResp 404 None) \<rparr>"

lemma direct_get: "tc_get (direct_client srv base) (base @ ''/v1/models'') key = HttpResp 200 (Some (list_models srv))"
  by (simp add: direct_client_def)

lemma direct_post: "tc_post (direct_client srv base) (base @ path) key req = answer (serve_post srv path req)"
  by (simp add: direct_client_def HasPrefix_iff)

lemma gateway_post: "tc_post (gateway_client srv b base) (base @ path) key req =
    (if IsPathSupported (backend_of srv b) path then answer (serve_post srv path req) else HttpResp 404 None)"
  by (simp add: gateway_client_def direct_post)

lemma first_capability_server:
  "first_capability (HttpResp 200 (Some (list_models srv))) = Some (sv_capability srv, ENDPOINTS (sv_capability srv))"
  by (simp add: first_capability_def ok_body_def caps_of_list_models)

lemma fetch_direct: "test_fetchCapability (direct_client srv (port_url port)) port = Some (sv_capability srv, ENDPOINTS (sv_capability srv))"
  unfolding test_fetchCapability_def direct_get by (rule first_capability_server)

lemma fetch_gateway: "fetchCapabilityViaGateway (gateway_client srv b (gateway_model_url url model)) url model key =
    Some (sv_capability srv, ENDPOINTS (sv_capability srv))"
proof -
  have "tc_get (gateway_client srv b base) = tc_get (direct_client srv base)" for base by (simp add: gateway_client_def)
  then show ?thesis unfolding fetchCapabilityViaGateway_def by (simp only: direct_get first_capability_server)
qed

definition test_prompt :: "gostr \<Rightarrow> gostr" where
  "test_prompt prompt = ''user: '' @ prompt @ [CHR 0x0A] @ ''assistant:''"

definition chat_answer :: "cpu_server \<Rightarrow> gostr \<Rightarrow> gostr \<Rightarrow> gostr \<Rightarrow> (gostr \<times> json) list" where
  "chat_answer srv model prompt text =
     [(''id'', JStr ''chatcmpl-cpu''), (''object'', JStr ''chat.completion''), (''created'', JNum (Itoa (sv_now srv))),
      (''model'', JStr model),
      (''choices'', JArr [JObj [(''index'', JNum ''0''),
         (''message'', JObj [(''role'', JStr ''assistant''), (''content'', JStr text)]), (''finish_reason'', JStr ''stop'')]]),
      (''usage'', usage_of srv prompt text)]"

lemma chat_completions_payload:
  assumes "\<And>s. sv_str srv (JStr s) = s"
    "generate_text srv (test_prompt (tp_prompt p)) (JNum (Itoa (tp_tokens p))) (JNum (tp_temperature p)) = Some text"
  shows "chat_completions srv (chat_payload model p) = PyOk (JObj (chat_answer srv model (test_prompt (tp_prompt p)) text))"
proof -
  have "jdefault ''messages'' JNull (chat_payload model p) = JArr [JObj [(''role'', JStr ''user''), (''content'', JStr (tp_prompt p))]]"
    "jdefault ''max_tokens'' v (chat_payload model p) = JNum (Itoa (tp_tokens p))"
    "jdefault ''temperature'' v (chat_payload model p) = JNum (tp_temperature p)"
    "jdefault ''model'' v (chat_payload model p) = JStr model" for v
    by (simp_all add: jdefault_def jget_def chat_payload_def)
  moreover have "messages_to_prompt srv (JArr [JObj [(''role'', JStr ''user''), (''content'', JStr (tp_prompt p))]]) = Some (test_prompt (tp_prompt p))"
    using assms(1) by (simp add: jdefault_def jget_def test_prompt_def)
  ultimately show ?thesis using assms(2) by (simp add: chat_completions_def chat_answer_def)
qed

lemma chat_answer_content:
  "extractChatContent (chat_answer srv model prompt text) = Inr text"
  "text \<noteq> [] \<Longrightarrow> direct_content (chat_answer srv model prompt text) = Inr text"
  by (simp_all add: extractChatContent_def direct_content_def first_choice_def message_content_def str_at_def jget_def
      chat_answer_def or_text_def)


definition echo_server :: "gostr \<Rightarrow> cpu_server" where
  "echo_server arch = \<lparr> sv_architectures = Some [arch], sv_name = ''m'', sv_now = 0, sv_str = (\<lambda>v. case v of JStr s \<Rightarrow> s | _ \<Rightarrow> []),
     sv_generate = (\<lambda>prompt _ _. Some (prompt @ '' hi'')), sv_tokens = length, sv_embed = (\<lambda>_. None), sv_scores = (\<lambda>_. None),
     sv_label = (\<lambda>_. None), sv_num = (\<lambda>_. []) \<rparr>"

definition hello_params :: test_params where
  "hello_params = \<lparr> tp_prompt = ''hello'', tp_tokens = 50, tp_temperature = ''0.7'' \<rparr>"

definition cpu_backend :: ModelBackend where
  "cpu_backend = \<lparr> mb_Name = ''m'', mb_URL = ''http://localhost:8000'', mb_Port = 8000, mb_Type = ''cpu'', mb_Status = ''running'',
     mb_Capability = [], mb_Endpoints = [] \<rparr>"


end
