(* ===== verification/ServiceCommands.thy ===== *)
theory ServiceCommands
  imports Assembly Policy
begin

text \<open>
  Starting the services: logging and tracing (\<open>core/logging/logging.go\<close>, \<open>core/tracing/tracing.go\<close>) and the \<open>policy\<close>
  command (\<open>cmd/policy.go\<close>), from the loaded configuration, the flags and the environment to the service of
  the theory \<open>Policy\<close>. Listening, signals, the export of traces and log output are not modelled.
\<close>

subsection \<open>Logging and tracing\<close>

datatype log_level = LevelDebug | LevelInfo | LevelWarn | LevelError

definition parseLevel :: "gostr \<Rightarrow> log_level option" where
  "parseLevel s =
     (let l = ToLower (TrimSpace s) in
      if l \<in> {[], ''info''} then Some LevelInfo
      else if l = ''debug'' then Some LevelDebug
      else if l \<in> {''warn'', ''warning''} then Some LevelWarn
      else if l = ''error'' then Some LevelError else None)"

text \<open>The level set, if both settings are known.\<close>

definition InitTo :: "gostr \<Rightarrow> gostr \<Rightarrow> log_level option" where
  "InitTo level format =
     (case parseLevel level of
        None \<Rightarrow> None
      | Some l \<Rightarrow> if ToLower (TrimSpace format) \<in> {[], ''text'', ''json''} then Some l else None)"

definition env_value :: "environment \<Rightarrow> gostr \<Rightarrow> gostr" where
  "env_value env name = (case env name of Some v \<Rightarrow> v | None \<Rightarrow> [])"

text \<open>Where traces go: the endpoint, the service name and whether the connection is insecure; \<open>None\<close>: nowhere.\<close>

definition tracing_target :: "environment \<Rightarrow> gostr \<Rightarrow> (gostr \<times> gostr \<times> bool) option" where
  "tracing_target env serviceName =
     (let endpoint = env_value env ''OTEL_EXPORTER_OTLP_ENDPOINT''; name = env_value env ''OTEL_SERVICE_NAME'' in
      if endpoint = [] then None
      else Some (endpoint, if name \<noteq> [] then name else serviceName, env_value env ''OTEL_EXPORTER_OTLP_INSECURE'' = ''true''))"

text \<open>The version, commit and date reported (\<open>cmd/version.go\<close>), from those linked in.\<close>

definition SetVersionInfo :: "gostr \<Rightarrow> gostr \<Rightarrow> gostr \<Rightarrow> gostr \<times> gostr \<times> gostr" where
  "SetVersionInfo version commit date =
     (if version \<noteq> [] then version else ''dev'', if commit \<noteq> [] then commit else ''none'', if date \<noteq> [] then date else ''unknown'')"

subsection \<open>The policy command\<close>

record policy_flags =
  pf_port :: int
  pf_keys :: gostr
  pf_adminKey :: gostr
  pf_admin :: "gostr list"
  pf_masterKeyFile :: gostr

record policy_inputs =
  ps_env :: environment
  ps_home :: gostr
  ps_prims :: prims
  ps_read_fails :: bool
  ps_master :: master_env
  ps_order :: "gostr list"
  ps_random :: "gostr option"
  ps_discovered :: bool

datatype policy_error =
  PoConfig config_error | PoLogging | PoKeys key_error | PoMaster master_error | PoDecrypt key_error | PoAdminPair gostr | PoOIDC oidc_error

definition map_at :: "gostr list \<Rightarrow> config \<Rightarrow> (gostr \<times> gostr) list" where
  "map_at p c = (case leaf_at p c of Some (_, VMap m) \<Rightarrow> m | _ \<Rightarrow> [])"

definition policy_string :: "gostr list \<Rightarrow> config \<Rightarrow> gostr" where
  "policy_string p cfg = string_at (''Policy'' # p) cfg"

definition policy_keys_path :: "policy_inputs \<Rightarrow> config \<Rightarrow> policy_flags \<Rightarrow> gostr" where
  "policy_keys_path inp cfg fs =
     (if pf_keys fs \<noteq> [] then pf_keys fs
      else if policy_string [''KeysFile''] cfg \<noteq> [] then policy_string [''KeysFile''] cfg
      else Path_Join [ps_home inp, ''.sovereignstack'', ''keys.json''])"

definition policy_admin_key :: "policy_inputs \<Rightarrow> config \<Rightarrow> policy_flags \<Rightarrow> gostr" where
  "policy_admin_key inp cfg fs =
     (if pf_adminKey fs \<noteq> [] then pf_adminKey fs
      else if policy_string [''AdminKey''] cfg \<noteq> [] then policy_string [''AdminKey''] cfg
      else env_value (ps_env inp) ''SOVSTACK_ADMIN_KEY'')"

text \<open>The store, with the master key set and its encrypted fields decrypted in memory when a key file is
  named; and the disk, on which the key file may have been created.\<close>

definition policy_store :: "policy_inputs \<Rightarrow> policy_flags \<Rightarrow> gostr \<Rightarrow> disk \<Rightarrow> (policy_error + KeyStore) \<times> disk" where
  "policy_store inp fs path d =
     (case LoadKeyStore (ps_prims inp) (ps_read_fails inp) path d of
        Inl e \<Rightarrow> (Inl (PoKeys e), d)
      | Inr ks \<Rightarrow>
          if pf_masterKeyFile fs = [] then (Inr ks, d)
          else
            (case LoadOrCreateMasterKey (ps_master inp) (pf_masterKeyFile fs) d of
               (d1, Inl e) \<Rightarrow> (Inl (PoMaster e), d1)
             | (d1, Inr mk) \<Rightarrow>
                 let ks1 = SetMasterKey mk ks in
                 if \<not> HasEncryptedFields (ps_order inp) ks1 then (Inr ks1, d1)
                 else
                   (case DecryptProfilesInPlace (ps_prims inp) mk (ps_order inp) ks1 of
                      (_, Some e) \<Rightarrow> (Inl (PoDecrypt e), d1)
                    | (ks2, None) \<Rightarrow> (Inr ks2, d1))))"

definition parse_admin :: "gostr \<Rightarrow> (gostr \<times> gostr) option" where
  "parse_admin p =
     (case Index p ''='' of
        None \<Rightarrow> None
      | Some eq \<Rightarrow> if eq = 0 then None else Some (take eq p, drop (Suc eq) p))"

fun add_admins :: "gostr list \<Rightarrow> (gostr \<times> gostr) list \<Rightarrow> policy_error + (gostr \<times> gostr) list" where
  "add_admins [] named = Inr named"
| "add_admins (p # ps) named =
     (case parse_admin p of
        None \<Rightarrow> Inl (PoAdminPair p)
      | Some (n, t) \<Rightarrow> add_admins ps (filter (\<lambda>(m, _). m \<noteq> n) named @ [(n, t)]))"

definition policy_oidc :: "config \<Rightarrow> OIDCConfig" where
  "policy_oidc cfg = \<lparr> oc_IssuerURL = policy_string [''OIDC'', ''IssuerURL''] cfg, oc_ClientID = policy_string [''OIDC'', ''ClientID''] cfg,
     oc_ClientSecret = policy_string [''OIDC'', ''ClientSecret''] cfg, oc_RedirectURL = policy_string [''OIDC'', ''RedirectURL''] cfg,
     oc_AdminClaim = policy_string [''OIDC'', ''AdminClaim''] cfg, oc_SessionTTL = 0, oc_SessionSecret = [] \<rparr>"

definition policy_service :: "policy_inputs \<Rightarrow> config \<Rightarrow> policy_flags \<Rightarrow> KeyStore \<Rightarrow> disk \<Rightarrow> policy_error + Service" where
  "policy_service inp cfg fs store d =
     (case add_admins (pf_admin fs) (map_at [''Policy'', ''AdminKeys''] cfg) of
        Inl e \<Rightarrow> Inl e
      | Inr named \<Rightarrow>
          let svc = (policy_New store d (policy_admin_key inp cfg fs))\<lparr> sv_NamedAdmins := named, sv_hook := True \<rparr> in
          if policy_string [''OIDC'', ''IssuerURL''] cfg = [] then Inr svc
          else
            (case EnableOIDC (ps_random inp) (ps_discovered inp) (policy_oidc cfg) svc of
               (_, Some e) \<Rightarrow> Inl (PoOIDC e)
             | (svc1, None) \<Rightarrow> Inr svc1))"

definition runPolicy ::
    "policy_inputs \<Rightarrow> config_error + config \<Rightarrow> policy_flags \<Rightarrow> disk \<Rightarrow> (policy_error + Service) \<times> disk" where
  "runPolicy inp loaded_cfg fs d =
     (case loaded_cfg of
        Inl e \<Rightarrow> (Inl (PoConfig e), d)
      | Inr cfg \<Rightarrow>
          if InitTo (string_at [''Log'', ''Level''] cfg) (string_at [''Log'', ''Format''] cfg) = None then (Inl PoLogging, d)
          else
            (case policy_store inp fs (policy_keys_path inp cfg fs) d of
               (Inl e, d1) \<Rightarrow> (Inl e, d1)
             | (Inr store, d1) \<Rightarrow> (policy_service inp cfg fs store d1, d1)))"

text \<open>The readiness check: a store that was loaded.\<close>

definition policy_checker :: "time \<Rightarrow> Checker" where
  "policy_checker now = Health_Register ''keystore'' (None, 0) (Health_New now)"

subsection \<open>Who may change users\<close>

definition no_credentials :: "policy_inputs \<Rightarrow> config \<Rightarrow> policy_flags \<Rightarrow> bool" where
  "no_credentials inp cfg fs \<longleftrightarrow>
     pf_adminKey fs = [] \<and> policy_string [''AdminKey''] cfg = [] \<and> env_value (ps_env inp) ''SOVSTACK_ADMIN_KEY'' = [] \<and>
     pf_admin fs = [] \<and> map_at [''Policy'', ''AdminKeys''] cfg = [] \<and> policy_string [''OIDC'', ''IssuerURL''] cfg = []"

lemma add_admins_nonempty: "add_admins ps named = Inr out \<Longrightarrow> out = [] \<longleftrightarrow> ps = [] \<and> named = []"
proof (induction ps arbitrary: named)
  case (Cons p ps)
  then obtain n t where "parse_admin p = Some (n, t)" by (auto split: option.splits)
  with Cons show ?case by fastforce
qed auto

lemma enable_oidc_some: "EnableOIDC rand disc c s = (s1, None) \<Longrightarrow> sv_oidc s1 \<noteq> None \<and> sv_AdminKey s1 = sv_AdminKey s \<and> sv_NamedAdmins s1 = sv_NamedAdmins s"
  by (auto simp: EnableOIDC_def Let_def split: if_splits option.splits)

lemma policy_service_unprotected:
  assumes "policy_service inp cfg fs store d = Inr s"
  shows "unprotected s \<longleftrightarrow> no_credentials inp cfg fs"
proof -
  obtain named where n: "add_admins (pf_admin fs) (map_at [''Policy'', ''AdminKeys''] cfg) = Inr named"
    using assms by (auto simp: policy_service_def split: sum.splits)
  have names: "named = [] \<longleftrightarrow> pf_admin fs = [] \<and> map_at [''Policy'', ''AdminKeys''] cfg = []" by (rule add_admins_nonempty [OF n])
  let ?svc = "(policy_New store d (policy_admin_key inp cfg fs))\<lparr> sv_NamedAdmins := named, sv_hook := True \<rparr>"
  have key: "policy_admin_key inp cfg fs = [] \<longleftrightarrow>
      pf_adminKey fs = [] \<and> policy_string [''AdminKey''] cfg = [] \<and> env_value (ps_env inp) ''SOVSTACK_ADMIN_KEY'' = []"
    by (simp add: policy_admin_key_def)
  show ?thesis
  proof (cases "policy_string [''OIDC'', ''IssuerURL''] cfg = []")
    case True
    then have "s = ?svc" using assms n by (simp add: policy_service_def Let_def)
    then show ?thesis using True names key by (simp add: unprotected_def no_credentials_def policy_New_def)
  next
    case False
    then have "EnableOIDC (ps_random inp) (ps_discovered inp) (policy_oidc cfg) ?svc = (s, None)"
      using assms n by (auto simp: policy_service_def Let_def split: prod.splits option.splits)
    from enable_oidc_some [OF this] False show ?thesis by (simp add: unprotected_def no_credentials_def)
  qed
qed

text \<open>C7: The policy service starts open unless it is given a credential: it accepts every request to change
  users without authentication exactly when no admin key comes from the flag, the configuration or the
  environment, no named admin from the flag or the configuration, and no OIDC issuer is configured; in
  every other case a request needs an actor.\<close>

theorem policy_starts_open:
  assumes "runPolicy inp (Inr cfg) fs d = (Inr s, d1)"
  shows "checkAdminAuth env r s \<longleftrightarrow> no_credentials inp cfg fs \<or> actor_at env 0 r s \<noteq> []"
proof -
  obtain store where "policy_service inp cfg fs store d1 = Inr s"
    using assms by (auto simp: runPolicy_def split: if_splits prod.splits sum.splits)
  from policy_service_unprotected [OF this] show ?thesis by (simp add: checkAdminAuth_def)
qed

definition plain_policy :: policy_inputs where
  "plain_policy = \<lparr> ps_env = Map.empty, ps_home = ''/h'', ps_prims = toy_prims, ps_read_fails = False,
     ps_master = \<lparr> mf_home = None, mf_read_fails = False, mf_mkdir_fails = False, mf_write_fails = False, mf_rand = None \<rparr>,
     ps_order = [], ps_random = None, ps_discovered = False \<rparr>"

definition no_flags :: policy_flags where
  "no_flags = \<lparr> pf_port = 8888, pf_keys = [], pf_adminKey = [], pf_admin = [], pf_masterKeyFile = [] \<rparr>"

theorem policy_starts_open_witness:
  "\<exists>s. runPolicy plain_policy (Inr Defaults) no_flags Map.empty = (Inr s, Map.empty) \<and>
     checkAdminAuth (toy_policy_env [] 0) (toy_request ''DELETE'' ''/api/v1/users/u'' [] Map.empty) s"
proof -
  let ?r = "runPolicy plain_policy (Inr Defaults) no_flags Map.empty"
  have "\<not> isl (fst ?r)" "no_credentials plain_policy Defaults no_flags" by code_simp+
  moreover have "snd ?r = Map.empty"
    by (auto simp: runPolicy_def policy_store_def no_flags_def split: sum.splits prod.splits if_splits)
  ultimately obtain s where s: "?r = (Inr s, Map.empty)" "no_credentials plain_policy Defaults no_flags"
    by (metis prod.collapse sum.collapse(2))
  with policy_starts_open [OF s(1)] show ?thesis by blast
qed

end
