(* ===== verification/Serving.thy ===== *)
theory Serving
  imports TransportSecurity Assembly
begin

text \<open>
  The gateway process while it serves (\<open>cmd/gateway.go\<close> with the handler of \<open>core/gateway/proxy.go\<close>): requests
  that arrive, requests in flight, the discovery loop, the poller and the shutdown run beside each other.
  \<open>ServeHTTP\<close> of theory \<open>Gateway\<close> is cut at the two places where the handler waits for something else: the hand-over
  to the reverse proxy, which looks the backend up again, and the answer of the backend. Any step may come
  between. The listener and its TLS settings are the last part of the start.
\<close>

subsection \<open>A request in three parts\<close>

record job =
  jb_env :: gw_env
  jb_request :: request
  jb_user :: gostr
  jb_model :: gostr
  jb_out :: "request option"

text \<open>A request is answered by the gateway, is lost in a panic, or is admitted.\<close>

datatype arrival = Answered response | Crashed | Admitted job

definition arrive :: "gw_env \<Rightarrow> 'q Gateway \<Rightarrow> request \<Rightarrow> 'q gw_state \<Rightarrow> arrival \<times> 'q gw_state" where
  "arrive env gw r st =
     (let st1 = on_metrics RecordRequest st in
      case authenticate gw r st1 of
        Inl (resp, st2) \<Rightarrow> (Answered resp, st2)
      | Inr userID \<Rightarrow>
          (case special_endpoint env gw r userID of
             Some resp \<Rightarrow> (Answered resp, st1)
           | None \<Rightarrow>
               let modelName = extractModelName env r in
               (case run_gates (gates env gw r userID modelName) st1 of
                  Inl (resp, st2) \<Rightarrow> (Answered resp, st2)
                | Inr st2 \<Rightarrow>
                    (Admitted \<lparr> jb_env = env, jb_request = r, jb_user = userID, jb_model = modelName, jb_out = None \<rparr>,
                     audit (request_call env r userID modelName) st2))))"

text \<open>The reverse proxy runs the director on the routing table of that moment; \<open>None\<close> is its panic.\<close>

definition dispatch :: "'q Gateway \<Rightarrow> job \<Rightarrow> job option" where
  "dispatch gw j =
     map_option (\<lambda>out. j\<lparr> jb_out := Some out \<rparr>) (director (ge_parse_url (jb_env j)) gw (jb_request j))"

text \<open>The backend answers with \<open>resp\<close>.\<close>

definition complete :: "'q Gateway \<Rightarrow> job \<Rightarrow> response \<Rightarrow> 'q gw_state \<Rightarrow> response option \<times> 'q gw_state" where
  "complete gw j resp = finish (jb_env j) gw (jb_request j) (jb_user j) (jb_model j) resp"

text \<open>The handler of theory \<open>Gateway\<close> is the run of the three parts with nothing in between.\<close>

lemma ServeHTTP_parts:
  "ServeHTTP env gw r st =
     (case arrive env gw r st of
        (Answered resp, st1) \<Rightarrow> (Some resp, st1)
      | (Crashed, st1) \<Rightarrow> (None, st1)
      | (Admitted j, st1) \<Rightarrow>
          (case dispatch gw j of
             None \<Rightarrow> (None, st1)
           | Some j' \<Rightarrow> complete gw j' (ge_backend env (the (jb_out j'))) st1))"
  by (simp add: ServeHTTP_def arrive_def dispatch_def complete_def forward_def request_call_def Let_def
      split: sum.splits option.splits prod.splits)

subsection \<open>The process\<close>

datatype phase = Accepting | RouterStopped | PollerStopped | Closed

text \<open>The last four components are there to state properties: the last reading of the clock by a request,
  and the numbers of requests that arrived, were admitted and were answered by a backend.\<close>

record 'q serving =
  sg_components :: components
  sg_state :: "'q gw_state"
  sg_flight :: "job list"
  sg_phase :: phase
  sg_clock :: time
  sg_arrived :: nat
  sg_sent :: nat
  sg_done :: nat

definition started :: "components \<Rightarrow> 'q \<Rightarrow> time \<Rightarrow> 'q serving" where
  "started cp q t =
     \<lparr> sg_components = cp,
       sg_state = \<lparr> gs_quota = q, gs_limiter = Map.empty, gs_metrics = Some NewGatewayMetrics, gs_audit = [] \<rparr>,
       sg_flight = [], sg_phase = Accepting, sg_clock = t, sg_arrived = 0, sg_sent = 0, sg_done = 0 \<rparr>"

definition arrive_gateway ::
    "gw_env \<Rightarrow> 'q live_env \<Rightarrow> components \<Rightarrow> request \<Rightarrow> 'q gw_state \<Rightarrow> arrival \<times> 'q gw_state" where
  "arrive_gateway env le cp r st =
     (if auth_panics le cp r then (Crashed, on_metrics RecordRequest st) else arrive env (live_gateway le cp) r st)"

definition with_arrival :: "gw_env \<Rightarrow> arrival \<times> 'q gw_state \<Rightarrow> 'q serving \<Rightarrow> 'q serving" where
  "with_arrival env x s =
     (let s1 = s\<lparr> sg_state := snd x, sg_clock := ge_now env, sg_arrived := Suc (sg_arrived s) \<rparr> in
      case fst x of
        Admitted j \<Rightarrow> s1\<lparr> sg_flight := sg_flight s @ [j], sg_sent := Suc (sg_sent s) \<rparr>
      | _ \<Rightarrow> s1)"

definition without :: "nat \<Rightarrow> 'a list \<Rightarrow> 'a list" where
  "without i xs = take i xs @ drop (Suc i) xs"

definition with_dispatch :: "nat \<Rightarrow> job option \<Rightarrow> 'q serving \<Rightarrow> 'q serving" where
  "with_dispatch i x s =
     s\<lparr> sg_flight := (case x of None \<Rightarrow> without i (sg_flight s) | Some j \<Rightarrow> (sg_flight s)[i := j]) \<rparr>"

definition with_answer :: "nat \<Rightarrow> response option \<times> 'q gw_state \<Rightarrow> 'q serving \<Rightarrow> 'q serving" where
  "with_answer i x s =
     s\<lparr> sg_state := snd x, sg_flight := without i (sg_flight s),
        sg_done := Suc (sg_done s) \<rparr>"

definition on_router :: "(ModelRouter \<Rightarrow> ModelRouter) \<Rightarrow> 'q serving \<Rightarrow> 'q serving" where
  "on_router f s = s\<lparr> sg_components := (sg_components s)\<lparr> cp_router := f (cp_router (sg_components s)) \<rparr> \<rparr>"

definition with_admission :: "Controller option \<Rightarrow> 'q serving \<Rightarrow> 'q serving" where
  "with_admission c s = s\<lparr> sg_components := (sg_components s)\<lparr> cp_admission := c \<rparr> \<rparr>"

text \<open>The signal handler stops the router, stops the poller if there is one and waits for it, and closes the
  server, which ends the process; until then the listener accepts. The clock is monotone.\<close>

inductive serving_step :: "'q serving \<Rightarrow> 'q serving \<Rightarrow> bool" where
  arrives: "sg_phase s \<noteq> Closed \<Longrightarrow> mux_route gateway_routes r = Handler G_Gateway \<Longrightarrow>
     sg_clock s \<le> ge_create env \<Longrightarrow> ge_create env \<le> ge_now env \<Longrightarrow>
     serving_step s (with_arrival env (arrive_gateway env le (sg_components s) r (sg_state s)) s)"
| dispatches: "sg_phase s \<noteq> Closed \<Longrightarrow> i < length (sg_flight s) \<Longrightarrow> jb_out (sg_flight s ! i) = None \<Longrightarrow>
     serving_step s (with_dispatch i (dispatch (live_gateway (le :: 'q live_env) (sg_components s)) (sg_flight s ! i)) s)"
| answers: "sg_phase s \<noteq> Closed \<Longrightarrow> i < length (sg_flight s) \<Longrightarrow> jb_out (sg_flight s ! i) \<noteq> None \<Longrightarrow>
     serving_step s (with_answer i (complete (live_gateway le (sg_components s)) (sg_flight s ! i) resp (sg_state s)) s)"
| refreshes: "sg_phase s \<noteq> Closed \<Longrightarrow> rt_loop (cp_router (sg_components s)) \<Longrightarrow>
     serving_step s (on_router (\<lambda>rt. fst (refresh getModels getCaps rt)) s)"
| loop_ends: "sg_phase s \<noteq> Closed \<Longrightarrow> rt_loop (cp_router (sg_components s)) \<Longrightarrow> rt_done (cp_router (sg_components s)) \<Longrightarrow>
     serving_step s (on_router (\<lambda>rt. rt\<lparr> rt_loop := False \<rparr>) s)"
| polls: "sg_phase s \<noteq> Closed \<Longrightarrow> cp_admission (sg_components s) = Some c \<Longrightarrow> ct_cancel c \<Longrightarrow>
     serving_step s (with_admission (Some (tick models fetch clock c)) s)"
| stops_router: "sg_phase s = Accepting \<Longrightarrow> serving_step s ((on_router Router_Stop s)\<lparr> sg_phase := RouterStopped \<rparr>)"
| stops_poller: "sg_phase s = RouterStopped \<Longrightarrow> cp_admission (sg_components s) = Some c \<Longrightarrow> Admission.Stop c = Some c' \<Longrightarrow>
     serving_step s ((with_admission (Some c') s)\<lparr> sg_phase := PollerStopped \<rparr>)"
| no_poller: "sg_phase s = RouterStopped \<Longrightarrow> cp_admission (sg_components s) = None \<Longrightarrow>
     serving_step s (s\<lparr> sg_phase := PollerStopped \<rparr>)"
| closes: "sg_phase s = PollerStopped \<Longrightarrow> serving_step s (s\<lparr> sg_phase := Closed \<rparr>)"

inductive_cases serving_stepE:
  "serving_step s s'"

subsection \<open>Invariants of the process\<close>

text \<open>The contract of an invariant: it holds of the process as it starts and every step keeps it. Then it holds
  whenever the process can be observed.\<close>

locale serving_invariant =
  fixes cp :: components and q :: 'q and t0 :: time and I :: "'q serving \<Rightarrow> bool"
  assumes init: "I (started cp q t0)"
    and kept: "I s \<Longrightarrow> serving_step s s' \<Longrightarrow> I s'"
begin

lemma holds: "serving_step\<^sup>*\<^sup>* (started cp q t0) s \<Longrightarrow> I s"
  by (induction rule: rtranclp_induct) (auto intro: init kept)

end

subsection \<open>What the parts of a request change\<close>

definition is_request :: "gostr \<Rightarrow> audit_call \<Rightarrow> bool" where
  "is_request u c \<longleftrightarrow> (case c of CallRequest v _ _ _ _ _ _ _ \<Rightarrow> v = u | _ \<Rightarrow> False)"

text \<open>The requests of a user the audit trail shows as handed to a backend.\<close>

definition sent_by :: "gostr \<Rightarrow> 'q gw_state \<Rightarrow> nat" where
  "sent_by u st = length (filter (is_request u) (gs_audit st))"

lemma sent_by_append: "gs_audit st' = gs_audit st @ cs \<Longrightarrow> sent_by u st' = sent_by u st + length (filter (is_request u) cs)"
  by (simp add: sent_by_def)

lemma is_request_simps [simp]:
  "is_request u (CallRequest v m e mt ip ua cid n) \<longleftrightarrow> v = u"
  "\<not> is_request u (CallResponse v m e cid st sz i o' d)" "\<not> is_request u (CallError v e cid msg st ip)"
  "\<not> is_request u (CallAuthFailure k e ip err)"
  by (simp_all add: is_request_def)

lemma authenticate_limiter: "authenticate gw r st = Inl (resp, st') \<Longrightarrow> gs_limiter st' = gs_limiter st"
  by (auto simp: authenticate_def Let_def split: option.splits if_splits sum.splits)

text \<open>A request that is answered leaves no request entry and at most one call of the rate limiter; an admitted one
  leaves one entry, and the limiter let its user pass.\<close>

lemma arrive_cases:
  obtains
    (answered) resp st' where "arrive env gw r st = (Answered resp, st')"
      "gs_limiter st' = gs_limiter st \<or> (\<exists>u. gs_limiter st' = snd (rate_limiter env gw u (gs_limiter st)))"
      "\<And>u. sent_by u st' = sent_by u st" "active st' = map_option (\<lambda>n. n + 1) (active st)"
      "total st' = map_option (\<lambda>n. n + 1) (total st)"
  | (admitted) j st' where "arrive env gw r st = (Admitted j, st')"
      "jb_env j = env" "jb_request j = r" "jb_out j = None" "routable gw r"
      "fst (rate_limiter env gw (jb_user j) (gs_limiter st))" "gs_limiter st' = snd (rate_limiter env gw (jb_user j) (gs_limiter st))"
      "\<And>u. sent_by u st' = sent_by u st + (if u = jb_user j then 1 else 0)" "active st' = map_option (\<lambda>n. n + 1) (active st)"
      "total st' = map_option (\<lambda>n. n + 1) (total st)"
proof -
  let ?st = "on_metrics RecordRequest st"
  have count: "active ?st = map_option (\<lambda>n. n + 1) (active st)" "total ?st = map_option (\<lambda>n. n + 1) (total st)" "\<And>u. sent_by u ?st = sent_by u st"
    by (simp_all add: active_def total_def sent_by_def option.map_comp comp_def active_simps requests_simps)
  show thesis
  proof (cases "authenticate gw r ?st")
    case (Inl d)
    obtain resp st' where d: "authenticate gw r ?st = Inl (resp, st')" using Inl by (cases d) auto
    from authenticate_deny [OF d] authenticate_limiter [OF d] count show thesis
      by (intro answered [of resp st']) (auto simp: arrive_def d active_def total_def dest!: sent_by_append)
  next
    case (Inr u)
    let ?m = "extractModelName env r"
    show thesis
    proof (cases "special_endpoint env gw r u")
      case (Some resp)
      with Inr count show thesis by (intro answered [of resp ?st]) (simp_all add: arrive_def)
    next
      case None
      show thesis
      proof (cases "run_gates (gates env gw r u ?m) ?st")
        case (Inl d)
        obtain resp st' where d: "run_gates (gates env gw r u ?m) ?st = Inl (resp, st')" using Inl by (cases d) auto
        from gates_deny [OF d] gates_refusal [OF d] count show thesis
          by (intro answered [of resp st'])
            (auto simp: arrive_def Inr None d Let_def denied_def active_def total_def charged_limiter_def dest!: sent_by_append split: if_splits)
      next
        case g: (Inr st1)
        have p: "admissible env gw r u ?st" "st1 = ?st\<lparr> gs_limiter := snd (rate_limiter env gw u (gs_limiter ?st)) \<rparr>"
          using g gates_pass [of env gw r u ?st st1] by auto
        let ?j = "\<lparr> jb_env = env, jb_request = r, jb_user = u, jb_model = ?m, jb_out = None \<rparr>"
        have "sent_by v (audit (request_call env r u ?m) st1) = sent_by v st1 + (if v = u then 1 else 0)" for v
          by (simp add: sent_by_def request_call_def)
        with p count show thesis
          by (intro admitted [of ?j "audit (request_call env r u ?m) st1"])
            (simp_all add: arrive_def Inr None g Let_def admissible_def active_def total_def sent_by_def)
      qed
    qed
  qed
qed

lemma map_sum_Inl: "map_sum f g x = Inl y \<longleftrightarrow> (\<exists>z. x = Inl z \<and> y = f z)"
  by (cases x) auto

lemma finish_counts:
  assumes "finish env gw r u m resp st = (a, st')"
  shows "gs_limiter st' = gs_limiter st" "sent_by v st' = sent_by v st"
    "active st' = map_option (\<lambda>n. n - 1) (active st)" "total st' = total st"
proof -
  obtain i o' where t: "parseTokenUsage (ge_json_usage env) (w_Body resp) (HGet (w_Header resp) ''Content-Type'') = (i, o')"
    by (cases "parseTokenUsage (ge_json_usage env) (w_Body resp) (HGet (w_Header resp) ''Content-Type'')")
  have rec: "gm_activeRequests g' = gm_activeRequests g - 1 \<and> gm_requestsTotal g' = gm_requestsTotal g"
    if "record_metrics env r u m (w_Status resp) i o' g = Inl g' \<or> record_metrics env r u m (w_Status resp) i o' g = Inr g'" for g g'
    using that by (auto simp: record_metrics_def RecordTokens_def record_simps Let_def split: if_splits)
  show "gs_limiter st' = gs_limiter st" "sent_by v st' = sent_by v st"
    "active st' = map_option (\<lambda>n. n - 1) (active st)" "total st' = total st"
    using assms rec unfolding finish_def t Let_def
    by (auto simp: sent_by_def active_def total_def audit_error_def map_sum_Inr map_sum_Inl split: option.splits sum.splits if_splits)
qed


text \<open>The router, the configured rate and the target of a running process.\<close>

lemma live_gateway_fixed [simp]:
  "gw_requestsPerMin (live_gateway le cp) = se_rateLimit (cp_settings cp)"
  by (simp add: live_gateway_def NewGateway_def gateway_config_def)

lemma with_arrival_simps [simp]:
  "sg_components (with_arrival env x s) = sg_components s" "sg_state (with_arrival env x s) = snd x"
  "sg_clock (with_arrival env x s) = ge_now env" "sg_arrived (with_arrival env x s) = Suc (sg_arrived s)"
  "sg_done (with_arrival env x s) = sg_done s" "sg_phase (with_arrival env x s) = sg_phase s"
  "sg_flight (with_arrival env x s) = sg_flight s @ (case fst x of Admitted j \<Rightarrow> [j] | _ \<Rightarrow> [])"
  "sg_sent (with_arrival env x s) = sg_sent s + (case fst x of Admitted j \<Rightarrow> 1 | _ \<Rightarrow> 0)"
  by (simp_all add: with_arrival_def Let_def split: arrival.split)

lemma on_router_simps [simp]:
  "sg_state (on_router f s) = sg_state s" "sg_clock (on_router f s) = sg_clock s" "sg_arrived (on_router f s) = sg_arrived s"
  "sg_done (on_router f s) = sg_done s" "sg_phase (on_router f s) = sg_phase s" "sg_flight (on_router f s) = sg_flight s"
  "sg_sent (on_router f s) = sg_sent s" "cp_router (sg_components (on_router f s)) = f (cp_router (sg_components s))"
  "cp_settings (sg_components (on_router f s)) = cp_settings (sg_components s)"
  "cp_target (sg_components (on_router f s)) = cp_target (sg_components s)"
  "cp_admission (sg_components (on_router f s)) = cp_admission (sg_components s)"
  by (simp_all add: on_router_def)

lemma with_admission_simps [simp]:
  "sg_state (with_admission c s) = sg_state s" "sg_clock (with_admission c s) = sg_clock s" "sg_arrived (with_admission c s) = sg_arrived s"
  "sg_done (with_admission c s) = sg_done s" "sg_phase (with_admission c s) = sg_phase s" "sg_flight (with_admission c s) = sg_flight s"
  "sg_sent (with_admission c s) = sg_sent s" "cp_router (sg_components (with_admission c s)) = cp_router (sg_components s)"
  "cp_settings (sg_components (with_admission c s)) = cp_settings (sg_components s)"
  "cp_target (sg_components (with_admission c s)) = cp_target (sg_components s)"
  "cp_admission (sg_components (with_admission c s)) = c"
  by (simp_all add: with_admission_def)

lemma with_dispatch_simps [simp]:
  "sg_state (with_dispatch i x s) = sg_state s" "sg_clock (with_dispatch i x s) = sg_clock s" "sg_arrived (with_dispatch i x s) = sg_arrived s"
  "sg_done (with_dispatch i x s) = sg_done s" "sg_phase (with_dispatch i x s) = sg_phase s" "sg_sent (with_dispatch i x s) = sg_sent s"
  "sg_components (with_dispatch i x s) = sg_components s"
  by (simp_all add: with_dispatch_def)

lemma with_answer_simps [simp]:
  "sg_state (with_answer i x s) = snd x" "sg_clock (with_answer i x s) = sg_clock s" "sg_arrived (with_answer i x s) = sg_arrived s"
  "sg_done (with_answer i x s) = Suc (sg_done s)" "sg_phase (with_answer i x s) = sg_phase s" "sg_sent (with_answer i x s) = sg_sent s"
  "sg_components (with_answer i x s) = sg_components s" "sg_flight (with_answer i x s) = without i (sg_flight s)"
  by (simp_all add: with_answer_def)

lemma length_without: "i < length xs \<Longrightarrow> Suc (length (without i xs)) = length xs"
  by (simp add: without_def)

lemma set_without: "set (without i xs) \<subseteq> set xs"
  unfolding without_def using set_take_subset [of i xs] set_drop_subset [of "Suc i" xs] by auto

lemma list_all_without: "list_all P xs \<Longrightarrow> list_all P (without i xs)"
  using set_without [of i xs] by (auto simp: list_all_iff)

lemma list_all_update: "list_all P xs \<Longrightarrow> P x \<Longrightarrow> list_all P (xs[i := x])"
  using set_update_subset_insert [of xs i x] by (auto simp: list_all_iff)

lemma length_with_dispatch: "i < length (sg_flight s) \<Longrightarrow> length (sg_flight (with_dispatch i x s)) \<le> length (sg_flight s)"
  by (auto simp: with_dispatch_def without_def split: option.split)

subsection \<open>Accounting over a run\<close>

definition accounted :: "'q serving \<Rightarrow> bool" where
  "accounted s \<longleftrightarrow> total (sg_state s) = Some (int (sg_arrived s)) \<and>
     active (sg_state s) = Some (int (sg_arrived s) - int (sg_done s)) \<and>
     sg_done s + length (sg_flight s) \<le> sg_sent s \<and> sg_sent s \<le> sg_arrived s"

lemma arrival_counts:
  assumes "arrive_gateway env le cp r st = (a, st')"
  shows "total st' = map_option (\<lambda>n. n + 1) (total st) \<and> active st' = map_option (\<lambda>n. n + 1) (active st)"
proof (cases "auth_panics le cp r")
  case True
  with assms show ?thesis
    by (auto simp: arrive_gateway_def active_def total_def option.map_comp comp_def active_simps requests_simps)
next
  case False
  then have "arrive env (live_gateway le cp) r st = (a, st')" using assms by (simp add: arrive_gateway_def)
  then show ?thesis by (cases rule: arrive_cases [of env "live_gateway le cp" r st]) auto
qed

lemma answer_counts:
  "active (snd (complete gw j resp st)) = map_option (\<lambda>n. n - 1) (active st)" "total (snd (complete gw j resp st)) = total st"
  "gs_limiter (snd (complete gw j resp st)) = gs_limiter st" "sent_by u (snd (complete gw j resp st)) = sent_by u st"
  unfolding complete_def by (metis finish_counts prod.collapse)+

interpretation accounting: serving_invariant cp q t0 accounted for cp q t0
proof
  show "accounted (started cp q t0)"
    by (simp add: accounted_def started_def total_def active_def NewGatewayMetrics_def)
next
  fix s s' :: "'a serving"
  assume I: "accounted s" and "serving_step s s'"
  from this(2) show "accounted s'"
  proof (cases rule: serving_step.cases)
    case (arrives r env le)
    obtain a st' where a: "arrive_gateway env le (sg_components s) r (sg_state s) = (a, st')" by fastforce
    from arrival_counts [OF a] I arrives(1,2) a show ?thesis by (auto simp: accounted_def split: arrival.split)
  next
    case (dispatches i le)
    with I length_with_dispatch [of i s "dispatch (live_gateway le (sg_components s)) (sg_flight s ! i)"]
    show ?thesis by (simp add: accounted_def)
  next
    case (answers i le resp)
    with I length_without [of i "sg_flight s"] show ?thesis by (auto simp: accounted_def answer_counts)
  qed (use I in \<open>simp_all add: accounted_def\<close>)
qed

text \<open>C14: Accounting of a serving process, whatever runs beside the requests. At every moment the counter shows the
  requests that arrived; the gauge of active requests shows those that arrived and were not answered by a
  backend, so that when no request is in flight it shows every request that was refused, lost or answered
  by the gateway itself since the start, and never falls below their number.\<close>

theorem gauge_never_drains:
  assumes "serving_step\<^sup>*\<^sup>* (started cp q t0) s"
  shows "total (sg_state s) = Some (int (sg_arrived s)) \<and> active (sg_state s) = Some (int (sg_arrived s - sg_done s)) \<and>
    sg_done s + length (sg_flight s) \<le> sg_sent s \<and> sg_sent s \<le> sg_arrived s \<and>
    (\<forall>n. active (sg_state s) = Some n \<longrightarrow> int (sg_arrived s - sg_sent s) \<le> n)"
  using accounting.holds [OF assms] by (auto simp: accounted_def)

subsection \<open>The configured rate over a run\<close>

lemma budget_later:
  assumes "bucket_ok r a rl" "0 < r" "a \<le> t"
  shows "budget r t u rl \<le> budget r a u rl + accrued r a t"
proof (cases "rl u")
  case None
  with assms show ?thesis by (simp add: budget_def accrued_nonneg)
next
  case (Some l)
  then obtain x where "ul_tokens l = Fin x" using assms(1) by (auto simp: bucket_ok_def tokens_ok_def)
  with Some show ?thesis using accrued_add [of r "ul_lastRefillAt l" a t] by (simp add: budget_def)
qed

lemma bucket_ok_later: "bucket_ok r a rl \<Longrightarrow> a \<le> t \<Longrightarrow> bucket_ok r t rl"
  by (force simp: bucket_ok_def)

lemma budget_nonneg: "bucket_ok r a rl \<Longrightarrow> 0 \<le> r \<Longrightarrow> 0 \<le> budget r a u rl"
  by (force simp: budget_def bucket_ok_def tokens_ok_def intro!: add_nonneg_nonneg accrued_nonneg split: option.split)

text \<open>One call of the limiter at the configured rate, whoever made it.\<close>

lemma limiter_call:
  assumes "bucket_ok r a rl" "1 \<le> r" "r \<le> 2 ^ 53" "rnd r = r" "gw_requestsPerMin gw = Fin r"
    and "a \<le> ge_create env" "ge_create env \<le> ge_now env" "rate_limiter env gw v rl = (ok, rl')"
  shows "bucket_ok r (ge_now env) rl'"
    "spent (ok \<and> u = v) + budget r (ge_now env) u rl' \<le> budget r a u rl + accrued r a (ge_now env) + r * pow2 (- 50)"
proof -
  have A: "RateLimiter_Allow v (Fin r) (ge_create env) (ge_now env) rl = (ok, rl')"
    using assms(2,5,8) by (simp add: rate_limiter_def)
  show "bucket_ok r (ge_now env) rl'"
    using Allow_bucket_ok [OF assms(1) _ assms(3,4,6,7), of v] A assms(2) by simp
  show "spent (ok \<and> u = v) + budget r (ge_now env) u rl' \<le> budget r a u rl + accrued r a (ge_now env) + r * pow2 (- 50)"
  proof (cases "u = v")
    case True
    then show ?thesis using Allow_spends [OF assms(1-4,6,7), of v] A by simp
  next
    case False
    have e: "0 \<le> r * pow2 (- 50)" using assms(2) by simp
    have "budget r (ge_now env) u rl' \<le> budget r a u rl + accrued r a (ge_now env)"
      using Allow_other_budget [OF assms(1), of "ge_now env" v u "ge_create env"] A assms(2,6,7) False by simp
    then show ?thesis using e False by (simp add: spent_def)
  qed
qed

lemma arrive_rated:
  assumes r: "bucket_ok r a (gs_limiter st)" "1 \<le> r" "r \<le> 2 ^ 53" "rnd r = r" "gw_requestsPerMin gw = Fin r"
    and t: "a \<le> ge_create env" "ge_create env \<le> ge_now env"
  shows "bucket_ok r (ge_now env) (gs_limiter (snd (arrive env gw q st))) \<and>
    of_nat (sent_by u (snd (arrive env gw q st))) + budget r (ge_now env) u (gs_limiter (snd (arrive env gw q st))) \<le>
      of_nat (sent_by u st) + budget r a u (gs_limiter st) + accrued r a (ge_now env) + r * pow2 (- 50)"
proof (cases rule: arrive_cases [of env gw q st])
  case (answered resp st')
  have e: "0 \<le> r * pow2 (- 50)" using r(2) by simp
  consider "gs_limiter st' = gs_limiter st" | v ok where "rate_limiter env gw v (gs_limiter st) = (ok, gs_limiter st')"
    using answered(2) by (metis prod.collapse)
  then show ?thesis
  proof cases
    case 1
    have "budget r (ge_now env) u (gs_limiter st) \<le> budget r a u (gs_limiter st) + (accrued r a (ge_now env) + r * pow2 (- 50))"
      using budget_later [OF r(1), of "ge_now env" u] e r(2) t by (auto intro: order_trans add_increasing2)
    with answered 1 t show ?thesis using bucket_ok_later [OF r(1), of "ge_now env"] by simp
  next
    case (2 v ok)
    have "0 \<le> spent (ok \<and> u = v)" by (simp add: spent_def)
    with answered limiter_call(1) [OF r t 2] limiter_call(2) [OF r t 2, of u] show ?thesis by simp
  qed
next
  case (admitted j st')
  have c: "rate_limiter env gw (jb_user j) (gs_limiter st) = (True, gs_limiter st')"
    using admitted(6,7) by (metis prod.collapse)
  from admitted limiter_call(1) [OF r t c] limiter_call(2) [OF r t c, of u] show ?thesis by (simp add: spent_def split: if_splits)
qed

lemma arrive_gateway_rated:
  assumes r: "bucket_ok r a (gs_limiter st)" "1 \<le> r" "r \<le> 2 ^ 53" "rnd r = r" "se_rateLimit (cp_settings cp) = Fin r"
    and t: "a \<le> ge_create env" "ge_create env \<le> ge_now env"
  shows "bucket_ok r (ge_now env) (gs_limiter (snd (arrive_gateway env le cp q st))) \<and>
    of_nat (sent_by u (snd (arrive_gateway env le cp q st))) + budget r (ge_now env) u (gs_limiter (snd (arrive_gateway env le cp q st))) \<le>
      of_nat (sent_by u st) + budget r a u (gs_limiter st) + accrued r a (ge_now env) + r * pow2 (- 50)"
proof (cases "auth_panics le cp q")
  case True
  then show ?thesis
    using budget_later [OF r(1), of "ge_now env" u] bucket_ok_later [OF r(1), of "ge_now env"] r(2) t
    by (simp add: arrive_gateway_def sent_by_def add_increasing2)
next
  case False
  have rpm: "gw_requestsPerMin (live_gateway le cp) = Fin r" using r(5) by simp
  from False arrive_rated [OF r(1-4) rpm t, of q u] show ?thesis by (simp add: arrive_gateway_def)
qed

definition rated :: "rat \<Rightarrow> time \<Rightarrow> gostr \<Rightarrow> 'q serving \<Rightarrow> bool" where
  "rated r t0 u s \<longleftrightarrow>
     (se_rateLimit (cp_settings (sg_components s)) = Fin r \<and> 1 \<le> r \<and> r \<le> 2 ^ 53 \<and> rnd r = r \<longrightarrow>
      bucket_ok r (sg_clock s) (gs_limiter (sg_state s)) \<and>
      of_nat (sent_by u (sg_state s)) + budget r (sg_clock s) u (gs_limiter (sg_state s)) \<le>
        r + accrued r t0 (sg_clock s) + of_nat (sg_arrived s) * (r * pow2 (- 50)))"

interpretation rating: serving_invariant cp q t0 "rated r t0 u" for cp q t0 r u
proof
  show "rated r t0 u (started cp q t0)"
    by (simp add: rated_def started_def bucket_ok_def sent_by_def budget_def accrued_def)
next
  fix s s' :: "'a serving"
  assume I: "rated r t0 u s" and "serving_step s s'"
  from this(2) show "rated r t0 u s'"
  proof (cases rule: serving_step.cases)
    case (arrives q env le)
    show ?thesis unfolding rated_def
    proof
      assume "se_rateLimit (cp_settings (sg_components s')) = Fin r \<and> 1 \<le> r \<and> r \<le> 2 ^ 53 \<and> rnd r = r"
      then have r: "se_rateLimit (cp_settings (sg_components s)) = Fin r" "1 \<le> r" "r \<le> 2 ^ 53" "rnd r = r"
        using arrives(1) by simp_all
      with I have b: "bucket_ok r (sg_clock s) (gs_limiter (sg_state s))"
        "of_nat (sent_by u (sg_state s)) + budget r (sg_clock s) u (gs_limiter (sg_state s)) \<le>
           r + accrued r t0 (sg_clock s) + of_nat (sg_arrived s) * (r * pow2 (- 50))"
        by (simp_all add: rated_def)
      from arrive_gateway_rated [OF b(1) r(2,3,4,1) arrives(4,5), of le q u] b(2) accrued_add [of r t0 "sg_clock s" "ge_now env"]
      show "bucket_ok r (sg_clock s') (gs_limiter (sg_state s')) \<and>
        of_nat (sent_by u (sg_state s')) + budget r (sg_clock s') u (gs_limiter (sg_state s')) \<le>
          r + accrued r t0 (sg_clock s') + of_nat (sg_arrived s') * (r * pow2 (- 50))"
        unfolding arrives(1) by (simp add: algebra_simps)
    qed
  qed (use I in \<open>simp_all add: rated_def answer_counts\<close>)
qed

text \<open>C9: Rate conformance of the running process. With \<open>r\<close> requests per minute configured, the requests of
  one user which the audit trail shows as handed to a backend number at every moment at most
  \<open>r + r * (elapsed / 60 s)\<close>, one full bucket and what the elapsed time refills, plus the rounding of the
  float64 arithmetic, below \<open>r / 2^50\<close> for each request that arrived; whatever other users, the discovery
  loop, the poller, the backends and the shutdown do in between.\<close>

theorem forwarded_rate:
  assumes "serving_step\<^sup>*\<^sup>* (started cp q t0) s"
    and "se_rateLimit (cp_settings (sg_components s)) = Fin r" "1 \<le> r" "r \<le> 2 ^ 53" "rnd r = r"
  shows "of_nat (sent_by u (sg_state s)) \<le>
    r + r * of_int (sg_clock s - t0) / 60000000000 + of_nat (sg_arrived s) * (r / 2 ^ 50)"
proof -
  have "pow2 (- 50) = 1 / 2 ^ 50" by (simp add: pow2_def)
  with rating.holds [OF assms(1), of r u] assms(2-) budget_nonneg [of r "sg_clock s" "gs_limiter (sg_state s)" u]
  show ?thesis by (simp add: rated_def accrued_def)
qed

subsection \<open>The audit trail over a run\<close>

text \<open>A request entry for a named user is lawful when the profile of that user allows the source address
  and the model.\<close>

definition lawful_call :: "KeyStore \<Rightarrow> audit_call \<Rightarrow> bool" where
  "lawful_call ks c \<longleftrightarrow> (case c of
     CallRequest u m e mt ip ua cid n \<Rightarrow> u = [] \<or>
       (\<exists>p. ks_Users ks u = Some p \<and> IsIPAllowed p ip \<and> list_ex (\<lambda>x. x = ''*'' \<or> x = m) (up_AllowedModels p))
   | _ \<Rightarrow> True)"

lemma lawful_call_simps [simp]:
  "lawful_call ks (CallResponse v m e cid st sz i o' d)" "lawful_call ks (CallError v e cid msg st ip)"
  "lawful_call ks (CallAuthFailure k e ip err)"
  by (simp_all add: lawful_call_def)

lemma arrive_entry:
  assumes "c \<in> set (gs_audit (snd (arrive env gw r st)))" "c \<notin> set (gs_audit st)"
  shows "lawful_call ks c \<or>
    (\<exists>u. c = request_call env r u (extractModelName env r) \<and>
       authenticate gw r (on_metrics RecordRequest st) = Inr u \<and> admissible env gw r u (on_metrics RecordRequest st))"
proof (cases "authenticate gw r (on_metrics RecordRequest st)")
  case (Inl d)
  obtain resp st' where d: "authenticate gw r (on_metrics RecordRequest st) = Inl (resp, st')" using Inl by (cases d) auto
  with assms authenticate_deny [OF d] show ?thesis by (auto simp: arrive_def)
next
  case (Inr u)
  show ?thesis
  proof (cases "special_endpoint env gw r u")
    case (Some resp)
    with Inr assms show ?thesis by (simp add: arrive_def)
  next
    case None
    show ?thesis
    proof (cases "run_gates (gates env gw r u (extractModelName env r)) (on_metrics RecordRequest st)")
      case (Inl d)
      obtain resp st' where d: "run_gates (gates env gw r u (extractModelName env r)) (on_metrics RecordRequest st) = Inl (resp, st')"
        using Inl by (cases d) auto
      with Inr None assms gates_deny [OF d] show ?thesis by (auto simp: arrive_def Let_def denied_def)
    next
      case g: (Inr st1)
      with Inr None assms gates_pass [of env gw r u "on_metrics RecordRequest st" st1] show ?thesis
        by (auto simp: arrive_def Let_def)
    qed
  qed
qed

lemma admissible_lawful:
  assumes "cp_store cp = Some ks" "keyed ks" "authenticate (live_gateway le cp) r st = Inr u" "admissible env (live_gateway le cp) r u st"
  shows "lawful_call ks (request_call env r u (extractModelName env r))"
proof (cases "u = []")
  case False
  from authenticate_user [OF assms(1) False, of le r st] assms(3) obtain p
    where "GetByKey (le_prims le) (le_order le) (request_key (live_gateway le cp) r) ks = Inr (Some p)" "up_ID p = u" by blast
  with GetByKey_stored [OF this(1) assms(2)] assms(1,4) False show ?thesis
    by (auto simp: lawful_call_def request_call_def admissible_def ip_ok_def access_ok_def access_controller_def Let_def
        CanAccess_def IsSourceIPAllowed_def GetByID_def)
qed (simp add: lawful_call_def request_call_def)

lemma complete_entry:
  "c \<in> set (gs_audit (snd (complete gw j resp st))) \<Longrightarrow> c \<in> set (gs_audit st) \<or> lawful_call ks c"
proof -
  assume c: "c \<in> set (gs_audit (snd (complete gw j resp st)))"
  have "finish (jb_env j) gw (jb_request j) (jb_user j) (jb_model j) resp st =
      (fst (complete gw j resp st), snd (complete gw j resp st))" by (simp add: complete_def)
  from finish_audit [OF this] c show ?thesis by (auto split: if_splits)
qed

definition lawful_trail :: "'q serving \<Rightarrow> bool" where
  "lawful_trail s \<longleftrightarrow> (\<forall>ks. cp_store (sg_components s) = Some ks \<and> keyed ks \<longrightarrow> list_all (lawful_call ks) (gs_audit (sg_state s)))"

lemma store_simps [simp]:
  "cp_store (sg_components (on_router f s)) = cp_store (sg_components s)"
  "cp_store (sg_components (with_admission c s)) = cp_store (sg_components s)"
  by (simp_all add: on_router_def with_admission_def)

interpretation lawfulness: serving_invariant cp q t0 lawful_trail for cp q t0
proof
  show "lawful_trail (started cp q t0)" by (simp add: lawful_trail_def started_def)
next
  fix s s' :: "'a serving"
  assume I: "lawful_trail s" and "serving_step s s'"
  from this(2) show "lawful_trail s'"
  proof (cases rule: serving_step.cases)
    case (arrives r env le)
    show ?thesis unfolding lawful_trail_def
    proof (intro allI impI)
      fix ks assume ks: "cp_store (sg_components s') = Some ks \<and> keyed ks"
      then have ks': "cp_store (sg_components s) = Some ks" "keyed ks" using arrives(1) by simp_all
      have old: "list_all (lawful_call ks) (gs_audit (sg_state s))" using I ks' by (simp add: lawful_trail_def)
      have "lawful_call ks c" if "c \<in> set (gs_audit (sg_state s'))" "c \<notin> set (gs_audit (sg_state s))" for c
        using that arrives(1) arrive_entry [of c env "live_gateway le (sg_components s)" r "sg_state s" ks]
          admissible_lawful [OF ks', of le r "on_metrics RecordRequest (sg_state s)"]
        by (auto simp: arrive_gateway_def split: if_splits)
      with old show "list_all (lawful_call ks) (gs_audit (sg_state s'))" by (auto simp: list_all_iff)
    qed
  next
    case (answers i le resp)
    with I show ?thesis
      using complete_entry [of _ "live_gateway le (sg_components s)" "sg_flight s ! i" resp "sg_state s"]
      by (auto simp: lawful_trail_def list_all_iff)
  qed (use I in \<open>simp_all add: lawful_trail_def\<close>)
qed

text \<open>C4: Whoever was served was allowed to be. With a key file whose profiles are filed under their IDs, every
  request entry a named user has in the audit trail of a running process, at any moment and whatever was
  interleaved, came from an address which the profile of that user allows and asked for a model it lists
  (or it lists the wildcard).\<close>

theorem trail_lawful:
  assumes "serving_step\<^sup>*\<^sup>* (started cp q t0) s" "cp_store (sg_components s) = Some ks" "keyed ks"
    and "CallRequest u m e mt ip ua cid n \<in> set (gs_audit (sg_state s))" "u \<noteq> []"
  shows "\<exists>p. ks_Users ks u = Some p \<and> IsIPAllowed p ip \<and> list_ex (\<lambda>x. x = ''*'' \<or> x = m) (up_AllowedModels p)"
  using lawfulness.holds [OF assms(1)] assms(2-) by (fastforce simp: lawful_trail_def lawful_call_def list_all_iff)

subsection \<open>Router, poller and requests in flight over a run\<close>

text \<open>The thresholds of a controller lie between the configured floor and ceiling.\<close>

definition calibrated :: "Controller \<Rightarrow> bool" where
  "calibrated c \<longleftrightarrow> (\<forall>mn H m st. config_ok (ct_cfg c) mn H \<longrightarrow> ct_states c m = Some st \<longrightarrow> threshold_ok mn H st)"

definition poller_ok :: "Controller \<Rightarrow> bool" where
  "poller_ok c \<longleftrightarrow> (ct_cancel c \<or> ct_done c) \<and> calibrated c"

definition sound :: "components \<Rightarrow> bool" where
  "sound cp \<longleftrightarrow> registry_ok (rt_registry (cp_router cp)) \<and> pred_option poller_ok (cp_admission cp)"

definition target_of :: "components \<Rightarrow> gw_env \<Rightarrow> url \<Rightarrow> bool" where
  "target_of cp env t \<longleftrightarrow> t = cp_target cp \<or> (\<exists>port. ge_parse_url env (local_url port) = Some t)"

text \<open>A request that was handed to the reverse proxy goes to the configured backend or to a local port.\<close>

definition routed :: "components \<Rightarrow> job \<Rightarrow> bool" where
  "routed cp j \<longleftrightarrow> (\<forall>out. jb_out j = Some out \<longrightarrow>
     (\<exists>t. target_of cp (jb_env j) t \<and> u_Scheme (r_URL out) = u_Scheme t \<and> u_Host (r_URL out) = u_Host t))"

definition wound_down :: "'q serving \<Rightarrow> bool" where
  "wound_down s \<longleftrightarrow> (sg_phase s \<noteq> Accepting \<longrightarrow> rt_done (cp_router (sg_components s))) \<and>
     (sg_phase s \<in> {PollerStopped, Closed} \<longrightarrow>
        pred_option (\<lambda>c. \<not> ct_cancel c \<and> ct_done c) (cp_admission (sg_components s)))"

definition orderly :: "components \<Rightarrow> 'q serving \<Rightarrow> bool" where
  "orderly cp s \<longleftrightarrow> (sound cp \<longrightarrow> sound (sg_components s) \<and> cp_target (sg_components s) = cp_target cp \<and>
     list_all (routed cp) (sg_flight s) \<and> wound_down s)"

lemma refresh_done [simp]: "rt_done (fst (refresh gm gc r)) = rt_done r" "rt_managementURL (fst (refresh gm gc r)) = rt_managementURL r"
  by (cases rule: refresh_cases [of gm gc r]; simp)+

lemma obs_run_flags: "ct_cancel (obs_run es c) = ct_cancel c \<and> ct_done (obs_run es c) = ct_done c"
  by (induction es c rule: obs_run.induct) (simp_all add: observe_def Let_def)

lemma tick_sound:
  assumes "calibrated c"
  shows "calibrated (tick models fetch clock c)" "ct_cancel (tick models fetch clock c) = ct_cancel c"
    "ct_done (tick models fetch clock c) = ct_done c"
proof -
  obtain es where e: "tick models fetch clock c = obs_run es c"
  proof (cases models)
    case None
    show thesis by (rule that [of "[]"]) (simp add: tick_def None)
  next
    case (Some ms)
    with tick_loop_obs [of fetch clock "int (length ms)" 0 ms c] that show thesis by (auto simp: tick_def)
  qed
  have new: "threshold_ok mn H (new_state (ct_cfg c))" if "config_ok (ct_cfg c) mn H" for mn H
    using that by (auto simp: threshold_ok_def config_ok_def new_state_def)
  show "calibrated (tick models fetch clock c)"
    unfolding calibrated_def e obs_run_fixed
  proof (intro allI impI)
    fix mn H m st
    assume ok: "config_ok (ct_cfg c) mn H" and st: "ct_states (obs_run es c) m = Some st"
    show "threshold_ok mn H st"
      by (rule obs_run_inv [where P = "threshold_ok mn H", OF observe_threshold_ok [OF ok] new [OF ok] _ st])
        (use assms ok in \<open>auto simp: calibrated_def\<close>)
  qed
  show "ct_cancel (tick models fetch clock c) = ct_cancel c" "ct_done (tick models fetch clock c) = ct_done c"
    using obs_run_flags [of es c] by (simp_all add: e)
qed

lemma tick_poller_ok: "poller_ok c \<Longrightarrow> poller_ok (tick models fetch clock c)"
  using tick_sound [of c models fetch clock] by (simp add: poller_ok_def)

lemma stop_poller_ok:
  "Admission.Stop c = Some c' \<Longrightarrow> \<not> ct_cancel c' \<and> ct_done c' \<and> (poller_ok c \<longrightarrow> poller_ok c')"
  by (auto simp: Admission.Stop_def calibrated_def poller_ok_def split: if_splits)

lemma poller_stops: "poller_ok c \<Longrightarrow> \<exists>c'. Admission.Stop c = Some c'"
  by (auto simp: Admission.Stop_def poller_ok_def)

lemma director_to:
  assumes "director parse gw req = Some out"
  shows "\<exists>t u. director_target parse gw (r_URL req) = Some (t, u) \<and> u_Scheme (r_URL out) = u_Scheme t \<and> u_Host (r_URL out) = u_Host t \<and>
    u_Path (r_URL out) = singleJoiningSlash (u_Path t) (u_Path u) \<and> r_Body out = r_Body req"
  using assms by (auto simp: director_def Let_def split: option.splits)

lemma dispatch_routed:
  assumes "registry_ok (rt_registry (cp_router cp))" "dispatch (live_gateway le cp) j = Some j'"
  shows "routed cp j'"
proof -
  obtain out where out: "director (ge_parse_url (jb_env j)) (live_gateway le cp) (jb_request j) = Some out" "j' = j\<lparr> jb_out := Some out \<rparr>"
    using assms(2) by (auto simp: dispatch_def)
  from director_to [OF out(1)] obtain t u where t: "director_target (ge_parse_url (jb_env j)) (live_gateway le cp) (r_URL (jb_request j)) = Some (t, u)"
    "u_Scheme (r_URL out) = u_Scheme t" "u_Host (r_URL out) = u_Host t" by blast
  have "target_of cp (jb_env j) t"
    using t(1) assms(1)
    by (auto simp: director_target_def target_of_def Let_def GetBackend_def registry_ok_def split: if_splits option.splits)
  with t out(2) show ?thesis by (auto simp: routed_def)
qed

interpretation ordering: serving_invariant cp q t0 "orderly cp" for cp q t0
proof
  show "orderly cp (started cp q t0)" by (simp add: orderly_def started_def wound_down_def)
next
  fix s s' :: "'a serving"
  assume I: "orderly cp s" and "serving_step s s'"
  from this(2) show "orderly cp s'"
  proof (cases rule: serving_step.cases)
    case (arrives r env le)
    have "routed cp j" if "fst (arrive_gateway env le (sg_components s) r (sg_state s)) = Admitted j" for j
    proof -
      from that have "fst (arrive env (live_gateway le (sg_components s)) r (sg_state s)) = Admitted j"
        by (auto simp: arrive_gateway_def split: if_splits)
      then have "jb_out j = None"
        by (cases rule: arrive_cases [of env "live_gateway le (sg_components s)" r "sg_state s"]) simp_all
      then show ?thesis by (simp add: routed_def)
    qed
    with I arrives show ?thesis by (auto simp: orderly_def wound_down_def split: arrival.split)
  next
    case (dispatches i le)
    let ?x = "dispatch (live_gateway le (sg_components s)) (sg_flight s ! i)"
    have same: "routed (sg_components s) = routed cp" if "sound cp"
      using I that by (simp add: orderly_def routed_def target_of_def fun_eq_iff)
    have "list_all (routed cp) (sg_flight s')" if c: "sound cp"
    proof -
      have old: "list_all (routed cp) (sg_flight s)" using I c by (simp add: orderly_def)
      have reg: "registry_ok (rt_registry (cp_router (sg_components s)))" using I c unfolding orderly_def sound_def by blast
      have flight: "sg_flight s' = (case ?x of None \<Rightarrow> without i (sg_flight s) | Some j \<Rightarrow> (sg_flight s)[i := j])"
        unfolding dispatches(1) with_dispatch_def by simp
      show ?thesis
      proof (cases ?x)
        case None
        then show ?thesis using list_all_without [OF old] unfolding flight by simp
      next
        case (Some j)
        have "routed cp j" using dispatch_routed [OF reg Some] same [OF c] by simp
        then show ?thesis using list_all_update [OF old] unfolding flight Some by simp
      qed
    qed
    then show ?thesis
      using I by (simp add: orderly_def wound_down_def dispatches(1))
  next
    case (answers i le resp)
    with I list_all_without [of "routed cp" "sg_flight s" i] show ?thesis by (simp add: orderly_def wound_down_def)
  next
    case (refreshes gm gc)
    with I show ?thesis by (auto simp: orderly_def sound_def wound_down_def intro: registry_ok_refresh)
  next
    case (polls c models fetch clock)
    with I tick_poller_ok [of c models fetch clock] show ?thesis by (auto simp: orderly_def sound_def wound_down_def)
  next
    case (stops_poller c c')
    with I stop_poller_ok [of c c'] show ?thesis by (auto simp: orderly_def sound_def wound_down_def)
  qed (use I in \<open>auto simp: orderly_def sound_def wound_down_def Router_Stop_def\<close>)
qed

lemma started_sound:
  assumes "start_gateway si se = Inr cp"
  shows "sound cp" "rt_loop (cp_router cp)" "cp_settings cp = se"
proof -
  have reg: "registry_ok (rt_registry (StartDiscovery gm gc (NewModelRouter u)))" for gm gc u
    by (simp add: StartDiscovery_def NewModelRouter_def registry_ok_refresh registry_ok_def [of Map.empty])
  have adm: "poller_ok c" if "buildAdmissionController henv cfg = Inr (Some c)" for henv cfg c
    using that by (auto simp: buildAdmissionController_def Let_def Admission.Start_def Admission.New_def poller_ok_def calibrated_def split: if_splits)
  have cp: "buildAdmissionController (si_hw si) (se_admission se) = Inr (cp_admission cp) \<and> cp_settings cp = se \<and>
      cp_router cp = StartDiscovery (si_models si) (si_caps si) (NewModelRouter (se_discoveryURL se))"
    using assms by (auto simp: start_gateway_def split: sum.splits option.splits if_splits)
  then show "cp_settings cp = se" "rt_loop (cp_router cp)" by (simp_all add: StartDiscovery_def)
  show "sound cp" using cp reg adm by (auto simp: sound_def option.pred_set)
qed

text \<open>C11: What the router and the poller rest on, at every moment of a run. From a start on, every entry of the
  routing table is filed under its own name, was running when listed and points at its local port; with an
  admission configuration in range, the threshold of every model lies between the configured floor and
  ceiling; every request handed to the reverse proxy goes to the configured backend or to a local port; and
  once the router or the poller was stopped, it stays stopped.\<close>

theorem process_orderly:
  assumes "start_gateway si se = Inr cp" "serving_step\<^sup>*\<^sup>* (started cp q t0) s"
  shows "registry_ok (rt_registry (cp_router (sg_components s))) \<and>
    (\<forall>c mn H m st. cp_admission (sg_components s) = Some c \<and> config_ok (ct_cfg c) mn H \<and> ct_states c m = Some st \<longrightarrow>
       (\<exists>h. ms_hardThresholdPct st = Fin h \<and> mn \<le> h \<and> h \<le> H)) \<and>
    (\<forall>j \<in> set (sg_flight s). \<forall>out. jb_out j = Some out \<longrightarrow>
       (\<exists>t. (t = cp_target cp \<or> (\<exists>port. ge_parse_url (jb_env j) (local_url port) = Some t)) \<and>
          u_Scheme (r_URL out) = u_Scheme t \<and> u_Host (r_URL out) = u_Host t)) \<and>
    (sg_phase s \<noteq> Accepting \<longrightarrow> rt_done (cp_router (sg_components s))) \<and>
    (sg_phase s \<in> {PollerStopped, Closed} \<longrightarrow>
       (\<forall>c. cp_admission (sg_components s) = Some c \<longrightarrow> \<not> ct_cancel c \<and> ct_done c))"
proof -
  have "orderly cp s" by (rule ordering.holds [OF assms(2)])
  with started_sound(1) [OF assms(1)] have o: "sound (sg_components s)" "list_all (routed cp) (sg_flight s)" "wound_down s"
    by (simp_all add: orderly_def)
  have "threshold_ok mn H st" if "cp_admission (sg_components s) = Some c" "config_ok (ct_cfg c) mn H" "ct_states c m = Some st" for c mn H m st
    using o(1) that by (auto simp: sound_def poller_ok_def calibrated_def)
  then have t: "\<forall>c mn H m st. cp_admission (sg_components s) = Some c \<and> config_ok (ct_cfg c) mn H \<and> ct_states c m = Some st \<longrightarrow>
      (\<exists>h. ms_hardThresholdPct st = Fin h \<and> mn \<le> h \<and> h \<le> H)"
    unfolding threshold_ok_def by blast
  have r: "registry_ok (rt_registry (cp_router (sg_components s)))" using o(1) by (simp add: sound_def)
  have w: "\<not> ct_cancel c \<and> ct_done c" if "sg_phase s \<in> {PollerStopped, Closed}" "cp_admission (sg_components s) = Some c" for c
    using o(3) that by (auto simp: wound_down_def)
  have d: "sg_phase s \<noteq> Accepting \<longrightarrow> rt_done (cp_router (sg_components s))" using o(3) by (simp add: wound_down_def)
  show ?thesis
    using o(2) by (intro conjI r t d) (use w in \<open>auto simp: routed_def target_of_def list_all_iff\<close>)
qed

subsection \<open>A refresh between admission and hand-over\<close>

lemma empty_refresh:
  "rt_registry (fst (refresh (\<lambda>_. HttpResp 200 (Some [])) gc r)) = Map.empty"
  by (simp add: refresh_def)

text \<open>C12: The table is read twice. While the discovery loop runs, a request under \<open>/models/{name}/\<close> that was admitted
  for that model and waits to be handed over can still reach the configured default backend, whatever that
  serves: one refresh that no longer lists the model is enough. The request that goes out has the directive
  removed, so the backend cannot tell; nothing is audited or counted.\<close>

theorem admitted_model_elsewhere:
  assumes "sg_phase s \<noteq> Closed" "rt_loop (cp_router (sg_components s))" "i < length (sg_flight s)" "jb_out (sg_flight s ! i) = None"
    and "extractModelNameFromPath (u_Path (r_URL (jb_request (sg_flight s ! i)))) = name" "name \<noteq> []"
  shows "\<exists>s1 s2 out. serving_step s s1 \<and> serving_step s1 s2 \<and> jb_out (sg_flight s2 ! i) = Some out \<and> sg_state s2 = sg_state s \<and>
    jb_model (sg_flight s2 ! i) = jb_model (sg_flight s ! i) \<and>
    u_Scheme (r_URL out) = u_Scheme (cp_target (sg_components s)) \<and> u_Host (r_URL out) = u_Host (cp_target (sg_components s)) \<and>
    u_Path (r_URL out) = singleJoiningSlash (u_Path (cp_target (sg_components s)))
      (stripModelPrefixFromPath (u_Path (r_URL (jb_request (sg_flight s ! i)))) name)"
proof -
  let ?s1 = "on_router (\<lambda>rt. fst (refresh (\<lambda>_. HttpResp 200 (Some [])) (\<lambda>_. CapsErr) rt)) s"
  let ?j = "sg_flight s ! i" and ?t = "cp_target (sg_components s)"
  let ?gw = "\<lambda>le. live_gateway (le :: 'a live_env) (sg_components ?s1)"
  have one: "serving_step s ?s1" by (rule serving_step.refreshes) (use assms in simp_all)
  have "director_target (ge_parse_url (jb_env ?j)) (?gw le) (r_URL (jb_request ?j)) =
      Some (?t, (r_URL (jb_request ?j))\<lparr> u_Path := stripModelPrefixFromPath (u_Path (r_URL (jb_request ?j))) name, u_RawPath := [] \<rparr>)" for le
    using assms(5,6) by (simp add: director_target_def Let_def GetBackend_def empty_refresh)
  then obtain out where "director (ge_parse_url (jb_env ?j)) (?gw undefined) (jb_request ?j) = Some out"
    "u_Scheme (r_URL out) = u_Scheme ?t \<and> u_Host (r_URL out) = u_Host ?t \<and>
     u_Path (r_URL out) = singleJoiningSlash (u_Path ?t) (stripModelPrefixFromPath (u_Path (r_URL (jb_request ?j))) name)"
    by (simp add: director_def Let_def)
  then have d: "dispatch (?gw undefined) (sg_flight ?s1 ! i) = Some (?j\<lparr> jb_out := Some out \<rparr>)"
    and out: "u_Scheme (r_URL out) = u_Scheme ?t \<and> u_Host (r_URL out) = u_Host ?t \<and>
     u_Path (r_URL out) = singleJoiningSlash (u_Path ?t) (stripModelPrefixFromPath (u_Path (r_URL (jb_request ?j))) name)"
    by (simp_all add: dispatch_def)
  let ?s2 = "with_dispatch i (Some (?j\<lparr> jb_out := Some out \<rparr>)) ?s1"
  have two: "serving_step ?s1 ?s2"
    using serving_step.dispatches [of ?s1 i undefined] assms d by simp
  have "sg_flight ?s2 ! i = ?j\<lparr> jb_out := Some out \<rparr>" using assms(3) by (simp add: with_dispatch_def)
  with one two out show ?thesis by (intro exI [of _ ?s1] exI [of _ ?s2] exI [of _ out]) simp
qed

subsection \<open>The quota over a run\<close>

text \<open>Without a rate limit, what admits a request depends on the quota alone among the state.\<close>

lemma arrive_admitted:
  assumes "fst (arrive env gw r st) = Admitted j" "\<not> Fin 0 < gw_requestsPerMin gw" "gs_quota st' = gs_quota st"
  shows "fst (arrive env gw r st') = Admitted j" "gs_quota (snd (arrive env gw r st')) = gs_quota st'"
proof -
  have rl: "rate_limiter env gw u l = (True, l)" for u l using assms(2) by (simp add: rate_limiter_def)
  obtain u where u: "authenticate gw r (on_metrics RecordRequest st) = Inr u" "authenticate gw r (on_metrics RecordRequest st') = Inr u"
    using assms(1) authenticate_state [of gw r "on_metrics RecordRequest st" "on_metrics RecordRequest st'"]
    by (auto simp: arrive_def split: sum.splits)
  have special: "special_endpoint env gw r u = None" using assms(1) u by (auto simp: arrive_def Let_def split: option.splits)
  let ?g = "run_gates (gates env gw r u (extractModelName env r))"
  obtain st1 where g: "?g (on_metrics RecordRequest st) = Inr st1"
    using assms(1) u special by (auto simp: arrive_def Let_def split: sum.splits)
  then have "admissible env gw r u (on_metrics RecordRequest st)" by (simp add: gates_pass)
  then have "admissible env gw r u (on_metrics RecordRequest st')" using assms(3) by (simp add: admissible_def rl)
  then have g': "?g (on_metrics RecordRequest st') = Inr ((on_metrics RecordRequest st')\<lparr> gs_limiter := gs_limiter st' \<rparr>)"
    by (simp add: gates_pass rl)
  show "fst (arrive env gw r st') = Admitted j" "gs_quota (snd (arrive env gw r st')) = gs_quota st'"
    using assms(1) u special g g' by (simp_all add: arrive_def Let_def)
qed

text \<open>C13: The quota is charged only when a backend has answered. Without a rate limit, a request that is admitted at some
  moment of a run is admitted again and again until an answer comes: for every \<open>n\<close> the process can reach a state with
  \<open>n\<close> more of them in flight and the quota as it was, so one token that is left admits any number of requests of
  any size.\<close>

theorem quota_overrun:
  assumes "sg_phase s \<noteq> Closed" "mux_route gateway_routes r = Handler G_Gateway" "sg_clock s \<le> ge_now env" "ge_create env = ge_now env"
    and "\<not> Fin 0 < se_rateLimit (cp_settings (sg_components s))"
    and "fst (arrive_gateway env le (sg_components s) r (sg_state s)) = Admitted j"
  shows "\<exists>s'. serving_step\<^sup>*\<^sup>* s s' \<and> sg_flight s' = sg_flight s @ replicate n j \<and> gs_quota (sg_state s') = gs_quota (sg_state s)"
proof -
  have np: "\<not> auth_panics le (sg_components s) r" and
    adm: "fst (arrive env (live_gateway le (sg_components s)) r (sg_state s)) = Admitted j"
    using assms(6) by (auto simp: arrive_gateway_def split: if_splits)
  have "\<exists>s'. serving_step\<^sup>*\<^sup>* s s' \<and> sg_flight s' = sg_flight s @ replicate n j \<and> gs_quota (sg_state s') = gs_quota (sg_state s) \<and>
      sg_components s' = sg_components s \<and> sg_phase s' \<noteq> Closed \<and> sg_clock s' \<le> ge_now env"
  proof (induction n)
    case 0
    with assms(1,3) show ?case by (intro exI [of _ s]) simp
  next
    case (Suc n)
    then obtain s' where s': "serving_step\<^sup>*\<^sup>* s s'" "sg_flight s' = sg_flight s @ replicate n j"
      "gs_quota (sg_state s') = gs_quota (sg_state s)" "sg_components s' = sg_components s" "sg_phase s' \<noteq> Closed" "sg_clock s' \<le> ge_now env"
      by blast
    let ?x = "arrive_gateway env le (sg_components s') r (sg_state s')"
    have rpm: "\<not> Fin 0 < gw_requestsPerMin (live_gateway le (sg_components s))" using assms(5) by simp
    have x: "fst ?x = Admitted j" "gs_quota (snd ?x) = gs_quota (sg_state s')"
      using arrive_admitted [OF adm rpm s'(3)] np s'(4) by (simp_all add: arrive_gateway_def)
    have "serving_step s' (with_arrival env ?x s')"
      by (rule serving_step.arrives) (use s' assms(2,4) in simp_all)
    with s'(1) have "serving_step\<^sup>*\<^sup>* s (with_arrival env ?x s')" by simp
    with s' x show ?case
      by (intro exI [of _ "with_arrival env ?x s'"]) (simp add: replicate_append_same)
  qed
  then show ?thesis by blast
qed

subsection \<open>Shutdown\<close>

text \<open>A step that leaves requests, quota, limiter, metrics and audit trail as they are.\<close>

definition quiet_step :: "'q serving \<Rightarrow> 'q serving \<Rightarrow> bool" where
  "quiet_step s s' \<longleftrightarrow> serving_step s s' \<and> sg_flight s' = sg_flight s \<and> sg_state s' = sg_state s"

lemma quiet_stops:
  "sg_phase s = Accepting \<Longrightarrow> quiet_step s ((on_router Router_Stop s)\<lparr> sg_phase := RouterStopped \<rparr>)"
  "sg_phase s = RouterStopped \<Longrightarrow> cp_admission (sg_components s) = None \<Longrightarrow> quiet_step s (s\<lparr> sg_phase := PollerStopped \<rparr>)"
  "sg_phase s = RouterStopped \<Longrightarrow> cp_admission (sg_components s) = Some c \<Longrightarrow> Admission.Stop c = Some c' \<Longrightarrow>
     quiet_step s ((with_admission (Some c') s)\<lparr> sg_phase := PollerStopped \<rparr>)"
  "sg_phase s = PollerStopped \<Longrightarrow> quiet_step s (s\<lparr> sg_phase := Closed \<rparr>)"
  unfolding quiet_step_def by (auto intro: serving_step.intros)

lemma shuts_down:
  assumes "pred_option poller_ok (cp_admission (sg_components s))"
  shows "\<exists>s'. quiet_step\<^sup>*\<^sup>* s s' \<and> sg_phase s' = Closed"
proof -
  have close: "\<exists>s'. quiet_step\<^sup>*\<^sup>* s s' \<and> sg_phase s' = Closed" if "sg_phase s = PollerStopped" for s :: "'a serving"
    using quiet_stops(4) [OF that] by (intro exI [of _ "s\<lparr> sg_phase := Closed \<rparr>"]) simp
  have poller: "\<exists>s'. quiet_step\<^sup>*\<^sup>* s s' \<and> sg_phase s' = Closed"
    if ph: "sg_phase s = RouterStopped" and ok: "pred_option poller_ok (cp_admission (sg_components s))" for s :: "'a serving"
  proof -
    obtain s1 where s1: "quiet_step s s1" "sg_phase s1 = PollerStopped"
    proof (cases "cp_admission (sg_components s)")
      case None
      from that [OF quiet_stops(2) [OF ph None]] show thesis by simp
    next
      case (Some c)
      with ok obtain c' where "Admission.Stop c = Some c'" using poller_stops [of c] by auto
      from that [OF quiet_stops(3) [OF ph Some this]] show thesis by simp
    qed
    from close [OF s1(2)] s1(1) show ?thesis by (meson converse_rtranclp_into_rtranclp)
  qed
  show ?thesis
  proof (cases "sg_phase s")
    case Accepting
    let ?s = "(on_router Router_Stop s)\<lparr> sg_phase := RouterStopped \<rparr>"
    have "\<exists>s'. quiet_step\<^sup>*\<^sup>* ?s s' \<and> sg_phase s' = Closed" by (rule poller) (use assms in simp_all)
    with quiet_stops(1) [OF Accepting] show ?thesis by (meson converse_rtranclp_into_rtranclp)
  next
    case RouterStopped
    then show ?thesis using poller assms by blast
  next
    case PollerStopped
    then show ?thesis using close by blast
  qed blast
qed

lemma quiet_run: "quiet_step\<^sup>*\<^sup>* s s' \<Longrightarrow> sg_flight s' = sg_flight s \<and> sg_state s' = sg_state s"
  by (induction rule: rtranclp_induct) (simp_all add: quiet_step_def)

lemma closed_stays: "sg_phase s = Closed \<Longrightarrow> \<not> serving_step s s'"
  by (auto elim!: serving_stepE)

text \<open>C6: Shutdown never waits for requests. From every moment of a started process the shutdown can run to its
  end by its own steps alone, the wait for the poller included, with every request that was in flight still in
  flight; from there nothing happens any more, so a request in flight at that moment is not answered, never
  gets a closing entry in the audit trail and is never charged to its user's quota.\<close>

theorem shutdown_abandons:
  assumes "start_gateway si se = Inr cp" "serving_step\<^sup>*\<^sup>* (started cp q t0) s"
  shows "\<exists>s'. (\<lambda>a b. serving_step a b \<and> sg_flight b = sg_flight a \<and> sg_state b = sg_state a)\<^sup>*\<^sup>* s s' \<and>
    sg_phase s' = Closed \<and> sg_flight s' = sg_flight s \<and> sg_state s' = sg_state s \<and> (\<forall>s''. \<not> serving_step s' s'')"
proof -
  have "sound (sg_components s)" using ordering.holds [OF assms(2)] started_sound(1) [OF assms(1)] by (simp add: orderly_def)
  then obtain s' where "quiet_step\<^sup>*\<^sup>* s s'" "sg_phase s' = Closed" using shuts_down [of s] by (auto simp: sound_def)
  with quiet_run [of s s'] closed_stays [of s'] show ?thesis unfolding quiet_step_def by blast
qed

subsection \<open>Listening\<close>

text \<open>The last part of the start: the TLS settings of the configuration decide how the gateway listens.
  \<open>insecure_http\<close> is read from the configuration only.\<close>

datatype listener = PlainHTTP | HTTPS gostr gostr

definition gateway_listen ::
    "tls_prims \<Rightarrow> gen_env \<Rightarrow> gostr \<Rightarrow> bool \<Rightarrow> config \<Rightarrow> disk \<Rightarrow> (tls_error + listener) \<times> disk" where
  "gateway_listen P genv home mkdir_fails cfg d =
     (let t = (\<lambda>n. [''TLS'', n]); insecure = bool_at (t ''InsecureHTTP'') cfg in
      case Resolve P genv home mkdir_fails (string_at (t ''CertFile'') cfg) (string_at (t ''KeyFile'') cfg)
             (string_at (t ''Dir'') cfg) insecure [''localhost'', ''127.0.0.1''] d of
        (Inl e, d1) \<Rightarrow> (Inl e, d1)
      | (Inr (cert, key, _), d1) \<Rightarrow> (Inr (if insecure then PlainHTTP else HTTPS cert key), d1))"

lemma plain_only_when_asked:
  "fst (gateway_listen P genv home mk cfg d) = Inr PlainHTTP \<longleftrightarrow> bool_at [''TLS'', ''InsecureHTTP''] cfg"
  by (auto simp: gateway_listen_def Resolve_def Let_def split: sum.splits prod.splits if_splits option.splits)

subsection \<open>A run\<close>

text \<open>A gateway with one service account and two requests per minute, and its first request.\<close>

definition paid_components :: components where
  "paid_components = toy_components\<lparr> cp_settings := toy_settings\<lparr> se_rateLimit := Fin 2 \<rparr> \<rparr>"

definition first_request :: "unit serving" where
  "first_request = with_arrival llama_env
     (arrive_gateway llama_env toy_live paid_components llama_post (sg_state (started paid_components () 0))) (started paid_components () 0)"

lemma first_request_step: "serving_step (started paid_components () 0) first_request"
proof -
  have c: "sg_components (started paid_components () 0) = paid_components" by (simp add: started_def)
  have "mux_route gateway_routes llama_post = Handler G_Gateway" by code_simp
  then have "serving_step (started paid_components () 0) (with_arrival llama_env
     (arrive_gateway llama_env toy_live (sg_components (started paid_components () 0)) llama_post
       (sg_state (started paid_components () 0))) (started paid_components () 0))"
    by (intro serving_step.arrives) (simp_all add: started_def llama_env_def plain_env_def)
  then show ?thesis by (simp add: first_request_def c)
qed

lemma first_request_run: "serving_step\<^sup>*\<^sup>* (started paid_components () 0) first_request"
  using first_request_step by (rule r_into_rtranclp)

lemma first_request_simps:
  "sg_arrived first_request = 1" "sg_done first_request = 0" "sg_clock first_request = 0" "sg_components first_request = paid_components"
  by (simp_all add: first_request_def started_def llama_env_def plain_env_def)

lemma first_request_entry:
  "request_call llama_env llama_post ''u'' ''llama'' \<in> set (gs_audit (sg_state first_request))"
proof -
  have key: "request_key (live_gateway toy_live paid_components) llama_post = ''k''" by code_simp
  have look: "GetByKey (le_prims toy_live) (le_order toy_live) ''k'' one_user_store = Inr (Some (toy_user ''u'' ''k''))"
    by code_simp
  have store: "cp_store paid_components = Some one_user_store" by (simp add: paid_components_def toy_components_def)
  have np: "\<not> auth_panics toy_live paid_components llama_post"
    by (simp add: auth_panics_def key store Adapter_ValidateToken_def look)
  have "request_call llama_env llama_post ''u'' ''llama'' \<in>
      set (gs_audit (snd (arrive llama_env (live_gateway toy_live paid_components) llama_post (sg_state (started paid_components () 0)))))"
    by code_simp
  with np show ?thesis by (simp add: first_request_def arrive_gateway_def)
qed

theorem gauge_never_drains_witness:
  "total (sg_state first_request) = Some 1 \<and> active (sg_state first_request) = Some 1"
  using gauge_never_drains [OF first_request_run] by (simp add: first_request_simps)

theorem forwarded_rate_witness:
  "of_nat (sent_by ''u'' (sg_state first_request)) \<le> (2 + 2 / 2 ^ 50 :: rat)"
  using forwarded_rate [OF first_request_run, of 2 "''u''"] rnd_of_int [of 2]
  by (simp add: first_request_simps paid_components_def toy_components_def)

theorem trail_lawful_witness:
  "\<exists>p. ks_Users one_user_store ''u'' = Some p \<and> IsIPAllowed p (getClientIP llama_post) \<and>
     list_ex (\<lambda>x. x = ''*'' \<or> x = ''llama'') (up_AllowedModels p)"
proof (rule trail_lawful [OF first_request_run])
  show "cp_store (sg_components first_request) = Some one_user_store" "keyed one_user_store"
    by (simp_all add: first_request_simps paid_components_def toy_components_def one_user_store_def keyed_def toy_user_def)
  show "CallRequest ''u'' ''llama'' (r_RequestURI llama_post) (r_Method llama_post) (getClientIP llama_post)
     (HGet (r_Header llama_post) ''User-Agent'') (ge_correlationID llama_env) (body_len llama_post) \<in> set (gs_audit (sg_state first_request))"
    using first_request_entry by (simp add: request_call_def)
qed simp

definition shielded_settings :: settings where
  "shielded_settings = toy_settings\<lparr> se_keysPath := [] \<rparr>"

definition plain_inputs :: start_inputs where
  "plain_inputs = \<lparr> si_open_sqlite = (\<lambda>_ _. None), si_open_jsonl = (\<lambda>_. None), si_load_keys = (\<lambda>_. Inl ReadFailed),
     si_sqlite_opens = True, si_redis_reachable = True,
     si_parse_url = (\<lambda>_. Some \<lparr> u_Scheme = ''http'', u_Host = ''vllm'', u_Path = [], u_RawPath = [], u_RawQuery = [] \<rparr>),
     si_models = (\<lambda>_. HttpErr), si_caps = (\<lambda>_. HttpErr), si_hw = bare_host \<rparr>"

definition shielded_components :: components where
  "shielded_components = (case start_gateway plain_inputs shielded_settings of Inr cp \<Rightarrow> cp | Inl _ \<Rightarrow> toy_components)"

lemma shielded_start:
  "start_gateway plain_inputs shielded_settings = Inr shielded_components" "cp_admission shielded_components \<noteq> None"
proof -
  let ?se = shielded_settings
  have se: "se_auditDB ?se = []" "se_keysPath ?se = []" "se_auditBuffer ?se = 10" "se_jsonlDir ?se = []" "se_admission ?se = example_config"
    by (simp_all add: shielded_settings_def toy_settings_def)
  have pos: "0 < cf_PollInterval example_config" "cf_Enabled example_config"
    by (simp_all add: example_config_def)
  obtain c where c: "buildAdmissionController bare_host example_config = Inr (Some c)"
    using pos by (simp add: buildAdmissionController_def Admission.Start_def Admission.New_def Let_def)
  show "start_gateway plain_inputs shielded_settings = Inr shielded_components" "cp_admission shielded_components \<noteq> None"
    using se c by (simp_all add: shielded_components_def start_gateway_def audit_sinks_def NewLogger_def plain_inputs_def)
qed

definition shielded_run :: "unit serving" where
  "shielded_run = (on_router Router_Stop (started shielded_components () 0))\<lparr> sg_phase := RouterStopped \<rparr>"

lemma shielded_steps: "serving_step\<^sup>*\<^sup>* (started shielded_components () 0) shielded_run"
  unfolding shielded_run_def by (rule r_into_rtranclp, rule serving_step.stops_router) (simp add: started_def)

theorem process_orderly_witness:
  "registry_ok (rt_registry (cp_router (sg_components shielded_run))) \<and> rt_done (cp_router (sg_components shielded_run))"
  using process_orderly [OF shielded_start(1) shielded_steps] by (simp add: shielded_run_def)

theorem shutdown_abandons_witness:
  "\<exists>s'. serving_step\<^sup>*\<^sup>* shielded_run s' \<and> sg_phase s' = Closed \<and> (\<forall>s''. \<not> serving_step s' s'')"
proof -
  obtain s' where s': "(\<lambda>a b. serving_step a b \<and> sg_flight b = sg_flight a \<and> sg_state b = sg_state a)\<^sup>*\<^sup>* shielded_run s'"
    "sg_phase s' = Closed \<and> (\<forall>s''. \<not> serving_step s' s'')"
    using shutdown_abandons [OF shielded_start(1) shielded_steps] by blast
  from rtranclp_mono [of "\<lambda>a b. serving_step a b \<and> sg_flight b = sg_flight a \<and> sg_state b = sg_state a" serving_step] s'
  show ?thesis by blast
qed

text \<open>An admitted request for the model \<open>llama\<close>, waiting to be handed over.\<close>

definition waiting :: "unit serving" where
  "waiting = (on_router (\<lambda>rt. rt\<lparr> rt_loop := True \<rparr>) (started toy_components () 0))
     \<lparr> sg_flight := [\<lparr> jb_env = llama_env, jb_request = llama_request, jb_user = ''u'', jb_model = ''llama'', jb_out = None \<rparr>] \<rparr>"

theorem admitted_model_elsewhere_witness:
  "\<exists>s2 out. serving_step\<^sup>*\<^sup>* waiting s2 \<and> jb_out (sg_flight s2 ! 0) = Some out \<and> jb_model (sg_flight s2 ! 0) = ''llama'' \<and>
     u_Host (r_URL out) = ''vllm'' \<and> u_Path (r_URL out) = ''/v1/chat''"
proof -
  have w: "sg_phase waiting \<noteq> Closed" "rt_loop (cp_router (sg_components waiting))" "0 < length (sg_flight waiting)"
    "jb_out (sg_flight waiting ! 0) = None" "jb_request (sg_flight waiting ! 0) = llama_request" "jb_model (sg_flight waiting ! 0) = ''llama''"
    "cp_target (sg_components waiting) = cp_target toy_components"
    by (simp_all add: waiting_def started_def on_router_def)
  have n: "extractModelNameFromPath (u_Path (r_URL (jb_request (sg_flight waiting ! 0)))) = ''llama''" unfolding w(5) by code_simp
  have t: "u_Host (cp_target toy_components) = ''vllm''" "u_Path (cp_target toy_components) = []" by (simp_all add: toy_components_def)
  have p: "singleJoiningSlash [] (stripModelPrefixFromPath (u_Path (r_URL llama_request)) ''llama'') = ''/v1/chat''" by code_simp
  have ne: "''llama'' \<noteq> []" by simp
  from admitted_model_elsewhere [OF w(1-4) n ne] obtain s1 s2 out where
    s: "serving_step waiting s1" "serving_step s1 s2" and
    o: "jb_out (sg_flight s2 ! 0) = Some out" "jb_model (sg_flight s2 ! 0) = ''llama''" "u_Host (r_URL out) = ''vllm''" "u_Path (r_URL out) = ''/v1/chat''"
    unfolding w(5,6,7) t p by blast
  from s have "serving_step\<^sup>*\<^sup>* waiting s2" by (meson converse_rtranclp_into_rtranclp r_into_rtranclp)
  with o show ?thesis by blast
qed

text \<open>The service account above has five tokens left and no rate limit.\<close>

theorem quota_overrun_witness:
  "\<exists>s. serving_step\<^sup>*\<^sup>* (started toy_components () 0) s \<and> length (sg_flight s) = 1000"
proof -
  have key: "request_key (live_gateway toy_live toy_components) llama_post = ''k''" by code_simp
  have look: "GetByKey (le_prims toy_live) (le_order toy_live) ''k'' one_user_store = Inr (Some (toy_user ''u'' ''k''))"
    by code_simp
  have store: "cp_store toy_components = Some one_user_store" by (simp add: toy_components_def)
  have np: "\<not> auth_panics toy_live toy_components llama_post"
    by (simp add: auth_panics_def key store Adapter_ValidateToken_def look)
  have "gs_audit (snd (arrive llama_env (live_gateway toy_live toy_components) llama_post (sg_state (started toy_components () 0)))) =
      [request_call llama_env llama_post ''u'' ''llama'']" by code_simp
  then have sent: "sent_by ''u'' (snd (arrive llama_env (live_gateway toy_live toy_components) llama_post (sg_state (started toy_components () 0)))) = 1"
    by (simp add: sent_by_def request_call_def)
  obtain j where j: "fst (arrive llama_env (live_gateway toy_live toy_components) llama_post (sg_state (started toy_components () 0))) = Admitted j"
    using sent by (cases rule: arrive_cases [of llama_env "live_gateway toy_live toy_components" llama_post "sg_state (started toy_components () 0)"])
      (simp_all add: started_def sent_by_def)
  have route: "mux_route gateway_routes llama_post = Handler G_Gateway" by code_simp
  have "\<exists>s'. serving_step\<^sup>*\<^sup>* (started toy_components () 0) s' \<and>
      sg_flight s' = sg_flight (started toy_components () 0) @ replicate 1000 j \<and>
      gs_quota (sg_state s') = gs_quota (sg_state (started toy_components () 0))"
    by (rule quota_overrun [OF _ route, where le = toy_live and env = llama_env])
      (use j np in \<open>simp_all add: started_def llama_env_def plain_env_def toy_components_def toy_settings_def arrive_gateway_def\<close>)
  then show ?thesis by (auto simp: started_def)
qed

end
