(* ===== verification/CommandTree.thy ===== *)
theory CommandTree
  imports Assembly DeployCommands KeyAdmin TestClient ServiceCommands
begin

text \<open>
  The command tree (\<open>cmd/*.go\<close>): every command as its \<open>cobra.Command\<close> literal and its \<open>init\<close> function declare it,
  with the rule for its arguments, its flags and its subcommands; the flags each handler reads, with the getter it
  uses; and the records of the other theories as the handlers fill them. Help texts are left out. The getters of the
  flag library are an argument (\<open>flag_library\<close>), their documented behaviour is the predicate \<open>documented_getters\<close>. How the
  library splits a command line, finds the command and checks its arguments is not modelled, and neither are
  the commands it adds to the root (\<open>help\<close>, \<open>completion\<close>).
\<close>

subsection \<open>Flags\<close>

datatype fvalue =
  FvInt int | FvInt64 int | FvFloat64 flt | FvFloat32 rat | FvBool bool | FvString gostr | FvSlice "gostr list"

datatype fkind = KInt | KInt64 | KFloat64 | KFloat32 | KBool | KString | KSlice

fun kind_of :: "fvalue \<Rightarrow> fkind" where
  "kind_of (FvInt _) = KInt" | "kind_of (FvInt64 _) = KInt64" | "kind_of (FvFloat64 _) = KFloat64"
| "kind_of (FvFloat32 _) = KFloat32" | "kind_of (FvBool _) = KBool" | "kind_of (FvString _) = KString"
| "kind_of (FvSlice _) = KSlice"

record flag =
  fg_name :: gostr
  fg_short :: gostr
  fg_default :: fvalue

definition flagP :: "gostr \<Rightarrow> gostr \<Rightarrow> fvalue \<Rightarrow> flag" where
  "flagP n s d = \<lparr> fg_name = n, fg_short = s, fg_default = d \<rparr>"

definition flagL :: "gostr \<Rightarrow> fvalue \<Rightarrow> flag" where
  "flagL n d = flagP n [] d"

definition lookup_flag :: "gostr \<Rightarrow> flag list \<Rightarrow> flag option" where
  "lookup_flag n fs = List.find (\<lambda>f. fg_name f = n) fs"

text \<open>The flags of a command line with their parsed values, and the getters the handlers call on the flags a
  command sees. The handlers ignore the errors of the getters, so a getter is the value it returns.\<close>

type_synonym parsed = "gostr \<Rightarrow> fvalue option"

type_synonym 'a getter = "flag list \<Rightarrow> parsed \<Rightarrow> gostr \<Rightarrow> 'a"

record flag_library =
  GetString :: "gostr getter"
  GetInt :: "int getter"
  GetBool :: "bool getter"
  GetFloat64 :: "flt getter"
  GetStringSlice :: "gostr list getter"
  Changed :: "bool getter"

text \<open>The value of a flag: as passed, or else its default.\<close>

definition flag_value :: "flag list \<Rightarrow> parsed \<Rightarrow> gostr \<Rightarrow> fvalue option" where
  "flag_value fs given n =
     (case lookup_flag n fs of None \<Rightarrow> None | Some f \<Rightarrow> Some (case given n of Some v \<Rightarrow> v | None \<Rightarrow> fg_default f))"

text \<open>By its documentation a getter returns the value of a flag of its kind, and \<open>Changed\<close> tells whether a declared flag
  was passed.\<close>

definition documented_getters :: "flag_library \<Rightarrow> bool" where
  "documented_getters L \<longleftrightarrow>
     (\<forall>fs given n v. flag_value fs given n = Some (FvString v) \<longrightarrow> GetString L fs given n = v) \<and>
     (\<forall>fs given n v. flag_value fs given n = Some (FvInt v) \<longrightarrow> GetInt L fs given n = v) \<and>
     (\<forall>fs given n v. flag_value fs given n = Some (FvBool v) \<longrightarrow> GetBool L fs given n = v) \<and>
     (\<forall>fs given n v. flag_value fs given n = Some (FvFloat64 v) \<longrightarrow> GetFloat64 L fs given n = v) \<and>
     (\<forall>fs given n v. flag_value fs given n = Some (FvSlice v) \<longrightarrow> GetStringSlice L fs given n = v) \<and>
     (\<forall>fs given n v. flag_value fs given n = Some v \<longrightarrow> Changed L fs given n = (given n \<noteq> None))"

subsection \<open>Commands\<close>

datatype args_rule = Legacy | ExactArgs nat | MaximumNArgs nat

datatype command =
  Command (cm_use: gostr) (cm_args: args_rule) (cm_runs: bool) (cm_flags: "flag list") (cm_persistent: "flag list")
    (cm_children: "command list")

definition command_name :: "command \<Rightarrow> gostr" where
  "command_name c = takeWhile (\<lambda>ch. ch \<noteq> CHR '' '') (cm_use c)"

definition configSetCmd :: command where "configSetCmd = Command ''set <key> <value>'' (ExactArgs 2) True [] [] []"
definition configGetCmd :: command where "configGetCmd = Command ''get <key>'' (ExactArgs 1) True [] [] []"
definition configListCmd :: command where "configListCmd = Command ''list'' Legacy True [] [] []"

definition configCmd :: command where
  "configCmd = Command ''config'' Legacy False [] [] [configSetCmd, configGetCmd, configListCmd]"

definition deployCmd_flags :: "flag list" where
  "deployCmd_flags =
     [flagP ''port'' ''p'' (FvInt 8000), flagP ''quantization'' ''q'' (FvString ''auto''), flagP ''rebuild'' ''r'' (FvBool False),
      flagP ''force'' ''f'' (FvBool False)]"

definition deployCmd :: command where
  "deployCmd = Command ''deploy [model-name]'' (MaximumNArgs 1) True deployCmd_flags [] []"

definition discoveryCmd :: command where
  "discoveryCmd = Command ''discovery'' Legacy True [flagL ''port'' (FvInt 8889)] [] []"

definition gatewayCmd_flags :: "flag list" where
  "gatewayCmd_flags =
     [flagL ''backend'' (FvString ''http://localhost:8000''), flagL ''port'' (FvInt 8001), flagL ''rate-limit'' (FvFloat64 (Fin 100)),
      flagL ''api-key-header'' (FvString ''X-API-Key''), flagL ''audit-buffer'' (FvInt 10000),
      flagL ''audit-db'' (FvString ''./sovstack-audit.db''), flagL ''audit-key'' (FvString []), flagL ''keys'' (FvString []),
      flagL ''discovery-url'' (FvString ''http://localhost:8889''), flagL ''admission-enabled'' (FvBool True),
      flagL ''admission-hard-cache-pct'' (FvFloat64 (Fin 95)), flagL ''admission-soft-cache-pct'' (FvFloat64 (Fin 80)),
      flagL ''admission-max-queue-per-gb'' (FvInt 4), flagL ''admission-poll-seconds'' (FvInt 5)]"

definition gatewayTestCmd_flags :: "flag list" where
  "gatewayTestCmd_flags =
     [flagL ''gateway'' (FvString ''http://localhost:8001''), flagL ''discovery'' (FvString ''http://localhost:8889''),
      flagP ''key'' ''k'' (FvString []), flagP ''prompt'' ''p'' (FvString ''Hello, what is artificial intelligence?''),
      flagP ''tokens'' ''t'' (FvInt 50), flagP ''temperature'' ''T'' (FvFloat32 (7 / 10))]"

definition gatewayTestCmd :: command where
  "gatewayTestCmd = Command ''test [model-name]'' (MaximumNArgs 1) True gatewayTestCmd_flags [] []"

definition gatewayCmd :: command where
  "gatewayCmd = Command ''gateway'' Legacy True gatewayCmd_flags [] [gatewayTestCmd]"

definition initCmd :: command where
  "initCmd = Command ''init'' Legacy True [flagL ''check'' (FvBool False)] [] []"

definition keysAddCmd_flags :: "flag list" where
  "keysAddCmd_flags =
     [flagP ''department'' ''d'' (FvString []), flagP ''team'' ''t'' (FvString []), flagP ''role'' ''r'' (FvString ''user''),
      flagP ''rate-limit'' ''l'' (FvFloat64 (Fin 100)), flagL ''ip-allowlist'' (FvString [])]"

definition keysSetQuotaCmd_flags :: "flag list" where
  "keysSetQuotaCmd_flags = [flagP ''daily'' ''d'' (FvInt64 0), flagP ''monthly'' ''m'' (FvInt64 0)]"

definition keysAddCmd :: command where "keysAddCmd = Command ''add <user-id>'' (ExactArgs 1) True keysAddCmd_flags [] []"
definition keysListCmd :: command where "keysListCmd = Command ''list'' Legacy True [] [] []"
definition keysRemoveCmd :: command where "keysRemoveCmd = Command ''remove <user-id>'' (ExactArgs 1) True [] [] []"
definition keysInfoCmd :: command where "keysInfoCmd = Command ''info <user-id>'' (ExactArgs 1) True [] [] []"
definition keysGrantModelCmd :: command where "keysGrantModelCmd = Command ''grant-model <user-id> <model>'' (ExactArgs 2) True [] [] []"
definition keysRevokeModelCmd :: command where "keysRevokeModelCmd = Command ''revoke-model <user-id> <model>'' (ExactArgs 2) True [] [] []"
definition keysMigrateHashCmd :: command where "keysMigrateHashCmd = Command ''migrate-hash'' Legacy True [] [] []"
definition keysSetQuotaCmd :: command where "keysSetQuotaCmd = Command ''set-quota <user-id>'' (ExactArgs 1) True keysSetQuotaCmd_flags [] []"
definition keysUsageCmd :: command where "keysUsageCmd = Command ''usage <user-id>'' (ExactArgs 1) True [] [] []"

definition keysCmd :: command where
  "keysCmd = Command ''keys'' Legacy False [] [flagP ''output'' ''o'' (FvString ''text'')]
     [keysAddCmd, keysListCmd, keysRemoveCmd, keysInfoCmd, keysGrantModelCmd, keysRevokeModelCmd, keysMigrateHashCmd,
      keysSetQuotaCmd, keysUsageCmd]"

definition logsCmd :: command where
  "logsCmd = Command ''logs [model-name]'' (MaximumNArgs 1) True
     [flagP ''follow'' ''f'' (FvBool False), flagP ''lines'' ''n'' (FvInt 100)] [] []"

definition metricsProxyCmd :: command where
  "metricsProxyCmd = Command ''metrics-proxy'' Legacy True [flagL ''port'' (FvInt 8890)] [] []"

definition migrateAuditCmd_flags :: "flag list" where
  "migrateAuditCmd_flags =
     [flagL ''from'' (FvString []), flagL ''to'' (FvString []), flagL ''audit-key'' (FvString []), flagL ''batch'' (FvInt 1000),
      flagL ''since'' (FvString [])]"

definition migrateAuditCmd :: command where "migrateAuditCmd = Command ''audit'' Legacy True migrateAuditCmd_flags [] []"
definition migrateCmd :: command where "migrateCmd = Command ''migrate'' Legacy False [] [] [migrateAuditCmd]"

definition modelsListCmd_flags :: "flag list" where
  "modelsListCmd_flags =
     [flagL ''all'' (FvBool False), flagL ''gpu'' (FvBool False), flagL ''cpu'' (FvBool False), flagL ''min-vram'' (FvInt 0)]"

definition modelsListCmd :: command where "modelsListCmd = Command ''list'' Legacy True modelsListCmd_flags [] []"
definition modelsRefreshCmd :: command where "modelsRefreshCmd = Command ''refresh'' Legacy True [] [] []"
definition modelsClearCacheCmd :: command where "modelsClearCacheCmd = Command ''clear-cache'' Legacy True [] [] []"

definition modelsCmd :: command where
  "modelsCmd = Command ''models'' Legacy True []
     [flagL ''registry'' (FvString ''https://models.sovereignstack.io/registry.yaml'')]
     [modelsListCmd, modelsRefreshCmd, modelsClearCacheCmd]"

definition policyCmd_flags :: "flag list" where
  "policyCmd_flags =
     [flagL ''port'' (FvInt 8888), flagL ''keys'' (FvString []), flagL ''admin-key'' (FvString []), flagL ''admin'' (FvSlice []),
      flagL ''master-key-file'' (FvString [])]"

definition policyCmd :: command where "policyCmd = Command ''policy'' Legacy True policyCmd_flags [] []"

definition pullCmd :: command where
  "pullCmd = Command ''pull [model-name]'' (MaximumNArgs 1) True
     [flagL ''cache-dir'' (FvString ''./models''), flagP ''force'' ''f'' (FvBool False)] [] []"

definition removeCmd :: command where
  "removeCmd = Command ''remove [model-name]'' (ExactArgs 1) True
     [flagL ''cache-dir'' (FvString ''./models''), flagP ''force'' ''f'' (FvBool False)] [] []"

definition statusCmd_flags :: "flag list" where
  "statusCmd_flags =
     [flagP ''detailed'' ''d'' (FvBool False), flagP ''json'' ''j'' (FvBool False), flagL ''running'' (FvBool False),
      flagL ''cached'' (FvBool False), flagL ''hardware'' (FvBool False)]"

definition statusCmd :: command where "statusCmd = Command ''status'' Legacy True statusCmd_flags [] []"
definition verifyCmd :: command where "verifyCmd = Command ''verify [model-name]'' (MaximumNArgs 1) True [] [] []"

definition stopCmd :: command where
  "stopCmd = Command ''stop [model-name]'' (MaximumNArgs 1) True [flagP ''all'' ''a'' (FvBool False)] [] []"

definition testCmd_flags :: "flag list" where
  "testCmd_flags =
     [flagP ''prompt'' ''p'' (FvString ''Hello, what is artificial intelligence?''), flagP ''tokens'' ''t'' (FvInt 50),
      flagP ''temperature'' ''T'' (FvFloat32 (7 / 10))]"

definition testCmd :: command where "testCmd = Command ''test [model-name]'' (MaximumNArgs 1) True testCmd_flags [] []"

definition versionCmd :: command where
  "versionCmd = Command ''version'' Legacy True [flagP ''output'' ''o'' (FvString ''text'')] [] []"

definition rootCmd :: command where
  "rootCmd = Command ''sovstack'' Legacy False [] [flagL ''config'' (FvString [])]
     [configCmd, deployCmd, discoveryCmd, gatewayCmd, initCmd, keysCmd, logsCmd, metricsProxyCmd, migrateCmd, modelsCmd,
      policyCmd, pullCmd, removeCmd, statusCmd, verifyCmd, stopCmd, testCmd, versionCmd]"

text \<open>The exit status of the program; \<open>run\<close> is the library's run of the tree on the arguments, which fails or not.\<close>

definition Execute :: "(command \<Rightarrow> bool) \<Rightarrow> int" where
  "Execute run = (if run rootCmd then 0 else 1)"

text \<open>The commands on a path of names.\<close>

definition child :: "gostr \<Rightarrow> command \<Rightarrow> command option" where
  "child w c = List.find (\<lambda>d. command_name d = w) (cm_children c)"

primrec at_path :: "command \<Rightarrow> gostr list \<Rightarrow> command list option" where
  "at_path c [] = Some [c]"
| "at_path c (w # ws) = (case child w c of None \<Rightarrow> None | Some d \<Rightarrow> map_option ((#) c) (at_path d ws))"

text \<open>The flags a command sees: its own and the persistent ones on the path to it.\<close>

definition flags_at :: "command list \<Rightarrow> flag list" where
  "flags_at path = cm_flags (last path) @ concat (map cm_persistent (rev path))"

subsection \<open>How the handlers read their flags\<close>

text \<open>The flags each handler reads, with the getter it uses, in the order of the code; a variable a flag is bound to
  counts as read where the handler uses it. \<open>config\<close> is read by \<open>loadConfig\<close>, \<open>output\<close> by \<open>emit\<close>.\<close>

definition deploy_reads :: "(gostr \<times> fkind) list" where
  "deploy_reads = [(''port'', KInt), (''quantization'', KString), (''rebuild'', KBool), (''force'', KBool)]"

definition gateway_reads :: "(gostr \<times> fkind) list" where
  "gateway_reads =
     [(''config'', KString), (''backend'', KString), (''port'', KInt), (''rate-limit'', KFloat64), (''api-key-header'', KString),
      (''audit-buffer'', KInt), (''audit-db'', KString), (''audit-key'', KString), (''keys'', KString), (''discovery-url'', KString),
      (''admission-enabled'', KBool), (''admission-hard-cache-pct'', KFloat64), (''admission-soft-cache-pct'', KFloat64),
      (''admission-max-queue-per-gb'', KInt), (''admission-poll-seconds'', KInt)]"

definition gateway_test_reads :: "(gostr \<times> fkind) list" where
  "gateway_test_reads =
     [(''gateway'', KString), (''discovery'', KString), (''key'', KString), (''prompt'', KString), (''tokens'', KInt), (''temperature'', KFloat32)]"

definition keys_add_reads :: "(gostr \<times> fkind) list" where
  "keys_add_reads =
     [(''department'', KString), (''team'', KString), (''role'', KString), (''rate-limit'', KFloat64), (''ip-allowlist'', KString),
      (''output'', KString)]"

definition migrate_reads :: "(gostr \<times> fkind) list" where
  "migrate_reads = [(''from'', KString), (''to'', KString), (''audit-key'', KString), (''batch'', KInt), (''since'', KString)]"

definition policy_reads :: "(gostr \<times> fkind) list" where
  "policy_reads =
     [(''config'', KString), (''port'', KInt), (''keys'', KString), (''admin-key'', KString), (''master-key-file'', KString), (''admin'', KSlice)]"

definition flag_reads :: "(gostr list \<times> (gostr \<times> fkind) list) list" where
  "flag_reads =
     [([''deploy''], deploy_reads), ([''discovery''], [(''config'', KString), (''port'', KInt)]), ([''gateway''], gateway_reads),
      ([''gateway'', ''test''], gateway_test_reads), ([''init''], [(''check'', KBool)]), ([''keys'', ''add''], keys_add_reads),
      ([''keys'', ''list''], [(''output'', KString)]), ([''keys'', ''remove''], [(''output'', KString)]),
      ([''keys'', ''info''], [(''output'', KString)]), ([''keys'', ''migrate-hash''], [(''output'', KString)]),
      ([''keys'', ''set-quota''], [(''daily'', KInt64), (''monthly'', KInt64)]),
      ([''logs''], [(''follow'', KBool), (''lines'', KInt)]), ([''metrics-proxy''], [(''config'', KString), (''port'', KInt)]),
      ([''migrate'', ''audit''], migrate_reads), ([''models'', ''list''], [(''registry'', KString), (''all'', KBool)]),
      ([''models'', ''refresh''], [(''registry'', KString)]), ([''models'', ''clear-cache''], [(''registry'', KString)]),
      ([''policy''], policy_reads), ([''pull''], [(''cache-dir'', KString), (''force'', KBool)]),
      ([''remove''], [(''cache-dir'', KString), (''force'', KBool)]),
      ([''status''], [(''detailed'', KBool), (''running'', KBool), (''cached'', KBool), (''hardware'', KBool)]),
      ([''stop''], [(''all'', KBool)]), ([''test''], [(''prompt'', KString), (''tokens'', KInt), (''temperature'', KFloat32)]),
      ([''version''], [(''output'', KString)])]"

text \<open>The records of the other theories, from what was passed. The gateway looks whether a flag was passed;
  the other commands read the value, given or not.\<close>

definition changed :: "flag_library \<Rightarrow> 'a getter \<Rightarrow> 'a option getter" where
  "changed L get fs given n = (if Changed L fs given n then Some (get fs given n) else None)"

definition gateway_flags_of :: "flag_library \<Rightarrow> flag list \<Rightarrow> parsed \<Rightarrow> gateway_flags" where
  "gateway_flags_of L fs given =
     (let str = changed L (GetString L) fs given; num = changed L (GetInt L) fs given; float = changed L (GetFloat64 L) fs given in
      \<lparr> gf_backend = str ''backend'', gf_port = num ''port'', gf_rateLimit = float ''rate-limit'', gf_apiKeyHeader = str ''api-key-header'',
        gf_auditBuffer = GetInt L fs given ''audit-buffer'', gf_auditDB = str ''audit-db'', gf_auditKey = GetString L fs given ''audit-key'',
        gf_keys = str ''keys'', gf_discoveryURL = str ''discovery-url'',
        gf_admissionEnabled = changed L (GetBool L) fs given ''admission-enabled'',
        gf_hardCachePct = float ''admission-hard-cache-pct'', gf_softCachePct = float ''admission-soft-cache-pct'',
        gf_maxQueuePerGB = num ''admission-max-queue-per-gb'', gf_pollSeconds = num ''admission-poll-seconds'' \<rparr>)"

definition deploy_flags_of :: "flag_library \<Rightarrow> flag list \<Rightarrow> parsed \<Rightarrow> deploy_flags" where
  "deploy_flags_of L fs given =
     \<lparr> df_port = GetInt L fs given ''port'', df_quantization = GetString L fs given ''quantization'', df_rebuild = GetBool L fs given ''rebuild'',
       df_force = GetBool L fs given ''force'' \<rparr>"

definition add_flags_of :: "flag_library \<Rightarrow> flag list \<Rightarrow> parsed \<Rightarrow> add_flags" where
  "add_flags_of L fs given =
     \<lparr> af_department = GetString L fs given ''department'', af_team = GetString L fs given ''team'', af_role = GetString L fs given ''role'',
       af_rate = GetFloat64 L fs given ''rate-limit'', af_allow = GetString L fs given ''ip-allowlist'' \<rparr>"

definition policy_flags_of :: "flag_library \<Rightarrow> flag list \<Rightarrow> parsed \<Rightarrow> policy_flags" where
  "policy_flags_of L fs given =
     \<lparr> pf_port = GetInt L fs given ''port'', pf_keys = GetString L fs given ''keys'', pf_adminKey = GetString L fs given ''admin-key'',
       pf_admin = GetStringSlice L fs given ''admin'', pf_masterKeyFile = GetString L fs given ''master-key-file'' \<rparr>"

definition status_flags_of :: "flag_library \<Rightarrow> flag list \<Rightarrow> parsed \<Rightarrow> status_flags" where
  "status_flags_of L fs given =
     \<lparr> sf_running = GetBool L fs given ''running'', sf_cached = GetBool L fs given ''cached'', sf_hardware = GetBool L fs given ''hardware'' \<rparr>"

definition client_flags_of :: "flag_library \<Rightarrow> flag list \<Rightarrow> parsed \<Rightarrow> client_flags" where
  "client_flags_of L fs given =
     \<lparr> gf_gateway = GetString L fs given ''gateway'', gf_discovery = GetString L fs given ''discovery'', gf_key = GetString L fs given ''key'' \<rparr>"

text \<open>Every service loads the configuration that \<open>--config\<close> names.\<close>

definition loadConfig ::
    "flag_library \<Rightarrow> (gostr \<Rightarrow> config \<Rightarrow> config option) \<Rightarrow> gostr option \<Rightarrow> (gostr \<Rightarrow> file_read) \<Rightarrow> environment \<Rightarrow>
      flag list \<Rightarrow> parsed \<Rightarrow> config_error + config" where
  "loadConfig L yaml home read env fs given = Load yaml home read env (GetString L fs given ''config'')"

subsection \<open>The tree is well formed\<close>

definition reads_declared :: "command \<Rightarrow> gostr list \<Rightarrow> (gostr \<times> fkind) list \<Rightarrow> bool" where
  "reads_declared cmd names rs =
     (case at_path cmd names of
        None \<Rightarrow> False
      | Some path \<Rightarrow> list_all (\<lambda>(n, k). case lookup_flag n (flags_at path) of
            None \<Rightarrow> False | Some f \<Rightarrow> kind_of (fg_default f) = k) rs)"

text \<open>No two flags a command sees share a name or a letter, and none takes the letter of \<open>--help\<close>; for two flags of one
  set, or two letters, the library panics. Siblings have different names. The list is the path of ancestors.\<close>

fun well_formed :: "command list \<Rightarrow> command \<Rightarrow> bool" where
  "well_formed anc (Command u r x fs ps ds) =
     (let c = Command u r x fs ps ds; seen = flags_at (anc @ [c]); shorts = filter (\<lambda>s. s \<noteq> []) (map fg_short seen) in
      distinct (map fg_name seen) \<and> distinct (''h'' # shorts) \<and> distinct (map command_name ds) \<and>
      list_all (well_formed (anc @ [c])) ds)"

text \<open>The flags a command declares that its handler never reads, and the commands below a path whose handler does not
  read a flag they inherit.\<close>

definition reads_at :: "gostr list \<Rightarrow> gostr list" where
  "reads_at names = (case map_of flag_reads names of Some rs \<Rightarrow> map fst rs | None \<Rightarrow> [])"

fun unread :: "gostr list \<Rightarrow> command \<Rightarrow> (gostr list \<times> gostr) list" where
  "unread names (Command u r x fs ps ds) =
     map (\<lambda>f. (names, fg_name f)) (filter (\<lambda>f. fg_name f \<notin> set (reads_at names)) fs) @
     concat (map (\<lambda>d. unread (names @ [command_name d]) d) ds)"

text \<open>The tree of commands is what its handlers expect. Every flag a handler reads is declared for its command,
  or inherited by it, with the kind the getter asks for, so that no read silently gives a zero value; no two flags
  a command sees clash and no two siblings have the same name, so that the library does not panic at the start. The
  only declared flags that no handler reads are \<open>--json\<close> of \<open>status\<close> and \<open>--gpu\<close>, \<open>--cpu\<close> and \<open>--min-vram\<close> of
  \<open>models list\<close>: they are accepted and change nothing.\<close>

theorem tree_fits_handlers:
  "list_all (\<lambda>(names, rs). reads_declared rootCmd names rs) flag_reads \<and> well_formed [] rootCmd \<and>
   unread [] rootCmd = [([''models'', ''list''], ''gpu''), ([''models'', ''list''], ''cpu''),
     ([''models'', ''list''], ''min-vram''), ([''status''], ''json'')]"
  by code_simp

subsection \<open>Defaults\<close>

text \<open>What was passed repeats the defaults the help shows.\<close>

definition repeats_defaults :: "flag list \<Rightarrow> parsed \<Rightarrow> bool" where
  "repeats_defaults fs given \<longleftrightarrow> (\<forall>n v. given n = Some v \<longrightarrow> map_option fg_default (lookup_flag n fs) = Some v)"

lemma repeats_value:
  assumes "repeats_defaults fs given"
  shows "flag_value fs given n = map_option fg_default (lookup_flag n fs)"
proof (cases "given n")
  case None
  then show ?thesis by (simp add: flag_value_def split: option.split)
next
  case (Some v)
  with assms have "map_option fg_default (lookup_flag n fs) = Some v" by (simp add: repeats_defaults_def)
  with Some show ?thesis by (auto simp: flag_value_def)
qed

lemma repeats_getters:
  assumes "documented_getters L" "repeats_defaults fs given" "lookup_flag n fs = Some f"
  shows "fg_default f = FvString s \<Longrightarrow> GetString L fs given n = s" "fg_default f = FvInt i \<Longrightarrow> GetInt L fs given n = i"
    "fg_default f = FvBool b \<Longrightarrow> GetBool L fs given n = b" "fg_default f = FvFloat64 x \<Longrightarrow> GetFloat64 L fs given n = x"
  using assms(1,3) repeats_value [OF assms(2), of n] by (simp_all add: documented_getters_def)

lemma override_changed: "get fs given n = d \<Longrightarrow> override d (changed L get fs given n) = d"
  by (simp add: override_def changed_def)

lemma flit_constants: "flit 100 = Fin 100" "flit 95 = Fin 95" "flit 80 = Fin 80"
  using fl_of_int [of 100] fl_of_int [of 95] fl_of_int [of 80] by (simp_all add: flit_def)

lemma gateway_lookups:
  "lookup_flag ''backend'' gatewayCmd_flags = Some (flagL ''backend'' (FvString (string_at [''Gateway'', ''Backend''] Defaults)))"
  "lookup_flag ''api-key-header'' gatewayCmd_flags = Some (flagL ''api-key-header'' (FvString (string_at [''Gateway'', ''APIKeyHeader''] Defaults)))"
  "lookup_flag ''audit-db'' gatewayCmd_flags = Some (flagL ''audit-db'' (FvString (string_at [''Gateway'', ''AuditDB''] Defaults)))"
  "lookup_flag ''keys'' gatewayCmd_flags = Some (flagL ''keys'' (FvString (string_at [''Gateway'', ''KeysFile''] Defaults)))"
  "lookup_flag ''discovery-url'' gatewayCmd_flags = Some (flagL ''discovery-url'' (FvString (string_at [''Gateway'', ''DiscoveryURL''] Defaults)))"
  "lookup_flag ''port'' gatewayCmd_flags = Some (flagL ''port'' (FvInt (int_at [''Gateway'', ''Port''] Defaults)))"
  "lookup_flag ''rate-limit'' gatewayCmd_flags = Some (flagL ''rate-limit'' (FvFloat64 (float_at [''Gateway'', ''RateLimit''] Defaults)))"
  "lookup_flag ''admission-enabled'' gatewayCmd_flags =
     Some (flagL ''admission-enabled'' (FvBool (bool_at [''Gateway'', ''Admission'', ''Enabled''] Defaults)))"
  "lookup_flag ''admission-hard-cache-pct'' gatewayCmd_flags =
     Some (flagL ''admission-hard-cache-pct'' (FvFloat64 (float_at [''Gateway'', ''Admission'', ''HardCachePct''] Defaults)))"
  "lookup_flag ''admission-soft-cache-pct'' gatewayCmd_flags =
     Some (flagL ''admission-soft-cache-pct'' (FvFloat64 (float_at [''Gateway'', ''Admission'', ''SoftCachePct''] Defaults)))"
  "lookup_flag ''admission-max-queue-per-gb'' gatewayCmd_flags =
     Some (flagL ''admission-max-queue-per-gb'' (FvInt (int_at [''Gateway'', ''Admission'', ''MaxQueuePerGB''] Defaults)))"
  "lookup_flag ''admission-poll-seconds'' gatewayCmd_flags =
     Some (flagL ''admission-poll-seconds'' (FvInt (int_at [''Gateway'', ''Admission'', ''PollSeconds''] Defaults)))"
  "lookup_flag ''audit-buffer'' gatewayCmd_flags = Some (flagL ''audit-buffer'' (FvInt 10000))"
  "lookup_flag ''audit-key'' gatewayCmd_flags = Some (flagL ''audit-key'' (FvString []))"
  by (simp_all add: string_at_def int_at_def float_at_def bool_at_def Defaults_def Cfg_Config_def Cfg_GatewayConfig_def
      Cfg_AdmissionConfig_def LogConfig_def lookup_flag_def gatewayCmd_flags_def flagL_def flagP_def flit_constants)

lemma default_flagL [simp]: "fg_default (flagL n d) = d"
  by (simp add: flagL_def flagP_def)

text \<open>The settings of a start without any flag.\<close>

definition no_gateway_flags :: gateway_flags where
  "no_gateway_flags = \<lparr> gf_backend = None, gf_port = None, gf_rateLimit = None, gf_apiKeyHeader = None, gf_auditBuffer = 10000,
     gf_auditDB = None, gf_auditKey = [], gf_keys = None, gf_discoveryURL = None, gf_admissionEnabled = None, gf_hardCachePct = None,
     gf_softCachePct = None, gf_maxQueuePerGB = None, gf_pollSeconds = None \<rparr>"

text \<open>The defaults the help of the gateway shows are the defaults it uses. Whichever of its flags are passed with
  the value the help shows as their default, the settings are those of a start without any flag on the built-in
  configuration: the two lists of defaults, in the command and in the configuration, agree in every place.\<close>

theorem help_shows_defaults:
  assumes "documented_getters L" "repeats_defaults gatewayCmd_flags given"
  shows "gateway_settings env random Defaults (gateway_flags_of L gatewayCmd_flags given) =
    gateway_settings env random Defaults no_gateway_flags"
proof -
  note get = repeats_getters [OF assms]
  have none: "override d None = d" for d :: 'b by (simp add: override_def)
  show ?thesis
    unfolding gateway_settings_def admission_settings_def gateway_flags_of_def no_gateway_flags_def Let_def gateway_flags.select_convs
    by (simp add: none override_changed get(1) [OF gateway_lookups(1)] get(1) [OF gateway_lookups(2)] get(1) [OF gateway_lookups(3)]
        get(1) [OF gateway_lookups(4)] get(1) [OF gateway_lookups(5)] get(2) [OF gateway_lookups(6)] get(4) [OF gateway_lookups(7)]
        get(3) [OF gateway_lookups(8)] get(4) [OF gateway_lookups(9)] get(4) [OF gateway_lookups(10)] get(2) [OF gateway_lookups(11)]
        get(2) [OF gateway_lookups(12)] get(2) [OF gateway_lookups(13)] get(1) [OF gateway_lookups(14)])
qed

text \<open>The getters as the library documents them.\<close>

definition plain_getters :: flag_library where
  "plain_getters =
     \<lparr> GetString = (\<lambda>fs given n. case flag_value fs given n of Some (FvString v) \<Rightarrow> v | _ \<Rightarrow> []),
       GetInt = (\<lambda>fs given n. case flag_value fs given n of Some (FvInt v) \<Rightarrow> v | _ \<Rightarrow> 0),
       GetBool = (\<lambda>fs given n. case flag_value fs given n of Some (FvBool v) \<Rightarrow> v | _ \<Rightarrow> False),
       GetFloat64 = (\<lambda>fs given n. case flag_value fs given n of Some (FvFloat64 v) \<Rightarrow> v | _ \<Rightarrow> Fin 0),
       GetStringSlice = (\<lambda>fs given n. case flag_value fs given n of Some (FvSlice v) \<Rightarrow> v | _ \<Rightarrow> []),
       Changed = (\<lambda>fs given n. given n \<noteq> None) \<rparr>"

lemma plain_getters_ok: "documented_getters plain_getters"
  by (simp add: documented_getters_def plain_getters_def)

theorem help_shows_defaults_witness:
  "gateway_settings (\<lambda>_. None) [] Defaults (gateway_flags_of plain_getters gatewayCmd_flags [''port'' \<mapsto> FvInt 8001]) =
   gateway_settings (\<lambda>_. None) [] Defaults no_gateway_flags"
proof -
  have "map_option fg_default (lookup_flag ''port'' gatewayCmd_flags) = Some (FvInt 8001)"
    by (simp add: lookup_flag_def gatewayCmd_flags_def flagL_def flagP_def)
  then have "repeats_defaults gatewayCmd_flags [''port'' \<mapsto> FvInt 8001]" by (simp add: repeats_defaults_def)
  from help_shows_defaults [OF plain_getters_ok this] show ?thesis .
qed

end
