(* ===== verification/Retention.thy ===== *)
theory Retention
  imports Assembly
begin

text \<open>
  The upkeep of the audit trail: the queries of the fan-out (\<open>core/audit/multi.go\<close>), which ask the first sink, and
  the background pruner of the gateway (\<open>core/audit/retention.go\<close> with its settings in \<open>cmd/gateway.go\<close>) beside the
  requests that write rows. The loop of the pruner, the writers and the end of the process are one step relation.
\<close>

subsection \<open>Queries of the fan-out\<close>

fun sink_GetLogsByModel :: "aead_open \<Rightarrow> bool \<Rightarrow> gostr \<Rightarrow> sink \<Rightarrow> AuditLog list" where
  "sink_GetLogsByModel opn fails model (Mem l) = Logger_GetLogsByModel model l"
| "sink_GetLogsByModel opn fails model (Jsonl l) = JSONL_GetLogsByModel model l"
| "sink_GetLogsByModel opn fails model (Sql l) = SQLite_GetLogsByModel opn fails model l"
| "sink_GetLogsByModel opn fails model (MultiSink []) = []"
| "sink_GetLogsByModel opn fails model (MultiSink (s # ss)) = sink_GetLogsByModel opn fails model s"

fun sink_GetLogsInTimeRange :: "aead_open \<Rightarrow> bool \<Rightarrow> time \<Rightarrow> time \<Rightarrow> sink \<Rightarrow> AuditLog list" where
  "sink_GetLogsInTimeRange opn fails start end' (Mem l) = Logger_GetLogsInTimeRange start end' l"
| "sink_GetLogsInTimeRange opn fails start end' (Jsonl l) = JSONL_GetLogsInTimeRange start end' l"
| "sink_GetLogsInTimeRange opn fails start end' (Sql l) = SQLite_GetLogsInTimeRange opn fails start end' l"
| "sink_GetLogsInTimeRange opn fails start end' (MultiSink []) = []"
| "sink_GetLogsInTimeRange opn fails start end' (MultiSink (s # ss)) = sink_GetLogsInTimeRange opn fails start end' s"

text \<open>The statistics of a JSON lines sink cover its ring buffer only.\<close>

datatype stats_answer = Counted Stats | RingOnly int gostr gostr | NoStats

definition JSONL_GetStats :: "JSONLLogger \<Rightarrow> stats_answer" where
  "JSONL_GetStats l = RingOnly (int (length (jl_ring l))) (jl_dir l) (jl_day l)"

fun sink_GetStats :: "sink \<Rightarrow> stats_answer" where
  "sink_GetStats (Mem l) = Counted (Logger_GetStats l)"
| "sink_GetStats (Jsonl l) = JSONL_GetStats l"
| "sink_GetStats (Sql l) = Counted (SQLite_GetStats l)"
| "sink_GetStats (MultiSink []) = NoStats"
| "sink_GetStats (MultiSink (s # ss)) = sink_GetStats s"

fun Sinks :: "sink \<Rightarrow> sink list" where
  "Sinks (MultiSink ss) = ss"
| "Sinks s = []"

text \<open>An entry at the bound of a range is in the answer of the table and in no answer of the other sinks.\<close>

lemma range_bounds_differ:
  assumes "al_Timestamp e = a \<or> al_Timestamp e = b" "a \<le> b" "e = snd row" "row \<in> set (sl_rows q)"
  shows "e \<notin> set (Logger_GetLogsInTimeRange a b l)" "e \<notin> set (JSONL_GetLogsInTimeRange a b j)"
    "\<exists>e' \<in> set (SQLite_GetLogsInTimeRange opn False a b q). al_Timestamp e' = al_Timestamp e"
proof -
  show "e \<notin> set (Logger_GetLogsInTimeRange a b l)" "e \<notin> set (JSONL_GetLogsInTimeRange a b j)"
    using assms(1) by (auto simp: Logger_GetLogsInTimeRange_def JSONL_GetLogsInTimeRange_def)
  have "e \<in> set (order_desc (filter (\<lambda>e. a \<le> al_Timestamp e \<and> al_Timestamp e \<le> b) (map snd (sl_rows q))))"
    using assms by (auto simp: order_desc_def)
  then show "\<exists>e' \<in> set (SQLite_GetLogsInTimeRange opn False a b q). al_Timestamp e' = al_Timestamp e"
    by (force simp: SQLite_GetLogsInTimeRange_def SQLite_query_def scanLogs_def)
qed

subsection \<open>The pruner beside the writers\<close>

record retention =
  rr_pruner :: Pruner
  rr_loop :: bool
  rr_db :: SQLiteLogger
  rr_clock :: time

definition start_pruner :: "Pruner \<Rightarrow> SQLiteLogger \<Rightarrow> time \<Rightarrow> retention" where
  "start_pruner p db t = \<lparr> rr_pruner = p, rr_loop = Pruner_Start p, rr_db = db, rr_clock = t \<rparr>"

definition after_tick :: "bool \<Rightarrow> time \<Rightarrow> retention \<Rightarrow> retention" where
  "after_tick fails now s =
     s\<lparr> rr_db := (case PruneOnce fails now (rr_pruner s) (rr_db s) of None \<Rightarrow> rr_db s | Some (_, db) \<Rightarrow> db), rr_clock := now \<rparr>"

text \<open>\<open>Stop\<close> closes the channel; the loop may serve one more tick that became ready with it. The loop also ends with
  the context of the command.\<close>

inductive retention_step :: "aead_seal \<Rightarrow> retention \<Rightarrow> retention \<Rightarrow> bool" for seal :: aead_seal where
  writes: "rr_clock s \<le> qe_now env \<Longrightarrow>
     retention_step seal s (s\<lparr> rr_db := SQLite_Log seal env e (rr_db s), rr_clock := qe_now env \<rparr>)"
| ticks: "rr_loop s \<Longrightarrow> rr_clock s \<le> now \<Longrightarrow> retention_step seal s (after_tick fails now s)"
| stops: "retention_step seal s (s\<lparr> rr_pruner := Pruner_Stop (rr_pruner s) \<rparr>)"
| ends: "rr_loop s \<Longrightarrow> retention_step seal s (s\<lparr> rr_loop := False \<rparr>)"

inductive_cases retention_stepE:
  "retention_step seal s s'"

lemma after_tick_simps [simp]:
  "rr_pruner (after_tick fails now s) = rr_pruner s" "rr_loop (after_tick fails now s) = rr_loop s"
  "rr_clock (after_tick fails now s) = now"
  by (simp_all add: after_tick_def)

lemma pruned_rows:
  "row \<in> set (sl_rows (rr_db (after_tick fails now s))) \<longleftrightarrow> row \<in> set (sl_rows (rr_db s)) \<and>
     (0 < pr_retention (rr_pruner s) \<and> \<not> fails \<longrightarrow> now - pr_retention (rr_pruner s) \<le> al_Timestamp (snd row))"
  by (cases row) (auto simp: after_tick_def PruneOnce_def Let_def)

lemma logged_rows: "row \<in> set (sl_rows l) \<Longrightarrow> row \<in> set (sl_rows (SQLite_Log seal env e l))"
  by (simp add: SQLite_Log_def Let_def)

lemma step_keeps:
  assumes "retention_step seal s s'"
  shows "pr_retention (rr_pruner s') = pr_retention (rr_pruner s)" "rr_clock s \<le> rr_clock s'"
    "row \<in> set (sl_rows (rr_db s)) \<Longrightarrow> rr_clock s' - pr_retention (rr_pruner s) \<le> al_Timestamp (snd row) \<Longrightarrow>
       row \<in> set (sl_rows (rr_db s'))"
  using assms by (auto elim!: retention_stepE simp: Pruner_Stop_def pruned_rows intro: logged_rows)

lemma run_keeps:
  assumes "(retention_step seal)\<^sup>*\<^sup>* s s'"
  shows "pr_retention (rr_pruner s') = pr_retention (rr_pruner s) \<and> rr_clock s \<le> rr_clock s' \<and>
    (\<forall>row. row \<in> set (sl_rows (rr_db s)) \<and> rr_clock s' - pr_retention (rr_pruner s) \<le> al_Timestamp (snd row) \<longrightarrow>
       row \<in> set (sl_rows (rr_db s')))"
  using assms
proof (induction rule: rtranclp_induct)
  case (step s1 s2)
  note k = step_keeps [OF step.hyps(2)]
  have "row \<in> set (sl_rows (rr_db s2))"
    if "row \<in> set (sl_rows (rr_db s))" "rr_clock s2 - pr_retention (rr_pruner s) \<le> al_Timestamp (snd row)" for row
    using step.IH that k(2) by (intro k(3)) (cases row; auto)+
  with step.IH k(1,2) show ?case by auto
qed simp

lemma retention_days:
  assumes "audit_pruner se = Some p"
  shows "pr_retention p = i64 (se_retentionDays se * (24 * hour))" "0 < se_retentionDays se" "\<not> pr_stopped p"
proof -
  have "i64 (i64 (d * 24) * hour) = i64 (d * (24 * hour))" for d
    by (rule i64_cong) (metis i64_mod mod_mult_left_eq mult.assoc)
  with assms show "pr_retention p = i64 (se_retentionDays se * (24 * hour))" "0 < se_retentionDays se" "\<not> pr_stopped p"
    by (auto simp: audit_pruner_def NewPruner_def split: if_splits)
qed


text \<open>More days are not kept longer. From 106752 to 213503 days the product overflows to a negative duration and the
  pruner never starts; with 213504 days it wraps to 25 minutes and 26 seconds, and the first tick deletes every row
  older than that.\<close>

theorem retention_wraps:
  assumes "audit_pruner se = Some p"
  shows "(106752 \<le> se_retentionDays se \<and> se_retentionDays se \<le> 213503 \<longrightarrow> \<not> Pruner_Start p) \<and>
    (se_retentionDays se = 213504 \<longrightarrow> pr_retention p = 1526290448384 \<and> Pruner_Start p \<and>
       (\<forall>db t now. \<forall>row \<in> set (sl_rows (rr_db (after_tick False now (start_pruner p db t)))).
          now - 1526290448384 \<le> al_Timestamp (snd row)))"
proof -
  have "i64 (d * (24 * hour)) = d * (24 * hour) - 2 ^ 64" if "106752 \<le> d" "d \<le> 213503" for d
  proof -
    have "i64 (d * (24 * hour)) = i64 (d * (24 * hour) - 2 ^ 64)" by (rule i64_cong) (simp add: minus_mod_self2)
    also have "\<dots> = d * (24 * hour) - 2 ^ 64" using that by (intro i64_id) (simp add: is_i64_def)
    finally show ?thesis .
  qed
  moreover have "i64 (213504 * (24 * hour)) = 1526290448384" by (simp add: i64_def)
  ultimately show ?thesis
    using retention_days(1) [OF assms] by (auto simp: Pruner_Start_def pruned_rows start_pruner_def)
qed

subsection \<open>Examples\<close>

definition kept_settings :: "int \<Rightarrow> settings" where
  "kept_settings days = toy_settings\<lparr> se_auditDB := ''audit.db'', se_retentionDays := days \<rparr>"

definition kept_pruner :: "int \<Rightarrow> Pruner" where
  "kept_pruner days = NewPruner (i64 (i64 (days * 24) * hour)) hour"

lemma kept_pruner: "0 < days \<Longrightarrow> audit_pruner (kept_settings days) = Some (kept_pruner days)"
  by (simp add: audit_pruner_def kept_settings_def kept_pruner_def)

definition two_rows :: SQLiteLogger where
  "two_rows = \<lparr> sl_rows = [(''1'', request_entry (1 * hour) ''u'' ''m'' [] [] [] [] [] 0), (''2'', request_entry (48 * hour) ''u'' ''m'' [] [] [] [] [] 0)],
     sl_key = [] \<rparr>"

definition pruned :: retention where
  "pruned = after_tick False (50 * hour) (start_pruner (kept_pruner 1) two_rows (49 * hour))"


theorem retention_wraps_witness:
  "pr_retention (kept_pruner 213504) = 1526290448384"
proof -
  have "audit_pruner (kept_settings 213504) = Some (kept_pruner 213504)" by (rule kept_pruner) simp
  from retention_wraps [OF this] show ?thesis by (simp add: kept_settings_def)
qed

end
