(* ===== verification/Spec2Isabelle.thy ===== *)
theory Spec2Isabelle
  imports Router RateLimiter Access Quota Admission Archive Gateway Policy Engine Assembly Catalogue Downloader
    KeyAdmin AuditMigration TransportSecurity UserConfig Installer Prompt ModelCommands DeployCommands CpuServer TestClient ServiceCommands Serving CommandTree
    Retention
begin

text \<open>
  SovereignStack runs language models on a host of one's own: a command line deploys models as Docker
  containers, and a gateway in front of them authenticates, limits, routes and records every request. This
  library models the Go program under \<open>src/\<close> and proves what makes it correct. It also states, as theorems
  over the same definitions, where the program does not do what it means to.

  \<^bold>\<open>The program.\<close> A request to the gateway (\<open>core/gateway/proxy.go\<close>) passes the gates in the order of
  \<open>ServeHTTP\<close>: authentication against the key store, the source allowlist, the access list, the token quota, the rate
  limit, the admission controller and the model's route. Then the director rewrites it for the backend the router
  knows, and the response is counted, charged and audited. The router learns its backends from the discovery
  service, which reads the Docker listing. The admission controller polls the backends' Prometheus pages. The policy service
  administers the key store that the gateway reads. The engine room plans and starts containers through
  the Docker orchestrators, on models that the downloader put into the model cache. The commands of the CLI assemble
  and drive these parts.

  \<^bold>\<open>Layers.\<close>

  \<^item> Go and its library: \<open>Prelude\<close> (types, 64-bit wrap-around, truncating division, lists and
  maps), \<open>GoStrings\<close> (strings, strconv, fmt), \<open>GoPath\<close>, \<open>GoTime\<close> (the civil calendar in UTC), \<open>GoHttp\<close> and \<open>GoForm\<close>
  (headers, queries, JSON bodies), \<open>Float64\<close> (IEEE doubles as rounded rationals with infinities and NaN),
  \<open>IPAddr\<close>, \<open>Base64\<close>.
  \<^item> Gateway: \<open>Router\<close>, \<open>RateLimiter\<close>, \<open>Access\<close>, \<open>Quota\<close>, \<open>Admission\<close>, \<open>Metrics\<close>, \<open>Gateway\<close> (the handler), for
  \<open>core/gateway\<close>, \<open>core/admission\<close> and \<open>core/keys/ipallowlist.go\<close>.
  \<^item> Keys and audit: \<open>KeyHash\<close>, \<open>FieldCrypto\<close>, \<open>KeyStore\<close> for \<open>core/keys\<close> and \<open>core/crypto\<close>; \<open>AuditTrail\<close> (the
  three sinks and the fan-out), \<open>Archive\<close> (rotation and compression as a step relation) and \<open>Retention\<close> (the pruner beside
  the writers) for \<open>core/audit\<close>.
  \<^item> Services: \<open>Policy\<close> (\<open>core/management/policy\<close>), \<open>Services\<close> (health, discovery, metrics proxy), \<open>Configuration\<close>
  (\<open>core/config\<close>), \<open>TransportSecurity\<close> (\<open>core/tls\<close>), \<open>ServiceCommands\<close> (\<open>cmd/policy.go\<close>, logging, tracing,
  version), \<open>Assembly\<close> (\<open>cmd/gateway.go\<close>, from the settings to the answer of one request) and \<open>Serving\<close> (the same
  process over time: requests in flight beside the discovery loop, the poller and the shutdown).
  \<^item> Models: \<open>Quantize\<close>, \<open>Hardware\<close>, \<open>ModelStore\<close>, \<open>Catalogue\<close>, \<open>Downloader\<close>, \<open>Docker\<close>, \<open>Engine\<close> for \<open>core/model\<close>,
  \<open>core/engine\<close> and \<open>internal\<close>, and \<open>CpuServer\<close> for the Python server that \<open>internal/docker/cpu_inference.go\<close> writes
  into its image.
  \<^item> Commands: \<open>KeyAdmin\<close> (\<open>cmd/keys.go\<close>), \<open>AuditMigration\<close> (\<open>cmd/migrate.go\<close>), \<open>UserConfig\<close> (\<open>internal/config\<close>,
  \<open>cmd/config.go\<close>), \<open>Installer\<close> (\<open>internal/installer\<close>, \<open>cmd/init.go\<close>), \<open>Prompt\<close>, \<open>ModelCommands\<close> (pull, remove,
  status, verify, models), \<open>DeployCommands\<close> (deploy, stop, logs), \<open>TestClient\<close> (test, gateway test) and \<open>CommandTree\<close>
  (every command as declared, and the flags its handler reads).

  \<^bold>\<open>State and effects.\<close> A struct is a record with the field names of the source behind a prefix, and an operation keeps the
  name of its function where Isabelle allows it. State is passed explicitly: the maps of a component are
  fields of its record, files are a map from paths to contents (\<open>disk\<close>) or a tree with directories
  (\<open>tree\<close>), and a handler returns the response beside the new state. Mutexes disappear, because each locked
  section is one step. Where goroutines interleave (discovery, the poller, compression of the archive, the health check
  of a deployment), the steps are the constructors of an inductive relation or an explicit sequence of operations. The
  relation \<open>serving_step\<close> composes them for the gateway: a request is cut where its handler waits, at the hand-over to
  the reverse proxy and at the backend's answer, and anything may happen in between; clock readings are monotone.
  Errors are values: each component has a datatype of the errors it reports, and system calls that can fail have a
  flag, so that a crash between two of them is a state one can name.

  \<^bold>\<open>What the lemmas show.\<close>

  \<^item> Requests: only admitted requests are forwarded, every outcome is recorded in the audit trail
  and the metrics, each refusal has its status, and the whole gateway decides by the profile in the key store. The
  gaps are theorems too: when the gateway serves without a key, when admission sees nothing, when a header
  sets the source address.
  \<^item> Runs: what the process keeps in every interleaving is proved by invariants, each an interpretation of the locale
  \<open>serving_invariant\<close> (theory \<open>Serving\<close>): the accounting, the rate of each user, the lawfulness of the audit trail, and
  the soundness of routing table and thresholds. Shutdown always completes and abandons what is in flight, a refresh
  at the wrong moment sends an admitted request elsewhere, and requests in flight share what is left of a quota.
  \<^item> Numbers: the token bucket and the memory estimates hold for the rounded double arithmetic of the code;
  the quota windows agree with a reference that sums the recorded usage of the window, for all three backends. The
  shared laws are the locales \<open>window\<close> and its three extensions (theory \<open>Quota\<close>), interpreted for days, months, SQLite
  keys and Redis keys; \<open>audit_sink\<close> is the contract of the audit sinks, interpreted for all three; \<open>setting\<close>
  (theory \<open>UserConfig\<close>) is the contract of the three setters of the user's settings, interpreted for each; \<open>resolving\<close>
  (theory \<open>Services\<close>) is what the metrics proxy needs of a port resolver, interpreted for docker and the static table.
  \<^item> Stores: a crash at any point of a save leaves the old key file or the new one; encryption, hashing and
  reloading are round trips. The pruner removes what is older than the configured days and nothing else, unless the
  days overflow. The administrative API and the key commands refine one change of the table of users.
  \<^item> Models: an interrupted download is completed by the retry, restarts restore what was running, and each stage of the
  catalogue falls back as documented.
  \<^item> Commands: settings stored are read back, migrations can be repeated, provisioning needs two passes, the selection
  dialogue returns exactly when a line selects an item, and a test reads back the text that the CPU server generated,
  over the capability it advertises. The tree of commands fits the handlers, and the help of the gateway shows the
  defaults it uses.

  \<^bold>\<open>Loops and fuel.\<close> No definition runs on fuel. Loops over data are structural recursion. The splitting of strings and
  the decimal printing recurse on a measure with a termination proof. The dialogues, which the source never leaves at
  the end of the input, are \<open>partial_function (option)\<close>, where None is the run that does not end. Retries and
  free-port searches recurse over the bounded range of the source.

  \<^bold>\<open>Parameters.\<close> Code outside \<open>src/\<close> is an argument: argon2id and HMAC, AES-GCM and PBKDF2, gzip, X.509, the JSON and
  YAML codecs, the reverse proxy, the OAuth exchange, the Hugging Face hub, the transformers library, random bytes, clock
  readings and the Docker command line. Theorems that need a law of one (a codec that decodes what it encoded, a
  cipher that opens what it sealed) state it as a premise, and a witness instantiates it; the getters of the flag library are such an argument. SQLite, Redis and MySQL are the documented effect
  of the statements the source issues.

  \<^bold>\<open>Not modelled.\<close> The text printed by commands (the values it shows are results), progress output and the log lines of
  slog, the parsing of command lines by the cobra library, sockets and the delivery of signals, timeouts of
  HTTP clients, the export of traces, schema creation, ticker loops as such (their steps are), \<open>ComputeChecksum\<close>,
  \<open>GenerateKey\<close> and the fixed display tables of \<open>ListModels\<close> and \<open>GetModelInfo\<close>. File permissions and symbolic links are
  not part of \<open>disk\<close> and \<open>tree\<close>. The records of model downloads in the activity log are not threaded through the
  commands that write them; theory \<open>UserConfig\<close> models the log itself.
\<close>

end
